(* ===== verification/Reverto_Prelude.thy ===== *)
theory Reverto_Prelude
  imports Complex_Main "HOL-Library.AList"
begin

text \<open>
  Shared vocabulary of the development.

  \<^item> Python floats are modelled as exact reals: rounding of single arithmetic operations, NaN and
    the infinities are outside the model, every call of the builtin \<open>round\<close> is inside it
    (\<open>py_round\<close>, ties to even).  A division whose divisor may be zero is \<open>py_div\<close>, which yields
    the exception instead of HOL's default value.
  \<^item> A Python \<open>dict\<close> keeps its insertion order, so it is an association list: \<open>AList.update\<close>
    replaces in place or appends, \<open>AList.delete\<close> pops, \<open>map_of\<close> looks up.
  \<^item> An exception is a value of \<open>py_error\<close>; a function that may raise returns \<open>'a res\<close>.  A
    statement that mutates state and may raise half way is a \<open>('s, 'a) prog\<close>: the mutations made
    before the exception stay, as they do in the source.
\<close>

section \<open>Lemma collections\<close>

named_theorems prog_defs \<open>definitions of the state-exception combinators\<close>
named_theorems wf_intros \<open>preservation of the well-formedness invariants\<close>
named_theorems frame_simps \<open>fields an operation leaves unchanged\<close>

section \<open>Exceptions\<close>

datatype py_error =
    ValueError | ZeroDivisionError | IndexError | KeyError | TypeError
  | IntegrityError | NotImplementedError | CircuitOpenError | ExternalError "string list"

type_synonym 'a res = "py_error + 'a"

definition res_bind :: "'a res \<Rightarrow> ('a \<Rightarrow> 'b res) \<Rightarrow> 'b res" where
  "res_bind r f = (case r of Inl e \<Rightarrow> Inl e | Inr v \<Rightarrow> f v)"

lemma res_bind_simps [simp]:
  "res_bind (Inl e) f = Inl e"
  "res_bind (Inr v) f = f v"
  by (simp_all add: res_bind_def)

lemma res_bind_eq_Inr_iff:
  "res_bind r f = Inr w \<longleftrightarrow> (\<exists>v. r = Inr v \<and> f v = Inr w)"
  by (cases r) auto

lemma res_bind_split:
  "P (res_bind r f) \<longleftrightarrow> (\<forall>e. r = Inl e \<longrightarrow> P (Inl e)) \<and> (\<forall>v. r = Inr v \<longrightarrow> P (f v))"
  by (cases r) auto

definition py_div :: "real \<Rightarrow> real \<Rightarrow> real res" where
  "py_div a b = (if b = 0 then Inl ZeroDivisionError else Inr (a / b))"

lemma py_div_nonzero [simp]: "b \<noteq> 0 \<Longrightarrow> py_div a b = Inr (a / b)"
  by (simp add: py_div_def)

lemma py_div_zero [simp]: "py_div a 0 = Inl ZeroDivisionError"
  by (simp add: py_div_def)

section \<open>State with exceptions\<close>

type_synonym ('s, 'a) prog = "'s \<Rightarrow> 'a res \<times> 's"

definition pret :: "'a \<Rightarrow> ('s, 'a) prog" where
  "pret v = (\<lambda>s. (Inr v, s))"

definition praise :: "py_error \<Rightarrow> ('s, 'a) prog" where
  "praise e = (\<lambda>s. (Inl e, s))"

definition plift :: "'a res \<Rightarrow> ('s, 'a) prog" where
  "plift r = (\<lambda>s. (r, s))"

definition pmod :: "('s \<Rightarrow> 's) \<Rightarrow> ('s, unit) prog" where
  "pmod f = (\<lambda>s. (Inr (), f s))"

definition pget :: "('s \<Rightarrow> 'a) \<Rightarrow> ('s, 'a) prog" where
  "pget f = (\<lambda>s. (Inr (f s), s))"

definition pbind :: "('s, 'a) prog \<Rightarrow> ('a \<Rightarrow> ('s, 'b) prog) \<Rightarrow> ('s, 'b) prog" where
  "pbind m f = (\<lambda>s. case m s of (Inl e, s') \<Rightarrow> (Inl e, s') | (Inr v, s') \<Rightarrow> f v s')"

definition pseq :: "('s, 'a) prog \<Rightarrow> ('s, 'b) prog \<Rightarrow> ('s, 'b) prog" where
  "pseq m n = pbind m (\<lambda>_. n)"

lemma prog_simps [simp]:
  "pret v s = (Inr v, s)"
  "praise e s = (Inl e, s)"
  "plift r s = (r, s)"
  "pmod f s = (Inr (), f s)"
  "pget g s = (Inr (g s), s)"
  by (simp_all add: pret_def praise_def plift_def pmod_def pget_def)

lemma pbind_apply:
  "pbind m f s = (case m s of (Inl e, s') \<Rightarrow> (Inl e, s') | (Inr v, s') \<Rightarrow> f v s')"
  by (simp add: pbind_def)

lemma pbind_simps [simp]:
  "m s = (Inl e, s') \<Longrightarrow> pbind m f s = (Inl e, s')"
  "m s = (Inr v, s') \<Longrightarrow> pbind m f s = f v s'"
  by (simp_all add: pbind_def)

lemma plift_bind: "pbind (plift r) f e = (case r of Inl x \<Rightarrow> (Inl x, e) | Inr v \<Rightarrow> f v e)"
  by (simp add: pbind_apply split: sum.split)

lemmas [prog_defs] = pbind_apply pseq_def

text \<open>A predicate every statement keeps is kept by the sequence, whether or not it raises.\<close>

lemma pbind_invariant:
  assumes "I s" "\<And>r s'. m s = (r, s') \<Longrightarrow> I s'"
    and "\<And>v s'. m s = (Inr v, s') \<Longrightarrow> I (snd (f v s'))"
  shows "I (snd (pbind m f s))"
  using assms by (cases "m s"; cases "fst (m s)") (auto simp: pbind_def)

text \<open>\<open>try: ... except Exception\<close> with a handler that only logs.\<close>

definition ptry :: "('s, 'a) prog \<Rightarrow> ('s, 'a option) prog" where
  "ptry m = (\<lambda>s. case m s of (Inl _, s') \<Rightarrow> (Inr None, s') | (Inr v, s') \<Rightarrow> (Inr (Some v), s'))"

definition pskip :: "('s, unit) prog" where
  "pskip = pret ()"

lemma pskip_apply [simp]: "pskip s = (Inr (), s)"
  by (simp add: pskip_def)

lemma ptry_apply: "ptry m s = (case m s of (Inl _, s') \<Rightarrow> (Inr None, s') | (Inr v, s') \<Rightarrow> (Inr (Some v), s'))"
  by (simp add: ptry_def)

lemma snd_ptry [simp]: "snd (ptry m s) = snd (m s)"
  by (auto simp: ptry_def split: prod.split sum.split)

lemma ptry_total [simp]: "\<exists>v. fst (ptry m s) = Inr v"
  by (auto simp: ptry_def split: prod.split sum.split)

section \<open>The builtin round\<close>

definition round_half_even :: "real \<Rightarrow> int" where
  "round_half_even y =
     (let f = \<lfloor>y\<rfloor>; d = y - of_int f in
      if d < 1/2 then f
      else if d > 1/2 then f + 1
      else if even f then f else f + 1)"

definition py_round :: "real \<Rightarrow> nat \<Rightarrow> real" where
  "py_round x n = of_int (round_half_even (x * 10 ^ n)) / 10 ^ n"

lemma round_half_even_error: "\<bar>of_int (round_half_even y) - y\<bar> \<le> 1/2"
proof -
  have "of_int \<lfloor>y\<rfloor> \<le> y" "y < of_int \<lfloor>y\<rfloor> + 1" by simp_all
  then show ?thesis unfolding round_half_even_def Let_def by auto
qed

lemma round_half_even_of_int [simp]: "round_half_even (of_int k) = k"
  by (simp add: round_half_even_def)

lemma round_half_even_nonneg: "0 \<le> y \<Longrightarrow> 0 \<le> round_half_even y"
  by (simp add: round_half_even_def Let_def)

lemma py_round_error: "\<bar>py_round x n - x\<bar> \<le> 1 / (2 * 10 ^ n)"
proof -
  have "py_round x n - x = (of_int (round_half_even (x * 10 ^ n)) - x * 10 ^ n) / 10 ^ n"
    by (simp add: py_round_def diff_divide_distrib)
  then have "\<bar>py_round x n - x\<bar> = \<bar>of_int (round_half_even (x * 10 ^ n)) - x * 10 ^ n\<bar> / 10 ^ n"
    by (simp add: abs_divide)
  also have "\<dots> \<le> (1/2) / 10 ^ n"
    by (intro divide_right_mono round_half_even_error) simp
  finally show ?thesis by simp
qed

lemma py_round_int [simp]: "py_round (of_int k) n = of_int k"
proof -
  have "of_int k * 10 ^ n = (of_int (k * 10 ^ n) :: real)" by simp
  then have "round_half_even (of_int k * 10 ^ n) = k * 10 ^ n"
    by (metis round_half_even_of_int)
  then show ?thesis by (simp add: py_round_def)
qed

lemma py_round_0 [simp]: "py_round 0 n = 0"
  using py_round_int [of 0 n] by simp

lemma py_round_nonneg: "0 \<le> x \<Longrightarrow> 0 \<le> py_round x n"
  by (simp add: py_round_def round_half_even_nonneg)

lemma round_half_even_mono: "x \<le> y \<Longrightarrow> round_half_even x \<le> round_half_even y"
proof -
  assume le: "x \<le> y"
  have f: "\<lfloor>x\<rfloor> \<le> \<lfloor>y\<rfloor>" using le by (rule floor_mono)
  show ?thesis
  proof (cases "\<lfloor>x\<rfloor> = \<lfloor>y\<rfloor>")
    case True
    then show ?thesis using le by (auto simp: round_half_even_def Let_def)
  next
    case False
    with f have "\<lfloor>x\<rfloor> + 1 \<le> \<lfloor>y\<rfloor>" by simp
    moreover have "round_half_even x \<le> \<lfloor>x\<rfloor> + 1" "\<lfloor>y\<rfloor> \<le> round_half_even y"
      by (auto simp: round_half_even_def Let_def)
    ultimately show ?thesis by linarith
  qed
qed

lemma py_round_mono: "x \<le> y \<Longrightarrow> py_round x n \<le> py_round y n"
  by (simp add: py_round_def round_half_even_mono divide_right_mono mult_right_mono)

lemma py_round_idem [simp]: "py_round (py_round x n) n = py_round x n"
  by (simp add: py_round_def)

section \<open>Lists and association lists\<close>

text \<open>\<open>xs[-1]\<close>, which raises on an empty list.\<close>

definition py_last :: "'a list \<Rightarrow> 'a res" where
  "py_last xs = (if xs = [] then Inl IndexError else Inr (last xs))"

lemma py_last_simps [simp]:
  "py_last [] = Inl IndexError"
  "xs \<noteq> [] \<Longrightarrow> py_last xs = Inr (last xs)"
  by (simp_all add: py_last_def)

abbreviation keys :: "('k \<times> 'v) list \<Rightarrow> 'k list" where
  "keys d \<equiv> map fst d"

abbreviation vals :: "('k \<times> 'v) list \<Rightarrow> 'v list" where
  "vals d \<equiv> map snd d"

lemma distinct_keys_update [simp]: "distinct (keys d) \<Longrightarrow> distinct (keys (AList.update k v d))"
  by (rule distinct_update)

lemma distinct_keys_delete [simp]: "distinct (keys d) \<Longrightarrow> distinct (keys (AList.delete k d))"
  by (rule distinct_delete)

lemma set_update_subset: "set (AList.update k v d) \<subseteq> insert (k, v) (set d)"
  by (induction d) auto

lemma set_update_distinct:
  "distinct (keys d) \<Longrightarrow> set (AList.update k v d) = insert (k, v) {p \<in> set d. fst p \<noteq> k}"
  by (induction d) (auto simp: image_iff)

lemma vals_update_mem:
  "distinct (keys d) \<Longrightarrow> x \<in> set (vals (AList.update k v d)) \<Longrightarrow> x = v \<or> x \<in> set (vals d)"
  by (auto simp: set_update_distinct)

lemma set_delete_eq: "set (AList.delete k d) = {p \<in> set d. fst p \<noteq> k}"
  by (induction d) auto

lemma delete_fresh: "k \<notin> set (keys d) \<Longrightarrow> AList.delete k d = d"
  by (induction d) auto

lemma length_update_alist:
  "length (AList.update k v d) = (if k \<in> set (keys d) then length d else Suc (length d))"
  by (induction d) auto

lemma length_delete_mem:
  "distinct (keys d) \<Longrightarrow> k \<in> set (keys d) \<Longrightarrow> Suc (length (AList.delete k d)) = length d"
  by (induction d) (auto simp: delete_fresh)

lemma length_delete_alist: "length (AList.delete k d) \<le> length d"
  by (induction d) auto

lemma map_of_mem_keys: "map_of d k = Some v \<Longrightarrow> k \<in> set (keys d)"
  by (force dest: map_of_SomeD)

lemma sum_list_filter_partition:
  fixes f :: "'a \<Rightarrow> real"
  shows "sum_list (map f xs) = sum_list (map f (filter P xs)) + sum_list (map f (filter (\<lambda>x. \<not> P x) xs))"
  by (induction xs) auto

text \<open>\<open>xs[a:b]\<close> for bounds that are not negative.\<close>

definition slice :: "nat \<Rightarrow> nat \<Rightarrow> 'a list \<Rightarrow> 'a list" where
  "slice a b xs = take (b - a) (drop a xs)"

text \<open>A loop that keeps the state after every element.\<close>

fun scan :: "('a \<Rightarrow> 's \<Rightarrow> 's) \<Rightarrow> 'a list \<Rightarrow> 's \<Rightarrow> 's list" where
  "scan f [] s = []"
| "scan f (x # xs) s = f x s # scan f xs (f x s)"

lemma length_scan [simp]: "length (scan f xs s) = length xs"
  by (induction xs arbitrary: s) auto

lemma scan_append: "scan f (xs @ ys) s = scan f xs s @ scan f ys (fold f xs s)"
  by (induction xs arbitrary: s) auto

lemma scan_snoc: "scan f (xs @ [x]) s = scan f xs s @ [f x (fold f xs s)]"
  by (simp add: scan_append)

lemma scan_eq_Nil [simp]: "scan f xs s = [] \<longleftrightarrow> xs = []"
  by (cases xs) auto

lemma last_scan: "xs \<noteq> [] \<Longrightarrow> last (scan f xs s) = fold f xs s"
  by (induction xs arbitrary: s) auto

lemma nth_scan: "i < length xs \<Longrightarrow> scan f xs s ! i = fold f (take (Suc i) xs) s"
  by (induction xs arbitrary: i s) (auto simp: nth_Cons split: nat.split)

lemma nth_Cons_scan: "j \<le> length xs \<Longrightarrow> (s # scan f xs s) ! j = fold f (take j xs) s"
  by (cases j) (simp_all add: nth_scan)

lemma scan_at:
  assumes "0 < k" "k \<le> length xs"
  shows "(s # scan f xs s) ! k = f (xs ! (k - 1)) ((s # scan f xs s) ! (k - 1))"
proof -
  obtain j where "k = Suc j" using assms(1) by (cases k) auto
  then show ?thesis using assms(2) by (simp only: nth_Cons_scan take_Suc_conv_app_nth) simp
qed

lemma scan_cong: "(\<And>x s. x \<in> set xs \<Longrightarrow> f x s = g x s) \<Longrightarrow> scan f xs s = scan g xs s"
  by (induction xs arbitrary: s) auto

lemma scan_invariant:
  "P s \<Longrightarrow> (\<And>x t. x \<in> set xs \<Longrightarrow> P t \<Longrightarrow> P (f x t)) \<Longrightarrow> t \<in> set (scan f xs s) \<Longrightarrow> P t"
  by (induction xs arbitrary: s) auto

lemma fold_invariant_step:
  "P s \<Longrightarrow> (\<And>x t. x \<in> set xs \<Longrightarrow> P t \<Longrightarrow> P (f x t)) \<Longrightarrow> P (fold f xs s)"
  by (induction xs arbitrary: s) auto

lemma slice_append: "b \<le> length xs \<Longrightarrow> slice a b (xs @ ys) = slice a b xs"
  by (simp add: slice_def)

lemma slice_nonempty: "a < b \<Longrightarrow> b \<le> length xs \<Longrightarrow> slice a b xs \<noteq> []"
  by (simp add: slice_def)

lemma set_slice: "b \<le> length xs \<Longrightarrow> set (slice a b xs) = (\<lambda>i. xs ! i) ` {a..<b}"
proof -
  assume b: "b \<le> length xs"
  have "slice a b xs = map (\<lambda>i. xs ! i) [a..<b]"
    using b by (intro nth_equalityI) (auto simp: slice_def)
  then show ?thesis by simp
qed

text \<open>A comprehension whose elements may raise: the first exception wins.\<close>

fun all_ok :: "'a res list \<Rightarrow> 'a list res" where
  "all_ok [] = Inr []"
| "all_ok (r # rs) = res_bind r (\<lambda>x. res_bind (all_ok rs) (\<lambda>xs. Inr (x # xs)))"

lemma all_ok_Inr: "all_ok rs = Inr xs \<longleftrightarrow> rs = map Inr xs"
proof (induction rs arbitrary: xs)
  case (Cons r rs)
  show ?case
    by (cases r; cases xs) (auto simp: res_bind_eq_Inr_iff Cons.IH split: sum.splits)
qed auto

lemma all_ok_append: "all_ok (rs @ qs) = Inr xs \<Longrightarrow> \<exists>ys zs. all_ok rs = Inr ys \<and> all_ok qs = Inr zs \<and> xs = ys @ zs"
  by (auto simp: all_ok_Inr map_eq_append_conv dest!: sym [of "_ @ _"])

section \<open>Two interfaces several components share\<close>

text \<open>
  A latch: a state that, once a step has set it, no further step of the interface clears.  The
  drawdown guard, the permanent arm of the circuit breaker and the drawdown pause of the engine
  all promise this; what a whole run of steps promises follows once, here.
\<close>

locale latch =
  fixes step :: "'e \<Rightarrow> 's \<Rightarrow> 's"
    and latched :: "'s \<Rightarrow> bool"
  assumes step_keeps: "latched s \<Longrightarrow> latched (step e s)"
begin

lemma run_keeps: "latched s \<Longrightarrow> latched (fold step es s)"
  by (induction es arbitrary: s) (auto intro: step_keeps)

lemma run_prefix: "latched (fold step es s) \<Longrightarrow> latched (fold step (es @ fs) s)"
  by (simp add: run_keeps)

end

text \<open>
  A tenant-scoped store: an operation done for one user leaves every other user's rows alone, so
  a whole sequence of operations by other users does.
\<close>

locale tenant_store =
  fixes op :: "'u \<Rightarrow> 'a \<Rightarrow> 'db \<Rightarrow> 'db"
    and rows_of :: "'u \<Rightarrow> 'db \<Rightarrow> 'r"
  assumes op_isolated: "u \<noteq> v \<Longrightarrow> rows_of v (op u a db) = rows_of v db"
begin

lemma run_isolated:
  "\<forall>(u, a) \<in> set ops. u \<noteq> v \<Longrightarrow> rows_of v (fold (\<lambda>(u, a). op u a) ops db) = rows_of v db"
  by (induction ops arbitrary: db) (auto simp: op_isolated)

end

section \<open>Predicates a statement keeps\<close>

definition keeps :: "('s \<Rightarrow> bool) \<Rightarrow> ('s, 'a) prog \<Rightarrow> bool" where
  "keeps P m = (\<forall>s. P s \<longrightarrow> P (snd (m s)))"

lemma keeps_bind: "keeps P m \<Longrightarrow> (\<And>v. keeps P (f v)) \<Longrightarrow> keeps P (pbind m f)"
  unfolding keeps_def pbind_def by (force split: prod.split sum.split)

lemma keeps_seq: "keeps P m \<Longrightarrow> keeps P n \<Longrightarrow> keeps P (pseq m n)"
  unfolding pseq_def by (rule keeps_bind)

lemma keeps_basic [simp]: "keeps P pskip" "keeps P (pret v)" "keeps P (plift r)" "keeps P (pget g)"
  by (simp_all add: keeps_def pskip_def pret_def plift_def pget_def)

lemma keeps_mod: "(\<And>s. P s \<Longrightarrow> P (f s)) \<Longrightarrow> keeps P (pmod f)"
  by (simp add: keeps_def)

lemma keeps_caught: "keeps P m \<Longrightarrow> keeps P (ptry m)"
  by (simp add: keeps_def)

lemma keeps_D: "keeps P m \<Longrightarrow> P s \<Longrightarrow> P (snd (m s))"
  by (simp add: keeps_def)

text \<open>A statement that, where \<open>P\<close> holds, does not raise and keeps \<open>P\<close>.\<close>

definition succeeds :: "('s \<Rightarrow> bool) \<Rightarrow> ('s, 'a) prog \<Rightarrow> bool" where
  "succeeds P m = (\<forall>s. P s \<longrightarrow> (\<exists>v s'. m s = (Inr v, s') \<and> P s'))"

lemma succeeds_bind: "succeeds P m \<Longrightarrow> (\<And>v. succeeds P (f v)) \<Longrightarrow> succeeds P (pbind m f)"
  unfolding succeeds_def by (metis pbind_simps(2))

lemma succeeds_seq: "succeeds P m \<Longrightarrow> succeeds P n \<Longrightarrow> succeeds P (pseq m n)"
  unfolding pseq_def by (rule succeeds_bind)

lemma succeeds_basic [simp]: "succeeds P pskip" "succeeds P (pret v)" "succeeds P (pget g)"
  by (simp_all add: succeeds_def)

lemma succeeds_mod: "(\<And>s. P s \<Longrightarrow> P (f s)) \<Longrightarrow> succeeds P (pmod f)"
  by (simp add: succeeds_def)

lemma succeeds_D: "succeeds P m \<Longrightarrow> P s \<Longrightarrow> \<exists>v. fst (m s) = Inr v" "succeeds P m \<Longrightarrow> P s \<Longrightarrow> P (snd (m s))"
  unfolding succeeds_def by (metis fst_conv snd_conv)+

section \<open>Invariants of step relations\<close>

text \<open>What each step keeps, every run keeps.\<close>

locale step_invariant =
  fixes step :: "'v \<Rightarrow> 'v \<Rightarrow> bool" and inv :: "'v \<Rightarrow> bool"
  assumes step_keeps: "step v v' \<Longrightarrow> inv v \<Longrightarrow> inv v'"
begin

lemma run_keeps: "step\<^sup>*\<^sup>* v v' \<Longrightarrow> inv v \<Longrightarrow> inv v'"
  by (induction rule: rtranclp_induct) (auto intro: step_keeps)

end

end
