(* ===== verification/Paper_State.thy ===== *)
theory Paper_State
  imports Reverto_Prelude
begin

text \<open>
  Orders, deals and the in-memory book of one bot (\<open>paper/paper_state.py\<close>).  Times are instants
  given as integers; the lock of \<open>PaperState\<close> makes each method one atomic step, which is what a
  function on the state is.  A deal object is shared between the dict and the callers that hold it,
  so a mutation of a deal is an update of its entry in the dict.
\<close>

section \<open>Data\<close>

record paper_order =
  order_number :: int
  order_price :: real
  order_size :: real
  order_timestamp :: int
  order_type :: string

text \<open>The trigger dicts: the entry trigger of the indicator engine, and the two exit shapes.\<close>

datatype trigger =
    Entry_Trigger int string "string list"
  | Exit_Trigger string
  | Indicator_Exit string "string list"

text \<open>The per-deal override dicts of the portal; a key the dict lacks is \<open>None\<close>.\<close>

record tp_override =
  tpo_enabled :: "bool option"
  tpo_target_pct :: "real option"

record sl_override =
  slo_enabled :: "bool option"
  slo_type :: "string option"
  slo_pct :: "real option"

record paper_deal =
  deal_id :: string
  bot_name :: string
  symbol :: string
  side :: string
  leverage :: int
  orders :: "paper_order list"
  is_open :: bool
  opened_at :: int
  closed_at :: "int option"
  close_price :: "real option"
  close_reason :: "string option"
  pnl_btc :: real
  pnl_pct :: real
  entry_trigger :: "trigger option"
  exit_trigger :: "trigger option"
  peak_price :: real
  tp_ov :: "tp_override option"
  sl_ov :: "sl_override option"
  deal_dca_enabled :: bool
  wick_high_since_open :: real
  wick_low_since_open :: real

section \<open>Derived values of a deal\<close>

definition total_size :: "paper_deal \<Rightarrow> real" where
  "total_size d = sum_list (map order_size (orders d))"

definition total_value :: "paper_deal \<Rightarrow> real" where
  "total_value d = sum_list (map (\<lambda>ord. order_price ord * order_size ord) (orders d))"

definition avg_entry_price :: "paper_deal \<Rightarrow> real res" where
  "avg_entry_price d = (if orders d = [] then Inr 0 else py_div (total_value d) (total_size d))"

definition dca_count :: "paper_deal \<Rightarrow> nat" where
  "dca_count d = length (filter (\<lambda>ord. order_type ord = ''dca'') (orders d))"

definition calculate_pnl :: "paper_deal \<Rightarrow> real \<Rightarrow> (real \<times> real) res" where
  "calculate_pnl d current_price =
     (if orders d = [] \<or> current_price \<le> 0 then Inr (0, 0)
      else res_bind (avg_entry_price d) (\<lambda>avg.
        let size = total_size d; lev = of_int (leverage d) in
        if avg \<le> 0 then Inr (0, 0)
        else
          let pnl = (if side d = ''long'' then size * (current_price - avg) / current_price * lev
                     else size * (avg - current_price) / current_price * lev) in
          res_bind (py_div size lev) (\<lambda>margin.
          res_bind (py_div pnl margin) (\<lambda>q. Inr (pnl, q * 100)))))"

text \<open>\<open>__post_init__\<close>: a tracker that is still 0 is seeded with the average entry price.\<close>

definition post_init :: "paper_deal \<Rightarrow> paper_deal res" where
  "post_init d =
     res_bind (if wick_high_since_open d = 0 \<and> orders d \<noteq> []
               then res_bind (avg_entry_price d) (\<lambda>a. Inr (d\<lparr>wick_high_since_open := a\<rparr>))
               else Inr d) (\<lambda>d1.
     if wick_low_since_open d1 = 0 \<and> orders d1 \<noteq> []
     then res_bind (avg_entry_price d1) (\<lambda>a. Inr (d1\<lparr>wick_low_since_open := a\<rparr>))
     else Inr d1)"

section \<open>The book\<close>

record paper_state =
  balance_btc :: real
  initial_balance_btc :: real
  open_deals :: "(string \<times> paper_deal) list"
  closed_deals :: "paper_deal list"

definition new_paper_state :: "real \<Rightarrow> paper_state" where
  "new_paper_state b =
     \<lparr>balance_btc = b, initial_balance_btc = b, open_deals = [], closed_deals = []\<rparr>"

definition state_open_deal :: "paper_deal \<Rightarrow> paper_state \<Rightarrow> paper_state" where
  "state_open_deal d s = s\<lparr>open_deals := AList.update (deal_id d) d (open_deals s)\<rparr>"

definition mark_closed :: "real \<Rightarrow> string \<Rightarrow> int \<Rightarrow> paper_deal \<Rightarrow> paper_deal" where
  "mark_closed price reason now d =
     d\<lparr>is_open := False, closed_at := Some now, close_price := Some price,
       close_reason := Some reason\<rparr>"

definition state_close_deal ::
  "string \<Rightarrow> real \<Rightarrow> string \<Rightarrow> int \<Rightarrow> (paper_state, paper_deal option) prog" where
  "state_close_deal did price reason now s =
     (case map_of (open_deals s) did of
        None \<Rightarrow> (Inr None, s)
      | Some d \<Rightarrow>
          let popped = s\<lparr>open_deals := AList.delete did (open_deals s)\<rparr>;
              d1 = mark_closed price reason now d in
          (case calculate_pnl d1 price of
             Inl e \<Rightarrow> (Inl e, popped)
           | Inr (b, p) \<Rightarrow>
               let d2 = d1\<lparr>pnl_btc := b, pnl_pct := p\<rparr> in
               (Inr (Some d2),
                popped\<lparr>balance_btc := balance_btc popped + b,
                       closed_deals := closed_deals popped @ [d2]\<rparr>)))"

definition total_pnl_btc :: "paper_state \<Rightarrow> real" where
  "total_pnl_btc s = sum_list (map pnl_btc (closed_deals s))"

definition win_rate :: "paper_deal list \<Rightarrow> real" where
  "win_rate snap =
     (if snap = [] then 0
      else py_round (real (length (filter (\<lambda>d. 0 < pnl_btc d) snap)) / real (length snap) * 100) 2)"

record summary =
  sum_balance :: real
  sum_initial :: real
  sum_total_pnl :: real
  sum_open :: nat
  sum_closed :: nat
  sum_win_rate :: real

definition state_summary :: "paper_state \<Rightarrow> summary" where
  "state_summary s =
     \<lparr>sum_balance = py_round (balance_btc s) 8, sum_initial = initial_balance_btc s,
      sum_total_pnl = total_pnl_btc s, sum_open = length (open_deals s),
      sum_closed = length (closed_deals s), sum_win_rate = win_rate (closed_deals s)\<rparr>"

section \<open>Well-formed deals\<close>

definition valid_side :: "string \<Rightarrow> bool" where
  "valid_side s = (s = ''long'' \<or> s = ''short'')"

definition order_wf :: "paper_order \<Rightarrow> bool" where
  "order_wf ord = (0 < order_price ord \<and> 0 < order_size ord)"

definition deal_wf :: "paper_deal \<Rightarrow> bool" where
  "deal_wf d = (orders d \<noteq> [] \<and> list_all order_wf (orders d) \<and> 1 \<le> leverage d \<and> valid_side (side d))"

lemma sum_list_pos:
  fixes f :: "'a \<Rightarrow> real"
  shows "xs \<noteq> [] \<Longrightarrow> (\<And>x. x \<in> set xs \<Longrightarrow> 0 < f x) \<Longrightarrow> 0 < sum_list (map f xs)"
proof (induction xs)
  case (Cons x xs)
  then show ?case by (cases "xs = []") (auto intro: add_pos_pos)
qed simp

lemma total_size_pos: "deal_wf d \<Longrightarrow> 0 < total_size d"
  by (auto simp: deal_wf_def total_size_def order_wf_def list_all_iff intro!: sum_list_pos)

lemma total_value_pos: "deal_wf d \<Longrightarrow> 0 < total_value d"
  by (auto simp: deal_wf_def total_value_def order_wf_def list_all_iff intro!: sum_list_pos)

text \<open>The average of a well-formed deal as a plain number.\<close>

definition avg_of :: "paper_deal \<Rightarrow> real" where
  "avg_of d = total_value d / total_size d"

lemma avg_entry_price_wf [simp]: "deal_wf d \<Longrightarrow> avg_entry_price d = Inr (avg_of d)"
  using total_size_pos [of d] by (simp add: avg_entry_price_def avg_of_def deal_wf_def)

lemma avg_of_pos: "deal_wf d \<Longrightarrow> 0 < avg_of d"
  by (simp add: avg_of_def total_size_pos total_value_pos)

definition pnl_of :: "paper_deal \<Rightarrow> real \<Rightarrow> real" where
  "pnl_of d c =
     total_size d * (if side d = ''long'' then c - avg_of d else avg_of d - c) / c * of_int (leverage d)"

lemma calculate_pnl_wf:
  assumes "deal_wf d" "0 < c"
  shows "calculate_pnl d c =
    Inr (pnl_of d c, pnl_of d c / (total_size d / of_int (leverage d)) * 100)"
  using assms total_size_pos [of d] avg_of_pos [of d]
  by (simp add: calculate_pnl_def Let_def pnl_of_def deal_wf_def)

lemma calculate_pnl_nonpos: "c \<le> 0 \<Longrightarrow> calculate_pnl d c = Inr (0, 0)"
  by (simp add: calculate_pnl_def)

lemma weighted_bounds:
  fixes p w :: "'a \<Rightarrow> real"
  assumes "\<And>x. x \<in> set xs \<Longrightarrow> lo \<le> p x \<and> p x \<le> hi \<and> 0 < w x"
  shows "lo * sum_list (map w xs) \<le> sum_list (map (\<lambda>x. p x * w x) xs)
    \<and> sum_list (map (\<lambda>x. p x * w x) xs) \<le> hi * sum_list (map w xs)"
  using assms
proof (induction xs)
  case (Cons x xs)
  have "lo * w x \<le> p x * w x" "p x * w x \<le> hi * w x"
    using Cons.prems [of x] by (auto intro: mult_right_mono)
  moreover have "lo * sum_list (map w xs) \<le> sum_list (map (\<lambda>x. p x * w x) xs)
    \<and> sum_list (map (\<lambda>x. p x * w x) xs) \<le> hi * sum_list (map w xs)"
    using Cons by simp
  ultimately show ?case by (simp add: distrib_left)
qed simp

lemma avg_of_bounds:
  assumes "deal_wf d" "\<And>ord. ord \<in> set (orders d) \<Longrightarrow> lo \<le> order_price ord \<and> order_price ord \<le> hi"
  shows "lo \<le> avg_of d" "avg_of d \<le> hi"
proof -
  have "lo * total_size d \<le> total_value d \<and> total_value d \<le> hi * total_size d"
    unfolding total_size_def total_value_def
    by (rule weighted_bounds) (use assms in \<open>auto simp: deal_wf_def order_wf_def list_all_iff\<close>)
  with total_size_pos [OF assms(1)] show "lo \<le> avg_of d" "avg_of d \<le> hi"
    by (simp_all add: avg_of_def pos_le_divide_eq pos_divide_le_eq)
qed

text \<open>the volume-weighted entry price of a well-formed deal is defined and lies between its
  cheapest and its dearest order.\<close>

theorem avg_entry_price_between:
  assumes "deal_wf d"
  shows "\<exists>a. avg_entry_price d = Inr a
    \<and> Min (set (map order_price (orders d))) \<le> a \<and> a \<le> Max (set (map order_price (orders d)))"
proof -
  let ?lo = "Min (set (map order_price (orders d)))" and ?hi = "Max (set (map order_price (orders d)))"
  have "?lo \<le> order_price ord \<and> order_price ord \<le> ?hi" if "ord \<in> set (orders d)" for ord
    using that by simp
  from avg_of_bounds [OF assms this] assms show ?thesis by auto
qed

text \<open>A record-update rule: the well-formedness of a deal depends on four fields only.\<close>

lemma deal_wf_cong:
  "orders d' = orders d \<Longrightarrow> leverage d' = leverage d \<Longrightarrow> side d' = side d \<Longrightarrow> deal_wf d' = deal_wf d"
  by (simp add: deal_wf_def)

lemma mark_closed_simps [simp]:
  "orders (mark_closed p r n d) = orders d" "leverage (mark_closed p r n d) = leverage d"
  "side (mark_closed p r n d) = side d" "deal_id (mark_closed p r n d) = deal_id d"
  "is_open (mark_closed p r n d) = False" "close_price (mark_closed p r n d) = Some p"
  "close_reason (mark_closed p r n d) = Some r" "closed_at (mark_closed p r n d) = Some n"
  "exit_trigger (mark_closed p r n d) = exit_trigger d"
  by (simp_all add: mark_closed_def)

lemma pnl_cong:
  assumes "orders d' = orders d" "leverage d' = leverage d" "side d' = side d"
  shows "calculate_pnl d' c = calculate_pnl d c"
  by (simp only: calculate_pnl_def avg_entry_price_def total_size_def total_value_def assms)

lemma mark_closed_pnl [simp]: "calculate_pnl (mark_closed p r n d) c = calculate_pnl d c"
  by (rule pnl_cong) simp_all

section \<open>The book's invariant\<close>

definition entry_wf :: "string \<times> paper_deal \<Rightarrow> bool" where
  "entry_wf e = (deal_id (snd e) = fst e \<and> is_open (snd e) \<and> deal_wf (snd e))"

definition book_wf :: "paper_state \<Rightarrow> bool" where
  "book_wf s =
     (distinct (keys (open_deals s)) \<and> list_all entry_wf (open_deals s) \<and>
      list_all (\<lambda>d. \<not> is_open d \<and> deal_wf d) (closed_deals s))"

lemma book_wf_lookup:
  assumes "book_wf s" "map_of (open_deals s) i = Some d"
  shows "deal_id d = i" "is_open d" "deal_wf d"
proof -
  have "entry_wf (i, d)"
    using assms(1) map_of_SomeD [OF assms(2)] unfolding book_wf_def list_all_iff by blast
  then show "deal_id d = i" "is_open d" "deal_wf d" by (simp_all add: entry_wf_def)
qed

lemma book_wf_new [wf_intros]: "book_wf (new_paper_state b)"
  by (simp add: book_wf_def new_paper_state_def)

lemma book_wf_open [wf_intros]:
  "book_wf s \<Longrightarrow> deal_wf d \<Longrightarrow> is_open d \<Longrightarrow> book_wf (state_open_deal d s)"
  by (auto simp: book_wf_def state_open_deal_def list_all_iff entry_wf_def set_update_distinct)

text \<open>Replacing the entry of a deal by an updated version of the same deal.\<close>

definition put_deal :: "paper_deal \<Rightarrow> paper_state \<Rightarrow> paper_state" where
  "put_deal d s = s\<lparr>open_deals := AList.update (deal_id d) d (open_deals s)\<rparr>"

lemma put_deal_eq: "put_deal = state_open_deal"
  by (rule ext)+ (simp add: put_deal_def state_open_deal_def)

lemma close_deal_missing:
  "map_of (open_deals s) i = None \<Longrightarrow> state_close_deal i p r n s = (Inr None, s)"
  by (simp add: state_close_deal_def)

lemma close_deal_found:
  assumes "map_of (open_deals s) i = Some d" "calculate_pnl d p = Inr (b, q)"
  shows "state_close_deal i p r n s =
    (Inr (Some (mark_closed p r n d\<lparr>pnl_btc := b, pnl_pct := q\<rparr>)),
     s\<lparr>balance_btc := balance_btc s + b,
       open_deals := AList.delete i (open_deals s),
       closed_deals := closed_deals s @ [mark_closed p r n d\<lparr>pnl_btc := b, pnl_pct := q\<rparr>]\<rparr>)"
  using assms by (simp add: state_close_deal_def Let_def)

lemma pnl_defined: "deal_wf d \<Longrightarrow> \<exists>b q. calculate_pnl d p = Inr (b, q)"
  by (cases "0 < p") (auto simp: calculate_pnl_wf calculate_pnl_nonpos)

lemma close_deal_total:
  assumes "book_wf s"
  shows "\<exists>r'. fst (state_close_deal i p r n s) = Inr r'"
proof (cases "map_of (open_deals s) i")
  case None
  then show ?thesis by (simp add: close_deal_missing)
next
  case (Some d)
  then show ?thesis
    using pnl_defined [OF book_wf_lookup(3) [OF assms Some], of p] by (auto simp: close_deal_found)
qed

lemma book_wf_close [wf_intros]:
  assumes "book_wf s"
  shows "book_wf (snd (state_close_deal i p r n s))"
proof (cases "map_of (open_deals s) i")
  case None
  then show ?thesis using assms by (simp add: close_deal_missing)
next
  case (Some d)
  obtain b q where "calculate_pnl d p = Inr (b, q)"
    using pnl_defined [OF book_wf_lookup(3) [OF assms Some]] by blast
  moreover have "deal_wf ((mark_closed p r n d)\<lparr>pnl_btc := b, pnl_pct := q\<rparr>)" for b q
    using book_wf_lookup(3) [OF assms Some] by (simp add: deal_wf_def)
  ultimately show ?thesis
    using Some assms by (auto simp: close_deal_found book_wf_def list_all_iff set_delete_eq)
qed

section \<open>The interface of the book\<close>

text \<open>
  What the engines and the close handler rely on: opening under a fresh id adds exactly that
  entry, closing removes exactly that entry and appends one deal to the history, and both keep the
  invariant.  A run of such operations then neither loses nor duplicates a deal.
\<close>

locale deal_book =
  fixes opens :: "'s \<Rightarrow> ('k \<times> 'd) list"
    and history :: "'s \<Rightarrow> 'd list"
    and inv :: "'s \<Rightarrow> bool"
    and admissible :: "'d \<Rightarrow> bool"
    and key :: "'d \<Rightarrow> 'k"
    and open_op :: "'d \<Rightarrow> 's \<Rightarrow> 's"
    and close_op :: "'k \<Rightarrow> 'c \<Rightarrow> 's \<Rightarrow> 's"
  assumes inv_open: "inv s \<Longrightarrow> admissible d \<Longrightarrow> inv (open_op d s)"
    and inv_close: "inv s \<Longrightarrow> inv (close_op k c s)"
    and open_fresh: "inv s \<Longrightarrow> key d \<notin> set (keys (opens s)) \<Longrightarrow>
      opens (open_op d s) = opens s @ [(key d, d)] \<and> history (open_op d s) = history s"
    and close_missing: "k \<notin> set (keys (opens s)) \<Longrightarrow> close_op k c s = s"
    and close_opens: "inv s \<Longrightarrow> opens (close_op k c s) = AList.delete k (opens s)"
    and close_history: "inv s \<Longrightarrow> k \<in> set (keys (opens s)) \<Longrightarrow>
      \<exists>d. history (close_op k c s) = history s @ [d]"
    and inv_distinct: "inv s \<Longrightarrow> distinct (keys (opens s))"
begin

lemma close_twice: "inv s \<Longrightarrow> close_op k c' (close_op k c s) = close_op k c s"
  by (rule close_missing) (simp add: close_opens set_delete_eq image_iff)

lemma close_count:
  assumes "inv s"
  shows "length (opens (close_op k c s)) + length (history (close_op k c s))
    = length (opens s) + length (history s)"
proof (cases "k \<in> set (keys (opens s))")
  case True
  then obtain d where "history (close_op k c s) = history s @ [d]"
    using close_history [OF assms] by blast
  with True show ?thesis
    using length_delete_mem [OF inv_distinct [OF assms] True] by (simp add: close_opens [OF assms])
qed (simp add: close_missing)

lemma open_count:
  assumes "inv s" "key d \<notin> set (keys (opens s))"
  shows "length (opens (open_op d s)) + length (history (open_op d s))
    = Suc (length (opens s) + length (history s))"
  using open_fresh [OF assms] by simp

lemma closes_keep:
  "inv s \<Longrightarrow> inv (fold (\<lambda>(k, c). close_op k c) cs s)
    \<and> length (opens (fold (\<lambda>(k, c). close_op k c) cs s))
      + length (history (fold (\<lambda>(k, c). close_op k c) cs s)) = length (opens s) + length (history s)"
  by (induction cs arbitrary: s) (auto simp: inv_close close_count)

end

lemma update_fresh: "k \<notin> set (keys d) \<Longrightarrow> AList.update k v d = d @ [(k, v)]"
  by (induction d) auto

lemma close_deal_opens:
  assumes "book_wf s"
  shows "open_deals (snd (state_close_deal i p r n s)) = AList.delete i (open_deals s)"
proof (cases "map_of (open_deals s) i")
  case None
  then show ?thesis by (simp add: close_deal_missing delete_fresh map_of_eq_None_iff)
next
  case (Some d)
  then show ?thesis
    using pnl_defined [OF book_wf_lookup(3) [OF assms Some], of p] by (auto simp: close_deal_found)
qed

lemma close_deal_history:
  assumes "book_wf s" "i \<in> set (keys (open_deals s))"
  shows "\<exists>d. closed_deals (snd (state_close_deal i p r n s)) = closed_deals s @ [d]"
proof -
  obtain d where Some: "map_of (open_deals s) i = Some d"
    using assms(2) by (metis map_of_eq_None_iff not_None_eq set_map)
  then show ?thesis
    using pnl_defined [OF book_wf_lookup(3) [OF assms(1) Some], of p] by (auto simp: close_deal_found)
qed

interpretation book: deal_book
  open_deals closed_deals book_wf "\<lambda>d. deal_wf d \<and> is_open d" deal_id state_open_deal
  "\<lambda>i (p, r, n) s. snd (state_close_deal i p r n s)"
proof (unfold_locales, goal_cases)
  case (1 s d) then show ?case by (auto intro: wf_intros)
next
  case (2 s k c) then show ?case by (auto intro: wf_intros split: prod.split)
next
  case (3 s d) then show ?case by (simp add: state_open_deal_def update_fresh)
next
  case (4 k s c) then show ?case by (auto simp: close_deal_missing map_of_eq_None_iff split: prod.split)
next
  case (5 s k c) then show ?case by (auto simp: close_deal_opens split: prod.split)
next
  case (6 s k c)
  then show ?case
    using close_deal_history [of s k] by (cases c) auto
next
  case (7 s) then show ?case by (simp add: book_wf_def)
qed

end
