(* ===== verification/Bot_Config.thy ===== *)
theory Bot_Config
  imports Reverto_Prelude
begin

text \<open>
  The bot configuration (\<open>config/models.py\<close> and \<open>DrawdownGuardConfig\<close> of
  \<open>core/drawdown_guard.py\<close>): one record per Pydantic model, its defaults, and the numeric and
  enumeration constraints of its \<open>Field\<close>s as an executable predicate \<open>valid_...\<close>.  The strict mode
  (unknown keys are refused) has no counterpart, because a record has no unknown keys; type
  coercion by Pydantic happens before a value of these types exists.  The periods and look-backs of an
  indicator, which the source leaves unconstrained integers, are natural numbers here: a negative one
  is outside the model.
\<close>

section \<open>Records\<close>

datatype bot_mode = LIVE | PAPER | BACKTEST

record liq_guard_config =
  warn_pct :: real
  emergency_close_pct :: real

record leverage_config =
  lev_enabled :: bool
  lev_size :: int
  lev_liq_guard :: liq_guard_config

record dca_config =
  dca_on :: bool
  base_order_size :: real
  max_orders :: int
  order_spacing_pct :: real
  dca_multiplier :: real
  step_scale :: real
  taker_fee :: real
  max_cumulative_size :: "real option"

record indicator_config =
  ind_type :: string
  ind_period :: "nat option"
  ind_threshold :: "string option"
  ind_fast :: "nat option"
  ind_slow :: "nat option"
  ind_signal :: "string option"
  ind_timeframe :: "string option"
  ind_condition :: "string option"
  ind_price_source :: "string option"
  ind_macd_fast :: "nat option"
  ind_macd_slow :: "nat option"
  ind_macd_signal :: "nat option"
  ind_oscillator_ma_type :: "string option"
  ind_signal_ma_type :: "string option"
  ind_use_percentile :: "bool option"
  ind_multiplier :: "real option"
  ind_ma_type :: "string option"
  ind_squeeze_threshold :: "real option"
  ind_value :: "string option"
  ind_initial_af :: "real option"
  ind_max_af :: "real option"
  ind_atr_period :: "nat option"
  ind_lookback :: "nat option"
  ind_trigger_type :: "string option"
  ind_left_bars :: "nat option"
  ind_right_bars :: "nat option"
  ind_proximity_pct :: "real option"
  ind_volume_threshold :: "real option"
  ind_min_touches :: "int option"
  ind_base_periods :: "nat option"
  ind_pump_periods :: "nat option"
  ind_pump_from_base_pct :: "real option"
  ind_base_crack_pct :: "real option"

text \<open>An indicator of a type with every parameter left out.\<close>

definition plain_indicator :: "string \<Rightarrow> indicator_config" where
  "plain_indicator t =
     \<lparr>ind_type = t, ind_period = None, ind_threshold = None, ind_fast = None, ind_slow = None,
      ind_signal = None, ind_timeframe = None, ind_condition = None, ind_price_source = None,
      ind_macd_fast = None, ind_macd_slow = None, ind_macd_signal = None,
      ind_oscillator_ma_type = None, ind_signal_ma_type = None, ind_use_percentile = None,
      ind_multiplier = None, ind_ma_type = None, ind_squeeze_threshold = None, ind_value = None,
      ind_initial_af = None, ind_max_af = None, ind_atr_period = None, ind_lookback = None,
      ind_trigger_type = None, ind_left_bars = None, ind_right_bars = None,
      ind_proximity_pct = None, ind_volume_threshold = None, ind_min_touches = None,
      ind_base_periods = None, ind_pump_periods = None, ind_pump_from_base_pct = None,
      ind_base_crack_pct = None\<rparr>"

record indicator_group =
  group_id :: int
  group_name :: string
  group_indicators :: "indicator_config list"

record entry_config =
  entry_indicators :: "indicator_config list"
  entry_groups :: "indicator_group list"

record take_profit_config =
  tp_enabled :: bool
  target_pct :: real
  price_enabled :: bool
  indicator_confirm :: "string option"
  minimum_tp_pct :: "real option"
  tp_groups :: "indicator_group list"

record stop_loss_config =
  sl_type :: string
  sl_pct :: real

record schedule_window =
  window_days :: "string list"
  from_time :: string
  to_time :: string

record schedule_config =
  sched_enabled :: bool
  timezone :: string
  trading_windows :: "schedule_window list"
  blackout_dates :: "string list"

record drawdown_config =
  dd_enabled :: bool
  max_drawdown_pct :: real
  dd_metric :: string
  dd_action :: string

record bot_config =
  cfg_name :: string
  cfg_mode :: bot_mode
  exchange_account_id :: int
  cfg_pair :: string
  direction :: string
  timeframe :: string
  use_wick_simulation :: bool
  leverage_cfg :: leverage_config
  dca_cfg :: dca_config
  entry_cfg :: entry_config
  take_profit_cfg :: take_profit_config
  stop_loss_cfg :: stop_loss_config
  schedule_cfg :: schedule_config
  drawdown_cfg :: drawdown_config

section \<open>Defaults\<close>

definition default_liq_guard :: liq_guard_config where
  "default_liq_guard = \<lparr>warn_pct = 15, emergency_close_pct = 5\<rparr>"

definition default_leverage :: leverage_config where
  "default_leverage = \<lparr>lev_enabled = False, lev_size = 1, lev_liq_guard = default_liq_guard\<rparr>"

definition default_dca :: "real \<Rightarrow> dca_config" where
  "default_dca base =
     \<lparr>dca_on = True, base_order_size = base, max_orders = 5, order_spacing_pct = 5/2,
      dca_multiplier = 1, step_scale = 1, taker_fee = 6/10000, max_cumulative_size = None\<rparr>"

definition default_entry :: entry_config where
  "default_entry = \<lparr>entry_indicators = [], entry_groups = []\<rparr>"

definition default_take_profit :: take_profit_config where
  "default_take_profit =
     \<lparr>tp_enabled = True, target_pct = 3, price_enabled = True, indicator_confirm = None,
      minimum_tp_pct = None, tp_groups = []\<rparr>"

definition default_stop_loss :: stop_loss_config where
  "default_stop_loss = \<lparr>sl_type = ''fixed'', sl_pct = 5\<rparr>"

definition default_schedule :: schedule_config where
  "default_schedule =
     \<lparr>sched_enabled = False, timezone = ''Europe/Amsterdam'', trading_windows = [],
      blackout_dates = []\<rparr>"

definition default_drawdown :: drawdown_config where
  "default_drawdown =
     \<lparr>dd_enabled = False, max_drawdown_pct = 10, dd_metric = ''equity'', dd_action = ''pause''\<rparr>"

definition default_bot :: "string \<Rightarrow> bot_mode \<Rightarrow> int \<Rightarrow> real \<Rightarrow> bot_config" where
  "default_bot name m acct base =
     \<lparr>cfg_name = name, cfg_mode = m, exchange_account_id = acct, cfg_pair = ''BTC/USD'',
      direction = ''long'', timeframe = ''1h'', use_wick_simulation = True,
      leverage_cfg = default_leverage, dca_cfg = default_dca base, entry_cfg = default_entry,
      take_profit_cfg = default_take_profit, stop_loss_cfg = default_stop_loss,
      schedule_cfg = default_schedule, drawdown_cfg = default_drawdown\<rparr>"

lemmas default_defs =
  default_liq_guard_def default_leverage_def default_dca_def default_entry_def
  default_take_profit_def default_stop_loss_def default_schedule_def default_drawdown_def
  default_bot_def

section \<open>Field constraints\<close>

definition in_opt_range :: "('a \<Rightarrow> bool) \<Rightarrow> 'a option \<Rightarrow> bool" where
  "in_opt_range p x = (case x of None \<Rightarrow> True | Some v \<Rightarrow> p v)"

definition valid_leverage :: "leverage_config \<Rightarrow> bool" where
  "valid_leverage l = (1 \<le> lev_size l \<and> lev_size l \<le> 125)"

definition valid_dca :: "dca_config \<Rightarrow> bool" where
  "valid_dca d =
     (0 < base_order_size d \<and> 0 \<le> max_orders d \<and> max_orders d \<le> 50 \<and>
      0 < order_spacing_pct d \<and> order_spacing_pct d \<le> 50 \<and>
      0 < dca_multiplier d \<and> dca_multiplier d \<le> 10 \<and>
      0 < step_scale d \<and> step_scale d \<le> 5 \<and>
      0 \<le> taker_fee d \<and> taker_fee d \<le> 1/100 \<and>
      in_opt_range (\<lambda>c. 0 < c) (max_cumulative_size d))"

definition valid_indicator :: "indicator_config \<Rightarrow> bool" where
  "valid_indicator i =
     (in_opt_range (\<lambda>t. t \<in> {''15m'', ''30m'', ''1h'', ''2h'', ''4h'', ''12h'', ''1d''})
        (ind_timeframe i) \<and>
      in_opt_range (\<lambda>x. 0 < x) (ind_squeeze_threshold i) \<and>
      in_opt_range (\<lambda>x. 0 \<le> x) (ind_volume_threshold i) \<and>
      in_opt_range (\<lambda>x. 1 \<le> x) (ind_min_touches i))"

definition valid_group :: "indicator_group \<Rightarrow> bool" where
  "valid_group g = (length (group_name g) \<le> 128 \<and> list_all valid_indicator (group_indicators g))"

definition valid_entry :: "entry_config \<Rightarrow> bool" where
  "valid_entry e =
     (list_all valid_indicator (entry_indicators e) \<and> list_all valid_group (entry_groups e))"

definition valid_take_profit :: "take_profit_config \<Rightarrow> bool" where
  "valid_take_profit t =
     (0 < target_pct t \<and> target_pct t \<le> 100 \<and>
      in_opt_range (\<lambda>x. 0 \<le> x \<and> x \<le> 100) (minimum_tp_pct t) \<and>
      list_all valid_group (tp_groups t))"

definition valid_stop_loss :: "stop_loss_config \<Rightarrow> bool" where
  "valid_stop_loss s =
     (sl_type s \<in> {''none'', ''fixed'', ''trailing''} \<and> 0 \<le> sl_pct s \<and> sl_pct s \<le> 100)"

definition valid_drawdown :: "drawdown_config \<Rightarrow> bool" where
  "valid_drawdown d =
     (0 < max_drawdown_pct d \<and> max_drawdown_pct d \<le> 100 \<and>
      dd_metric d \<in> {''equity'', ''balance''} \<and> dd_action d \<in> {''pause'', ''stop''})"

section \<open>The name validator\<close>

text \<open>
  Python's \<open>str.strip\<close> and the anchored character class of \<open>_NAME_RE\<close>, on characters.  A
  character above 255 is not representable here and would be refused by the class anyway.
\<close>

definition py_space :: "char \<Rightarrow> bool" where
  "py_space c = (let n = of_char c :: nat in
     (9 \<le> n \<and> n \<le> 13) \<or> (28 \<le> n \<and> n \<le> 32) \<or> n = 133 \<or> n = 160)"

definition py_strip :: "string \<Rightarrow> string" where
  "py_strip s = rev (dropWhile py_space (rev (dropWhile py_space s)))"

definition name_char :: "char \<Rightarrow> bool" where
  "name_char c = (let n = of_char c :: nat in
     (97 \<le> n \<and> n \<le> 122) \<or> (65 \<le> n \<and> n \<le> 90) \<or> (48 \<le> n \<and> n \<le> 57) \<or>
     n = 32 \<or> n = 45 \<or> n = 95)"

definition strip_control :: "string \<Rightarrow> string" where
  "strip_control v = filter (\<lambda>c. 32 \<le> (of_char c :: nat) \<or> (of_char c :: nat) = 9) v"

definition validate_name :: "string \<Rightarrow> string res" where
  "validate_name v =
     (let cleaned = py_strip (strip_control v) in
      if \<not> (1 \<le> length cleaned \<and> length cleaned \<le> 100) then Inl ValueError
      else if \<not> list_all name_char cleaned then Inl ValueError
      else Inr cleaned)"

definition valid_bot :: "bot_config \<Rightarrow> bool" where
  "valid_bot b =
     (0 < exchange_account_id b \<and> direction b \<in> {''long'', ''short''} \<and>
      timeframe b \<in> {''15m'', ''1h'', ''4h'', ''1d''} \<and>
      valid_leverage (leverage_cfg b) \<and> valid_dca (dca_cfg b) \<and> valid_entry (entry_cfg b) \<and>
      valid_take_profit (take_profit_cfg b) \<and> valid_stop_loss (stop_loss_cfg b) \<and>
      valid_drawdown (drawdown_cfg b) \<and> validate_name (cfg_name b) = Inr (cfg_name b))"

lemma valid_bot_parts:
  assumes "valid_bot b"
  shows "valid_leverage (leverage_cfg b)" "valid_dca (dca_cfg b)"
    "valid_take_profit (take_profit_cfg b)" "valid_stop_loss (stop_loss_cfg b)"
    "valid_drawdown (drawdown_cfg b)"
    "direction b = ''long'' \<or> direction b = ''short''"
  using assms by (auto simp: valid_bot_def)

lemma set_dropWhile_subset: "set (dropWhile p xs) \<subseteq> set xs"
  by (induction xs) auto

lemma py_strip_subset: "set (py_strip s) \<subseteq> set s"
  unfolding py_strip_def
  using set_dropWhile_subset [of py_space "rev (dropWhile py_space s)"]
    set_dropWhile_subset [of py_space s] by auto

lemma dropWhile_hd: "dropWhile p xs = [] \<or> \<not> p (hd (dropWhile p xs))"
  by (induction xs) auto

lemma py_strip_ends:
  assumes "py_strip s \<noteq> []"
  shows "\<not> py_space (hd (py_strip s))" "\<not> py_space (last (py_strip s))"
proof -
  define a where "a = dropWhile py_space s"
  define b where "b = dropWhile py_space (rev a)"
  have strip: "py_strip s = rev b" by (simp add: py_strip_def a_def b_def)
  have "b \<noteq> []" using assms strip by simp
  then show "\<not> py_space (last (py_strip s))"
    using dropWhile_hd [of py_space "rev a", folded b_def] by (simp add: strip last_rev)
  obtain t where "rev a = t @ b" by (metis b_def takeWhile_dropWhile_id)
  then have "a = rev b @ rev t" by (metis rev_append rev_rev_ident)
  then have "hd a = hd (rev b)" and "a \<noteq> []" using \<open>b \<noteq> []\<close> by auto
  then show "\<not> py_space (hd (py_strip s))"
    using dropWhile_hd [of py_space s, folded a_def] by (simp add: strip)
qed

lemma dropWhile_not_hd: "xs = [] \<or> \<not> p (hd xs) \<Longrightarrow> dropWhile p xs = xs"
  by (cases xs) auto

lemma py_strip_fixed: "s = [] \<or> (\<not> py_space (hd s) \<and> \<not> py_space (last s)) \<Longrightarrow> py_strip s = s"
  by (auto simp: py_strip_def dropWhile_not_hd hd_rev)

lemma py_strip_idem [simp]: "py_strip (py_strip s) = py_strip s"
  by (rule py_strip_fixed) (use py_strip_ends in blast)

lemma strip_control_fixed:
  "list_all (\<lambda>c. 32 \<le> (of_char c :: nat) \<or> (of_char c :: nat) = 9) s \<Longrightarrow> strip_control s = s"
  by (induction s) (auto simp: strip_control_def)

lemma strip_control_all:
  "list_all (\<lambda>c. 32 \<le> (of_char c :: nat) \<or> (of_char c :: nat) = 9) (strip_control s)"
  by (auto simp: strip_control_def list_all_iff)

lemma strip_control_strip: "strip_control (py_strip (strip_control v)) = py_strip (strip_control v)"
  by (rule strip_control_fixed)
    (use py_strip_subset [of "strip_control v"] strip_control_all [of v] in \<open>auto simp: list_all_iff\<close>)

text \<open>an accepted bot name is 1 to 100 characters, all in the allowed class, with no control
  character and no blank at either end, and validating it again returns it unchanged.\<close>

theorem validate_name_sound:
  assumes "validate_name v = Inr w"
  shows "1 \<le> length w \<and> length w \<le> 100 \<and> list_all name_char w
    \<and> \<not> py_space (hd w) \<and> \<not> py_space (last w) \<and> validate_name w = Inr w"
proof -
  from assms have w: "w = py_strip (strip_control v)" "1 \<le> length w" "length w \<le> 100"
    "list_all name_char w"
    by (auto simp: validate_name_def Let_def split: if_splits)
  moreover have "py_strip (strip_control w) = w"
    by (simp add: w(1) strip_control_strip)
  ultimately show ?thesis
    using py_strip_ends [of "strip_control v"] by (force simp: validate_name_def Let_def)
qed

theorem validate_name_sound_witness:
  "validate_name (''  Bot'' @ [char_of (27::nat)] @ ''_1 '') = Inr ''Bot_1''
   \<and> list_all name_char ''Bot_1'' \<and> validate_name ''Bot_1'' = Inr ''Bot_1''"
proof -
  have h: "validate_name (''  Bot'' @ [char_of (27::nat)] @ ''_1 '') = Inr ''Bot_1''"
    by code_simp
  show ?thesis using h validate_name_sound [OF h] by blast
qed

end
