(* ===== verification/Inverse_Perp.thy ===== *)
theory Inverse_Perp
  imports Paper_State Bot_Config
begin

text \<open>
  The inverse-perpetual price targets (\<open>core/inverse_perp_math.py\<close>) against the PnL formula of
  \<open>PaperDeal.calculate_pnl\<close>: the target prices realise exactly the configured percentage (times
  the leverage squared), and the cases in which a target does not exist.
\<close>

definition compute_tp_target_price :: "real \<Rightarrow> real \<Rightarrow> string \<Rightarrow> real res" where
  "compute_tp_target_price avg_entry tp_pct sd =
     (if \<not> valid_side sd then Inl ValueError
      else if sd = ''long'' then py_div avg_entry (1 - tp_pct / 100)
      else py_div avg_entry (1 + tp_pct / 100))"

definition compute_sl_target_price :: "real \<Rightarrow> real \<Rightarrow> string \<Rightarrow> real res" where
  "compute_sl_target_price avg_entry pct sd =
     (if \<not> valid_side sd then Inl ValueError
      else if sd = ''long'' then py_div avg_entry (1 + pct / 100)
      else py_div avg_entry (1 - pct / 100))"

text \<open>A stop loss is a take profit of the negated percentage.\<close>

lemma sl_is_negative_tp: "compute_sl_target_price a p sd = compute_tp_target_price a (- p) sd"
  by (simp add: compute_sl_target_price_def compute_tp_target_price_def)

section \<open>The target realises the configured percentage\<close>

lemma pnl_pct_of:
  assumes "deal_wf d" "0 < c"
  shows "calculate_pnl d c = Inr (pnl_of d c, (of_int (leverage d))\<^sup>2 *
    ((if side d = ''long'' then c - avg_of d else avg_of d - c) / c * 100))"
proof -
  have "total_size d \<noteq> 0" "(of_int (leverage d) :: real) \<noteq> 0"
    using total_size_pos [OF assms(1)] assms(1) by (auto simp: deal_wf_def)
  then show ?thesis
    unfolding calculate_pnl_wf [OF assms] by (simp add: pnl_of_def power2_eq_square)
qed

lemma tp_target_exists:
  assumes "deal_wf d" "side d = ''long'' \<longrightarrow> p < 100" "side d \<noteq> ''long'' \<longrightarrow> - 100 < p"
  defines "f \<equiv> (if side d = ''long'' then 1 - p / 100 else 1 + p / 100)"
  shows "compute_tp_target_price (avg_of d) p (side d) = Inr (avg_of d / f)" "0 < f"
    "0 < avg_of d / f"
proof -
  show f: "0 < f" using assms(2,3) by (auto simp: f_def)
  with avg_of_pos [OF assms(1)] show "0 < avg_of d / f" by simp
  from f assms(1) show "compute_tp_target_price (avg_of d) p (side d) = Inr (avg_of d / f)"
    by (auto simp: compute_tp_target_price_def deal_wf_def f_def)
qed

lemma tp_target_pnl:
  assumes "deal_wf d" "side d = ''long'' \<longrightarrow> p < 100" "side d \<noteq> ''long'' \<longrightarrow> - 100 < p"
  shows "\<exists>t > 0. compute_tp_target_price (avg_of d) p (side d) = Inr t
    \<and> calculate_pnl d t = Inr (total_size d * of_int (leverage d) * p / 100,
        (of_int (leverage d))\<^sup>2 * p)"
proof -
  define f where "f = (if side d = ''long'' then 1 - p / 100 else 1 + p / 100)"
  note t = tp_target_exists [OF assms, folded f_def]
  have gain: "(if side d = ''long'' then avg_of d / f - avg_of d else avg_of d - avg_of d / f) / (avg_of d / f)
      = p / 100"
    using t(2) avg_of_pos [OF assms(1)] by (auto simp: f_def field_simps)
  have "pnl_of d (avg_of d / f) = total_size d * of_int (leverage d) * p / 100"
    unfolding pnl_of_def times_divide_eq_right [symmetric] gain by simp
  with pnl_pct_of [OF assms(1) t(3)] t show ?thesis
    unfolding gain by (intro exI [of _ "avg_of d / f"]) simp
qed

text \<open>for a well-formed deal and a take-profit percentage below 100, the target price exists, is
  positive, and closing the deal there yields the configured percentage of its size (times leverage)
  in BTC and leverage squared times the percentage as the return on margin.\<close>

theorem tp_target_realises_percentage:
  assumes "deal_wf d" "avg_entry_price d = Inr a" "0 < p" "p < 100"
  shows "\<exists>t > 0. compute_tp_target_price a p (side d) = Inr t
    \<and> (side d = ''long'' \<longrightarrow> a < t) \<and> (side d = ''short'' \<longrightarrow> t < a)
    \<and> calculate_pnl d t = Inr (total_size d * of_int (leverage d) * p / 100,
        (of_int (leverage d))\<^sup>2 * p)"
proof -
  from assms(1,2) have a: "a = avg_of d" by simp
  define f where "f = (if side d = ''long'' then 1 - p / 100 else 1 + p / 100)"
  have c: "side d = ''long'' \<longrightarrow> p < 100" "side d \<noteq> ''long'' \<longrightarrow> - 100 < p" using assms by auto
  note t = tp_target_exists [OF assms(1) c, folded f_def]
  have "(side d = ''long'' \<longrightarrow> avg_of d < avg_of d / f) \<and> (side d = ''short'' \<longrightarrow> avg_of d / f < avg_of d)"
    using t(2) avg_of_pos [OF assms(1)] assms(3) by (auto simp: f_def field_simps)
  with tp_target_pnl [OF assms(1) c] t(1,3) show ?thesis unfolding a by auto
qed

text \<open>the stop-loss target of a well-formed deal exists, lies on the losing side of the entry and
  closing there loses exactly the configured percentage.\<close>

theorem sl_target_realises_loss:
  assumes "deal_wf d" "avg_entry_price d = Inr a" "0 < p" "p < 100"
  shows "\<exists>t > 0. compute_sl_target_price a p (side d) = Inr t
    \<and> (side d = ''long'' \<longrightarrow> t < a) \<and> (side d = ''short'' \<longrightarrow> a < t)
    \<and> calculate_pnl d t = Inr (- (total_size d * of_int (leverage d) * p / 100),
        - ((of_int (leverage d))\<^sup>2 * p))"
proof -
  from assms(1,2) have a: "a = avg_of d" by simp
  define f where "f = (if side d = ''long'' then 1 - - p / 100 else 1 + - p / 100)"
  have c: "side d = ''long'' \<longrightarrow> - p < 100" "side d \<noteq> ''long'' \<longrightarrow> - 100 < - p" using assms by auto
  note t = tp_target_exists [OF assms(1) c, folded f_def]
  have "(side d = ''long'' \<longrightarrow> avg_of d / f < avg_of d) \<and> (side d = ''short'' \<longrightarrow> avg_of d < avg_of d / f)"
    using t(2) avg_of_pos [OF assms(1)] assms(3) by (auto simp: f_def field_simps)
  with tp_target_pnl [OF assms(1) c] t(1,3) show ?thesis
    unfolding a sl_is_negative_tp by auto
qed

section \<open>When there is no target\<close>

text \<open>the take-profit target raises exactly on an unknown side and at the pole of its formula,
  and a configuration the validator accepts (100 percent on a long bot) reaches that pole.\<close>

theorem tp_target_errors:
  "(compute_tp_target_price a p sd = Inl e \<longleftrightarrow>
     (sd \<notin> {''long'', ''short''} \<and> e = ValueError) \<or>
     (sd = ''long'' \<and> p = 100 \<and> e = ZeroDivisionError) \<or>
     (sd = ''short'' \<and> p = - 100 \<and> e = ZeroDivisionError))
   \<and> valid_take_profit (default_take_profit\<lparr>target_pct := 100\<rparr>)"
  by (auto simp: compute_tp_target_price_def valid_side_def py_div_def default_defs
      valid_take_profit_def in_opt_range_def)

section \<open>Witnesses\<close>

definition sample_order :: "int \<Rightarrow> real \<Rightarrow> real \<Rightarrow> string \<Rightarrow> paper_order" where
  "sample_order n p sz t =
     \<lparr>order_number = n, order_price = p, order_size = sz, order_timestamp = 0, order_type = t\<rparr>"

definition sample_deal :: "string \<Rightarrow> string \<Rightarrow> int \<Rightarrow> paper_order list \<Rightarrow> paper_deal" where
  "sample_deal i sd lev os =
     \<lparr>deal_id = i, bot_name = ''bot'', symbol = ''BTC/USD'', side = sd, leverage = lev, orders = os,
      is_open = True, opened_at = 0, closed_at = None, close_price = None, close_reason = None,
      pnl_btc = 0, pnl_pct = 0, entry_trigger = None, exit_trigger = None, peak_price = 0,
      tp_ov = None, sl_ov = None, deal_dca_enabled = True, wick_high_since_open = 0,
      wick_low_since_open = 0\<rparr>"

definition deal_60k :: "string \<Rightarrow> paper_deal" where
  "deal_60k sd = sample_deal ''202601010000-0001'' sd 2
     [sample_order 1 63000 (1/100) ''base'', sample_order 2 57000 (1/100) ''dca'']"

lemmas sample_defs = sample_order_def sample_deal_def deal_60k_def

lemma deal_60k_wf: "deal_wf (deal_60k ''long'')" "avg_entry_price (deal_60k ''long'') = Inr 60000"
  by code_simp+

theorem avg_entry_price_between_witness:
  "deal_wf (deal_60k ''long'') \<and> (\<exists>a. avg_entry_price (deal_60k ''long'') = Inr a \<and>
     Min (set (map order_price (orders (deal_60k ''long'')))) \<le> a \<and>
     a \<le> Max (set (map order_price (orders (deal_60k ''long'')))))"
  using deal_60k_wf(1) avg_entry_price_between [OF deal_60k_wf(1)] by blast

theorem tp_target_realises_percentage_witness:
  "\<exists>t > 0. compute_tp_target_price 60000 4 ''long'' = Inr t \<and> 60000 < t
    \<and> calculate_pnl (deal_60k ''long'') t = Inr (1/625, 16)"
  using tp_target_realises_percentage [OF deal_60k_wf, of 4]
  by (simp add: sample_defs total_size_def)

theorem sl_target_realises_loss_witness:
  "\<exists>t > 0. compute_sl_target_price 60000 20 ''long'' = Inr t \<and> t < 60000
    \<and> calculate_pnl (deal_60k ''long'') t = Inr (- (1/125), - 80)"
  using sl_target_realises_loss [OF deal_60k_wf, of 20]
  by (simp add: sample_defs total_size_def)

end
