(* ===== verification/Drawdown_Guard.thy ===== *)
theory Drawdown_Guard
  imports Bot_Config
begin

text \<open>
  The drawdown kill switch (\<open>core/drawdown_guard.py\<close>): its state, the update on a metric reading,
  the operator's reset, and the persistence dict.  The trigger reason is the pair of numbers the
  message prints; its formatting is not modelled.  The lock makes every method one step.
\<close>

record dd_guard =
  dd_peak :: "real option"
  dd_triggered :: bool
  dd_reason :: "(real \<times> real) option"

definition new_dd_guard :: dd_guard where
  "new_dd_guard = \<lparr>dd_peak = None, dd_triggered = False, dd_reason = None\<rparr>"

definition dd_update :: "drawdown_config \<Rightarrow> real \<Rightarrow> dd_guard \<Rightarrow> bool \<times> dd_guard" where
  "dd_update cfg v g =
     (if \<not> dd_enabled cfg then (False, g)
      else if dd_triggered g then (True, g)
      else case dd_peak g of
        None \<Rightarrow> (False, g\<lparr>dd_peak := Some v\<rparr>)
      | Some peak \<Rightarrow>
          if peak < v then (False, g\<lparr>dd_peak := Some v\<rparr>)
          else if peak \<le> 0 then (False, g)
          else
            let drawdown_pct = (peak - v) / peak * 100 in
            if max_drawdown_pct cfg \<le> drawdown_pct
            then (True, g\<lparr>dd_triggered := True,
                          dd_reason := Some (drawdown_pct, max_drawdown_pct cfg)\<rparr>)
            else (False, g))"

definition dd_reset :: "dd_guard \<Rightarrow> dd_guard" where
  "dd_reset g = g\<lparr>dd_triggered := False, dd_reason := None, dd_peak := None\<rparr>"

text \<open>The dict of \<open>to_dict\<close>; a missing key is \<open>None\<close> on the outside, JSON null on the inside.\<close>

record dd_dict =
  ddj_peak :: "real option option"
  ddj_triggered :: "bool option"
  ddj_reason :: "(real \<times> real) option option"

definition dd_to_dict :: "dd_guard \<Rightarrow> dd_dict" where
  "dd_to_dict g =
     \<lparr>ddj_peak = Some (dd_peak g), ddj_triggered = Some (dd_triggered g),
      ddj_reason = Some (dd_reason g)\<rparr>"

definition opt_get :: "'a option option \<Rightarrow> 'a option" where
  "opt_get x = (case x of None \<Rightarrow> None | Some y \<Rightarrow> y)"

definition dd_from_dict :: "dd_dict \<Rightarrow> dd_guard \<Rightarrow> dd_guard" where
  "dd_from_dict j g =
     g\<lparr>dd_peak := opt_get (ddj_peak j),
       dd_triggered := (case ddj_triggered j of None \<Rightarrow> False | Some b \<Rightarrow> b),
       dd_reason := opt_get (ddj_reason j)\<rparr>"

section \<open>Facts\<close>

lemma dd_update_cases:
  "dd_update cfg v g = (b, g') \<Longrightarrow> dd_triggered g \<Longrightarrow> dd_triggered g' \<and> dd_reason g' = dd_reason g"
  by (auto simp: dd_update_def split: if_splits)

interpretation dd_latch: latch "\<lambda>(cfg, v) g. snd (dd_update cfg v g)" dd_triggered
  by unfold_locales (auto simp: dd_update_def Let_def split: prod.split option.split)

lemma dd_update_peak_mono:
  assumes "dd_peak g = Some p" "\<not> dd_triggered g"
  shows "\<exists>p' \<ge> p. dd_peak (snd (dd_update cfg v g)) = Some p'"
  using assms by (auto simp: dd_update_def Let_def)

text \<open>The readings fed so far and what the guard must hold after them.\<close>

definition dd_run :: "drawdown_config \<Rightarrow> real list \<Rightarrow> dd_guard" where
  "dd_run cfg vs = fold (\<lambda>v g. snd (dd_update cfg v g)) vs new_dd_guard"

lemma dd_run_snoc: "dd_run cfg (vs @ [v]) = snd (dd_update cfg v (dd_run cfg vs))"
  by (simp add: dd_run_def)

lemma dd_run_Nil [simp]: "dd_run cfg [] = new_dd_guard"
  by (simp add: dd_run_def)

lemma dd_run_peak:
  assumes "dd_enabled cfg" "\<not> dd_triggered (dd_run cfg vs)" "vs \<noteq> []"
  shows "dd_peak (dd_run cfg vs) = Some (Max (set vs))"
  using assms(2,3)
proof (induction vs rule: rev_induct)
  case (snoc v vs)
  let ?g = "dd_run cfg vs"
  have nt: "\<not> dd_triggered ?g"
    using snoc.prems(1) assms(1) by (auto simp: dd_run_snoc dd_update_def)
  show ?case
  proof (cases "vs = []")
    case True
    then show ?thesis
      using assms(1) by (simp add: dd_run_def dd_update_def new_dd_guard_def)
  next
    case False
    then have p: "dd_peak ?g = Some (Max (set vs))" using snoc.IH nt by simp
    have "Max (set (vs @ [v])) = max v (Max (set vs))" using False by simp
    then show ?thesis
      using nt p assms(1) snoc.prems(1) by (auto simp: dd_run_snoc dd_update_def Let_def split: if_splits)
  qed
qed simp

text \<open>an enabled guard that has not fired yet fires on a reading exactly when that reading is at
  or below the peak of all earlier readings less the configured percentage (and the peak is
  positive); until then its peak is the maximum of the readings.\<close>

theorem drawdown_fires_iff:
  assumes "dd_enabled cfg" "0 < max_drawdown_pct cfg" "vs \<noteq> []" "\<not> dd_triggered (dd_run cfg vs)"
  shows "dd_triggered (dd_run cfg (vs @ [v])) \<longleftrightarrow>
    0 < Max (set vs) \<and> v \<le> Max (set vs) * (1 - max_drawdown_pct cfg / 100)"
proof -
  define P where "P = Max (set vs)"
  have p: "dd_peak (dd_run cfg vs) = Some P"
    using dd_run_peak [OF assms(1,4,3)] by (simp add: P_def)
  have step: "dd_triggered (dd_run cfg (vs @ [v])) \<longleftrightarrow>
      \<not> P < v \<and> 0 < P \<and> max_drawdown_pct cfg \<le> (P - v) / P * 100"
    using assms(1,4) p by (auto simp: dd_run_snoc dd_update_def Let_def)
  have "max_drawdown_pct cfg \<le> (P - v) / P * 100 \<longleftrightarrow> v \<le> P * (1 - max_drawdown_pct cfg / 100)"
    if "0 < P" using that by (simp add: field_simps)
  moreover have "P * (1 - max_drawdown_pct cfg / 100) \<le> P" if "0 < P"
    using that assms(2) by (simp add: field_simps)
  ultimately have "dd_triggered (dd_run cfg (vs @ [v])) \<longleftrightarrow>
      0 < P \<and> v \<le> P * (1 - max_drawdown_pct cfg / 100)"
    unfolding step by (cases "0 < P") (auto simp: not_less intro: order_trans)
  then show ?thesis by (simp add: P_def)
qed

text \<open>once fired, the guard stays fired with the same reason through every later reading and
  through a restart that restores the persisted dict; only the operator's reset clears it, and it
  re-anchors the peak.\<close>

theorem drawdown_latched_across_restart:
  assumes "dd_triggered g"
  shows "dd_triggered (fold (\<lambda>v h. snd (dd_update cfg v h)) vs (dd_from_dict (dd_to_dict g) fresh))
    \<and> dd_reason (fold (\<lambda>v h. snd (dd_update cfg v h)) vs (dd_from_dict (dd_to_dict g) fresh)) = dd_reason g
    \<and> dd_from_dict (dd_to_dict g) fresh = g
    \<and> dd_peak (snd (dd_update (cfg\<lparr>dd_enabled := True\<rparr>) v (dd_reset g))) = Some v"
proof -
  have r: "dd_from_dict (dd_to_dict g) fresh = g"
    by (simp add: dd_from_dict_def dd_to_dict_def opt_get_def)
  have "dd_triggered (fold (\<lambda>v h. snd (dd_update cfg v h)) vs g)
      \<and> dd_reason (fold (\<lambda>v h. snd (dd_update cfg v h)) vs g) = dd_reason g"
    using assms
    by (induction vs arbitrary: g) (auto simp: dd_update_def)
  then show ?thesis unfolding r by (simp add: dd_update_def dd_reset_def)
qed

definition sample_dd :: drawdown_config where
  "sample_dd = default_drawdown\<lparr>dd_enabled := True\<rparr>"

theorem drawdown_fires_iff_witness:
  "dd_triggered (dd_run sample_dd ([1/10, 1/5, 19/100] @ [9/50])) \<longleftrightarrow>
     0 < Max (set [1/10, 1/5, 19/100 :: real]) \<and>
     9/50 \<le> Max (set [1/10, 1/5, 19/100]) * (1 - max_drawdown_pct sample_dd / 100)"
proof -
  have "dd_enabled sample_dd" "0 < max_drawdown_pct sample_dd"
    "\<not> dd_triggered (dd_run sample_dd [1/10, 1/5, 19/100])" by code_simp+
  then show ?thesis by (intro drawdown_fires_iff) simp_all
qed

theorem drawdown_latched_across_restart_witness:
  "dd_triggered (fold (\<lambda>v h. snd (dd_update sample_dd v h)) [1, 2, 3]
     (dd_from_dict (dd_to_dict (dd_run sample_dd [1/5, 9/50])) new_dd_guard))"
proof -
  have "dd_triggered (dd_run sample_dd [1/5, 9/50])" by code_simp
  from drawdown_latched_across_restart [OF this] show ?thesis by blast
qed

end
