(* ===== verification/Circuit_Breaker.thy ===== *)
theory Circuit_Breaker
  imports Reverto_Prelude
begin

text \<open>
  The circuit breaker of the outbound exchange calls (\<open>core/circuit_breaker.py\<close>) and the guarded
  calls of the public exchange client (\<open>exchanges/public_exchange.py\<close>).  \<open>time.time()\<close> is an
  argument of the operations that read it; the calls of the \<open>on_permanent_open\<close> callback are
  recorded in a log.  ccxt is not part of the repository: an upstream call is its outcome, and an
  exception is the list of class names of its MRO.
\<close>

section \<open>The breaker\<close>

record breaker =
  cb_name :: string
  failure_threshold :: int
  cooldown_seconds :: real
  failure_count :: int
  opened_since :: "real option"
  permanent_open :: bool
  has_callback :: bool
  callback_log :: "(string \<times> string) list"

definition new_breaker :: "string \<Rightarrow> int \<Rightarrow> real \<Rightarrow> bool \<Rightarrow> breaker" where
  "new_breaker name threshold cooldown cb =
     \<lparr>cb_name = name, failure_threshold = threshold, cooldown_seconds = cooldown,
      failure_count = 0, opened_since = None, permanent_open = False,
      has_callback = cb, callback_log = []\<rparr>"

definition breaker_is_open :: "real \<Rightarrow> breaker \<Rightarrow> bool \<times> breaker" where
  "breaker_is_open now b =
     (if permanent_open b then (True, b)
      else case opened_since b of
        None \<Rightarrow> (False, b)
      | Some t \<Rightarrow>
          if cooldown_seconds b \<le> now - t
          then (False, b\<lparr>opened_since := None, failure_count := 0\<rparr>)
          else (True, b))"

definition record_success :: "breaker \<Rightarrow> breaker" where
  "record_success b = b\<lparr>failure_count := 0\<rparr>"

definition enter_permanent_open :: "string \<Rightarrow> real \<Rightarrow> breaker \<Rightarrow> breaker" where
  "enter_permanent_open reason now b =
     (if permanent_open b then b
      else
        let b1 = b\<lparr>permanent_open := True, opened_since := Some now\<rparr> in
        if has_callback b1 then b1\<lparr>callback_log := callback_log b1 @ [(cb_name b1, reason)]\<rparr> else b1)"

definition record_failure :: "bool \<Rightarrow> real \<Rightarrow> breaker \<Rightarrow> breaker" where
  "record_failure permanent now b =
     (if permanent then enter_permanent_open ''permanent error'' now b
      else
        let b1 = b\<lparr>failure_count := failure_count b + 1\<rparr> in
        if opened_since b1 = None \<and> failure_threshold b1 \<le> failure_count b1
        then b1\<lparr>opened_since := Some now\<rparr> else b1)"

definition breaker_reset :: "breaker \<Rightarrow> breaker" where
  "breaker_reset b = b\<lparr>failure_count := 0, opened_since := None, permanent_open := False\<rparr>"

datatype breaker_event = Ask real | Success | Failure bool real

fun breaker_step :: "breaker_event \<Rightarrow> breaker \<Rightarrow> breaker" where
  "breaker_step (Ask now) b = snd (breaker_is_open now b)"
| "breaker_step Success b = record_success b"
| "breaker_step (Failure permanent now) b = record_failure permanent now b"

lemmas breaker_defs =
  breaker_is_open_def record_success_def enter_permanent_open_def record_failure_def

lemma breaker_step_static [frame_simps]:
  "failure_threshold (breaker_step e b) = failure_threshold b"
  "cooldown_seconds (breaker_step e b) = cooldown_seconds b"
  "has_callback (breaker_step e b) = has_callback b"
  "cb_name (breaker_step e b) = cb_name b"
  by (cases e; auto simp: breaker_defs Let_def split: option.split)+

interpretation permanent_latch: latch breaker_step "permanent_open :: breaker \<Rightarrow> bool"
proof
  fix b :: breaker and e assume "permanent_open b"
  then show "permanent_open (breaker_step e b)"
    by (cases e) (auto simp: breaker_defs Let_def)
qed

definition is_permanent_failure :: "breaker_event \<Rightarrow> bool" where
  "is_permanent_failure e = (case e of Failure p _ \<Rightarrow> p | _ \<Rightarrow> False)"

lemma breaker_step_permanent:
  "permanent_open (breaker_step e b) \<longleftrightarrow> permanent_open b \<or> is_permanent_failure e"
  by (cases e) (auto simp: breaker_defs is_permanent_failure_def Let_def split: option.split)

lemma breaker_step_log:
  "callback_log (breaker_step e b) = callback_log b @
     (if is_permanent_failure e \<and> \<not> permanent_open b \<and> has_callback b
      then [(cb_name b, ''permanent error'')] else [])"
  by (cases e) (auto simp: breaker_defs is_permanent_failure_def Let_def split: option.split)

lemma breaker_run_log:
  "callback_log (fold breaker_step es b) = callback_log b @
     (if has_callback b \<and> \<not> permanent_open b \<and> list_ex is_permanent_failure es
      then [(cb_name b, ''permanent error'')] else [])"
  by (induction es arbitrary: b)
    (auto simp: breaker_step_log breaker_step_permanent frame_simps)

lemma breaker_run_permanent:
  "permanent_open (fold breaker_step es b) \<longleftrightarrow> permanent_open b \<or> list_ex is_permanent_failure es"
  by (induction es arbitrary: b) (auto simp: breaker_step_permanent)

text \<open>after one permanent failure the breaker blocks at every later time, whatever queries,
  successes and failures follow; the operator is notified exactly once; and only the reset lets a
  call through again.\<close>

theorem permanent_open_until_reset:
  assumes "is_permanent_failure e" "e \<in> set es"
  shows "fst (breaker_is_open t (fold breaker_step es (new_breaker n th cd True)))
    \<and> callback_log (fold breaker_step es (new_breaker n th cd True)) = [(n, ''permanent error'')]
    \<and> \<not> fst (breaker_is_open t (breaker_reset (fold breaker_step es (new_breaker n th cd True))))"
proof -
  have ex: "list_ex is_permanent_failure es" using assms by (auto simp: list_ex_iff)
  then have "permanent_open (fold breaker_step es (new_breaker n th cd True))"
    by (simp add: breaker_run_permanent)
  then show ?thesis
    using ex by (simp add: breaker_is_open_def breaker_reset_def breaker_run_log)
      (simp add: new_breaker_def)
qed

section \<open>Transient failures\<close>

lemma transient_run:
  assumes "\<not> permanent_open b" "opened_since b = None" "0 \<le> failure_count b"
    "failure_count b + int (length ts) < failure_threshold b"
  shows "fold (record_failure False) ts b = b\<lparr>failure_count := failure_count b + int (length ts)\<rparr>"
  using assms
proof (induction ts arbitrary: b)
  case (Cons t ts)
  have "record_failure False t b = b\<lparr>failure_count := failure_count b + 1\<rparr>"
    using Cons.prems by (simp add: record_failure_def)
  with Cons show ?case by simp
qed simp

text \<open>from a closed breaker with no failures on record, fewer consecutive transient failures than
  the threshold leave it closed; the failure that reaches the threshold, at time \<open>t\<close>, opens it, and
  it then blocks exactly until the cooldown after \<open>t\<close> has elapsed.\<close>

theorem breaker_opens_at_threshold:
  assumes "\<not> permanent_open b" "opened_since b = None" "failure_count b = 0"
    "int (length ts) + 1 = failure_threshold b"
  shows "\<not> fst (breaker_is_open now (fold (record_failure False) ts b))
    \<and> (fst (breaker_is_open now (record_failure False t (fold (record_failure False) ts b)))
        \<longleftrightarrow> now < t + cooldown_seconds b)"
proof -
  have run: "fold (record_failure False) ts b = b\<lparr>failure_count := int (length ts)\<rparr>"
    using transient_run [of b ts] assms by simp
  show ?thesis
    unfolding run using assms by (auto simp: record_failure_def breaker_is_open_def)
qed

text \<open>after the cooldown the half-open probe starts counting from zero: with a threshold above
  one, a failed probe does not reopen the breaker (the documentation says it does); it takes the
  full number of failures again.\<close>

theorem half_open_probe_failure_does_not_reopen:
  assumes "\<not> permanent_open b" "opened_since b = Some t" "t + cooldown_seconds b \<le> now"
    "1 < failure_threshold b" "int (length ts) + 1 < failure_threshold b"
  shows "\<not> fst (breaker_is_open now b)
    \<and> \<not> fst (breaker_is_open later
          (fold (record_failure False) (ts @ [u]) (snd (breaker_is_open now b))))"
proof -
  have h: "breaker_is_open now b = (False, b\<lparr>opened_since := None, failure_count := 0\<rparr>)"
    using assms by (simp add: breaker_is_open_def)
  define c where "c = b\<lparr>opened_since := None, failure_count := 0\<rparr>"
  have "fold (record_failure False) (ts @ [u]) c = c\<lparr>failure_count := int (length (ts @ [u]))\<rparr>"
    using transient_run [of c "ts @ [u]"] assms by (simp add: c_def)
  then show ?thesis
    unfolding h fst_conv snd_conv c_def [symmetric] using assms(1)
    by (simp add: breaker_is_open_def c_def)
qed

section \<open>Guarded calls of the public exchange\<close>

datatype 'a outcome = Returned 'a | Raised "string list"

definition permanent_ccxt_errors :: "string list" where
  "permanent_ccxt_errors =
     [''AuthenticationError'', ''PermissionDenied'', ''AccountSuspended'', ''BadSymbol'']"

definition is_permanent_error :: "string list \<Rightarrow> bool" where
  "is_permanent_error mro = list_ex (\<lambda>c. c \<in> set permanent_ccxt_errors) mro"

text \<open>
  \<open>guarded_fetch\<close> is the common body of \<open>get_ticker\<close> and \<open>get_ohlcv\<close> up to the return of the
  upstream data; the first component of the result says whether the upstream was called.
\<close>

definition guarded_fetch ::
  "real \<Rightarrow> real \<Rightarrow> 'a outcome \<Rightarrow> breaker \<Rightarrow> bool \<times> 'a res \<times> breaker" where
  "guarded_fetch now fail_time upstream b =
     (case breaker_is_open now b of
        (True, b1) \<Rightarrow> (False, Inl CircuitOpenError, b1)
      | (False, b1) \<Rightarrow>
          (case upstream of
             Raised mro \<Rightarrow>
               (True, Inl (ExternalError mro),
                record_failure (is_permanent_error mro) fail_time b1)
           | Returned v \<Rightarrow> (True, Inr v, record_success b1)))"

record raw_ticker =
  raw_bid :: "real option"
  raw_ask :: "real option"
  raw_last :: "real option"
  raw_mark :: "real option"

record ticker =
  tk_bid :: real
  tk_ask :: real
  tk_last :: real
  tk_mark_price :: "real option"

definition or_zero :: "real option \<Rightarrow> real" where
  "or_zero x = (case x of None \<Rightarrow> 0 | Some v \<Rightarrow> v)"

text \<open>
  \<open>get_ticker\<close>.  \<open>raw_mark\<close> is the mark price already parsed as a float; it is \<open>None\<close> where the
  field is absent, empty or not a number, the three cases the code folds together.
\<close>

definition get_ticker ::
  "real \<Rightarrow> real \<Rightarrow> raw_ticker outcome \<Rightarrow> breaker \<Rightarrow> bool \<times> ticker res \<times> breaker" where
  "get_ticker now fail_time upstream b =
     (case guarded_fetch now fail_time upstream b of
        (called, Inl e, b1) \<Rightarrow> (called, Inl e, b1)
      | (called, Inr d, b1) \<Rightarrow>
          (called,
           Inr \<lparr>tk_bid = or_zero (raw_bid d), tk_ask = or_zero (raw_ask d),
                tk_last = or_zero (raw_last d), tk_mark_price = raw_mark d\<rparr>, b1))"

text \<open>A run of calls: the time of each call and what the upstream would answer.\<close>

fun call_run :: "(real \<times> real \<times> raw_ticker outcome) list \<Rightarrow> breaker \<Rightarrow> nat \<times> breaker" where
  "call_run [] b = (0, b)"
| "call_run ((now, ft, u) # cs) b =
     (case get_ticker now ft u b of
        (called, _, b1) \<Rightarrow> (case call_run cs b1 of (n, b2) \<Rightarrow> ((if called then Suc n else n), b2)))"

lemma guarded_fetch_permanent:
  "permanent_open b \<Longrightarrow> guarded_fetch now ft u b = (False, Inl CircuitOpenError, b)"
  by (simp add: guarded_fetch_def breaker_is_open_def)

lemma call_run_permanent: "permanent_open b \<Longrightarrow> call_run cs b = (0, b)"
  by (induction cs) (auto simp: get_ticker_def guarded_fetch_permanent)

lemma get_ticker_permanent:
  "permanent_open b \<Longrightarrow> get_ticker t t' u b = (False, Inl CircuitOpenError, b)"
  by (simp add: get_ticker_def guarded_fetch_permanent)

text \<open>a rejected key ends the traffic: once a call has raised an exception of a permanent class,
  no later call reaches the exchange; each is answered with the circuit-open error.\<close>

theorem no_calls_after_permanent_error:
  assumes "fst (guarded_fetch now ft (Raised mro :: raw_ticker outcome) b)" "is_permanent_error mro"
  shows "fst (call_run cs (snd (snd (get_ticker now ft (Raised mro) b)))) = 0
    \<and> fst (snd (get_ticker t t' u (snd (call_run cs (snd (snd (get_ticker now ft (Raised mro) b)))))))
      = Inl CircuitOpenError"
proof -
  define b' where "b' = snd (snd (get_ticker now ft (Raised mro) b))"
  have "permanent_open b'"
    using assms
    by (auto simp: b'_def get_ticker_def guarded_fetch_def record_failure_def
        enter_permanent_open_def Let_def split: prod.splits bool.splits)
  then show ?thesis
    unfolding b'_def [symmetric] by (simp add: call_run_permanent get_ticker_permanent)
qed

section \<open>Witnesses\<close>

definition sample_breaker :: breaker where
  "sample_breaker = new_breaker ''public-bitget'' 5 60 True"

theorem permanent_open_until_reset_witness:
  "fst (breaker_is_open 1000000 (fold breaker_step [Failure True 1, Success, Ask 100] sample_breaker))"
  using permanent_open_until_reset [of "Failure True 1" "[Failure True 1, Success, Ask 100]" 1000000
      "''public-bitget''" 5 60]
  by (simp add: is_permanent_failure_def sample_breaker_def)

theorem breaker_opens_at_threshold_witness:
  "\<not> fst (breaker_is_open 50 (fold (record_failure False) [1, 2, 3, 4] sample_breaker))
   \<and> fst (breaker_is_open 50 (record_failure False 5 (fold (record_failure False) [1, 2, 3, 4] sample_breaker)))"
  using breaker_opens_at_threshold [of sample_breaker "[1, 2, 3, 4]" 50 5]
  by (simp add: sample_breaker_def new_breaker_def)

theorem half_open_probe_failure_does_not_reopen_witness:
  "\<not> fst (breaker_is_open 71 (fold (record_failure False) ([] @ [70])
      (snd (breaker_is_open 70 (sample_breaker\<lparr>opened_since := Some 5, failure_count := 5\<rparr>)))))"
  using half_open_probe_failure_does_not_reopen
    [of "sample_breaker\<lparr>opened_since := Some 5, failure_count := 5\<rparr>" 5 70 "[]" 71 70]
  by (simp add: sample_breaker_def new_breaker_def)

theorem no_calls_after_permanent_error_witness:
  "fst (call_run [(2, 2, Returned \<lparr>raw_bid = None, raw_ask = None, raw_last = Some 1, raw_mark = None\<rparr>)]
     (snd (snd (get_ticker 1 1 (Raised [''AuthenticationError'', ''ExchangeError'']) sample_breaker)))) = 0"
proof -
  have "fst (guarded_fetch 1 1 (Raised [''AuthenticationError'', ''ExchangeError''] :: raw_ticker outcome) sample_breaker)"
    "is_permanent_error [''AuthenticationError'', ''ExchangeError'']"
    by code_simp+
  from no_calls_after_permanent_error [OF this] show ?thesis by blast
qed

end
