(* ===== verification/Rate_Budget.thy ===== *)
theory Rate_Budget
  imports Reverto_Prelude
begin

text \<open>
  The cost-based token bucket in front of the candle endpoint (\<open>core/rate_budget.py\<close>) and the
  cached clock-skew check of the live engine (\<open>core/clock_monitor.py\<close>).  \<open>time.time()\<close> is an
  argument.
\<close>

section \<open>Token buckets\<close>

record cost_budget =
  budget :: real
  refill_rate :: real
  buckets :: "(string \<times> real \<times> real) list"

definition new_cost_budget :: "int \<Rightarrow> int \<Rightarrow> cost_budget" where
  "new_cost_budget b r = \<lparr>budget = of_int b, refill_rate = of_int r, buckets = []\<rparr>"

definition bucket_get :: "string \<Rightarrow> real \<Rightarrow> cost_budget \<Rightarrow> real \<times> real" where
  "bucket_get key now c = (case map_of (buckets c) key of None \<Rightarrow> (now, budget c) | Some p \<Rightarrow> p)"

definition refilled :: "string \<Rightarrow> real \<Rightarrow> cost_budget \<Rightarrow> real" where
  "refilled key now c =
     (case bucket_get key now c of (last_ts, remaining) \<Rightarrow>
        let elapsed = max 0 (now - last_ts) in
        min (budget c) (remaining + elapsed * refill_rate c))"

definition consume :: "string \<Rightarrow> int \<Rightarrow> real \<Rightarrow> cost_budget \<Rightarrow> bool \<times> cost_budget" where
  "consume key cost now c =
     (if cost \<le> 0 then (True, c)
      else
        let remaining = refilled key now c in
        if remaining < of_int cost
        then (False, c\<lparr>buckets := AList.update key (now, remaining) (buckets c)\<rparr>)
        else (True, c\<lparr>buckets := AList.update key (now, remaining - of_int cost) (buckets c)\<rparr>))"

definition peek :: "string \<Rightarrow> real \<Rightarrow> cost_budget \<Rightarrow> real" where
  "peek key now c = refilled key now c"

definition budget_reset :: "string option \<Rightarrow> cost_budget \<Rightarrow> cost_budget" where
  "budget_reset k c =
     (case k of None \<Rightarrow> c\<lparr>buckets := []\<rparr> | Some key \<Rightarrow> c\<lparr>buckets := AList.delete key (buckets c)\<rparr>)"

text \<open>One caller's requests, in order: what was granted in total, and the bucket afterwards.\<close>

fun consume_run :: "string \<Rightarrow> (real \<times> int) list \<Rightarrow> cost_budget \<Rightarrow> int \<times> cost_budget" where
  "consume_run key [] c = (0, c)"
| "consume_run key ((now, cost) # rs) c =
     (case consume key cost now c of (ok, c1) \<Rightarrow>
        (case consume_run key rs c1 of (g, c2) \<Rightarrow> ((if ok \<and> 0 < cost then cost + g else g), c2)))"

definition bucket_wf :: "cost_budget \<Rightarrow> bool" where
  "bucket_wf c = (0 \<le> budget c \<and> 0 \<le> refill_rate c \<and>
     list_all (\<lambda>(_, _, r). 0 \<le> r \<and> r \<le> budget c) (buckets c))"

lemma consume_static [frame_simps]:
  "budget (snd (consume key cost now c)) = budget c"
  "refill_rate (snd (consume key cost now c)) = refill_rate c"
  by (simp_all add: consume_def Let_def)

lemma bucket_get_wf:
  assumes "bucket_wf c"
  shows "0 \<le> snd (bucket_get key now c)" "snd (bucket_get key now c) \<le> budget c"
proof -
  have "0 \<le> r \<and> r \<le> budget c" if "map_of (buckets c) key = Some (t, r)" for t r
    using assms map_of_SomeD [OF that] by (auto simp: bucket_wf_def list_all_iff)
  then show "0 \<le> snd (bucket_get key now c)" "snd (bucket_get key now c) \<le> budget c"
    using assms by (auto simp: bucket_get_def bucket_wf_def split: option.split)
qed

lemma refilled_bounds:
  assumes "bucket_wf c"
  shows "0 \<le> refilled key now c" "refilled key now c \<le> budget c"
  using bucket_get_wf [OF assms, of key now] assms
  by (auto simp: refilled_def Let_def bucket_wf_def split: prod.split)

lemma consume_wf [wf_intros]:
  assumes "bucket_wf c"
  shows "bucket_wf (snd (consume key cost now c))"
  using assms refilled_bounds [OF assms, of key now] set_update_subset
  by (fastforce simp: consume_def Let_def bucket_wf_def list_all_iff)

lemma consume_bucket:
  assumes "0 < cost"
  shows "bucket_get key now' (snd (consume key cost now c)) =
    (now, refilled key now c - (if fst (consume key cost now c) then of_int cost else 0))"
  using assms by (simp add: consume_def Let_def bucket_get_def update_conv)

lemma consume_grant_le: "fst (consume key cost now c) \<Longrightarrow> 0 < cost \<Longrightarrow> of_int cost \<le> refilled key now c"
  by (auto simp: consume_def Let_def split: if_splits)

text \<open>The potential argument: what is left plus what was granted never exceeds what was there at
  the start of the window plus the refill of the window.\<close>

lemma consume_run_potential:
  assumes "bucket_wf c" "sorted (map fst rs)" "\<forall>r \<in> set rs. 0 < snd r"
    "rs \<noteq> [] \<longrightarrow> fst (bucket_get key (fst (hd rs)) c) \<le> fst (hd rs)"
  shows "rs \<noteq> [] \<longrightarrow> of_int (fst (consume_run key rs c)) \<le>
    refilled key (fst (hd rs)) c + refill_rate c * (fst (last rs) - fst (hd rs))"
  using assms
proof (induction rs arbitrary: c)
  case (Cons r rs)
  obtain now cost where r: "r = (now, cost)" by (cases r)
  define ok where "ok = fst (consume key cost now c)"
  define c1 where "c1 = snd (consume key cost now c)"
  have cost: "0 < cost" using Cons.prems r by simp
  have wf1: "bucket_wf c1" using Cons.prems(1) by (simp add: c1_def wf_intros)
  have run: "fst (consume_run key (r # rs) c)
      = (if ok then cost else 0) + fst (consume_run key rs c1)"
    by (simp add: r ok_def c1_def cost split: prod.split)
  have static: "budget c1 = budget c" "refill_rate c1 = refill_rate c"
    by (simp_all add: c1_def frame_simps)
  have get1: "bucket_get key t c1 = (now, refilled key now c - (if ok then of_int cost else 0))" for t
    unfolding c1_def ok_def by (rule consume_bucket [OF cost])
  have left: "(if ok then of_int cost else 0) \<le> refilled key now c"
    using consume_grant_le [of key cost now c] refilled_bounds [OF Cons.prems(1), of key now] cost
    by (auto simp: ok_def)
  show ?case
  proof (cases "rs = []")
    case True
    have "of_int (fst (consume_run key (r # rs) c)) \<le> refilled key now c"
      unfolding run using left True by (auto split: if_splits)
    with True show ?thesis by (simp add: r)
  next
    case False
    let ?t = "fst (hd rs)"
    have t: "now \<le> ?t" using Cons.prems(2) False by (cases rs) (auto simp: r)
    have "of_int (fst (consume_run key rs c1)) \<le>
        refilled key ?t c1 + refill_rate c1 * (fst (last rs) - ?t)"
      using Cons.IH [OF wf1] Cons.prems(2,3) False t by (auto simp: get1)
    also have "refilled key ?t c1 \<le>
        refilled key now c - (if ok then of_int cost else 0) + (?t - now) * refill_rate c"
      using t by (auto simp: refilled_def [of key ?t c1] get1 static)
    finally have "of_int (fst (consume_run key (r # rs) c)) \<le>
        refilled key now c + refill_rate c * (fst (last rs) - now)"
      unfolding run by (simp add: static algebra_simps split: if_splits)
    with False show ?thesis by (simp add: r)
  qed
qed simp

text \<open>rate bound: in any window of requests of one caller in time order, the points granted are
  at most the budget plus the refill over the window, and the buckets of other callers are not
  touched.\<close>

theorem rate_budget_bound:
  assumes "bucket_wf c" "map_of (buckets c) key = None" "rs \<noteq> []" "sorted (map fst rs)"
    "\<forall>r \<in> set rs. 0 < snd r"
  shows "of_int (fst (consume_run key rs c)) \<le> budget c + refill_rate c * (fst (last rs) - fst (hd rs))
    \<and> (other \<noteq> key \<longrightarrow> bucket_get other t (snd (consume_run key rs c)) = bucket_get other t c)"
proof
  have "fst (bucket_get key (fst (hd rs)) c) \<le> fst (hd rs)"
    using assms(2) by (simp add: bucket_get_def)
  then have "of_int (fst (consume_run key rs c)) \<le>
      refilled key (fst (hd rs)) c + refill_rate c * (fst (last rs) - fst (hd rs))"
    using consume_run_potential [OF assms(1,4,5)] assms(3) by simp
  then show "of_int (fst (consume_run key rs c)) \<le>
      budget c + refill_rate c * (fst (last rs) - fst (hd rs))"
    using refilled_bounds(2) [OF assms(1), of key "fst (hd rs)"] by linarith
  have one: "bucket_get other t (snd (consume key cost now d)) = bucket_get other t d"
    if "other \<noteq> key" for cost now d
  proof -
    have "map_of (buckets (snd (consume key cost now d))) other = map_of (buckets d) other"
      using that by (simp add: consume_def Let_def update_conv)
    then show ?thesis by (simp add: bucket_get_def frame_simps split: option.split)
  qed
  have "bucket_get other t (snd (consume_run key rs d)) = bucket_get other t d"
    if "other \<noteq> key" for d
  proof (induction rs arbitrary: d)
    case (Cons r rs)
    show ?case
      using Cons.IH [of "snd (consume key (snd r) (fst r) d)"] one [OF that, of "snd r" "fst r" d]
      by (cases r) (auto split: prod.split)
  qed simp
  then show "other \<noteq> key \<longrightarrow> bucket_get other t (snd (consume_run key rs c)) = bucket_get other t c"
    by blast
qed

theorem rate_budget_bound_witness:
  "of_int (fst (consume_run ''u1'' [(0, 5000), (1, 5000), (2, 5000)] (new_cost_budget 10000 100)))
     \<le> (10000 + 100 * (2 - 0) :: real)"
  using rate_budget_bound [of "new_cost_budget 10000 100" "''u1''" "[(0, 5000), (1, 5000), (2, 5000)]"]
  by (simp add: new_cost_budget_def bucket_wf_def)

section \<open>Clock skew\<close>

record clock_monitor =
  max_skew_seconds :: real
  last_check :: real
  last_skew :: real
  last_ok :: bool

definition new_clock_monitor :: "real \<Rightarrow> clock_monitor" where
  "new_clock_monitor tol = \<lparr>max_skew_seconds = tol, last_check = 0, last_skew = 0, last_ok = True\<rparr>"

text \<open>What the exchange's time endpoint does: absent, failing, or a reading in milliseconds with the
  local clock's milliseconds.\<close>

datatype time_probe = No_Fetch_Time | Fetch_Failed | Fetched int int

definition clock_check :: "real \<Rightarrow> time_probe \<Rightarrow> clock_monitor \<Rightarrow> (real \<times> bool) \<times> clock_monitor" where
  "clock_check now probe m =
     (if now - last_check m < 60 then ((last_skew m, last_ok m), m)
      else case probe of
        No_Fetch_Time \<Rightarrow> ((0, True), m\<lparr>last_check := now, last_skew := 0, last_ok := True\<rparr>)
      | Fetched exchange_ms local_ms \<Rightarrow>
          let skew = of_int (exchange_ms - local_ms) / 1000; ok = \<bar>skew\<bar> \<le> max_skew_seconds m in
          ((skew, ok), m\<lparr>last_check := now, last_skew := skew, last_ok := ok\<rparr>)
      | Fetch_Failed \<Rightarrow> ((last_skew m, True), m\<lparr>last_check := now\<rparr>))"

lemma clock_check_fail_open:
  "60 \<le> now - last_check m \<Longrightarrow> snd (fst (clock_check now Fetch_Failed m))"
  by (simp add: clock_check_def)

lemma clock_check_cached:
  "now - last_check m < 60 \<Longrightarrow> clock_check now probe m = ((last_skew m, last_ok m), m)"
  by (simp add: clock_check_def)

end
