(* ===== verification/Liquidation_Guard.thy ===== *)
theory Liquidation_Guard
  imports Bot_Config
begin

text \<open>
  The liquidation estimate of the inverse perpetual and the warning state machine over it
  (\<open>core/liquidation_guard.py\<close>).  The notifier is the log of the messages sent; the background
  thread runs \<open>check_all_positions\<close> over the last snapshot the engine handed over.
\<close>

section \<open>The estimate\<close>

definition maintenance_margin_rate :: real where
  "maintenance_margin_rate = 5 / 1000"

definition liq_taker_fee :: real where
  "liq_taker_fee = 6 / 10000"

definition calculate_liquidation_price :: "real \<Rightarrow> int \<Rightarrow> string \<Rightarrow> real \<Rightarrow> real \<Rightarrow> real" where
  "calculate_liquidation_price entry_price lev s mmr fee =
     (if lev \<le> 1 then 0
      else if s = ''long'' then
        let factor = 1 - (1 - mmr) / of_int lev + fee; liq = entry_price * factor in
        if entry_price \<le> liq then 0 else py_round liq 2
      else
        let factor = 1 + (1 - mmr) / of_int lev - fee; liq = entry_price * factor in
        if liq \<le> entry_price then 0 else py_round liq 2)"

definition liq_price_of :: "real \<Rightarrow> int \<Rightarrow> string \<Rightarrow> real" where
  "liq_price_of entry_price lev s =
     calculate_liquidation_price entry_price lev s maintenance_margin_rate liq_taker_fee"

lemma py_round_cents: "\<bar>py_round x 2 - x\<bar> \<le> 1 / 200"
  using py_round_error [of x 2] by simp

text \<open>for every leverage the configuration accepts above one, the estimate lies, up to the
  rounding to cents, strictly on the losing side of the entry: at the long or short formula's
  value, and at least a fixed fraction of the entry away from it.\<close>

theorem liquidation_price_on_losing_side:
  assumes "2 \<le> lev" "lev \<le> 125" "0 < entry_price"
  shows "\<bar>liq_price_of entry_price lev ''long'' - entry_price * (1 - 995 / 1000 / of_int lev + 6 / 10000)\<bar> \<le> 1 / 200
    \<and> \<bar>liq_price_of entry_price lev ''short'' - entry_price * (1 + 995 / 1000 / of_int lev - 6 / 10000)\<bar> \<le> 1 / 200
    \<and> liq_price_of entry_price lev ''long'' \<le> entry_price - 7 / 1000 * entry_price + 1 / 200
    \<and> entry_price + 7 / 1000 * entry_price - 1 / 200 \<le> liq_price_of entry_price lev ''short''"
proof -
  define q where "q = 995 / 1000 / (of_int lev :: real)"
  have lev: "2 \<le> (of_int lev :: real)" "(of_int lev :: real) \<le> 125"
    using assms(1,2) by (simp_all add: of_int_le_iff [of _ 125, simplified])
  have q: "796 / 100000 \<le> q" using lev by (simp add: q_def field_simps)
  then have m: "entry_price * (796 / 100000) \<le> entry_price * q"
    using assms(3) by (intro mult_left_mono) auto
  have sides: "entry_price * (1 - q + 6 / 10000) < entry_price" "entry_price < entry_price * (1 + q - 6 / 10000)"
    unfolding distrib_left right_diff_distrib using m assms(3) by linarith+
  then have "liq_price_of entry_price lev ''long'' = py_round (entry_price * (1 - q + 6 / 10000)) 2
    \<and> liq_price_of entry_price lev ''short'' = py_round (entry_price * (1 + q - 6 / 10000)) 2"
    using assms(1) unfolding liq_price_of_def calculate_liquidation_price_def Let_def q_def
      maintenance_margin_rate_def liq_taker_fee_def by simp
  then have long: "liq_price_of entry_price lev ''long'' = py_round (entry_price * (1 - q + 6 / 10000)) 2"
    and short: "liq_price_of entry_price lev ''short'' = py_round (entry_price * (1 + q - 6 / 10000)) 2"
    by simp_all
  note r = py_round_cents
  have a: "entry_price * (1 - q + 6 / 10000) \<le> entry_price - 7 / 1000 * entry_price"
    "entry_price + 7 / 1000 * entry_price \<le> entry_price * (1 + q - 6 / 10000)"
    unfolding distrib_left right_diff_distrib using m assms(3) by linarith+
  show ?thesis
    unfolding long short q_def [symmetric]
    using r [of "entry_price * (1 - q + 6 / 10000)"] r [of "entry_price * (1 + q - 6 / 10000)"] a
    by (intro conjI) linarith+
qed

theorem liquidation_price_on_losing_side_witness:
  "\<bar>liq_price_of 100000 10 ''long'' - 100000 * (1 - 995 / 1000 / of_int 10 + 6 / 10000)\<bar> \<le> 1 / 200"
  using liquidation_price_on_losing_side [of 10 100000] by simp

section \<open>The warning state machine\<close>

record position =
  pos_deal_id :: string
  pos_symbol :: string
  pos_side :: string
  pos_entry_price :: real
  pos_mark_price :: real
  pos_leverage :: int

datatype liq_message = Liq_Emergency string real | Liq_Warning string real real real

record liq_guard =
  lq_warn_pct :: real
  lq_emergency_pct :: real
  guard_active :: bool
  positions :: "position list"
  warned :: "(string \<times> string) list"
  liq_sent :: "liq_message list"

definition new_liq_guard :: "leverage_config \<Rightarrow> liq_guard" where
  "new_liq_guard l =
     \<lparr>lq_warn_pct = warn_pct (lev_liq_guard l), lq_emergency_pct = emergency_close_pct (lev_liq_guard l),
      guard_active = lev_enabled l, positions = [], warned = [], liq_sent = []\<rparr>"

definition update_positions :: "position list \<Rightarrow> liq_guard \<Rightarrow> liq_guard" where
  "update_positions ps g = g\<lparr>positions := ps\<rparr>"

definition liq_distance :: "real \<Rightarrow> real \<Rightarrow> real" where
  "liq_distance mark liq = py_round (\<bar>mark - liq\<bar> / mark * 100) 2"

definition check_position :: "position \<Rightarrow> liq_guard \<Rightarrow> liq_guard" where
  "check_position p g =
     (if pos_leverage p \<le> 1 then g
      else if pos_mark_price p \<le> 0 then g
      else
        let liq = liq_price_of (pos_entry_price p) (pos_leverage p) (pos_side p) in
        if liq \<le> 0 then g
        else
          let distance = liq_distance (pos_mark_price p) liq;
              last_warning = map_of (warned g) (pos_deal_id p) in
          if distance \<le> lq_emergency_pct g then
            (if last_warning \<noteq> Some ''emergency''
             then g\<lparr>liq_sent := liq_sent g @ [Liq_Emergency (pos_symbol p) distance],
                    warned := AList.update (pos_deal_id p) ''emergency'' (warned g)\<rparr>
             else g)
          else if distance \<le> lq_warn_pct g then
            (if last_warning \<notin> {Some ''warn'', Some ''emergency''}
             then g\<lparr>liq_sent := liq_sent g @ [Liq_Warning (pos_symbol p) (pos_mark_price p) liq distance],
                    warned := AList.update (pos_deal_id p) ''warn'' (warned g)\<rparr>
             else g)
          else g\<lparr>warned := AList.delete (pos_deal_id p) (warned g)\<rparr>)"

definition check_all_positions :: "liq_guard \<Rightarrow> liq_guard" where
  "check_all_positions g = fold check_position (positions g) g"

text \<open>The abstract machine: a severity per deal, and a message exactly when it rises.\<close>

definition severity :: "liq_guard \<Rightarrow> real \<Rightarrow> nat" where
  "severity g d = (if d \<le> lq_emergency_pct g then 2 else if d \<le> lq_warn_pct g then 1 else 0)"

definition level_name :: "string option \<Rightarrow> nat" where
  "level_name w = (if w = Some ''emergency'' then 2 else if w = Some ''warn'' then 1 else 0)"

definition level_of :: "liq_guard \<Rightarrow> string \<Rightarrow> nat" where
  "level_of g i = level_name (map_of (warned g) i)"

definition next_level :: "nat \<Rightarrow> nat \<Rightarrow> nat" where
  "next_level sev old = (if sev = 0 then 0 else max old sev)"

definition checkable :: "position \<Rightarrow> bool" where
  "checkable p = (1 < pos_leverage p \<and> 0 < pos_mark_price p \<and>
     0 < liq_price_of (pos_entry_price p) (pos_leverage p) (pos_side p))"

definition reading :: "position \<Rightarrow> real" where
  "reading p = liq_distance (pos_mark_price p) (liq_price_of (pos_entry_price p) (pos_leverage p) (pos_side p))"

lemma check_position_static [frame_simps]:
  "lq_warn_pct (check_position p g) = lq_warn_pct g"
  "lq_emergency_pct (check_position p g) = lq_emergency_pct g"
  "positions (check_position p g) = positions g"
  by (simp_all add: check_position_def Let_def)

lemma severity_check [frame_simps]: "severity (check_position p g) = severity g"
  by (rule ext) (simp add: severity_def frame_simps)

lemma check_position_level:
  assumes "checkable p"
  shows "level_of (check_position p g) (pos_deal_id p) =
    next_level (severity g (reading p)) (level_of g (pos_deal_id p))"
  using assms
  by (auto simp: check_position_def Let_def checkable_def reading_def level_of_def level_name_def
      severity_def next_level_def map_of_delete update_conv' delete_conv')

lemma check_position_sent:
  assumes "checkable p"
  shows "length (liq_sent (check_position p g)) = length (liq_sent g) +
    (if level_of g (pos_deal_id p) < severity g (reading p) then 1 else 0)"
  using assms
  by (auto simp: check_position_def Let_def checkable_def reading_def level_of_def level_name_def
      severity_def)

lemma check_position_other:
  "i \<noteq> pos_deal_id p \<Longrightarrow> level_of (check_position p g) i = level_of g i"
  by (auto simp: check_position_def Let_def level_of_def update_conv' delete_conv')

text \<open>The level a run of severities leads to: the worst since the last safe reading.\<close>

fun levels_from :: "nat \<Rightarrow> nat list \<Rightarrow> nat \<times> nat" where
  "levels_from old [] = (old, 0)"
| "levels_from old (s # ss) =
     (case levels_from (next_level s old) ss of
        (l, n) \<Rightarrow> (l, (if old < s then Suc n else n)))"

lemma check_run_refines:
  assumes "\<forall>p \<in> set ps. checkable p \<and> pos_deal_id p = i"
  shows "level_of (fold check_position ps g) i = fst (levels_from (level_of g i) (map (severity g \<circ> reading) ps))
    \<and> length (liq_sent (fold check_position ps g)) =
      length (liq_sent g) + snd (levels_from (level_of g i) (map (severity g \<circ> reading) ps))"
  using assms
proof (induction ps arbitrary: g)
  case (Cons p ps)
  have p: "checkable p" "pos_deal_id p = i" using Cons.prems by auto
  have "severity (check_position p g) \<circ> reading = severity g \<circ> reading"
    by (simp add: frame_simps)
  with Cons.IH [of "check_position p g"] Cons.prems check_position_level [OF p(1), of g]
    check_position_sent [OF p(1), of g] p(2)
  show ?case by (auto split: prod.split)
qed simp

lemma levels_worst:
  "0 \<notin> set ss \<Longrightarrow> fst (levels_from old ss) = Max (insert old (set ss)) \<and> snd (levels_from old ss) \<le> fst (levels_from old ss) - old"
proof (induction ss arbitrary: old)
  case (Cons s ss)
  have IH: "fst (levels_from (max old s) ss) = Max (insert (max old s) (set ss))"
    "snd (levels_from (max old s) ss) \<le> fst (levels_from (max old s) ss) - max old s"
    using Cons.IH [of "max old s"] Cons.prems by auto
  have n: "next_level s old = max old s" using Cons.prems by (simp add: next_level_def)
  define m where "m = Max (insert (max old s) (set ss))"
  have "Max (insert old (set (s # ss))) = m"
    by (cases "ss = []") (simp_all add: max.assoc m_def)
  moreover have "max old s \<le> m" unfolding m_def by (rule Max_ge) auto
  moreover have "fst (levels_from old (s # ss)) = fst (levels_from (max old s) ss)"
    "snd (levels_from old (s # ss)) = snd (levels_from (max old s) ss) + (if old < s then 1 else 0)"
    by (simp_all add: n split: prod.split)
  ultimately show ?case
    using IH [folded m_def] by (auto simp only: max_def split: if_splits)
qed simp

text \<open>while the readings of a deal stay inside the warning distance, the guard remembers the
  worst level seen and sends at most one message per level it climbs: two at most, however many
  readings there are.\<close>

theorem liquidation_warnings_not_repeated:
  assumes "\<forall>p \<in> set ps. checkable p \<and> pos_deal_id p = i \<and> severity g (reading p) \<noteq> 0"
  shows "level_of (fold check_position ps g) i =
      Max (insert (level_of g i) (set (map (severity g \<circ> reading) ps)))
    \<and> length (liq_sent (fold check_position ps g)) \<le> length (liq_sent g) + (2 - level_of g i)"
proof -
  let ?ss = "map (severity g \<circ> reading) ps"
  have z: "0 \<notin> set ?ss" using assms by force
  have le: "Max (insert (level_of g i) (set ?ss)) \<le> 2"
    by (auto simp: level_of_def level_name_def severity_def)
  have fs: "fst (levels_from (level_of g i) ?ss) = Max (insert (level_of g i) (set ?ss))"
    "snd (levels_from (level_of g i) ?ss) \<le> 2 - level_of g i"
    using levels_worst [OF z, of "level_of g i"] le by linarith+
  have "\<forall>p \<in> set ps. checkable p \<and> pos_deal_id p = i" using assms by blast
  from check_run_refines [OF this, of g] fs show ?thesis by linarith
qed

text \<open>the distance is an absolute value: a long whose mark price has fallen through the estimate
  by more than the warning distance reads as safe; nothing is sent and the warning is cleared.\<close>

theorem past_liquidation_reads_safe:
  assumes "checkable p" "pos_side p = ''long''"
    "pos_mark_price p * (1 + (max (lq_warn_pct g) (lq_emergency_pct g) + 1) / 100)
      \<le> liq_price_of (pos_entry_price p) (pos_leverage p) ''long''"
  shows "liq_sent (check_position p g) = liq_sent g
    \<and> map_of (warned (check_position p g)) (pos_deal_id p) = None"
proof -
  let ?liq = "liq_price_of (pos_entry_price p) (pos_leverage p) ''long''"
  have m: "0 < pos_mark_price p" using assms(1) by (simp add: checkable_def)
  have "pos_mark_price p * ((max (lq_warn_pct g) (lq_emergency_pct g) + 1) / 100) \<le> ?liq - pos_mark_price p"
    using assms(3) by (simp add: algebra_simps)
  then have "max (lq_warn_pct g) (lq_emergency_pct g) + 1 \<le> (?liq - pos_mark_price p) / pos_mark_price p * 100"
    using m by (simp add: field_simps)
  also have "\<dots> \<le> \<bar>pos_mark_price p - ?liq\<bar> / pos_mark_price p * 100"
    using m by (intro mult_right_mono divide_right_mono) auto
  finally have "max (lq_warn_pct g) (lq_emergency_pct g) < reading p"
    unfolding reading_def liq_distance_def assms(2)
    using py_round_cents [of "\<bar>pos_mark_price p - ?liq\<bar> / pos_mark_price p * 100"] by linarith
  then show ?thesis
    using assms(1) by (simp add: check_position_def Let_def checkable_def reading_def delete_conv')
qed

definition sample_position :: "real \<Rightarrow> position" where
  "sample_position mark =
     \<lparr>pos_deal_id = ''d1'', pos_symbol = ''BTC/USD'', pos_side = ''long'', pos_entry_price = 100000,
      pos_mark_price = mark, pos_leverage = 10\<rparr>"

definition sample_liq_guard :: liq_guard where
  "sample_liq_guard = \<lparr>lq_warn_pct = 15, lq_emergency_pct = 5, guard_active = True, positions = [],
     warned = [(''d1'', ''warn'')], liq_sent = []\<rparr>"

theorem liquidation_warnings_not_repeated_witness:
  "level_of (fold check_position [sample_position 99000, sample_position 94000] sample_liq_guard) ''d1''
     = Max (insert (level_of sample_liq_guard ''d1'')
         (set (map (severity sample_liq_guard \<circ> reading) [sample_position 99000, sample_position 94000])))"
proof -
  have "\<forall>p \<in> set [sample_position 99000, sample_position 94000]. checkable p \<and> pos_deal_id p = ''d1''
      \<and> severity sample_liq_guard (reading p) \<noteq> 0"
    by code_simp
  from liquidation_warnings_not_repeated [OF this] show ?thesis by blast
qed

theorem past_liquidation_reads_safe_witness:
  "map_of (warned (check_position (sample_position 70000) sample_liq_guard)) ''d1'' = None"
proof -
  have "checkable (sample_position 70000)" "pos_side (sample_position 70000) = ''long''"
    "pos_mark_price (sample_position 70000) *
      (1 + (max (lq_warn_pct sample_liq_guard) (lq_emergency_pct sample_liq_guard) + 1) / 100)
      \<le> liq_price_of (pos_entry_price (sample_position 70000)) (pos_leverage (sample_position 70000)) ''long''"
    by code_simp+
  from past_liquidation_reads_safe [OF this] show ?thesis by (simp add: sample_position_def)
qed

end
