(* ===== verification/Decimal_Text.thy ===== *)
theory Decimal_Text
  imports Reverto_Prelude "HOL-Library.Char_ord" "HOL-Library.List_Lexorder"
begin

text \<open>
  Decimal numerals as text: fixed-width fields (\<open>f"{n:04d}"\<close>, the fields of \<open>strftime\<close>) and plain
  ones (\<open>f"{n}"\<close>), with the facts about the order of texts that the schedule and the deal ids use.
\<close>

definition digit_char :: "nat \<Rightarrow> char" where
  "digit_char n = char_of (48 + n)"

fun pad :: "nat \<Rightarrow> nat \<Rightarrow> string" where
  "pad 0 n = []"
| "pad (Suc w) n = pad w (n div 10) @ [digit_char (n mod 10)]"

fun dec :: "nat \<Rightarrow> string" where
  "dec n = (if n < 10 then [digit_char n] else dec (n div 10) @ [digit_char (n mod 10)])"

declare dec.simps [simp del]

definition show_int :: "int \<Rightarrow> string" where
  "show_int i = (if i < 0 then ''-'' @ dec (nat (- i)) else dec (nat i))"

lemma of_char_digit: "n < 10 \<Longrightarrow> (of_char (digit_char n) :: nat) = 48 + n"
  by (simp add: digit_char_def of_char_of)

lemma digit_char_less: "a < 10 \<Longrightarrow> b < 10 \<Longrightarrow> digit_char a < digit_char b \<longleftrightarrow> a < b"
  by (simp add: less_char_def of_char_digit)

lemma digit_char_eq: "a < 10 \<Longrightarrow> b < 10 \<Longrightarrow> digit_char a = digit_char b \<longleftrightarrow> a = b"
  using digit_char_less [of a b] digit_char_less [of b a] by (metis linorder_neq_iff)

lemma length_pad [simp]: "length (pad w n) = w"
  by (induction w arbitrary: n) auto

lemma pad_append_le:
  "a < 10 ^ w \<Longrightarrow> b < 10 ^ w \<Longrightarrow> pad w a @ xs \<le> pad w b @ ys \<longleftrightarrow> a < b \<or> a = b \<and> xs \<le> ys"
proof (induction w arbitrary: a b xs ys)
  case (Suc w)
  have q: "a div 10 < 10 ^ w" "b div 10 < 10 ^ w" using Suc.prems by auto
  have d: "a mod 10 < 10" "b mod 10 < 10" by simp_all
  have "pad (Suc w) a @ xs \<le> pad (Suc w) b @ ys \<longleftrightarrow>
      a div 10 < b div 10 \<or> a div 10 = b div 10 \<and> (a mod 10 < b mod 10 \<or> a mod 10 = b mod 10 \<and> xs \<le> ys)"
    using Suc.IH [OF q, of "digit_char (a mod 10) # xs" "digit_char (b mod 10) # ys"] d
    by (simp add: digit_char_less digit_char_eq)
  also have "\<dots> \<longleftrightarrow> a < b \<or> a = b \<and> xs \<le> ys"
    using div_mult_mod_eq [of a 10] div_mult_mod_eq [of b 10] d by (auto; linarith)
  finally show ?case .
qed simp

lemma pad_le: "a < 10 ^ w \<Longrightarrow> b < 10 ^ w \<Longrightarrow> pad w a \<le> pad w b \<longleftrightarrow> a \<le> b"
  using pad_append_le [of a w b "[]" "[]"] by auto

lemma pad_append_less:
  "a < 10 ^ w \<Longrightarrow> b < 10 ^ w \<Longrightarrow> pad w a @ xs < pad w b @ ys \<longleftrightarrow> a < b \<or> a = b \<and> xs < ys"
  using pad_append_le [of a w b xs ys] pad_append_le [of b w a ys xs]
  by (auto simp: less_le_not_le)

lemma pad_append_inj:
  "a < 10 ^ w \<Longrightarrow> b < 10 ^ w \<Longrightarrow> pad w a @ xs = pad w b @ ys \<longleftrightarrow> a = b \<and> xs = ys"
  using pad_append_le [of a w b xs ys] pad_append_le [of b w a ys xs] by auto

lemma pad_inj: "a < 10 ^ w \<Longrightarrow> b < 10 ^ w \<Longrightarrow> pad w a = pad w b \<longleftrightarrow> a = b"
  using pad_append_inj [of a w b "[]" "[]"] by simp

definition is_digit :: "char \<Rightarrow> bool" where
  "is_digit c = (let n = of_char c :: nat in 48 \<le> n \<and> n \<le> 57)"

lemma digit_char_is_digit: "n < 10 \<Longrightarrow> is_digit (digit_char n)"
  by (simp add: is_digit_def Let_def of_char_digit)

lemma pad_digits: "list_all is_digit (pad w n)"
  by (induction w arbitrary: n) (auto simp: digit_char_is_digit)

lemma dec_digits: "list_all is_digit (dec n)"
proof (induction n rule: dec.induct)
  case (1 n)
  then show ?case by (subst dec.simps) (auto simp: digit_char_is_digit)
qed

lemma dec_nonempty: "dec n \<noteq> []"
  by (subst dec.simps) simp

lemma dec_inj: "dec a = dec b \<Longrightarrow> a = b"
proof (induction a arbitrary: b rule: dec.induct)
  case (1 a)
  note eq = 1(2) [unfolded dec.simps [of a] dec.simps [of b]]
  show ?case
  proof (cases "a < 10")
    case True
    then show ?thesis using eq dec_nonempty [of "b div 10"]
      by (auto simp: digit_char_eq split: if_splits)
  next
    case False
    then have "\<not> b < 10" "dec (a div 10) = dec (b div 10)" "a mod 10 = b mod 10"
      using eq dec_nonempty [of "a div 10"] by (auto simp: digit_char_eq split: if_splits)
    with 1(1) [OF False] show ?thesis by (metis div_mult_mod_eq)
  qed
qed

lemma show_int_inj: "show_int a = show_int b \<Longrightarrow> a = b"
proof -
  have "\<not> is_digit (CHR ''-'')" by code_simp
  then have no: "CHR ''-'' # xs \<noteq> dec n" for xs n
    using dec_digits [of n] by (metis list.pred_inject(2))
  assume "show_int a = show_int b"
  then show ?thesis
    using no [of _ "nat a"] no [of _ "nat b"] by (auto simp: show_int_def no [symmetric] dest!: dec_inj split: if_splits)
qed

lemma show_int_no_colon: "CHR '':'' \<notin> set (show_int i)"
proof -
  have "\<not> is_digit (CHR '':'')" by code_simp
  then have "CHR '':'' \<notin> set (dec n)" for n
    using dec_digits [of n] by (auto simp: list_all_iff)
  then show ?thesis by (simp add: show_int_def)
qed

lemma colon_split:
  assumes "xs @ CHR '':'' # show_int i = ys @ CHR '':'' # show_int j"
  shows "xs = ys \<and> i = j"
proof -
  have "rev (takeWhile (\<lambda>c. c \<noteq> CHR '':'') (rev (zs @ CHR '':'' # show_int k))) = show_int k" for zs k
  proof -
    have "takeWhile (\<lambda>c. c \<noteq> CHR '':'') (rev (show_int k) @ CHR '':'' # rev zs) = rev (show_int k)"
      using show_int_no_colon [of k] by (subst takeWhile_append2) auto
    then show ?thesis by simp
  qed
  from this [of xs i] this [of ys j] assms have "show_int i = show_int j" by simp
  with assms show ?thesis by (auto dest: show_int_inj)
qed

end
