(* ===== verification/Schedule_Guard.thy ===== *)
theory Schedule_Guard
  imports Bot_Config Decimal_Text
begin

text \<open>
  The trading schedule (\<open>core/schedule_guard.py\<close>).  The wall clock in the configured time zone is a
  day (the proleptic ordinal of the standard library, so the weekday is \<open>(ordinal + 6) mod 7\<close>) and
  the text \<open>HH:MM\<close>; the text of a date is the argument \<open>date_str\<close>.  Times are compared as strings,
  as the code does; \<open>hhmm_le\<close> shows when that is the order of the minutes of the day.
\<close>

section \<open>Definitions\<close>

definition lower_char :: "char \<Rightarrow> char" where
  "lower_char c = (let n = of_char c :: nat in if 65 \<le> n \<and> n \<le> 90 then char_of (n + 32) else c)"

definition day_map :: "(string \<times> nat) list" where
  "day_map = [(''mon'', 0), (''tue'', 1), (''wed'', 2), (''thu'', 3), (''fri'', 4), (''sat'', 5), (''sun'', 6)]"

definition day_number :: "string \<Rightarrow> nat res" where
  "day_number d = (case map_of day_map (map lower_char d) of None \<Rightarrow> Inl KeyError | Some n \<Rightarrow> Inr n)"

fun day_numbers :: "string list \<Rightarrow> nat list res" where
  "day_numbers [] = Inr []"
| "day_numbers (d # ds) =
     res_bind (day_number d) (\<lambda>n. res_bind (day_numbers ds) (\<lambda>ns. Inr (n # ns)))"

definition time_in_window :: "string \<Rightarrow> string \<Rightarrow> string \<Rightarrow> bool" where
  "time_in_window current ft tt =
     (if ft \<le> tt then ft \<le> current \<and> current \<le> tt else ft \<le> current \<or> current \<le> tt)"

fun in_some_window :: "nat \<Rightarrow> string \<Rightarrow> schedule_window list \<Rightarrow> bool res" where
  "in_some_window day current [] = Inr False"
| "in_some_window day current (w # ws) =
     res_bind (day_numbers (window_days w)) (\<lambda>ns.
       if day \<in> set ns \<and> time_in_window current (from_time w) (to_time w) then Inr True
       else in_some_window day current ws)"

definition weekday :: "int \<Rightarrow> nat" where
  "weekday d = nat ((d + 6) mod 7)"

definition schedule_is_open :: "(int \<Rightarrow> string) \<Rightarrow> schedule_config \<Rightarrow> int \<Rightarrow> string \<Rightarrow> bool res" where
  "schedule_is_open date_str cfg today current =
     (if date_str today \<in> set (blackout_dates cfg) then Inr False
      else if trading_windows cfg = [] then Inr True
      else in_some_window (weekday today) current (trading_windows cfg))"

text \<open>The inner loop of \<open>_next_open\<close> over the windows of one day.\<close>

fun next_in_day :: "nat \<Rightarrow> string option \<Rightarrow> schedule_window list \<Rightarrow> string option res" where
  "next_in_day day current [] = Inr None"
| "next_in_day day current (w # ws) =
     res_bind (day_numbers (window_days w)) (\<lambda>ns.
       if day \<in> set ns \<and> (case current of None \<Rightarrow> True | Some c \<Rightarrow> c < from_time w)
       then Inr (Some (from_time w))
       else next_in_day day current ws)"

fun next_open_from ::
  "(int \<Rightarrow> string) \<Rightarrow> schedule_config \<Rightarrow> int \<Rightarrow> string \<Rightarrow> nat list \<Rightarrow> string res" where
  "next_open_from date_str cfg today current [] = Inr ''No upcoming trading window found''"
| "next_open_from date_str cfg today current (k # ks) =
     (let future = today + int k in
      if date_str future \<in> set (blackout_dates cfg)
      then next_open_from date_str cfg today current ks
      else res_bind (next_in_day (weekday future) (if k = 0 then Some current else None) (trading_windows cfg))
        (\<lambda>r. case r of
           Some ft \<Rightarrow> Inr (date_str future @ '' '' @ ft)
         | None \<Rightarrow> next_open_from date_str cfg today current ks))"

definition next_open :: "(int \<Rightarrow> string) \<Rightarrow> schedule_config \<Rightarrow> int \<Rightarrow> string \<Rightarrow> string res" where
  "next_open date_str cfg today current = next_open_from date_str cfg today current [0..<8]"

record schedule_report =
  st_is_open :: bool
  st_next_open :: string

definition schedule_status ::
  "(int \<Rightarrow> string) \<Rightarrow> schedule_config \<Rightarrow> int \<Rightarrow> string \<Rightarrow> bool option \<Rightarrow> schedule_report res" where
  "schedule_status date_str cfg today current cached =
     res_bind (case cached of Some b \<Rightarrow> Inr b | None \<Rightarrow> schedule_is_open date_str cfg today current) (\<lambda>b.
     res_bind (next_open date_str cfg today current) (\<lambda>n.
     Inr \<lparr>st_is_open = b, st_next_open = n\<rparr>))"

section \<open>Clock texts\<close>

definition hhmm :: "nat \<Rightarrow> string" where
  "hhmm m = pad 2 (m div 60) @ '':'' @ pad 2 (m mod 60)"

lemma hhmm_le:
  assumes "m < 1440" "n < 1440"
  shows "hhmm m \<le> hhmm n \<longleftrightarrow> m \<le> n"
proof -
  have h: "m div 60 < 100" "n div 60 < 100" "m mod 60 < 100" "n mod 60 < 100"
    using assms by (auto intro: less_trans [of _ 60])
  have "hhmm m \<le> hhmm n \<longleftrightarrow>
      m div 60 < n div 60 \<or> m div 60 = n div 60 \<and> m mod 60 \<le> n mod 60"
    using h pad_le [of "m mod 60" 2 "n mod 60"]
    by (auto simp: hhmm_def pad_append_le)
  also have "\<dots> \<longleftrightarrow> m \<le> n"
    using div_mult_mod_eq [of m 60] div_mult_mod_eq [of n 60] mod_less_divisor [of 60 m]
      mod_less_divisor [of 60 n] by (auto; linarith)
  finally show ?thesis .
qed

lemma hhmm_inj: "m < 1440 \<Longrightarrow> n < 1440 \<Longrightarrow> hhmm m = hhmm n \<Longrightarrow> m = n"
  using hhmm_le [of m n] hhmm_le [of n m] by simp

section \<open>When the schedule is open\<close>

definition valid_day :: "string \<Rightarrow> bool" where
  "valid_day d = (map_of day_map (map lower_char d) \<noteq> None)"

definition day_no :: "string \<Rightarrow> nat" where
  "day_no d = the (map_of day_map (map lower_char d))"

lemma day_numbers_valid: "list_all valid_day ds \<Longrightarrow> day_numbers ds = Inr (map day_no ds)"
  by (induction ds) (auto simp: day_number_def valid_day_def day_no_def)

definition window_wf :: "schedule_window \<Rightarrow> bool" where
  "window_wf w = (list_all valid_day (window_days w) \<and>
     (\<exists>m < 1440. from_time w = hhmm m) \<and> (\<exists>m < 1440. to_time w = hhmm m))"

text \<open>The specification: minutes on the circle of the day, counted from the start of the window.\<close>

definition covers :: "nat \<Rightarrow> nat \<Rightarrow> nat \<Rightarrow> bool" where
  "covers f t c = ((c + 1440 - f) mod 1440 \<le> (t + 1440 - f) mod 1440)"

lemma time_in_window_covers:
  assumes "f < 1440" "t < 1440" "c < 1440"
  shows "time_in_window (hhmm c) (hhmm f) (hhmm t) \<longleftrightarrow> covers f t c"
proof -
  have m: "(x + 1440 - f) mod 1440 = (if f \<le> x then x - f else x + 1440 - f)" if "x < 1440" for x :: nat
    using that assms(1) by (auto simp: le_mod_geq)
  show ?thesis
    using assms by (auto simp: time_in_window_def hhmm_le covers_def m)
qed

lemma in_some_window_iff:
  "list_all (\<lambda>w. list_all valid_day (window_days w)) ws \<Longrightarrow> in_some_window day current ws =
     Inr (\<exists>w \<in> set ws. day \<in> day_no ` set (window_days w) \<and> time_in_window current (from_time w) (to_time w))"
  by (induction ws) (auto simp: day_numbers_valid)

definition window_covers :: "schedule_window \<Rightarrow> nat \<Rightarrow> nat \<Rightarrow> bool" where
  "window_covers w day c = (day \<in> day_no ` set (window_days w) \<and>
     (\<exists>f < 1440. \<exists>t < 1440. from_time w = hhmm f \<and> to_time w = hhmm t \<and> covers f t c))"

lemma window_covers_iff:
  assumes "window_wf w" "c < 1440"
  shows "day \<in> day_no ` set (window_days w) \<and> time_in_window (hhmm c) (from_time w) (to_time w)
    \<longleftrightarrow> window_covers w day c"
proof -
  obtain f t where ft: "f < 1440" "t < 1440" "from_time w = hhmm f" "to_time w = hhmm t"
    using assms(1) by (auto simp: window_wf_def)
  then have "window_covers w day c \<longleftrightarrow> day \<in> day_no ` set (window_days w) \<and> covers f t c"
    by (auto simp: window_covers_def dest: hhmm_inj)
  with ft time_in_window_covers [OF ft(1,2) assms(2)] show ?thesis by simp
qed

text \<open>with valid day names and times, the schedule is open exactly on a date that is not blacked
  out, when there are no windows at all or one of them names the weekday and contains the minute;
  a window whose end is before its start wraps past midnight.\<close>

theorem schedule_is_open_iff:
  assumes "list_all window_wf (trading_windows cfg)" "c < 1440"
  shows "schedule_is_open date_str cfg today (hhmm c) =
    Inr (date_str today \<notin> set (blackout_dates cfg) \<and>
         (trading_windows cfg = [] \<or>
          (\<exists>w \<in> set (trading_windows cfg). window_covers w (weekday today) c)))"
proof -
  have v: "list_all (\<lambda>w. list_all valid_day (window_days w)) (trading_windows cfg)"
    using assms(1) by (auto simp: list_all_iff window_wf_def)
  have "window_covers w d c \<longleftrightarrow> d \<in> day_no ` set (window_days w) \<and>
      time_in_window (hhmm c) (from_time w) (to_time w)" if "w \<in> set (trading_windows cfg)" for w d
    using window_covers_iff [of w c d] assms that by (auto simp: list_all_iff)
  then show ?thesis
    by (auto simp: schedule_is_open_def in_some_window_iff [OF v])
qed

definition office_hours :: schedule_config where
  "office_hours = \<lparr>sched_enabled = True, timezone = ''Europe/Amsterdam'',
     trading_windows = [\<lparr>window_days = [''Mon'', ''tue''], from_time = ''22:00'', to_time = ''06:30''\<rparr>],
     blackout_dates = [''2026-01-05'']\<rparr>"

lemma office_hours_wf: "list_all window_wf (trading_windows office_hours)"
proof -
  have e: "hhmm 1320 = ''22:00''" "hhmm 390 = ''06:30''" by code_simp+
  have "\<exists>m < 1440. ''22:00'' = hhmm m" by (rule exI [of _ 1320]) (simp add: e)
  moreover have "\<exists>m < 1440. ''06:30'' = hhmm m" by (rule exI [of _ 390]) (simp add: e)
  moreover have "list_all valid_day [''Mon'', ''tue'']" by code_simp
  ultimately show ?thesis unfolding office_hours_def by (simp add: window_wf_def)
qed

theorem schedule_is_open_iff_witness:
  "schedule_is_open (\<lambda>d. if d = 1 then ''2026-01-05'' else ''2026-01-06'') office_hours 1 (hhmm 300) = Inr False"
  unfolding schedule_is_open_iff [OF office_hours_wf, of 300, simplified] by (simp add: office_hours_def)

lemma digit_char_nine: "CHR ''9'' = digit_char 9"
  by code_simp

text \<open>the configuration does not check the form of a time, and the comparison is textual: a window
  from \<open>9:00\<close> to \<open>17:00\<close> covers every minute from midnight up to 17:00, and the night hours it
  was to exclude with them.\<close>

theorem unpadded_hour_opens_at_midnight:
  assumes "c < 1440"
  shows "time_in_window (hhmm c) ''9:00'' ''17:00'' \<longleftrightarrow> c \<le> 1020"
proof -
  have e: "''17:00'' = hhmm 1020" by code_simp
  have le: "hhmm c \<le> ''17:00'' \<longleftrightarrow> c \<le> 1020"
    unfolding e using assms by (rule hhmm_le) simp
  have "c div 60 div 10 < 9" using assms by simp
  then have "\<not> ''9:00'' \<le> hhmm c"
    using digit_char_less [of "c div 60 div 10" 9] digit_char_nine by (auto simp: hhmm_def numeral_2_eq_2)
  moreover have "\<not> ''9:00'' \<le> ''17:00''" by code_simp
  ultimately show ?thesis using le by (simp add: time_in_window_def)
qed

theorem unpadded_hour_opens_at_midnight_witness:
  "time_in_window (hhmm 180) ''9:00'' ''17:00''"
  using unpadded_hour_opens_at_midnight [of 180] by simp

section \<open>The next opening\<close>

definition opens_on :: "(int \<Rightarrow> string) \<Rightarrow> schedule_config \<Rightarrow> int \<Rightarrow> string \<Rightarrow> nat \<Rightarrow> schedule_window \<Rightarrow> bool" where
  "opens_on date_str cfg today current k w =
     (date_str (today + int k) \<notin> set (blackout_dates cfg) \<and> w \<in> set (trading_windows cfg) \<and>
      weekday (today + int k) \<in> day_no ` set (window_days w) \<and> (k = 0 \<longrightarrow> current < from_time w))"

lemma next_in_day_some:
  assumes "list_all (\<lambda>w. list_all valid_day (window_days w)) ws"
  shows "\<exists>r. next_in_day day current ws = Inr r \<and>
    (case r of
       Some ft \<Rightarrow> \<exists>w \<in> set ws. ft = from_time w \<and> day \<in> day_no ` set (window_days w) \<and>
          (\<forall>c. current = Some c \<longrightarrow> c < from_time w)
     | None \<Rightarrow> \<forall>w \<in> set ws. \<not> (day \<in> day_no ` set (window_days w) \<and>
          (\<forall>c. current = Some c \<longrightarrow> c < from_time w)))"
  using assms
proof (induction ws)
  case (Cons w ws)
  then obtain r where r: "next_in_day day current ws = Inr r"
    "case r of
       Some ft \<Rightarrow> \<exists>w \<in> set ws. ft = from_time w \<and> day \<in> day_no ` set (window_days w) \<and>
          (\<forall>c. current = Some c \<longrightarrow> c < from_time w)
     | None \<Rightarrow> \<forall>w \<in> set ws. \<not> (day \<in> day_no ` set (window_days w) \<and>
          (\<forall>c. current = Some c \<longrightarrow> c < from_time w))"
    by auto
  show ?case
  proof (cases "day \<in> day_no ` set (window_days w) \<and> (case current of None \<Rightarrow> True | Some c \<Rightarrow> c < from_time w)")
    case True
    then show ?thesis using Cons.prems by (auto simp: day_numbers_valid split: option.splits)
  next
    case False
    then have "next_in_day day current (w # ws) = Inr r"
      using Cons.prems r(1) by (auto simp: day_numbers_valid)
    then show ?thesis using False r(2) by (auto split: option.splits)
  qed
qed simp

lemma next_open_from_sound:
  assumes "list_all (\<lambda>w. list_all valid_day (window_days w)) (trading_windows cfg)"
  shows "(\<exists>pre k post w. ks = pre @ k # post \<and> opens_on date_str cfg today current k w \<and>
      next_open_from date_str cfg today current ks = Inr (date_str (today + int k) @ '' '' @ from_time w) \<and>
      (\<forall>j \<in> set pre. \<forall>v. \<not> opens_on date_str cfg today current j v))
    \<or> next_open_from date_str cfg today current ks = Inr ''No upcoming trading window found'' \<and>
      (\<forall>j \<in> set ks. \<forall>v. \<not> opens_on date_str cfg today current j v)"
proof (induction ks)
  case (Cons k ks)
  let ?c = "if k = 0 then Some current else None" and ?f = "today + int k"
  obtain r where r: "next_in_day (weekday ?f) ?c (trading_windows cfg) = Inr r"
    "case r of
       Some ft \<Rightarrow> \<exists>w \<in> set (trading_windows cfg). ft = from_time w \<and> weekday ?f \<in> day_no ` set (window_days w) \<and>
          (\<forall>c. ?c = Some c \<longrightarrow> c < from_time w)
     | None \<Rightarrow> \<forall>w \<in> set (trading_windows cfg). \<not> (weekday ?f \<in> day_no ` set (window_days w) \<and>
          (\<forall>c. ?c = Some c \<longrightarrow> c < from_time w))"
    using next_in_day_some [OF assms, of "weekday ?f" ?c] by blast
  show ?case
  proof (cases "date_str ?f \<notin> set (blackout_dates cfg) \<and> r \<noteq> None")
    case True
    then obtain ft w where ft: "r = Some ft" "w \<in> set (trading_windows cfg)" "ft = from_time w"
      "weekday ?f \<in> day_no ` set (window_days w)" "\<forall>c. ?c = Some c \<longrightarrow> c < from_time w"
      using r(2) by auto
    have o: "opens_on date_str cfg today current k w"
      using True ft by (auto simp: opens_on_def)
    have "next_open_from date_str cfg today current (k # ks) = Inr (date_str ?f @ '' '' @ from_time w)"
      using True r(1) ft(1,3) by simp
    with o show ?thesis by (intro disjI1 exI [of _ "[]"]) auto
  next
    case False
    have no: "\<not> opens_on date_str cfg today current k v" for v
    proof -
      have "\<not> (weekday ?f \<in> day_no ` set (window_days v) \<and> (k = 0 \<longrightarrow> current < from_time v))"
        if "v \<in> set (trading_windows cfg)" "r = None"
        using bspec [OF r(2) [unfolded that(2) option.case] that(1)] by (simp split: if_splits)
      with False show ?thesis unfolding opens_on_def by blast
    qed
    have "next_open_from date_str cfg today current (k # ks) = next_open_from date_str cfg today current ks"
      using False r(1) by (auto simp: Let_def)
    with Cons.IH no show ?thesis
      by (metis append_Cons set_ConsD)
  qed
qed simp

text \<open>with valid day names the announced opening is that of the first of the next eight days that
  is not blacked out and has a window still to open, or the text that there is none.\<close>

theorem next_open_sound:
  assumes "list_all (\<lambda>w. list_all valid_day (window_days w)) (trading_windows cfg)"
  shows "(\<exists>k < 8. \<exists>w. opens_on date_str cfg today current k w \<and>
      next_open date_str cfg today current = Inr (date_str (today + int k) @ '' '' @ from_time w) \<and>
      (\<forall>j < k. \<forall>v. \<not> opens_on date_str cfg today current j v))
    \<or> next_open date_str cfg today current = Inr ''No upcoming trading window found'' \<and>
      (\<forall>j < 8. \<forall>v. \<not> opens_on date_str cfg today current j v)"
proof -
  have *: "k < 8 \<and> set pre = {..<k}" if "[0..<8] = pre @ k # post" for k pre post
  proof -
    have "length pre < 8" using arg_cong [OF that, of length] by simp
    moreover have "k = [0..<8] ! length pre" using that by (metis nth_append_length)
    moreover have "pre = take (length pre) [0..<8]" using that by simp
    ultimately show ?thesis by (metis (no_types) add_0 atLeast0LessThan atLeast_upt
          le_eq_less_or_eq nth_upt take_upt)
  qed
  from next_open_from_sound [OF assms, of "[0..<8]" date_str today current] show ?thesis
  proof
    assume "\<exists>pre k post w. [0..<8] = pre @ k # post \<and> opens_on date_str cfg today current k w \<and>
      next_open_from date_str cfg today current [0..<8] = Inr (date_str (today + int k) @ '' '' @ from_time w) \<and>
      (\<forall>j \<in> set pre. \<forall>v. \<not> opens_on date_str cfg today current j v)"
    then obtain pre k post w where w: "[0..<8] = pre @ k # post" "opens_on date_str cfg today current k w"
      "next_open date_str cfg today current = Inr (date_str (today + int k) @ '' '' @ from_time w)"
      "\<forall>j \<in> set pre. \<forall>v. \<not> opens_on date_str cfg today current j v"
      unfolding next_open_def by blast
    with * [OF w(1)] show ?thesis by (intro disjI1 exI [of _ k]) auto
  next
    assume "next_open_from date_str cfg today current [0..<8] = Inr ''No upcoming trading window found'' \<and>
      (\<forall>j \<in> set [0..<8]. \<forall>v. \<not> opens_on date_str cfg today current j v)"
    then show ?thesis by (simp add: next_open_def)
  qed
qed

theorem next_open_sound_witness:
  "\<forall>v. \<not> opens_on (\<lambda>d. ''2026-01-05'') office_hours 1 ''03:00'' 3 v"
proof -
  have v: "list_all (\<lambda>w. list_all valid_day (window_days w)) (trading_windows office_hours)"
    by code_simp
  have "next_open (\<lambda>d. ''2026-01-05'') office_hours 1 ''03:00'' = Inr ''No upcoming trading window found''"
    by code_simp
  moreover have "\<not> opens_on (\<lambda>d. ''2026-01-05'') office_hours 1 ''03:00'' k w" for k w
    by (simp add: opens_on_def office_hours_def)
  ultimately show ?thesis
    using next_open_sound [OF v, of "\<lambda>d. ''2026-01-05''" 1 "''03:00''"] by blast
qed

text \<open>within one day the first window in the order of the list wins, not the earliest one: the
  announcement can name a later opening than the one that comes first.\<close>

theorem next_open_takes_listed_order:
  assumes "trading_windows cfg = [w1, w2]" "list_all valid_day (window_days w1)"
    "date_str today \<notin> set (blackout_dates cfg)" "weekday today \<in> day_no ` set (window_days w1)"
    "window_days w2 = window_days w1" "current < from_time w2" "from_time w2 < from_time w1"
  shows "next_open date_str cfg today current = Inr (date_str today @ '' '' @ from_time w1)
    \<and> opens_on date_str cfg today current 0 w2"
proof -
  have "current < from_time w1" using assms(6,7) by (rule less_trans)
  moreover have "[0..<8] = (0::nat) # [1..<8]" by (simp add: upt_rec)
  ultimately show ?thesis
    using assms by (simp add: next_open_def opens_on_def day_numbers_valid)
qed

theorem next_open_takes_listed_order_witness:
  "next_open (\<lambda>d. ''2026-01-05'') \<lparr>sched_enabled = True, timezone = ''UTC'', trading_windows =
      [\<lparr>window_days = [''mon''], from_time = ''20:00'', to_time = ''22:00''\<rparr>,
       \<lparr>window_days = [''mon''], from_time = ''08:00'', to_time = ''10:00''\<rparr>], blackout_dates = []\<rparr> 1 ''07:00''
     = Inr ''2026-01-05 20:00''"
proof -
  have "valid_day ''mon''" "weekday 1 = day_no ''mon''" by code_simp+
  moreover have "''07:00'' < ''08:00''" "''08:00'' < ''20:00''" by code_simp+
  ultimately show ?thesis
    using next_open_takes_listed_order [of "\<lparr>sched_enabled = True, timezone = ''UTC'', trading_windows =
      [\<lparr>window_days = [''mon''], from_time = ''20:00'', to_time = ''22:00''\<rparr>,
       \<lparr>window_days = [''mon''], from_time = ''08:00'', to_time = ''10:00''\<rparr>], blackout_dates = []\<rparr>"
        "\<lparr>window_days = [''mon''], from_time = ''20:00'', to_time = ''22:00''\<rparr>"
        "\<lparr>window_days = [''mon''], from_time = ''08:00'', to_time = ''10:00''\<rparr>"
        "\<lambda>d. ''2026-01-05''" 1 "''07:00''"] by simp
qed

end
