(* ===== verification/Deal_Ids.thy ===== *)
theory Deal_Ids
  imports Decimal_Text
begin

text \<open>
  Deal ids (\<open>core/ids.py\<close>): the UTC minute and a random four-digit suffix.  The minute is the record
  of its calendar fields, the random draw an argument.
\<close>

record utc_minute =
  um_year :: nat
  um_month :: nat
  um_day :: nat
  um_hour :: nat
  um_minute :: nat

definition id_prefix :: "utc_minute \<Rightarrow> string" where
  "id_prefix m = pad 4 (um_year m) @ pad 2 (um_month m) @ pad 2 (um_day m) @ pad 2 (um_hour m) @ pad 2 (um_minute m)"

definition generate_deal_id :: "utc_minute \<Rightarrow> nat \<Rightarrow> string" where
  "generate_deal_id m rnd = id_prefix m @ ''-'' @ pad 4 rnd"

definition generate_order_id :: "utc_minute \<Rightarrow> nat \<Rightarrow> string" where
  "generate_order_id m rnd = generate_deal_id m rnd"

text \<open>\<open>DEAL_ID_RE.match\<close>: the end anchor also matches before a final newline.\<close>

definition deal_id_shape :: "string \<Rightarrow> bool" where
  "deal_id_shape s = (length s = 17 \<and> list_all is_digit (take 12 s) \<and> s ! 12 = CHR ''-'' \<and>
     list_all is_digit (drop 13 s))"

definition deal_id_match :: "string \<Rightarrow> bool" where
  "deal_id_match s = (deal_id_shape s \<or>
     (s \<noteq> [] \<and> last s = CHR 0x0A \<and> deal_id_shape (butlast s)))"

definition minute_wf :: "utc_minute \<Rightarrow> bool" where
  "minute_wf m = (um_year m < 10000 \<and> um_month m < 100 \<and> um_day m < 100 \<and> um_hour m < 100 \<and> um_minute m < 100)"

definition earlier :: "utc_minute \<Rightarrow> utc_minute \<Rightarrow> bool" where
  "earlier a b =
     (um_year a < um_year b \<or> um_year a = um_year b \<and>
       (um_month a < um_month b \<or> um_month a = um_month b \<and>
         (um_day a < um_day b \<or> um_day a = um_day b \<and>
           (um_hour a < um_hour b \<or> um_hour a = um_hour b \<and> um_minute a < um_minute b))))"

lemma id_prefix_less:
  assumes "minute_wf a" "minute_wf b"
  shows "id_prefix a @ xs < id_prefix b @ ys \<longleftrightarrow> earlier a b \<or> a = b \<and> xs < ys"
  using assms by (auto simp: id_prefix_def minute_wf_def pad_append_less earlier_def)

lemma id_prefix_inj:
  assumes "minute_wf a" "minute_wf b" "id_prefix a @ xs = id_prefix b @ ys"
  shows "a = b \<and> xs = ys"
  using assms by (cases a; cases b) (simp add: id_prefix_def minute_wf_def pad_inj)

lemma generated_shape: "deal_id_shape (generate_deal_id m rnd)"
proof -
  have l: "length (id_prefix m) = 12" by (simp add: id_prefix_def)
  have d: "list_all is_digit (id_prefix m)" by (simp add: id_prefix_def pad_digits)
  show ?thesis
    using d l by (simp add: deal_id_shape_def generate_deal_id_def nth_append pad_digits)
qed

text \<open>every generated id is accepted by the pattern that guards the file and route boundaries;
  ids of different minutes or different draws differ, and the text order of ids is the time order of
  their minutes, the draw deciding inside a minute.\<close>

theorem deal_ids_unique_and_sorted:
  assumes "minute_wf a" "minute_wf b" "r < 10000" "s < 10000"
  shows "deal_id_match (generate_deal_id a r)
    \<and> (generate_deal_id a r = generate_deal_id b s \<longleftrightarrow> a = b \<and> r = s)
    \<and> (generate_deal_id a r < generate_deal_id b s \<longleftrightarrow> earlier a b \<or> a = b \<and> r < s)"
proof -
  have p: "pad 4 r < pad 4 s \<longleftrightarrow> r < s" "pad 4 r = pad 4 s \<longleftrightarrow> r = s"
    using assms(3,4) pad_append_less [of r 4 s "[]" "[]"] pad_append_inj [of r 4 s "[]" "[]"] by auto
  show ?thesis
    using generated_shape [of a r] assms(1,2) p
    by (auto simp: deal_id_match_def generate_deal_id_def id_prefix_less dest: id_prefix_inj)
qed

theorem deal_ids_unique_and_sorted_witness:
  "generate_deal_id \<lparr>um_year = 2026, um_month = 4, um_day = 19, um_hour = 23, um_minute = 59\<rparr> 9999
    < generate_deal_id \<lparr>um_year = 2026, um_month = 4, um_day = 20, um_hour = 0, um_minute = 0\<rparr> 1"
  using deal_ids_unique_and_sorted
    [of "\<lparr>um_year = 2026, um_month = 4, um_day = 19, um_hour = 23, um_minute = 59\<rparr>"
        "\<lparr>um_year = 2026, um_month = 4, um_day = 20, um_hour = 0, um_minute = 0\<rparr>" 9999 1]
  by (simp add: minute_wf_def earlier_def)

text \<open>the pattern is not anchored against a trailing newline: an id with one appended matches.\<close>

theorem deal_id_match_accepts_newline:
  "deal_id_match (generate_deal_id m rnd @ [CHR 0x0A]) \<and> \<not> deal_id_shape (generate_deal_id m rnd @ [CHR 0x0A])"
  using generated_shape [of m rnd] by (simp add: deal_id_match_def) (simp add: deal_id_shape_def)

end
