(* ===== verification/Deal_Ledger.thy ===== *)
theory Deal_Ledger
  imports Paper_State Deal_Ids
begin

text \<open>
  The SQLite ledger of deals, orders and chart annotations (\<open>core/deal_store.py\<close> over the schema of
  \<open>core/database.py\<close>).  A table is the list of its rows in insertion order; a statement that breaks
  a primary or foreign key (the pragma is on) raises the integrity error, and \<open>with conn\<close> rolls the
  transaction back, so a function that raises returns the ledger it was given.  The module lock makes
  each function one step.  Trigger dicts are stored as values, not as their JSON text; the creation
  timestamps no function reads and the backtest-run table are left out.
\<close>

section \<open>Tables\<close>

record deal_row =
  row_id :: string
  row_user :: int
  row_slug :: string
  row_bot_name :: string
  row_side :: string
  row_status :: string
  row_close_reason :: "string option"
  row_opened_at :: int
  row_closed_at :: "int option"
  row_initial_price :: real
  row_avg_entry :: real
  row_close_price :: "real option"
  row_total_size :: real
  row_leverage :: int
  row_pnl_btc :: real
  row_pnl_pct :: real
  row_peak_price :: real
  row_entry_trigger :: "trigger option"
  row_exit_trigger :: "trigger option"

record order_row =
  or_id :: string
  or_user :: int
  or_deal :: string
  or_slug :: string
  or_number :: int
  or_type :: string
  or_price :: real
  or_size :: real
  or_fee :: real
  or_placed_at :: int

record annotation =
  an_id :: int
  an_user :: int
  an_slug :: string
  an_type :: string
  an_timeframe :: string
  an_x1 :: int
  an_y1 :: "real option"
  an_x2 :: "int option"
  an_y2 :: "real option"
  an_label :: "string option"
  an_color :: string

record ledger =
  users_tbl :: "int list"
  deals_tbl :: "deal_row list"
  orders_tbl :: "order_row list"
  annotations_tbl :: "annotation list"
  annotation_seq :: int

section \<open>Deals and orders\<close>

definition deal_row_tuple :: "paper_deal \<Rightarrow> string \<Rightarrow> string \<Rightarrow> int \<Rightarrow> deal_row res" where
  "deal_row_tuple d slug name u =
     res_bind (avg_entry_price d) (\<lambda>avg.
     Inr \<lparr>row_id = deal_id d, row_user = u, row_slug = slug, row_bot_name = name, row_side = side d,
          row_status = (if is_open d then ''open'' else ''closed''), row_close_reason = close_reason d,
          row_opened_at = opened_at d, row_closed_at = closed_at d,
          row_initial_price = (case orders d of [] \<Rightarrow> 0 | ord # _ \<Rightarrow> order_price ord),
          row_avg_entry = avg, row_close_price = close_price d, row_total_size = total_size d,
          row_leverage = leverage d, row_pnl_btc = pnl_btc d, row_pnl_pct = pnl_pct d,
          row_peak_price = peak_price d, row_entry_trigger = entry_trigger d,
          row_exit_trigger = exit_trigger d\<rparr>)"

definition insert_deal_row :: "deal_row \<Rightarrow> ledger \<Rightarrow> ledger res" where
  "insert_deal_row r db =
     (if row_id r \<in> row_id ` set (deals_tbl db) \<or> row_user r \<notin> set (users_tbl db)
      then Inl IntegrityError else Inr (db\<lparr>deals_tbl := deals_tbl db @ [r]\<rparr>))"

definition insert_order_row :: "order_row \<Rightarrow> ledger \<Rightarrow> ledger res" where
  "insert_order_row r db =
     (if or_id r \<in> or_id ` set (orders_tbl db) \<or> or_user r \<notin> set (users_tbl db)
        \<or> or_deal r \<notin> row_id ` set (deals_tbl db)
      then Inl IntegrityError else Inr (db\<lparr>orders_tbl := orders_tbl db @ [r]\<rparr>))"

text \<open>\<open>INSERT OR IGNORE\<close> skips a row whose primary key is taken; a foreign key still raises.\<close>

definition insert_deal_or_ignore :: "deal_row \<Rightarrow> ledger \<Rightarrow> ledger res" where
  "insert_deal_or_ignore r db =
     (if row_id r \<in> row_id ` set (deals_tbl db) then Inr db else insert_deal_row r db)"

definition insert_order_or_ignore :: "order_row \<Rightarrow> ledger \<Rightarrow> ledger res" where
  "insert_order_or_ignore r db =
     (if or_id r \<in> or_id ` set (orders_tbl db) then Inr db else insert_order_row r db)"

definition commit :: "ledger res \<Rightarrow> (ledger, unit) prog" where
  "commit r db = (case r of Inl e \<Rightarrow> (Inl e, db) | Inr db' \<Rightarrow> (Inr (), db'))"

definition create_deal :: "paper_deal \<Rightarrow> string \<Rightarrow> string \<Rightarrow> int \<Rightarrow> (ledger, unit) prog" where
  "create_deal d slug name u db =
     commit (res_bind (deal_row_tuple d slug name u) (\<lambda>row. insert_deal_row row db)) db"

definition row_matches :: "string \<Rightarrow> int \<Rightarrow> string \<Rightarrow> deal_row \<Rightarrow> bool" where
  "row_matches i u slug r = (row_id r = i \<and> row_user r = u \<and> row_slug r = slug)"

definition update_deal :: "paper_deal \<Rightarrow> string \<Rightarrow> string \<Rightarrow> int \<Rightarrow> (ledger, nat) prog" where
  "update_deal d slug name u db =
     (case deal_row_tuple d slug name u of
        Inl e \<Rightarrow> (Inl e, db)
      | Inr row \<Rightarrow>
          (Inr (length (filter (row_matches (row_id row) (row_user row) (row_slug row)) (deals_tbl db))),
           db\<lparr>deals_tbl := map (\<lambda>r. if row_matches (row_id row) (row_user row) (row_slug row) r
                                     then row else r) (deals_tbl db)\<rparr>))"

definition save_deal :: "paper_deal \<Rightarrow> string \<Rightarrow> string \<Rightarrow> int \<Rightarrow> (ledger, unit) prog" where
  "save_deal d slug name u =
     pbind (update_deal d slug name u) (\<lambda>n.
       if 0 < n then pret () else create_deal d slug name u)"

definition order_row_id :: "string \<Rightarrow> int \<Rightarrow> string" where
  "order_row_id did n = did @ '':'' @ show_int n"

definition order_row_of :: "paper_order \<Rightarrow> string \<Rightarrow> string \<Rightarrow> int \<Rightarrow> real \<Rightarrow> order_row" where
  "order_row_of ord did slug u fee =
     \<lparr>or_id = order_row_id did (order_number ord), or_user = u, or_deal = did, or_slug = slug,
      or_number = order_number ord, or_type = order_type ord, or_price = order_price ord,
      or_size = order_size ord, or_fee = fee, or_placed_at = order_timestamp ord\<rparr>"

fun replay_orders :: "paper_order list \<Rightarrow> string \<Rightarrow> string \<Rightarrow> int \<Rightarrow> ledger \<Rightarrow> ledger res" where
  "replay_orders [] did slug u db = Inr db"
| "replay_orders (ord # os) did slug u db =
     res_bind (insert_order_or_ignore (order_row_of ord did slug u 0) db) (replay_orders os did slug u)"

fun replay_deals :: "paper_deal list \<Rightarrow> string \<Rightarrow> string \<Rightarrow> int \<Rightarrow> ledger \<Rightarrow> ledger res" where
  "replay_deals [] slug name u db = Inr db"
| "replay_deals (d # ds) slug name u db =
     res_bind (deal_row_tuple d slug name u) (\<lambda>row.
     res_bind (insert_deal_or_ignore row db) (\<lambda>db1.
     res_bind (replay_orders (orders d) (deal_id d) slug u db1) (replay_deals ds slug name u)))"

definition replay_deals_in_transaction ::
  "paper_deal list \<Rightarrow> string \<Rightarrow> string \<Rightarrow> int \<Rightarrow> (ledger, nat) prog" where
  "replay_deals_in_transaction ds slug name u db =
     (if ds = [] then (Inr 0, db)
      else case replay_deals ds slug name u db of
        Inl e \<Rightarrow> (Inl e, db)
      | Inr db' \<Rightarrow> (Inr (length ds), db'))"

definition save_order :: "paper_order \<Rightarrow> string \<Rightarrow> string \<Rightarrow> int \<Rightarrow> real \<Rightarrow> (ledger, unit) prog" where
  "save_order ord did slug u fee db =
     commit (insert_order_row (order_row_of ord did slug u fee) db) db"

definition close_row ::
  "real \<Rightarrow> string \<Rightarrow> real \<Rightarrow> real \<Rightarrow> int \<Rightarrow> trigger option \<Rightarrow> deal_row \<Rightarrow> deal_row" where
  "close_row price reason b p ts trig r =
     r\<lparr>row_status := ''closed'', row_close_price := Some price, row_close_reason := Some reason,
       row_pnl_btc := b, row_pnl_pct := p, row_closed_at := Some ts,
       row_exit_trigger := (case trig of None \<Rightarrow> row_exit_trigger r | Some t \<Rightarrow> Some t)\<rparr>"

definition ledger_close_deal ::
  "string \<Rightarrow> real \<Rightarrow> string \<Rightarrow> real \<Rightarrow> real \<Rightarrow> int \<Rightarrow> int \<Rightarrow> trigger option \<Rightarrow> (ledger, unit) prog" where
  "ledger_close_deal did price reason b p u ts trig =
     pmod (\<lambda>db. db\<lparr>deals_tbl := map (\<lambda>r. if row_id r = did \<and> row_user r = u
                                           then close_row price reason b p ts trig r else r) (deals_tbl db)\<rparr>)"

section \<open>Queries\<close>

definition sql_limit :: "int \<Rightarrow> 'a list \<Rightarrow> 'a list" where
  "sql_limit n xs = (if n < 0 then xs else take (nat n) xs)"

definition opt_matches :: "'a option \<Rightarrow> 'a \<Rightarrow> bool" where
  "opt_matches f x = (case f of None \<Rightarrow> True | Some y \<Rightarrow> x = y)"

definition get_deals :: "int \<Rightarrow> string option \<Rightarrow> string option \<Rightarrow> int \<Rightarrow> ledger \<Rightarrow> deal_row list" where
  "get_deals u slug status lmt db =
     sql_limit lmt (sort_key (\<lambda>r. - row_opened_at r)
       (filter (\<lambda>r. row_user r = u \<and> opt_matches slug (row_slug r) \<and> opt_matches status (row_status r))
         (deals_tbl db)))"

definition get_all_deals :: "int \<Rightarrow> int \<Rightarrow> ledger \<Rightarrow> deal_row list" where
  "get_all_deals u lmt = get_deals u None None lmt"

definition get_deal_orders :: "string \<Rightarrow> int \<Rightarrow> ledger \<Rightarrow> order_row list" where
  "get_deal_orders did u db =
     sort_key or_number (filter (\<lambda>r. or_deal r = did \<and> or_user r = u) (orders_tbl db))"

text \<open>The batch query sorts by deal and number: two stable sorts, the less significant key first.\<close>

definition get_orders_for_deal_ids :: "string list \<Rightarrow> int \<Rightarrow> ledger \<Rightarrow> (string \<times> order_row list) list" where
  "get_orders_for_deal_ids dids u db =
     (let rows = sort_key or_deal (sort_key or_number
            (filter (\<lambda>r. or_deal r \<in> set dids \<and> or_user r = u) (orders_tbl db)))
      in map (\<lambda>did. (did, filter (\<lambda>r. or_deal r = did) rows)) (rev (remdups (rev dids))))"

record deal_stats =
  ds_total :: nat
  ds_wins :: nat
  ds_losses :: nat
  ds_win_rate :: real
  ds_avg_pnl :: real
  ds_best :: real
  ds_worst :: real
  ds_total_fees :: real

definition compute_stats :: "int \<Rightarrow> string option \<Rightarrow> ledger \<Rightarrow> deal_stats" where
  "compute_stats u slug db =
     (let deal_rows = filter (\<lambda>r. row_user r = u \<and> row_status r = ''closed'' \<and> opt_matches slug (row_slug r))
            (deals_tbl db);
          total = length deal_rows
      in if total = 0
         then \<lparr>ds_total = 0, ds_wins = 0, ds_losses = 0, ds_win_rate = 0, ds_avg_pnl = 0, ds_best = 0,
               ds_worst = 0, ds_total_fees = 0\<rparr>
         else
           let pnls = map row_pnl_btc deal_rows;
               wins = length (filter (\<lambda>p. 0 < p) pnls);
               ids = map row_id deal_rows
           in \<lparr>ds_total = total, ds_wins = wins, ds_losses = total - wins,
               ds_win_rate = py_round (real wins / real total * 100) 2,
               ds_avg_pnl = sum_list pnls / real total,
               ds_best = Max (set pnls), ds_worst = Min (set pnls),
               ds_total_fees = sum_list (map or_fee
                 (filter (\<lambda>r. or_deal r \<in> set ids \<and> or_user r = u) (orders_tbl db)))\<rparr>)"

section \<open>Chart annotations\<close>

definition clamp_ts :: "int \<Rightarrow> int" where
  "clamp_ts x = max 0 (min 2000000000 x)"

text \<open>The argument record carries the columns; its id and user are the table's and the caller's.\<close>

definition save_annotation :: "annotation \<Rightarrow> int \<Rightarrow> (ledger, int) prog" where
  "save_annotation a u db =
     (let i = annotation_seq db + 1;
          row = a\<lparr>an_id := i, an_user := u, an_x1 := clamp_ts (an_x1 a), an_x2 := map_option clamp_ts (an_x2 a)\<rparr>
      in if u \<notin> set (users_tbl db) then (Inl IntegrityError, db)
         else (Inr i, db\<lparr>annotations_tbl := annotations_tbl db @ [row], annotation_seq := i\<rparr>))"

definition list_annotations :: "string \<Rightarrow> int \<Rightarrow> string option \<Rightarrow> ledger \<Rightarrow> annotation list" where
  "list_annotations slug u tf db =
     sort_key an_id (filter (\<lambda>a. an_user a = u \<and> an_slug a = slug \<and> opt_matches tf (an_timeframe a))
       (annotations_tbl db))"

definition delete_annotation :: "int \<Rightarrow> int \<Rightarrow> (ledger, bool) prog" where
  "delete_annotation i u db =
     (Inr (list_ex (\<lambda>a. an_id a = i \<and> an_user a = u) (annotations_tbl db)),
      db\<lparr>annotations_tbl := filter (\<lambda>a. \<not> (an_id a = i \<and> an_user a = u)) (annotations_tbl db)\<rparr>)"

definition delete_annotations_for :: "string \<Rightarrow> int \<Rightarrow> string option \<Rightarrow> (ledger, nat) prog" where
  "delete_annotations_for slug u tf db =
     (let hit = (\<lambda>a. an_user a = u \<and> an_slug a = slug \<and> opt_matches tf (an_timeframe a)) in
      (Inr (length (filter hit (annotations_tbl db))),
       db\<lparr>annotations_tbl := filter (\<lambda>a. \<not> hit a) (annotations_tbl db)\<rparr>))"

section \<open>The invariant of the ledger\<close>

definition ledger_wf :: "ledger \<Rightarrow> bool" where
  "ledger_wf db =
     (distinct (map row_id (deals_tbl db)) \<and> distinct (map or_id (orders_tbl db)) \<and>
      distinct (map an_id (annotations_tbl db)) \<and>
      list_all (\<lambda>a. an_id a \<le> annotation_seq db) (annotations_tbl db) \<and>
      list_all (\<lambda>r. row_user r \<in> set (users_tbl db)) (deals_tbl db) \<and>
      list_all (\<lambda>r. or_user r \<in> set (users_tbl db) \<and> or_deal r \<in> row_id ` set (deals_tbl db)) (orders_tbl db))"

lemma commit_state: "snd (commit r db) = (case r of Inl e \<Rightarrow> db | Inr db' \<Rightarrow> db')"
  by (simp add: commit_def split: sum.split)

lemma deal_row_tuple_keys:
  "deal_row_tuple d slug name u = Inr row \<Longrightarrow> row_id row = deal_id d \<and> row_user row = u \<and> row_slug row = slug"
  by (auto simp: deal_row_tuple_def res_bind_eq_Inr_iff)

lemma insert_deal_row_wf: "insert_deal_row r db = Inr db' \<Longrightarrow> ledger_wf db \<Longrightarrow> ledger_wf db'"
  by (auto simp: insert_deal_row_def ledger_wf_def list_all_iff split: if_splits)

lemma insert_order_row_wf: "insert_order_row r db = Inr db' \<Longrightarrow> ledger_wf db \<Longrightarrow> ledger_wf db'"
  by (auto simp: insert_order_row_def ledger_wf_def list_all_iff split: if_splits)

lemma insert_deal_or_ignore_wf: "insert_deal_or_ignore r db = Inr db' \<Longrightarrow> ledger_wf db \<Longrightarrow> ledger_wf db'"
  by (auto simp: insert_deal_or_ignore_def dest: insert_deal_row_wf split: if_splits)

lemma insert_order_or_ignore_wf: "insert_order_or_ignore r db = Inr db' \<Longrightarrow> ledger_wf db \<Longrightarrow> ledger_wf db'"
  by (auto simp: insert_order_or_ignore_def dest: insert_order_row_wf split: if_splits)

lemma replay_orders_wf: "replay_orders os did slug u db = Inr db' \<Longrightarrow> ledger_wf db \<Longrightarrow> ledger_wf db'"
  by (induction os did slug u db rule: replay_orders.induct)
    (auto simp: res_bind_eq_Inr_iff dest: insert_order_or_ignore_wf)

lemma replay_deals_wf: "replay_deals ds slug name u db = Inr db' \<Longrightarrow> ledger_wf db \<Longrightarrow> ledger_wf db'"
  by (induction ds arbitrary: db)
    (auto simp: res_bind_eq_Inr_iff dest: insert_deal_or_ignore_wf replay_orders_wf)

lemma create_deal_wf [wf_intros]: "ledger_wf db \<Longrightarrow> ledger_wf (snd (create_deal d slug name u db))"
  by (auto simp: create_deal_def commit_state res_bind_eq_Inr_iff dest: insert_deal_row_wf split: sum.split)

lemma update_row_ids:
  assumes "deal_row_tuple d slug name u = Inr row"
  shows "map row_id (map (\<lambda>r. if row_matches (row_id row) (row_user row) (row_slug row) r then row else r) rs)
      = map row_id rs"
    and "map row_user (map (\<lambda>r. if row_matches (row_id row) (row_user row) (row_slug row) r then row else r) rs)
      = map row_user rs"
  by (auto simp: row_matches_def)

lemma list_all_map_cong: "map f xs = map f ys \<Longrightarrow> list_all (\<lambda>x. P (f x)) xs = list_all (\<lambda>x. P (f x)) ys"
  by (metis (mono_tags) list_all_length length_map nth_map)

lemma ledger_wf_deals_cong:
  assumes "map row_id rs = map row_id (deals_tbl db)" "map row_user rs = map row_user (deals_tbl db)"
  shows "ledger_wf (db\<lparr>deals_tbl := rs\<rparr>) = ledger_wf db"
proof -
  have "row_id ` set rs = row_id ` set (deals_tbl db)" using assms(1) by (metis set_map)
  then show ?thesis
    using list_all_map_cong [OF assms(2), of "\<lambda>x. x \<in> set (users_tbl db)"] assms(1)
    by (simp add: ledger_wf_def)
qed

lemma update_deal_wf [wf_intros]: "ledger_wf db \<Longrightarrow> ledger_wf (snd (update_deal d slug name u db))"
  unfolding update_deal_def
  by (auto simp: ledger_wf_deals_cong update_row_ids simp del: map_map split: sum.split)

lemma save_deal_wf [wf_intros]: "ledger_wf db \<Longrightarrow> ledger_wf (snd (save_deal d slug name u db))"
  using update_deal_wf [of db d slug name u]
  by (auto simp: save_deal_def pbind_apply intro!: create_deal_wf split: prod.split sum.split)

lemma replay_wf [wf_intros]: "ledger_wf db \<Longrightarrow> ledger_wf (snd (replay_deals_in_transaction ds slug name u db))"
  by (auto simp: replay_deals_in_transaction_def dest: replay_deals_wf split: sum.split)

lemma save_order_wf [wf_intros]: "ledger_wf db \<Longrightarrow> ledger_wf (snd (save_order ord did slug u fee db))"
  by (auto simp: save_order_def commit_state dest: insert_order_row_wf split: sum.split)

lemma ledger_close_deal_wf [wf_intros]:
  "ledger_wf db \<Longrightarrow> ledger_wf (snd (ledger_close_deal did price reason b p u ts trig db))"
proof -
  let ?f = "\<lambda>r. if row_id r = did \<and> row_user r = u then close_row price reason b p ts trig r else r"
  have "map row_id (map ?f rs) = map row_id rs" "map row_user (map ?f rs) = map row_user rs" for rs
    by (simp_all add: close_row_def)
  then show "ledger_wf db \<Longrightarrow> ?thesis"
    by (simp add: ledger_close_deal_def ledger_wf_deals_cong del: map_map)
qed

lemma save_annotation_wf [wf_intros]: "ledger_wf db \<Longrightarrow> ledger_wf (snd (save_annotation a u db))"
  by (auto simp: save_annotation_def Let_def ledger_wf_def list_all_iff image_iff)

lemma delete_annotation_wf [wf_intros]: "ledger_wf db \<Longrightarrow> ledger_wf (snd (delete_annotation i u db))"
  by (auto simp: delete_annotation_def ledger_wf_def list_all_iff distinct_map inj_on_def)

lemma delete_annotations_for_wf [wf_intros]:
  "ledger_wf db \<Longrightarrow> ledger_wf (snd (delete_annotations_for slug u tf db))"
  by (auto simp: delete_annotations_for_def Let_def ledger_wf_def list_all_iff distinct_map inj_on_def)

section \<open>Sequences of calls\<close>

text \<open>The writes of the module, each made for one user.\<close>

datatype ledger_write =
    Create_Deal paper_deal string string
  | Update_Deal paper_deal string string
  | Save_Deal paper_deal string string
  | Replay "paper_deal list" string string
  | Save_Order paper_order string string real
  | Close_Deal string real string real real int "trigger option"
  | Save_Annotation annotation
  | Delete_Annotation int
  | Delete_Annotations_For string "string option"

fun ledger_call :: "int \<Rightarrow> ledger_write \<Rightarrow> ledger \<Rightarrow> ledger" where
  "ledger_call u (Create_Deal d slug name) db = snd (create_deal d slug name u db)"
| "ledger_call u (Update_Deal d slug name) db = snd (update_deal d slug name u db)"
| "ledger_call u (Save_Deal d slug name) db = snd (save_deal d slug name u db)"
| "ledger_call u (Replay ds slug name) db = snd (replay_deals_in_transaction ds slug name u db)"
| "ledger_call u (Save_Order ord did slug fee) db = snd (save_order ord did slug u fee db)"
| "ledger_call u (Close_Deal did price reason b p ts trig) db =
     snd (ledger_close_deal did price reason b p u ts trig db)"
| "ledger_call u (Save_Annotation a) db = snd (save_annotation a u db)"
| "ledger_call u (Delete_Annotation i) db = snd (delete_annotation i u db)"
| "ledger_call u (Delete_Annotations_For slug tf) db = snd (delete_annotations_for slug u tf db)"

definition rows_of_user :: "int \<Rightarrow> ledger \<Rightarrow> deal_row list \<times> order_row list \<times> annotation list" where
  "rows_of_user v db =
     (filter (\<lambda>r. row_user r = v) (deals_tbl db), filter (\<lambda>r. or_user r = v) (orders_tbl db),
      filter (\<lambda>a. an_user a = v) (annotations_tbl db))"

lemma rows_insert_deal: "insert_deal_row r db = Inr db' \<Longrightarrow> row_user r \<noteq> v \<Longrightarrow> rows_of_user v db' = rows_of_user v db"
  by (auto simp: insert_deal_row_def rows_of_user_def split: if_splits)

lemma rows_insert_order: "insert_order_row r db = Inr db' \<Longrightarrow> or_user r \<noteq> v \<Longrightarrow> rows_of_user v db' = rows_of_user v db"
  by (auto simp: insert_order_row_def rows_of_user_def split: if_splits)

lemma rows_replay_orders:
  "replay_orders os did slug u db = Inr db' \<Longrightarrow> u \<noteq> v \<Longrightarrow> rows_of_user v db' = rows_of_user v db"
  by (induction os did slug u db rule: replay_orders.induct)
    (auto simp: res_bind_eq_Inr_iff insert_order_or_ignore_def order_row_of_def
      dest!: rows_insert_order [where v = v] split: if_splits)

lemma rows_replay_deals:
  "replay_deals ds slug name u db = Inr db' \<Longrightarrow> u \<noteq> v \<Longrightarrow> rows_of_user v db' = rows_of_user v db"
proof (induction ds arbitrary: db)
  case (Cons d ds)
  then obtain row db1 db2 where r: "deal_row_tuple d slug name u = Inr row"
    "insert_deal_or_ignore row db = Inr db1" "replay_orders (orders d) (deal_id d) slug u db1 = Inr db2"
    "replay_deals ds slug name u db2 = Inr db'"
    by (auto simp: res_bind_eq_Inr_iff)
  have "rows_of_user v db1 = rows_of_user v db"
    using r(2) deal_row_tuple_keys [OF r(1)] Cons.prems(2)
    by (auto simp: insert_deal_or_ignore_def dest!: rows_insert_deal [where v = v] split: if_splits)
  then show ?case
    using rows_replay_orders [OF r(3) Cons.prems(2)] Cons.IH [OF r(4) Cons.prems(2)] by simp
qed simp

lemma filter_map_same:
  "(\<And>x. x \<in> set xs \<Longrightarrow> P (f x) = P x) \<Longrightarrow> (\<And>x. x \<in> set xs \<Longrightarrow> P x \<Longrightarrow> f x = x) \<Longrightarrow>
    filter P (map f xs) = filter P xs"
  by (induction xs) auto

lemma rows_update_deal:
  "u \<noteq> v \<Longrightarrow> rows_of_user v (snd (update_deal d slug name u db)) = rows_of_user v db"
  by (auto simp: update_deal_def rows_of_user_def row_matches_def dest: deal_row_tuple_keys
      intro!: filter_map_same split: sum.split)

lemma rows_create_deal:
  "u \<noteq> v \<Longrightarrow> rows_of_user v (snd (create_deal d slug name u db)) = rows_of_user v db"
  by (auto simp: create_deal_def commit_state res_bind_eq_Inr_iff dest!: rows_insert_deal [where v = v]
      dest: deal_row_tuple_keys split: sum.split)

lemma rows_save_deal:
  "u \<noteq> v \<Longrightarrow> rows_of_user v (snd (save_deal d slug name u db)) = rows_of_user v db"
  using rows_update_deal [of u v d slug name db]
  by (auto simp: save_deal_def pbind_apply rows_create_deal split: prod.split sum.split)

lemma filter_filter_same: "(\<And>x. P x \<Longrightarrow> Q x) \<Longrightarrow> filter P (filter Q xs) = filter P xs"
  by (induction xs) auto

lemma rows_ledger_call:
  assumes "u \<noteq> v"
  shows "rows_of_user v (ledger_call u c db) = rows_of_user v db"
proof (cases c)
  case (Replay ds slug name)
  then show ?thesis
    using assms by (auto simp: replay_deals_in_transaction_def dest: rows_replay_deals split: sum.split)
next
  case (Save_Order ord did slug fee)
  then show ?thesis
    using assms by (auto simp: save_order_def commit_state order_row_of_def
        dest!: rows_insert_order [where v = v] split: sum.split)
next
  case (Close_Deal did price reason b p ts trig)
  then show ?thesis
    using assms by (auto simp: ledger_close_deal_def rows_of_user_def close_row_def intro!: filter_map_same)
next
  case (Save_Annotation a)
  then show ?thesis using assms by (auto simp: save_annotation_def Let_def rows_of_user_def)
next
  case (Delete_Annotation i)
  then show ?thesis
    using assms by (auto simp: delete_annotation_def rows_of_user_def simp del: filter_filter intro!: filter_filter_same)
next
  case (Delete_Annotations_For slug tf)
  then show ?thesis
    using assms by (auto simp: delete_annotations_for_def Let_def rows_of_user_def
        simp del: filter_filter intro!: filter_filter_same)
qed (use assms in \<open>simp_all add: rows_create_deal rows_update_deal rows_save_deal\<close>)

interpretation ledger_tenants: tenant_store ledger_call rows_of_user
  by unfold_locales (rule rows_ledger_call)

text \<open>C8: tenant isolation: whatever sequence of calls other users make, successful or refused, the
  deals, the orders and the annotations of a user stay exactly as they were.\<close>

theorem ledger_tenant_isolation:
  assumes "\<forall>(u, c) \<in> set calls. u \<noteq> v"
  shows "rows_of_user v (fold (\<lambda>(u, c). ledger_call u c) calls db) = rows_of_user v db"
  using assms by (rule ledger_tenants.run_isolated)

lemma ledger_call_wf: "ledger_wf db \<Longrightarrow> ledger_wf (ledger_call u c db)"
  by (cases c) (auto intro: wf_intros)

text \<open>C31: referential integrity: every sequence of calls keeps the ids of deals, orders and annotations
  unique, every order under an existing deal and every deal and order with an existing user.\<close>

theorem ledger_integrity:
  assumes "ledger_wf db"
  shows "ledger_wf (fold (\<lambda>(u, c). ledger_call u c) calls db)"
  using assms by (induction calls arbitrary: db) (auto simp: ledger_call_wf)

section \<open>What a write does\<close>

lemma row_unique:
  "ledger_wf db \<Longrightarrow> x \<in> set (deals_tbl db) \<Longrightarrow> r \<in> set (deals_tbl db) \<Longrightarrow> row_id x = row_id r \<Longrightarrow> x = r"
  unfolding ledger_wf_def distinct_map by (blast dest: inj_onD)

lemma map_update_unique:
  assumes "distinct (map f xs)" "r \<in> set xs" "\<And>x. x \<in> set xs \<Longrightarrow> P x \<longleftrightarrow> f x = f r"
  shows "length (filter P xs) = 1"
  using assms
proof (induction xs)
  case (Cons x xs)
  show ?case
  proof (cases "x = r")
    case True
    with Cons.prems have "\<forall>y \<in> set xs. \<not> P y" by (auto simp: image_iff)
    with True Cons.prems show ?thesis by (simp add: filter_empty_conv)
  next
    case False
    with Cons.prems have "r \<in> set xs" "f x \<noteq> f r" by (auto simp: image_iff)
    with Cons show ?thesis by simp
  qed
qed simp

text \<open>the upsert never clobbers: on its own row it replaces exactly that row; with no row of that id
  it appends one; and when the id belongs to another user or bot it raises the integrity error and
  changes nothing.\<close>

theorem save_deal_never_clobbers:
  assumes "ledger_wf db" "deal_wf d" "u \<in> set (users_tbl db)"
  shows "\<exists>row. deal_row_tuple d slug name u = Inr row \<and>
    (case filter (\<lambda>r. row_id r = deal_id d) (deals_tbl db) of
       [] \<Rightarrow> save_deal d slug name u db = (Inr (), db\<lparr>deals_tbl := deals_tbl db @ [row]\<rparr>)
     | r # _ \<Rightarrow>
         if row_user r = u \<and> row_slug r = slug
         then save_deal d slug name u db =
           (Inr (), db\<lparr>deals_tbl := map (\<lambda>x. if row_id x = deal_id d then row else x) (deals_tbl db)\<rparr>)
         else save_deal d slug name u db = (Inl IntegrityError, db))"
proof -
  obtain row where row: "deal_row_tuple d slug name u = Inr row"
    using assms(2) by (auto simp: deal_row_tuple_def)
  have k: "row_id row = deal_id d" "row_user row = u" "row_slug row = slug"
    using deal_row_tuple_keys [OF row] by auto
  let ?m = "row_matches (deal_id d) u slug"
  have miss: "update_deal d slug name u db = (Inr 0, db)" if "\<forall>r \<in> set (deals_tbl db). \<not> ?m r"
  proof -
    have "map (\<lambda>r. if ?m r then row else r) (deals_tbl db) = deals_tbl db"
      using that by (simp add: map_idI)
    then show ?thesis using that by (simp add: update_deal_def row k filter_empty_conv)
  qed
  show ?thesis
  proof (cases "filter (\<lambda>r. row_id r = deal_id d) (deals_tbl db)")
    case Nil
    then have no: "\<forall>r \<in> set (deals_tbl db). row_id r \<noteq> deal_id d" by (simp add: filter_empty_conv)
    then have "save_deal d slug name u db = (Inr (), db\<lparr>deals_tbl := deals_tbl db @ [row]\<rparr>)"
      using assms(3) miss by (auto simp: save_deal_def row_matches_def create_deal_def row insert_deal_row_def
          k commit_def)
    then show ?thesis using row Nil by simp
  next
    case (Cons r rs)
    then have r: "r \<in> set (deals_tbl db)" "row_id r = deal_id d"
      by (auto simp: filter_eq_Cons_iff)
    have inj: "x = r" if "x \<in> set (deals_tbl db)" "row_id x = deal_id d" for x
      using row_unique [OF assms(1) that(1) r(1)] that(2) r(2) by simp
    show ?thesis
    proof (cases "row_user r = u \<and> row_slug r = slug")
      case True
      have m: "?m x \<longleftrightarrow> row_id x = deal_id d" if "x \<in> set (deals_tbl db)" for x
        using inj [OF that] True by (auto simp: row_matches_def)
      have "length (filter ?m (deals_tbl db)) = 1"
        by (rule map_update_unique [of row_id _ r]) (use assms(1) r m in \<open>auto simp: ledger_wf_def\<close>)
      moreover have "map (\<lambda>x. if ?m x then row else x) (deals_tbl db)
          = map (\<lambda>x. if row_id x = deal_id d then row else x) (deals_tbl db)"
        using m by auto
      ultimately have "update_deal d slug name u db =
          (Inr 1, db\<lparr>deals_tbl := map (\<lambda>x. if row_id x = deal_id d then row else x) (deals_tbl db)\<rparr>)"
        by (simp add: update_deal_def row k)
      then show ?thesis using row Cons True by (simp add: save_deal_def)
    next
      case False
      have "\<forall>x \<in> set (deals_tbl db). \<not> ?m x" using False inj by (auto simp: row_matches_def)
      moreover have "deal_id d \<in> row_id ` set (deals_tbl db)" using r by (metis imageI)
      ultimately have "save_deal d slug name u db = (Inl IntegrityError, db)"
        using miss by (simp add: save_deal_def create_deal_def row insert_deal_row_def k commit_def)
      then show ?thesis using row Cons False by simp
    qed
  qed
qed

section \<open>The restart replay\<close>

lemma insert_deal_or_ignore_Inr:
  "insert_deal_or_ignore r db = Inr db' \<Longrightarrow>
    row_id r \<in> row_id ` set (deals_tbl db') \<and> (\<exists>n. deals_tbl db' = deals_tbl db @ n) \<and> orders_tbl db' = orders_tbl db"
  by (auto simp: insert_deal_or_ignore_def insert_deal_row_def split: if_splits)

lemma replay_orders_extends:
  "replay_orders os did slug u db = Inr db' \<Longrightarrow>
    deals_tbl db' = deals_tbl db \<and> (\<exists>n. orders_tbl db' = orders_tbl db @ n) \<and>
    (\<forall>ord \<in> set os. order_row_id did (order_number ord) \<in> or_id ` set (orders_tbl db'))"
proof (induction os did slug u db rule: replay_orders.induct)
  case (2 ord os did slug u db)
  then obtain db1 where db1: "insert_order_or_ignore (order_row_of ord did slug u 0) db = Inr db1"
    "replay_orders os did slug u db1 = Inr db'"
    by (auto simp: res_bind_eq_Inr_iff)
  have "deals_tbl db1 = deals_tbl db \<and> (\<exists>n. orders_tbl db1 = orders_tbl db @ n) \<and>
      order_row_id did (order_number ord) \<in> or_id ` set (orders_tbl db1)"
    using db1(1) by (auto simp: insert_order_or_ignore_def insert_order_row_def order_row_of_def split: if_splits)
  with 2(1) [OF db1(2)] show ?case by auto
qed simp

lemma replay_deals_extends:
  "replay_deals ds slug name u db = Inr db' \<Longrightarrow>
    (\<exists>n. deals_tbl db' = deals_tbl db @ n) \<and> (\<exists>n. orders_tbl db' = orders_tbl db @ n) \<and>
    (\<forall>d \<in> set ds. deal_id d \<in> row_id ` set (deals_tbl db') \<and>
       (\<forall>ord \<in> set (orders d). order_row_id (deal_id d) (order_number ord) \<in> or_id ` set (orders_tbl db')))"
proof (induction ds arbitrary: db)
  case (Cons d ds)
  then obtain row db1 db2 where r: "deal_row_tuple d slug name u = Inr row"
    "insert_deal_or_ignore row db = Inr db1" "replay_orders (orders d) (deal_id d) slug u db1 = Inr db2"
    "replay_deals ds slug name u db2 = Inr db'"
    by (auto simp: res_bind_eq_Inr_iff)
  note x1 = insert_deal_or_ignore_Inr [OF r(2)] and x2 = replay_orders_extends [OF r(3)]
    and x3 = Cons.IH [OF r(4)]
  have sub: "row_id ` set (deals_tbl db1) \<subseteq> row_id ` set (deals_tbl db')"
    "or_id ` set (orders_tbl db2) \<subseteq> or_id ` set (orders_tbl db')"
    using x2 x3 by auto
  have "deal_id d \<in> row_id ` set (deals_tbl db')"
    using x1 sub(1) deal_row_tuple_keys [OF r(1)] by auto
  moreover have "\<forall>ord \<in> set (orders d). order_row_id (deal_id d) (order_number ord) \<in> or_id ` set (orders_tbl db')"
    using x2 sub(2) by blast
  moreover have "(\<exists>n. deals_tbl db' = deals_tbl db @ n) \<and> (\<exists>n. orders_tbl db' = orders_tbl db @ n)"
    using x1 x2 x3 by (metis append.assoc)
  ultimately show ?case using x3 by simp
qed simp

lemma replay_orders_noop:
  "\<forall>ord \<in> set os. order_row_id did (order_number ord) \<in> or_id ` set (orders_tbl db) \<Longrightarrow>
    replay_orders os did slug u db = Inr db"
  by (induction os) (auto simp: insert_order_or_ignore_def order_row_of_def)

lemma replay_deals_noop:
  assumes "\<forall>d \<in> set ds. (\<exists>row. deal_row_tuple d slug name u = Inr row) \<and> deal_id d \<in> row_id ` set (deals_tbl db) \<and>
       (\<forall>ord \<in> set (orders d). order_row_id (deal_id d) (order_number ord) \<in> or_id ` set (orders_tbl db))"
  shows "replay_deals ds slug name u db = Inr db"
  using assms
proof (induction ds)
  case (Cons d ds)
  then obtain row where row: "deal_row_tuple d slug name u = Inr row" by auto
  have "row_id row \<in> row_id ` set (deals_tbl db)"
    using deal_row_tuple_keys [OF row] Cons.prems by simp
  then have "insert_deal_or_ignore row db = Inr db" by (simp add: insert_deal_or_ignore_def)
  with row Cons show ?case by (simp add: replay_orders_noop)
qed simp

lemma replay_deals_tuples:
  "replay_deals ds slug name u db = Inr db' \<Longrightarrow> d \<in> set ds \<Longrightarrow> \<exists>row. deal_row_tuple d slug name u = Inr row"
  by (induction ds arbitrary: db) (auto simp: res_bind_eq_Inr_iff)

definition extends_ledger :: "ledger \<Rightarrow> ledger \<Rightarrow> bool" where
  "extends_ledger db db' =
     (take (length (deals_tbl db)) (deals_tbl db') = deals_tbl db \<and>
      take (length (orders_tbl db)) (orders_tbl db') = orders_tbl db)"

text \<open>C32: the boot-time replay is all or nothing and idempotent: it either leaves the ledger as it was
  and raises, or only appends rows, after which replaying the same deals again changes nothing; no
  existing row is ever overwritten.\<close>

theorem replay_atomic_and_idempotent:
  "case replay_deals_in_transaction ds slug name u db of
     (Inl e, db') \<Rightarrow> db' = db
   | (Inr n, db') \<Rightarrow> n = length ds \<and> extends_ledger db db' \<and>
       replay_deals_in_transaction ds slug name u db' = (Inr n, db')"
proof (cases "replay_deals ds slug name u db")
  case (Inl e)
  then show ?thesis by (cases "ds = []") (auto simp: replay_deals_in_transaction_def)
next
  case (Inr db')
  have x: "extends_ledger db db'"
    using replay_deals_extends [OF Inr] by (auto simp: extends_ledger_def)
  have "replay_deals ds slug name u db' = Inr db'"
    by (rule replay_deals_noop) (use replay_deals_extends [OF Inr] replay_deals_tuples [OF Inr] in blast)
  with Inr x show ?thesis
    by (cases "ds = []") (auto simp: replay_deals_in_transaction_def extends_ledger_def)
qed

lemma replay_orders_ok:
  "u \<in> set (users_tbl db) \<Longrightarrow> did \<in> row_id ` set (deals_tbl db) \<Longrightarrow> \<exists>db'. replay_orders os did slug u db = Inr db'"
proof (induction os arbitrary: db)
  case (Cons ord os)
  then obtain db1 where "insert_order_or_ignore (order_row_of ord did slug u 0) db = Inr db1"
    "users_tbl db1 = users_tbl db" "deals_tbl db1 = deals_tbl db"
    by (cases "order_row_id did (order_number ord) \<in> or_id ` set (orders_tbl db)")
      (simp_all add: insert_order_or_ignore_def insert_order_row_def order_row_of_def)
  with Cons.IH [of db1] Cons.prems show ?case by auto
qed simp

text \<open>the replay trusts the id alone: when a deal's id is taken by another user's row, the deal is
  skipped without an error, it is counted as replayed, and its orders are attached to the other
  user's deal.\<close>

theorem replay_attaches_orders_to_foreign_deal:
  assumes "deal_wf d" "u \<in> set (users_tbl db)" "r \<in> set (deals_tbl db)" "row_id r = deal_id d" "row_user r \<noteq> u"
    and "order_row_id (deal_id d) (order_number (hd (orders d))) \<notin> or_id ` set (orders_tbl db)"
  shows "\<exists>db'. replay_deals_in_transaction [d] slug name u db = (Inr 1, db') \<and> deals_tbl db' = deals_tbl db
    \<and> (\<exists>w \<in> set (orders_tbl db'). or_user w = u \<and> or_deal w = row_id r)"
proof -
  obtain row where row: "deal_row_tuple d slug name u = Inr row"
    using assms(1) by (auto simp: deal_row_tuple_def)
  have mem: "deal_id d \<in> row_id ` set (deals_tbl db)" using assms(3,4) by (metis imageI)
  have ign: "insert_deal_or_ignore row db = Inr db"
    using deal_row_tuple_keys [OF row] mem by (simp add: insert_deal_or_ignore_def)
  obtain ord os where ords: "orders d = ord # os" using assms(1) by (cases "orders d") (auto simp: deal_wf_def)
  let ?w = "order_row_of ord (deal_id d) slug u 0"
  define db1 where "db1 = db\<lparr>orders_tbl := orders_tbl db @ [?w]\<rparr>"
  have i1: "insert_order_or_ignore ?w db = Inr db1"
    using assms(2,6) mem by (simp add: insert_order_or_ignore_def insert_order_row_def order_row_of_def ords db1_def)
  obtain db' where db': "replay_orders os (deal_id d) slug u db1 = Inr db'"
    using replay_orders_ok [of u db1 "deal_id d" os slug] assms(2) mem by (auto simp: db1_def)
  have "?w \<in> set (orders_tbl db')" "deals_tbl db' = deals_tbl db"
    using replay_orders_extends [OF db'] by (auto simp: db1_def)
  moreover have "replay_deals_in_transaction [d] slug name u db = (Inr 1, db')"
    using row ign i1 db' by (simp add: replay_deals_in_transaction_def ords)
  ultimately show ?thesis
    using assms(4) by (intro exI [of _ db'] conjI bexI [of _ ?w]) (simp_all add: order_row_of_def)
qed

section \<open>What a query reads\<close>

lemma sorted_map_const: "\<forall>x \<in> set xs. f x = c \<Longrightarrow> sorted (map f xs)"
  by (induction xs) auto

lemma map_of_pairing: "map_of (map (\<lambda>i. (i, f i)) xs) k = (if k \<in> set xs then Some (f k) else None)"
  by (induction xs) auto

text \<open>closing writes exactly the row of that id and only for its owner: the row then reads back as
  closed with the given price, reason and result, an exit trigger already stored surviving a call
  without one, and for any other user the call changes nothing.\<close>

theorem ledger_close_deal_effect:
  assumes "ledger_wf db" "r \<in> set (deals_tbl db)"
  shows "filter (\<lambda>x. row_id x = row_id r)
      (deals_tbl (snd (ledger_close_deal (row_id r) price reason b p (row_user r) ts trig db)))
      = [close_row price reason b p ts trig r]
    \<and> filter (\<lambda>x. row_id x \<noteq> row_id r)
      (deals_tbl (snd (ledger_close_deal (row_id r) price reason b p u ts trig db)))
      = filter (\<lambda>x. row_id x \<noteq> row_id r) (deals_tbl db)
    \<and> (u \<noteq> row_user r \<longrightarrow> snd (ledger_close_deal (row_id r) price reason b p u ts trig db) = db)"
proof (intro conjI impI)
  have inj: "x = r" if "x \<in> set (deals_tbl db)" "row_id x = row_id r" for x
    using row_unique [OF assms(1) that(1) assms(2) that(2)] .
  have keep: "row_id (close_row price reason b p ts trig x) = row_id x" for x by (simp add: close_row_def)
  have "filter (\<lambda>x. row_id x = row_id r) (deals_tbl db) = [r]"
  proof -
    have "length (filter (\<lambda>x. row_id x = row_id r) (deals_tbl db)) = 1"
      by (rule map_update_unique [of row_id _ r]) (use assms in \<open>auto simp: ledger_wf_def\<close>)
    then obtain y where "filter (\<lambda>x. row_id x = row_id r) (deals_tbl db) = [y]"
      by (auto simp: length_Suc_conv)
    moreover from this have "y \<in> set (deals_tbl db)" "row_id y = row_id r"
      by (auto simp: filter_eq_Cons_iff)
    ultimately show ?thesis using inj by simp
  qed
  then have "map (close_row price reason b p ts trig) (filter (\<lambda>x. row_id x = row_id r) (deals_tbl db))
      = [close_row price reason b p ts trig r]" by simp
  moreover have "filter (\<lambda>x. row_id x = row_id r)
      (map (\<lambda>x. if row_id x = row_id r \<and> row_user x = row_user r then close_row price reason b p ts trig x else x) xs)
      = map (close_row price reason b p ts trig) (filter (\<lambda>x. row_id x = row_id r) xs)"
    if "set xs \<subseteq> set (deals_tbl db)" for xs
    using that inj by (induction xs) (auto simp: keep)
  ultimately show "filter (\<lambda>x. row_id x = row_id r)
      (deals_tbl (snd (ledger_close_deal (row_id r) price reason b p (row_user r) ts trig db)))
      = [close_row price reason b p ts trig r]"
    by (simp add: ledger_close_deal_def)
  show "filter (\<lambda>x. row_id x \<noteq> row_id r)
      (deals_tbl (snd (ledger_close_deal (row_id r) price reason b p u ts trig db)))
      = filter (\<lambda>x. row_id x \<noteq> row_id r) (deals_tbl db)"
    by (auto simp: ledger_close_deal_def keep intro!: filter_map_same split: if_splits)
  assume "u \<noteq> row_user r"
  then have "map (\<lambda>x. if row_id x = row_id r \<and> row_user x = u then close_row price reason b p ts trig x else x)
      (deals_tbl db) = deals_tbl db"
    using inj by (intro map_idI) auto
  then show "snd (ledger_close_deal (row_id r) price reason b p u ts trig db) = db"
    by (simp add: ledger_close_deal_def)
qed

text \<open>the batch query answers for each requested deal what the single query answers, an empty list
  included, and has no other entry.\<close>

theorem batch_orders_equal_single:
  "map_of (get_orders_for_deal_ids dids u db) did =
     (if did \<in> set dids then Some (get_deal_orders did u db) else None)"
proof -
  have one: "filter (\<lambda>r. or_deal r = i) (sort_key or_deal (sort_key or_number
      (filter (\<lambda>r. or_deal r \<in> set dids \<and> or_user r = u) (orders_tbl db)))) = get_deal_orders i u db"
    if "i \<in> set dids" for i
  proof -
    have "sorted (map or_deal (sort_key or_number (filter (\<lambda>r. or_deal r = i \<and> or_user r = u) (orders_tbl db))))"
      by (rule sorted_map_const [of _ _ i]) simp
    then have "sort_key or_deal (sort_key or_number (filter (\<lambda>r. or_deal r = i \<and> or_user r = u) (orders_tbl db)))
        = get_deal_orders i u db"
      by (simp add: get_deal_orders_def sort_key_id_if_sorted)
    moreover have "filter (\<lambda>r. or_deal r = i) (filter (\<lambda>r. or_deal r \<in> set dids \<and> or_user r = u) (orders_tbl db))
        = filter (\<lambda>r. or_deal r = i \<and> or_user r = u) (orders_tbl db)"
      using that by (auto intro: filter_cong)
    ultimately show ?thesis by (simp add: filter_sort)
  qed
  then show ?thesis by (auto simp: get_orders_for_deal_ids_def Let_def map_of_pairing)
qed

lemma sum_list_bounds:
  fixes xs :: "real list"
  shows "xs \<noteq> [] \<Longrightarrow> Min (set xs) * real (length xs) \<le> sum_list xs \<and> sum_list xs \<le> Max (set xs) * real (length xs)"
  using weighted_bounds [of xs "Min (set xs)" "\<lambda>x. x" "Max (set xs)" "\<lambda>_. 1"]
  by (simp add: sum_list_triv)

text \<open>the statistics are consistent: wins and losses add up to the closed deals, the win rate is a
  percentage, and the average result lies between the worst and the best one.\<close>

theorem stats_consistent:
  "ds_wins (compute_stats u slug db) + ds_losses (compute_stats u slug db) = ds_total (compute_stats u slug db)
    \<and> 0 \<le> ds_win_rate (compute_stats u slug db) \<and> ds_win_rate (compute_stats u slug db) \<le> 100
    \<and> ds_worst (compute_stats u slug db) \<le> ds_avg_pnl (compute_stats u slug db)
    \<and> ds_avg_pnl (compute_stats u slug db) \<le> ds_best (compute_stats u slug db)"
proof (cases "filter (\<lambda>r. row_user r = u \<and> row_status r = ''closed'' \<and> opt_matches slug (row_slug r)) (deals_tbl db)")
  case Nil
  then show ?thesis by (simp add: compute_stats_def Let_def)
next
  case (Cons r rs)
  define ps where "ps = map row_pnl_btc (r # rs)"
  define w where "w = length (filter (\<lambda>p. 0 < p) ps)"
  have w: "w \<le> length ps" by (simp add: w_def)
  have n: "0 < real (length ps)" by (simp add: ps_def)
  have "real w / real (length ps) * 100 \<le> of_int 100"
    using w n by (simp add: divide_le_eq)
  then have r100: "py_round (real w / real (length ps) * 100) 2 \<le> of_int 100"
    using py_round_mono py_round_int by metis
  have "compute_stats u slug db = \<lparr>ds_total = length ps, ds_wins = w, ds_losses = length ps - w,
      ds_win_rate = py_round (real w / real (length ps) * 100) 2, ds_avg_pnl = sum_list ps / real (length ps),
      ds_best = Max (set ps), ds_worst = Min (set ps),
      ds_total_fees = ds_total_fees (compute_stats u slug db)\<rparr>"
    by (simp add: compute_stats_def Cons Let_def ps_def w_def)
  moreover have "Min (set ps) \<le> sum_list ps / real (length ps)" "sum_list ps / real (length ps) \<le> Max (set ps)"
    using sum_list_bounds [of ps] n by (simp_all add: pos_le_divide_eq pos_divide_le_eq)
  ultimately show ?thesis
    using w r100 by (metis (no_types, lifting) deal_stats.select_convs of_int_numeral py_round_nonneg
        le_add_diff_inverse of_nat_0_le_iff divide_nonneg_nonneg mult_nonneg_nonneg zero_le_numeral)
qed

section \<open>Witnesses\<close>

definition empty_ledger :: ledger where
  "empty_ledger = \<lparr>users_tbl = [1, 2], deals_tbl = [], orders_tbl = [], annotations_tbl = [], annotation_seq = 0\<rparr>"

definition ledger_order :: paper_order where
  "ledger_order = \<lparr>order_number = 1, order_price = 50000, order_size = 1 / 1000, order_timestamp = 0, order_type = ''base''\<rparr>"

definition ledger_deal :: paper_deal where
  "ledger_deal = \<lparr>deal_id = ''202604192359-0001'', bot_name = ''b'', symbol = ''BTC/USD'', side = ''long'',
     leverage = 1, orders = [ledger_order], is_open = True, opened_at = 0, closed_at = None, close_price = None,
     close_reason = None, pnl_btc = 0, pnl_pct = 0, entry_trigger = None, exit_trigger = None, peak_price = 0,
     tp_ov = None, sl_ov = None, deal_dca_enabled = True, wick_high_since_open = 50000, wick_low_since_open = 50000\<rparr>"

definition ledger_one :: ledger where
  "ledger_one = ledger_call 1 (Create_Deal ledger_deal ''bot'' ''Bot'') empty_ledger"

lemma ledger_deal_wf: "deal_wf ledger_deal"
  by (simp add: deal_wf_def ledger_deal_def ledger_order_def order_wf_def valid_side_def)

lemma empty_ledger_wf: "ledger_wf empty_ledger"
  by (simp add: ledger_wf_def empty_ledger_def)

lemma ledger_one_wf: "ledger_wf ledger_one"
  unfolding ledger_one_def by (rule ledger_call_wf [OF empty_ledger_wf])

lemma ledger_one_row: "\<exists>r. deals_tbl ledger_one = [r] \<and> row_id r = ''202604192359-0001'' \<and> row_user r = 1
    \<and> orders_tbl ledger_one = [] \<and> users_tbl ledger_one = [1, 2]"
  by (simp add: ledger_one_def create_deal_def commit_state deal_row_tuple_def ledger_deal_wf insert_deal_row_def
      empty_ledger_def) (simp add: ledger_deal_def)

theorem ledger_tenant_isolation_witness:
  "rows_of_user 1 (fold (\<lambda>(u, c). ledger_call u c) [(2, Save_Deal ledger_deal ''bot'' ''Bot''),
     (2, Close_Deal ''202604192359-0001'' 1 ''tp'' 0 0 9 None)] ledger_one) = rows_of_user 1 ledger_one"
  by (rule ledger_tenant_isolation) simp

theorem ledger_integrity_witness:
  "ledger_wf (fold (\<lambda>(u, c). ledger_call u c) [(2, Save_Deal ledger_deal ''bot'' ''Bot'')] ledger_one)"
  by (rule ledger_integrity [OF ledger_one_wf])

theorem save_deal_never_clobbers_witness:
  "save_deal ledger_deal ''bot'' ''Bot'' 2 ledger_one = (Inl IntegrityError, ledger_one)"
proof -
  have "2 \<in> set (users_tbl ledger_one)" "deal_id ledger_deal = ''202604192359-0001''"
    using ledger_one_row by (auto simp: ledger_deal_def)
  with save_deal_never_clobbers [OF ledger_one_wf ledger_deal_wf, of 2 "''bot''" "''Bot''"] ledger_one_row
  show ?thesis by auto
qed

theorem replay_attaches_orders_to_foreign_deal_witness:
  "\<exists>db'. replay_deals_in_transaction [ledger_deal] ''bot'' ''Bot'' 2 ledger_one = (Inr 1, db')
     \<and> deals_tbl db' = deals_tbl ledger_one"
proof -
  obtain r where r: "deals_tbl ledger_one = [r]" "row_id r = deal_id ledger_deal" "row_user r \<noteq> 2"
    "orders_tbl ledger_one = []" "2 \<in> set (users_tbl ledger_one)"
    using ledger_one_row by (auto simp: ledger_deal_def)
  then show ?thesis
    using replay_attaches_orders_to_foreign_deal [OF ledger_deal_wf r(5) _ r(2,3), of "''bot''" "''Bot''"] by auto
qed

theorem ledger_close_deal_effect_witness:
  "\<exists>r. filter (\<lambda>x. row_id x = ''202604192359-0001'') (deals_tbl (snd (ledger_close_deal ''202604192359-0001''
     60000 ''tp'' 1 2 1 9 None ledger_one))) = [close_row 60000 ''tp'' 1 2 9 None r]"
proof -
  obtain r where r: "r \<in> set (deals_tbl ledger_one)" "row_id r = ''202604192359-0001''" "row_user r = 1"
    using ledger_one_row by auto
  show ?thesis
    using ledger_close_deal_effect [OF ledger_one_wf r(1), of 60000 "''tp''" 1 2 9 None] r(2,3) by auto
qed

end
