(* ===== verification/State_IO.thy ===== *)
theory State_IO
  imports Paper_State Drawdown_Guard "HOL-Library.Sublist"
begin

text \<open>
  The state file (\<open>paper/state_io.py\<close>): the JSON form of a deal, the atomic write by a temporary file,
  the sweep of orphaned temporaries, and the loader of the portal's offline path.  A JSON object is
  a record; a key that can be missing, or holds null, is \<open>None\<close>.  The labels and display values of
  the file that no code under verification reads back are left out.  The directory of the state
  file is an association list from names to contents, and a half-written file is \<open>Partial\<close>.
\<close>

section \<open>The JSON form of a deal\<close>

record order_json =
  oj_number :: "int option"
  oj_price :: "real option"
  oj_size :: "real option"
  oj_timestamp :: "int option"
  oj_type :: "string option"

record deal_json =
  dj_id :: "string option"
  dj_bot_name :: "string option"
  dj_symbol :: "string option"
  dj_side :: "string option"
  dj_leverage :: "int option"
  dj_order_count :: nat
  dj_dca_count :: nat
  dj_entry_price :: real
  dj_avg_entry_price :: real
  dj_total_size :: real
  dj_pnl_btc :: "real option"
  dj_pnl_pct :: "real option"
  dj_opened_at :: "int option"
  dj_closed_at :: "int option"
  dj_close_price :: "real option"
  dj_close_reason :: "string option"
  dj_is_open :: "bool option"
  dj_peak_price :: "real option"
  dj_tp_override :: "tp_override option"
  dj_sl_override :: "sl_override option"
  dj_dca_enabled :: "bool option"
  dj_wick_high :: "real option"
  dj_wick_low :: "real option"
  dj_entry_trigger :: "trigger option"
  dj_exit_trigger :: "trigger option"
  dj_orders :: "order_json list"

definition order_to_dict :: "paper_order \<Rightarrow> order_json" where
  "order_to_dict ord =
     \<lparr>oj_number = Some (order_number ord), oj_price = Some (order_price ord),
      oj_size = Some (order_size ord), oj_timestamp = Some (order_timestamp ord),
      oj_type = Some (order_type ord)\<rparr>"

definition reported_pnl :: "paper_deal \<Rightarrow> real \<Rightarrow> (real \<times> real) res" where
  "reported_pnl d current_price =
     (if \<not> is_open d then Inr (pnl_btc d, pnl_pct d)
      else if current_price \<noteq> 0 then calculate_pnl d current_price
      else Inr (0, 0))"

definition deal_to_dict :: "paper_deal \<Rightarrow> real \<Rightarrow> deal_json res" where
  "deal_to_dict d current_price =
     res_bind (reported_pnl d current_price) (\<lambda>(b, p).
     res_bind (avg_entry_price d) (\<lambda>avg.
     Inr \<lparr>dj_id = Some (deal_id d), dj_bot_name = Some (bot_name d), dj_symbol = Some (symbol d),
          dj_side = Some (side d), dj_leverage = Some (leverage d),
          dj_order_count = length (orders d), dj_dca_count = dca_count d,
          dj_entry_price = (case orders d of [] \<Rightarrow> 0 | ord # _ \<Rightarrow> py_round (order_price ord) 2),
          dj_avg_entry_price = py_round avg 2, dj_total_size = total_size d,
          dj_pnl_btc = Some (py_round b 8), dj_pnl_pct = Some (py_round p 4),
          dj_opened_at = Some (opened_at d), dj_closed_at = closed_at d,
          dj_close_price = close_price d, dj_close_reason = close_reason d,
          dj_is_open = Some (is_open d), dj_peak_price = Some (peak_price d),
          dj_tp_override = tp_ov d, dj_sl_override = sl_ov d,
          dj_dca_enabled = Some (deal_dca_enabled d),
          dj_wick_high = Some (wick_high_since_open d), dj_wick_low = Some (wick_low_since_open d),
          dj_entry_trigger = entry_trigger d, dj_exit_trigger = exit_trigger d,
          dj_orders = map order_to_dict (orders d)\<rparr>))"

definition get_or :: "'a \<Rightarrow> 'a option \<Rightarrow> 'a" where
  "get_or dflt x = (case x of None \<Rightarrow> dflt | Some v \<Rightarrow> v)"

lemma get_or_simps [simp]: "get_or a None = a" "get_or a (Some v) = v"
  by (simp_all add: get_or_def)

definition dict_to_order :: "int \<Rightarrow> order_json \<Rightarrow> paper_order" where
  "dict_to_order now j =
     \<lparr>order_number = get_or 1 (oj_number j), order_price = get_or 0 (oj_price j),
      order_size = get_or 0 (oj_size j), order_timestamp = get_or now (oj_timestamp j),
      order_type = get_or ''base'' (oj_type j)\<rparr>"

text \<open>The constructor call runs \<open>__post_init__\<close> on zero trackers, which may raise; the trackers are
  then overwritten.\<close>

definition dict_to_deal :: "int \<Rightarrow> deal_json \<Rightarrow> paper_deal res" where
  "dict_to_deal now j =
     (case dj_id j of
        None \<Rightarrow> Inl KeyError
      | Some i \<Rightarrow>
          res_bind (post_init
            \<lparr>deal_id = i, bot_name = get_or [] (dj_bot_name j), symbol = get_or [] (dj_symbol j),
             side = get_or ''long'' (dj_side j), leverage = get_or 1 (dj_leverage j),
             orders = map (dict_to_order now) (dj_orders j), is_open = get_or True (dj_is_open j),
             opened_at = get_or now (dj_opened_at j), closed_at = dj_closed_at j,
             close_price = dj_close_price j, close_reason = dj_close_reason j,
             pnl_btc = get_or 0 (dj_pnl_btc j), pnl_pct = get_or 0 (dj_pnl_pct j),
             entry_trigger = None, exit_trigger = None, peak_price = 0, tp_ov = None, sl_ov = None,
             deal_dca_enabled = True, wick_high_since_open = 0, wick_low_since_open = 0\<rparr>) (\<lambda>d.
          res_bind (avg_entry_price d) (\<lambda>avg.
            let fallback = (if orders d \<noteq> [] then avg else 0) in
            Inr (d\<lparr>peak_price := get_or 0 (dj_peak_price j), tp_ov := dj_tp_override j,
                   sl_ov := dj_sl_override j, deal_dca_enabled := get_or True (dj_dca_enabled j),
                   wick_high_since_open := get_or fallback (dj_wick_high j),
                   wick_low_since_open := get_or fallback (dj_wick_low j),
                   entry_trigger := dj_entry_trigger j, exit_trigger := dj_exit_trigger j\<rparr>))))"

section \<open>The deal survives the file\<close>

lemma order_roundtrip [simp]: "dict_to_order now (order_to_dict ord) = ord"
  by (simp add: dict_to_order_def order_to_dict_def)

lemma orders_roundtrip [simp]: "map (dict_to_order now \<circ> order_to_dict) os = os"
  by (induction os) auto

definition rounded_deal :: "paper_deal \<Rightarrow> real \<Rightarrow> real \<Rightarrow> paper_deal" where
  "rounded_deal d b p = d\<lparr>pnl_btc := py_round b 8, pnl_pct := py_round p 4\<rparr>"

lemma post_init_wf:
  assumes "deal_wf d" "wick_high_since_open d = 0" "wick_low_since_open d = 0"
  shows "post_init d = Inr (d\<lparr>wick_high_since_open := avg_of d, wick_low_since_open := avg_of d\<rparr>)"
proof -
  let ?d1 = "d\<lparr>wick_high_since_open := avg_of d\<rparr>"
  have wf: "deal_wf ?d1" using assms(1) by (simp add: deal_wf_def)
  have av: "avg_of ?d1 = avg_of d" by (simp add: avg_of_def total_value_def total_size_def)
  have ne: "orders d \<noteq> []" using assms(1) by (simp add: deal_wf_def)
  have "avg_entry_price ?d1 = Inr (avg_of d)" using avg_entry_price_wf [OF wf] av by simp
  with assms ne show ?thesis by (simp add: post_init_def)
qed

lemma dict_roundtrip:
  assumes "deal_wf e" "reported_pnl e x = Inr (b, p)" "deal_to_dict e x = Inr j"
  shows "dict_to_deal t j = Inr (rounded_deal e b p)"
proof -
  let ?c = "\<lparr>deal_id = deal_id e, bot_name = bot_name e, symbol = symbol e, side = side e,
     leverage = leverage e, orders = orders e, is_open = is_open e, opened_at = opened_at e,
     closed_at = closed_at e, close_price = close_price e, close_reason = close_reason e,
     pnl_btc = py_round b 8, pnl_pct = py_round p 4, entry_trigger = None, exit_trigger = None,
     peak_price = 0, tp_ov = None, sl_ov = None, deal_dca_enabled = True,
     wick_high_since_open = 0, wick_low_since_open = 0\<rparr>"
  have wf: "deal_wf ?c" using assms(1) by (simp add: deal_wf_def)
  have pi: "post_init ?c = Inr (?c\<lparr>wick_high_since_open := avg_of ?c, wick_low_since_open := avg_of ?c\<rparr>)"
    by (rule post_init_wf [OF wf]) simp_all
  have wf2: "deal_wf (?c\<lparr>wick_high_since_open := avg_of ?c, wick_low_since_open := avg_of ?c\<rparr>)"
    using wf by (simp add: deal_wf_def)
  show ?thesis
    using assms pi avg_entry_price_wf [OF wf2]
    by (auto simp: deal_to_dict_def dict_to_deal_def rounded_deal_def Let_def)
qed

lemma deal_dict_roundtrip:
  assumes "deal_wf d"
  obtains b p j where "reported_pnl d c = Inr (b, p)" "deal_to_dict d c = Inr j" "\<And>now. dict_to_deal now j = Inr (rounded_deal d b p)"
proof -
  obtain b p where bp: "reported_pnl d c = Inr (b, p)"
    using pnl_defined [OF assms, of c] by (cases "is_open d"; cases "c = 0") (auto simp: reported_pnl_def)
  obtain j where "deal_to_dict d c = Inr j" using assms bp by (simp add: deal_to_dict_def)
  with that bp dict_roundtrip [OF assms bp] show thesis by blast
qed

text \<open>a well-formed deal written to the state file and read back is the same deal in every field
  that matters to the engine, orders, trackers, overrides and triggers included; only the reported
  result is rounded, and reading back a second time loses nothing more.\<close>

theorem deal_file_roundtrip:
  assumes "deal_wf d"
  shows "\<exists>b p j. reported_pnl d c = Inr (b, p) \<and> deal_to_dict d c = Inr j
    \<and> dict_to_deal now j = Inr (rounded_deal d b p)
    \<and> (\<not> is_open d \<longrightarrow> (\<exists>j'. deal_to_dict (rounded_deal d b p) c' = Inr j'
         \<and> dict_to_deal now' j' = Inr (rounded_deal d b p)))"
proof -
  obtain b p j where bp: "reported_pnl d c = Inr (b, p)" and j: "deal_to_dict d c = Inr j"
    and again1: "\<And>now. dict_to_deal now j = Inr (rounded_deal d b p)"
    using deal_dict_roundtrip [OF assms] by metis
  have wfr: "deal_wf (rounded_deal d b p)" using assms by (simp add: deal_wf_def rounded_deal_def)
  have again: "\<exists>j'. deal_to_dict (rounded_deal d b p) c' = Inr j' \<and> dict_to_deal now' j' = Inr (rounded_deal d b p)"
    if "\<not> is_open d"
  proof -
    have r: "reported_pnl (rounded_deal d b p) c' = Inr (py_round b 8, py_round p 4)"
      using that by (simp add: reported_pnl_def rounded_deal_def)
    obtain j' where "deal_to_dict (rounded_deal d b p) c' = Inr j'"
      using wfr r by (simp add: deal_to_dict_def)
    moreover from dict_roundtrip [OF wfr r this] have "dict_to_deal now' j' = Inr (rounded_deal d b p)"
      by (simp add: rounded_deal_def)
    ultimately show ?thesis by blast
  qed
  show ?thesis using bp j again1 again by blast
qed

section \<open>Files\<close>

record state_json =
  sj_bot_name :: "string option"
  sj_running :: "bool option"
  sj_current_price :: "real option"
  sj_schedule_open :: "bool option"
  sj_balance_btc :: "real option"
  sj_initial_balance_btc :: "real option"
  sj_total_pnl_btc :: "real option"
  sj_win_rate :: "real option"
  sj_open_deals_count :: "nat option"
  sj_closed_deals_count :: "nat option"
  sj_fees_paid_btc :: "real option"
  sj_open_deals :: "deal_json list option"
  sj_closed_deals :: "deal_json list option"
  sj_drawdown_guard :: "dd_dict option"
  sj_paused_by_drawdown :: "bool option"

definition empty_json :: state_json where
  "empty_json =
     \<lparr>sj_bot_name = None, sj_running = None, sj_current_price = None, sj_schedule_open = None,
      sj_balance_btc = None, sj_initial_balance_btc = None, sj_total_pnl_btc = None, sj_win_rate = None,
      sj_open_deals_count = None, sj_closed_deals_count = None, sj_fees_paid_btc = None,
      sj_open_deals = None, sj_closed_deals = None, sj_drawdown_guard = None,
      sj_paused_by_drawdown = None\<rparr>"

datatype content = Json state_json | Partial

type_synonym dir = "(string \<times> content) list"

text \<open>\<open>Path.with_suffix\<close> on the name: the part from the last dot on is replaced, unless the dot is the
  first or the last character.\<close>

definition name_stem :: "string \<Rightarrow> string" where
  "name_stem n =
     (let suf = takeWhile (\<lambda>c. c \<noteq> CHR ''.'') (rev n); pre = rev (drop (length suf + 1) (rev n)) in
      if suf = [] \<or> length suf = length n \<or> pre = [] then n else pre)"

definition tmp_name :: "string \<Rightarrow> string" where
  "tmp_name n = name_stem n @ ''.tmp''"

definition cleanup_orphan_tmps :: "string \<Rightarrow> dir \<Rightarrow> dir" where
  "cleanup_orphan_tmps n fs = filter (\<lambda>(f, _). \<not> (suffix ''.tmp'' f \<and> prefix n f)) fs"

definition state_load :: "string option \<Rightarrow> dir \<Rightarrow> state_json option \<times> dir" where
  "state_load file fs =
     (case file of
        None \<Rightarrow> (None, fs)
      | Some n \<Rightarrow>
          let fs1 = cleanup_orphan_tmps n fs in
          ((case map_of fs1 n of Some (Json j) \<Rightarrow> Some j | _ \<Rightarrow> None), fs1))"

definition rename_file :: "string \<Rightarrow> string \<Rightarrow> dir \<Rightarrow> dir" where
  "rename_file a b fs =
     (case map_of fs a of
        None \<Rightarrow> fs
      | Some c \<Rightarrow> if a = b then fs else AList.delete a (AList.update b c fs))"

text \<open>The system calls of one write, in order; a crash leaves the effect of a prefix of them.\<close>

definition write_steps :: "string \<Rightarrow> state_json \<Rightarrow> (dir \<Rightarrow> dir) list" where
  "write_steps n j =
     [AList.update (tmp_name n) Partial, AList.update (tmp_name n) (Json j), rename_file (tmp_name n) n]"

definition state_write :: "string option \<Rightarrow> state_json \<Rightarrow> dir \<Rightarrow> dir" where
  "state_write file j fs =
     (case file of None \<Rightarrow> fs | Some n \<Rightarrow> fold (\<lambda>f. f) (write_steps n j) fs)"

definition mark_stopped :: "string option \<Rightarrow> dir \<Rightarrow> dir" where
  "mark_stopped file fs =
     (case file of
        None \<Rightarrow> fs
      | Some n \<Rightarrow>
          (case map_of fs n of
             Some Partial \<Rightarrow> fs
           | Some (Json j) \<Rightarrow> state_write (Some n) (j\<lparr>sj_running := Some False, sj_current_price := Some 0\<rparr>) fs
           | None \<Rightarrow> state_write (Some n) (empty_json\<lparr>sj_running := Some False, sj_current_price := Some 0\<rparr>) fs))"

text \<open>Restoring a list of deal dicts: an entry that raises is skipped with a warning.\<close>

definition parse_deals :: "int \<Rightarrow> deal_json list \<Rightarrow> paper_deal list" where
  "parse_deals now js =
     concat (map (\<lambda>j. case dict_to_deal now j of Inl _ \<Rightarrow> [] | Inr d \<Rightarrow> [d]) js)"

definition restore_book :: "int \<Rightarrow> deal_json list \<Rightarrow> deal_json list \<Rightarrow> paper_state \<Rightarrow> paper_state" where
  "restore_book now hist opens s =
     fold state_open_deal (parse_deals now opens)
       (s\<lparr>closed_deals := closed_deals s @ parse_deals now hist\<rparr>)"

definition load_paper_state_from_file :: "int \<Rightarrow> string \<Rightarrow> dir \<Rightarrow> paper_state \<times> dir" where
  "load_paper_state_from_file now n fs =
     (case state_load (Some n) fs of
        (None, fs1) \<Rightarrow> (new_paper_state (1 / 10), fs1)
      | (Some raw, fs1) \<Rightarrow>
          (if raw = empty_json then (new_paper_state (1 / 10), fs1)
           else
             let s = new_paper_state (1 / 10);
                 s1 = s\<lparr>balance_btc := get_or 0 (sj_balance_btc raw),
                        initial_balance_btc := get_or (initial_balance_btc s) (sj_initial_balance_btc raw)\<rparr>
             in (restore_book now (get_or [] (sj_closed_deals raw)) (get_or [] (sj_open_deals raw)) s1, fs1)))"

section \<open>Writes and crashes\<close>

lemma update_other: "k \<noteq> k' \<Longrightarrow> map_of (AList.update k v d) k' = map_of d k'"
  by (simp add: update_conv')

lemma rename_target:
  "a \<noteq> b \<Longrightarrow> map_of d a = Some c \<Longrightarrow> map_of (rename_file a b d) b = Some c"
  by (simp add: rename_file_def delete_conv' update_conv')

lemma rename_source: "a \<noteq> b \<Longrightarrow> map_of d a = Some c \<Longrightarrow> map_of (rename_file a b d) a = None"
  by (simp add: rename_file_def delete_conv')

lemma rename_third: "x \<noteq> a \<Longrightarrow> x \<noteq> b \<Longrightarrow> map_of (rename_file a b d) x = map_of d x"
  by (simp add: rename_file_def delete_conv' update_conv' split: option.split)

lemma state_write_lookup:
  assumes "tmp_name n \<noteq> n"
  shows "map_of (state_write (Some n) j fs) n = Some (Json j)"
    and "map_of (state_write (Some n) j fs) (tmp_name n) = None"
    and "x \<noteq> n \<Longrightarrow> x \<noteq> tmp_name n \<Longrightarrow> map_of (state_write (Some n) j fs) x = map_of fs x"
  using assms
  by (simp_all add: state_write_def write_steps_def rename_target rename_source rename_third update_conv')

text \<open>C10: a write is atomic: wherever a crash cuts its system calls, the state file holds either exactly
  what it held before or exactly the new state; after the last call it holds the new state and the
  temporary file is gone.\<close>

theorem state_write_crash_atomic:
  assumes "tmp_name n \<noteq> n"
  shows "map_of (fold (\<lambda>f. f) (take k (write_steps n j)) fs) n
      = (if k < 3 then map_of fs n else Some (Json j))
    \<and> (3 \<le> k \<longrightarrow> map_of (fold (\<lambda>f. f) (take k (write_steps n j)) fs) (tmp_name n) = None)"
proof -
  consider "k = 0" | "k = 1" | "k = 2" | "3 \<le> k" by linarith
  then show ?thesis
  proof cases
    case 4
    then have "take k (write_steps n j) = write_steps n j" by (simp add: write_steps_def)
    then show ?thesis
      using 4 state_write_lookup [OF assms] by (simp add: state_write_def)
  qed (use assms in \<open>simp_all add: write_steps_def update_conv' numeral_2_eq_2\<close>)
qed

lemma tmp_name_json: "base \<noteq> [] \<Longrightarrow> tmp_name (base @ ''.json'') = base @ ''.tmp''"
  by (simp add: tmp_name_def name_stem_def takeWhile_tail)

lemma tmp_json_differs: "base \<noteq> [] \<Longrightarrow> tmp_name (base @ ''.json'') \<noteq> base @ ''.json''"
  by (simp add: tmp_name_json)

text \<open>the sweep at load time misses the temporaries of this module: after a crash between the two
  halves of a write the orphan is called \<open>x.state.tmp\<close>, the sweep looks for names that start with
  \<open>x.state.json\<close>, and the orphan is still there after any number of loads.\<close>

theorem orphan_tmp_survives_load:
  assumes "base \<noteq> []" "0 < k" "k < 3"
  shows "map_of (((\<lambda>d. snd (state_load (Some (base @ ''.json'')) d)) ^^ m)
      (fold (\<lambda>f. f) (take k (write_steps (base @ ''.json'') j)) fs)) (base @ ''.tmp'') \<noteq> None"
proof -
  let ?n = "base @ ''.json''" and ?t = "base @ ''.tmp''"
  have no: "\<not> prefix ?n ?t" by (simp add: same_prefix_prefix)
  have keep: "map_of (snd (state_load (Some ?n) d)) ?t = map_of d ?t" for d
  proof -
    have "map_of (filter (\<lambda>(f, _). \<not> (suffix ''.tmp'' f \<and> prefix ?n f)) d) ?t = map_of d ?t"
      using no by (induction d) auto
    then show ?thesis by (simp add: state_load_def Let_def cleanup_orphan_tmps_def)
  qed
  have "k = 1 \<or> k = 2" using assms by auto
  then have "map_of (fold (\<lambda>f. f) (take k (write_steps ?n j)) fs) ?t \<noteq> None"
    using assms(1) by (auto simp: write_steps_def tmp_name_json update_conv' numeral_2_eq_2)
  then show ?thesis by (induction m) (simp_all add: keep)
qed

lemma state_load_after_write:
  assumes "tmp_name n \<noteq> n" "\<not> suffix ''.tmp'' n"
  shows "fst (state_load (Some n) (state_write (Some n) j fs)) = Some j"
proof -
  have "map_of (cleanup_orphan_tmps n d) n = map_of d n" for d
    using assms(2) by (induction d) (auto simp: cleanup_orphan_tmps_def)
  then show ?thesis
    using state_write_lookup(1) [OF assms(1)] by (simp add: state_load_def Let_def)
qed

text \<open>marking a bot stopped rewrites the two flags and keeps the rest of the state: what is loaded
  afterwards is the state written last, with \<open>running\<close> false and the price zero.\<close>

theorem mark_stopped_keeps_state:
  assumes "base \<noteq> []"
  shows "fst (state_load (Some (base @ ''.json'')) (mark_stopped (Some (base @ ''.json''))
      (state_write (Some (base @ ''.json'')) j fs)))
    = Some (j\<lparr>sj_running := Some False, sj_current_price := Some 0\<rparr>)"
proof -
  let ?n = "base @ ''.json''"
  have t: "tmp_name ?n \<noteq> ?n" using tmp_json_differs [OF assms] .
  have s: "\<not> suffix ''.tmp'' ?n" by (auto simp: suffix_def append_eq_append_conv2 append_eq_Cons_conv)
  have "mark_stopped (Some ?n) (state_write (Some ?n) j fs)
      = state_write (Some ?n) (j\<lparr>sj_running := Some False, sj_current_price := Some 0\<rparr>) (state_write (Some ?n) j fs)"
    using state_write_lookup(1) [OF t] by (simp add: mark_stopped_def)
  then show ?thesis by (simp add: state_load_after_write [OF t s])
qed

section \<open>The restored book\<close>

lemma parse_deals_roundtrip:
  assumes "list_all2 (\<lambda>d j. dict_to_deal now j = Inr (g d)) ds js"
  shows "parse_deals now js = map g ds"
  using assms by (induction rule: list_all2_induct) (simp_all add: parse_deals_def)

lemma fold_open_fresh:
  "distinct (keys (open_deals s) @ map deal_id ds) \<Longrightarrow>
    fold state_open_deal ds s = s\<lparr>open_deals := open_deals s @ map (\<lambda>d. (deal_id d, d)) ds\<rparr>"
proof (induction ds arbitrary: s)
  case (Cons d ds)
  have "state_open_deal d s = s\<lparr>open_deals := open_deals s @ [(deal_id d, d)]\<rparr>"
    using Cons.prems by (simp add: state_open_deal_def update_fresh)
  with Cons.IH [of "s\<lparr>open_deals := open_deals s @ [(deal_id d, d)]\<rparr>"] Cons.prems show ?case by auto
qed simp

section \<open>Witnesses\<close>

definition file_deal :: paper_deal where
  "file_deal = \<lparr>deal_id = ''202604192359-0001'', bot_name = ''b'', symbol = ''BTC/USD'', side = ''long'',
     leverage = 2, orders = [\<lparr>order_number = 1, order_price = 50000, order_size = 1 / 1000,
       order_timestamp = 0, order_type = ''base''\<rparr>], is_open = True, opened_at = 0, closed_at = None,
     close_price = None, close_reason = None, pnl_btc = 0, pnl_pct = 0, entry_trigger = None,
     exit_trigger = None, peak_price = 51000, tp_ov = None, sl_ov = None, deal_dca_enabled = False,
     wick_high_since_open = 52000, wick_low_since_open = 49000\<rparr>"

lemma file_deal_wf: "deal_wf file_deal"
  by (simp add: deal_wf_def file_deal_def order_wf_def valid_side_def)

theorem deal_file_roundtrip_witness:
  "\<exists>j e. deal_to_dict file_deal 55000 = Inr j \<and> dict_to_deal 7 j = Inr e \<and> orders e = orders file_deal"
  using deal_file_roundtrip [OF file_deal_wf, where c = 55000 and now = 7 and c' = 0 and now' = 0] by (auto simp: rounded_deal_def)

theorem state_write_crash_atomic_witness:
  "map_of (fold (\<lambda>f. f) (take 2 (write_steps ''a.state.json'' empty_json)) [(''a.state.json'', Partial)])
     ''a.state.json'' = Some Partial"
proof -
  have "tmp_name ''a.state.json'' \<noteq> ''a.state.json''" using tmp_json_differs [of "''a.state''"] by simp
  from state_write_crash_atomic [OF this, of 2 empty_json "[(''a.state.json'', Partial)]"] show ?thesis by simp
qed

theorem orphan_tmp_survives_load_witness:
  "map_of (((\<lambda>d. snd (state_load (Some (''a.state'' @ ''.json'')) d)) ^^ 3)
     (fold (\<lambda>f. f) (take 1 (write_steps (''a.state'' @ ''.json'') empty_json)) [])) (''a.state'' @ ''.tmp'') \<noteq> None"
  by (rule orphan_tmp_survives_load) simp_all

theorem mark_stopped_keeps_state_witness:
  "fst (state_load (Some (''a.state'' @ ''.json'')) (mark_stopped (Some (''a.state'' @ ''.json''))
      (state_write (Some (''a.state'' @ ''.json'')) (empty_json\<lparr>sj_balance_btc := Some 3\<rparr>) [])))
    = Some (empty_json\<lparr>sj_balance_btc := Some 3, sj_running := Some False, sj_current_price := Some 0\<rparr>)"
  using mark_stopped_keeps_state [of "''a.state''" "empty_json\<lparr>sj_balance_btc := Some 3\<rparr>" "[]"] by simp

end
