(* ===== verification/Tick_Errors.thy ===== *)
theory Tick_Errors
  imports Reverto_Prelude
begin

text \<open>
  The classification of a failed tick (\<open>paper/errors.py\<close>) and the error counters of the tick loop
  (\<open>core/trading_engine.py\<close>, the \<open>except\<close> branch of \<open>_tick\<close>).  An exception is known by the names of
  the classes of its method resolution order, its own class first.  The free-form message with its
  redaction is not modelled.
\<close>

section \<open>Classification\<close>

definition transient_classes :: "string list" where
  "transient_classes =
     [''RateLimitExceeded'', ''NetworkError'', ''DDoSProtection'', ''ExchangeNotAvailable'',
      ''RequestTimeout'', ''OnMaintenance'']"

definition status_by_class :: "(string \<times> int) list" where
  "status_by_class = [(''RateLimitExceeded'', 429), (''AuthenticationError'', 401), (''OnMaintenance'', 503)]"

fun mro_of :: "py_error \<Rightarrow> string list" where
  "mro_of ValueError = [''ValueError'', ''Exception'', ''BaseException'', ''object'']"
| "mro_of ZeroDivisionError = [''ZeroDivisionError'', ''ArithmeticError'', ''Exception'', ''BaseException'', ''object'']"
| "mro_of IndexError = [''IndexError'', ''LookupError'', ''Exception'', ''BaseException'', ''object'']"
| "mro_of KeyError = [''KeyError'', ''LookupError'', ''Exception'', ''BaseException'', ''object'']"
| "mro_of TypeError = [''TypeError'', ''Exception'', ''BaseException'', ''object'']"
| "mro_of IntegrityError = [''IntegrityError'', ''DatabaseError'', ''Error'', ''Exception'', ''BaseException'', ''object'']"
| "mro_of NotImplementedError = [''NotImplementedError'', ''RuntimeError'', ''Exception'', ''BaseException'', ''object'']"
| "mro_of CircuitOpenError = [''CircuitOpenError'', ''RuntimeError'', ''Exception'', ''BaseException'', ''object'']"
| "mro_of (ExternalError ns) = ns"

record ticker_error =
  te_exchange :: string
  te_endpoint :: string
  te_symbol :: string
  te_status_code :: "int option"
  te_error_class :: string
  te_retry_attempt :: nat
  te_max_retries :: nat
  te_is_transient :: bool

text \<open>\<open>http_status\<close> is the integer attribute of that name, when the exception has one.\<close>

definition classify_exception ::
  "py_error \<Rightarrow> int option \<Rightarrow> string \<Rightarrow> string \<Rightarrow> string \<Rightarrow> nat \<Rightarrow> nat \<Rightarrow> ticker_error" where
  "classify_exception e http_status exchange endpoint sy retry_attempt max_retries =
     (let cls = (case mro_of e of [] \<Rightarrow> '''' | c # _ \<Rightarrow> c) in
      \<lparr>te_exchange = exchange, te_endpoint = endpoint, te_symbol = sy,
       te_status_code = (case map_of status_by_class cls of Some n \<Rightarrow> Some n | None \<Rightarrow> http_status),
       te_error_class = cls, te_retry_attempt = retry_attempt, te_max_retries = max_retries,
       te_is_transient = list_ex (\<lambda>c. c \<in> set transient_classes) (mro_of e)\<rparr>)"

section \<open>The streak\<close>

record streak =
  tick_error_count :: nat
  consecutive_errors :: nat
  persistent_sent :: bool

definition persistent_threshold :: nat where
  "persistent_threshold = 5"

definition new_streak :: streak where
  "new_streak = \<lparr>tick_error_count = 0, consecutive_errors = 0, persistent_sent = False\<rparr>"

text \<open>A completed tick ends the streak; the cumulative count stays.\<close>

definition tick_succeeded :: "streak \<Rightarrow> streak" where
  "tick_succeeded s =
     (if 0 < consecutive_errors s then s\<lparr>consecutive_errors := 0, persistent_sent := False\<rparr> else s)"

text \<open>A failed tick: the counters, and the error to notify of, if any.\<close>

definition tick_failed ::
  "py_error \<Rightarrow> int option \<Rightarrow> string \<Rightarrow> string \<Rightarrow> streak \<Rightarrow> ticker_error option \<times> streak" where
  "tick_failed e http_status exchange pair s =
     (let s1 = s\<lparr>tick_error_count := tick_error_count s + 1, consecutive_errors := consecutive_errors s + 1\<rparr>;
          err = classify_exception e http_status exchange ''tick'' pair (consecutive_errors s1) persistent_threshold;
          should = (\<not> persistent_sent s1 \<and>
            (\<not> te_is_transient err \<or> persistent_threshold \<le> consecutive_errors s1)) in
      if should then (Some err, s1\<lparr>persistent_sent := True\<rparr>) else (None, s1))"

section \<open>One streak, at most one message\<close>

definition is_transient :: "py_error \<Rightarrow> bool" where
  "is_transient e = list_ex (\<lambda>c. c \<in> set transient_classes) (mro_of e)"

text \<open>The messages of a run of failed ticks, and the counters after it.\<close>

fun failures :: "string \<Rightarrow> string \<Rightarrow> (py_error \<times> int option) list \<Rightarrow> streak \<Rightarrow> ticker_error list \<times> streak" where
  "failures x p [] s = ([], s)"
| "failures x p ((e, h) # es) s =
     (case tick_failed e h x p s of
        (m, s1) \<Rightarrow> (case failures x p es s1 of
           (ms, s2) \<Rightarrow> ((case m of None \<Rightarrow> ms | Some t \<Rightarrow> t # ms), s2)))"

lemma transient_eq [simp]: "te_is_transient (classify_exception e h x n p k m) = is_transient e"
  by (simp add: classify_exception_def Let_def is_transient_def)

lemma failures_latched:
  "persistent_sent s \<Longrightarrow> fst (failures x p es s) = [] \<and> persistent_sent (snd (failures x p es s))"
  by (induction es arbitrary: s) (auto simp: tick_failed_def Let_def split: prod.split)

lemma snd_failures: "snd (failures x p ((e, h) # es) s) = snd (failures x p es (snd (tick_failed e h x p s)))"
  by (simp split: prod.split)

lemma tick_failed_count: "consecutive_errors (snd (tick_failed e h x p s)) = consecutive_errors s + 1"
  by (simp add: tick_failed_def Let_def)

lemma failures_count:
  "consecutive_errors (snd (failures x p es s)) = consecutive_errors s + length es"
proof (induction es arbitrary: s)
  case (Cons f es)
  then show ?case by (cases f) (simp add: snd_failures tick_failed_count del: failures.simps)
qed simp

lemma failures_messages:
  "\<not> persistent_sent s \<Longrightarrow> consecutive_errors s < persistent_threshold \<Longrightarrow>
    length (fst (failures x p es s)) =
      (if persistent_threshold \<le> consecutive_errors s + length es \<or> (\<exists>(e, h) \<in> set es. \<not> is_transient e)
       then 1 else 0)"
proof (induction es arbitrary: s)
  case Nil
  then show ?case by simp
next
  case (Cons f es)
  obtain e h where f: "f = (e, h)" by (cases f)
  define s1 where "s1 = s\<lparr>tick_error_count := tick_error_count s + 1, consecutive_errors := consecutive_errors s + 1\<rparr>"
  show ?case
  proof (cases "\<not> is_transient e \<or> persistent_threshold \<le> consecutive_errors s + 1")
    case True
    then have "snd (tick_failed e h x p s) = s1\<lparr>persistent_sent := True\<rparr>" "\<exists>t. fst (tick_failed e h x p s) = Some t"
      using Cons.prems by (auto simp: tick_failed_def Let_def s1_def)
    moreover have "fst (failures x p es (s1\<lparr>persistent_sent := True\<rparr>)) = []"
      using failures_latched [of "s1\<lparr>persistent_sent := True\<rparr>"] by simp
    ultimately show ?thesis using True by (auto simp: f split: prod.split)
  next
    case False
    then have "tick_failed e h x p s = (None, s1)"
      using Cons.prems by (simp add: tick_failed_def Let_def s1_def)
    moreover have "\<not> persistent_sent s1" "consecutive_errors s1 < persistent_threshold"
      using False Cons.prems by (simp_all add: s1_def)
    ultimately show ?thesis
      using Cons.IH [of s1] False by (simp add: f s1_def split: prod.split)
  qed
qed

text \<open>from the end of a streak on, a run of failed ticks sends at most one persistent-error message, and
  it sends it exactly when some error of the run is not transient or the run reaches the threshold of
  five; a completed tick re-arms it, so the same holds for the run after it.\<close>

theorem one_message_per_error_streak:
  "length (fst (failures x p es new_streak)) =
      (if 5 \<le> length es \<or> (\<exists>(e, h) \<in> set es. \<not> is_transient e) then 1 else 0)
   \<and> length (fst (failures x p fs (tick_succeeded (snd (failures x p es new_streak))))) =
      (if 5 \<le> length fs \<or> (\<exists>(e, h) \<in> set fs. \<not> is_transient e) then 1 else 0)
   \<and> consecutive_errors (tick_succeeded (snd (failures x p es new_streak))) = 0"
proof -
  let ?s = "tick_succeeded (snd (failures x p es new_streak))"
  have "consecutive_errors ?s = 0 \<and> \<not> persistent_sent ?s"
    using failures_count [of x p es new_streak]
    by (cases es) (auto simp: tick_succeeded_def new_streak_def)
  then show ?thesis
    using failures_messages [of new_streak x p es] failures_messages [of ?s x p fs]
    by (simp add: new_streak_def persistent_threshold_def)
qed

end
