(* ===== verification/Bot_World.thy ===== *)
theory Bot_World
  imports Deal_Ledger State_IO Tick_Errors
begin

text \<open>
  What every trading component acts on: the in-memory book of the bot, the shared ledger, the
  directory with its state file and the notifications it has queued.  The engine
  (\<open>core/trading_engine.py\<close>) extends this record, and the close handler
  (\<open>paper/close_handler.py\<close>) acts on it both inside an engine and in the portal, so its operations
  are stated on any extension of it.  The two balance debits of the source are here, with the
  interface they share.
\<close>

section \<open>Notifications\<close>

text \<open>One constructor per \<open>notify_...\<close> method the trading code calls, with the arguments that vary; the
  name of the bot, which every call passes, is left out.\<close>

datatype message =
    Msg_Startup string string
  | Msg_Shutdown
  | Msg_Schedule_Open string
  | Msg_Schedule_Close string nat
  | Msg_Entry string real real int
  | Msg_Dca string real real int real
  | Msg_Take_Profit string real real real
  | Msg_Stop_Loss string real real real
  | Msg_Manual_Close string real real real
  | Msg_Manual_Cancel string
  | Msg_Insufficient string
  | Msg_Drawdown "(real \<times> real) option" string
  | Msg_Manual_Refused real
  | Msg_Order_Timeout string
  | Msg_Persistent ticker_error

record world =
  book :: paper_state
  dledger :: ledger
  disk :: dir
  outbox :: "message list"

definition notify :: "message \<Rightarrow> ('w world_scheme, unit) prog" where
  "notify n = pmod (\<lambda>w. w\<lparr>outbox := outbox w @ [n]\<rparr>)"

section \<open>Running a part\<close>

definition on_book :: "(paper_state, 'a) prog \<Rightarrow> ('w world_scheme, 'a) prog" where
  "on_book m = (\<lambda>w. case m (book w) of (r, b) \<Rightarrow> (r, w\<lparr>book := b\<rparr>))"

text \<open>A ledger call, which fails as a whole when the database cannot be reached.\<close>

definition on_ledger :: "bool \<Rightarrow> (ledger, 'a) prog \<Rightarrow> ('w world_scheme, 'a) prog" where
  "on_ledger up m =
     (\<lambda>w. if up then (case m (dledger w) of (r, db) \<Rightarrow> (r, w\<lparr>dledger := db\<rparr>))
          else (Inl (ExternalError [''OperationalError'', ''DatabaseError'', ''Error'', ''Exception'']), w))"

definition put_book_deal :: "paper_deal \<Rightarrow> ('w world_scheme, unit) prog" where
  "put_book_deal d = pmod (\<lambda>w. w\<lparr>book := put_deal d (book w)\<rparr>)"

lemma notify_apply [simp]: "notify n w = (Inr (), w\<lparr>outbox := outbox w @ [n]\<rparr>)"
  by (simp add: notify_def)

lemma put_book_deal_apply [simp]: "put_book_deal d w = (Inr (), w\<lparr>book := put_deal d (book w)\<rparr>)"
  by (simp add: put_book_deal_def)

lemma on_ledger_frame [frame_simps]:
  "book (snd (on_ledger up m w)) = book w" "outbox (snd (on_ledger up m w)) = outbox w"
  "disk (snd (on_ledger up m w)) = disk w" "world.more (snd (on_ledger up m w)) = world.more w"
  by (simp_all add: on_ledger_def split: prod.split)

lemma snd_on_ledger: "snd (on_ledger up m w) = w\<lparr>dledger := (if up then snd (m (dledger w)) else dledger w)\<rparr>"
  by (simp add: on_ledger_def split: prod.split)

section \<open>The two balance debits\<close>

text \<open>The engine's \<open>_deduct_balance\<close> (\<open>paper/paper_engine.py\<close>) refuses a debit it cannot fund and says so;
  the close handler's debits unconditionally.\<close>

definition paper_deduct :: "real \<Rightarrow> string \<Rightarrow> ('w world_scheme, bool) prog" where
  "paper_deduct amount reason =
     (\<lambda>w. if balance_btc (book w) < amount
          then (Inr False, w\<lparr>outbox := outbox w @ [Msg_Insufficient reason]\<rparr>)
          else (Inr True, w\<lparr>book := (book w)\<lparr>balance_btc := balance_btc (book w) - amount\<rparr>\<rparr>))"

definition handler_deduct :: "real \<Rightarrow> string \<Rightarrow> ('w world_scheme, unit) prog" where
  "handler_deduct amount reason =
     pmod (\<lambda>w. w\<lparr>book := (book w)\<lparr>balance_btc := balance_btc (book w) - amount\<rparr>\<rparr>)"

text \<open>What a caller may rely on whichever debit it is given: a fee is taken at most once and never given
  back.  A guarded one keeps a balance that was not negative from becoming negative.\<close>

locale fee_sink =
  fixes charge :: "real \<Rightarrow> string \<Rightarrow> 's \<Rightarrow> 's"
    and funds :: "'s \<Rightarrow> real"
  assumes charge_bounds: "0 \<le> a \<Longrightarrow> funds s - a \<le> funds (charge a r s) \<and> funds (charge a r s) \<le> funds s"
begin

lemma run_bounds:
  "\<forall>(a, r) \<in> set cs. 0 \<le> a \<Longrightarrow>
    funds s - sum_list (map fst cs) \<le> funds (fold (\<lambda>(a, r). charge a r) cs s) \<and>
    funds (fold (\<lambda>(a, r). charge a r) cs s) \<le> funds s"
proof (induction cs arbitrary: s)
  case (Cons c cs)
  obtain a r where c: "c = (a, r)" by (cases c)
  then have "funds s - a \<le> funds (charge a r s)" "funds (charge a r s) \<le> funds s"
    using Cons.prems charge_bounds by auto
  with Cons.IH [of "charge a r s"] Cons.prems show ?case by (simp add: c)
qed simp

end

locale guarded_fee_sink = fee_sink +
  assumes charge_guard: "0 \<le> funds s \<Longrightarrow> 0 \<le> funds (charge a r s)"
begin

lemma run_guard: "0 \<le> funds s \<Longrightarrow> 0 \<le> funds (fold (\<lambda>(a, r). charge a r) cs s)"
  by (induction cs arbitrary: s) (auto simp: charge_guard)

end

interpretation engine_fees: guarded_fee_sink "\<lambda>a r w. snd (paper_deduct a r w)" "\<lambda>w. balance_btc (book w)"
  by unfold_locales (simp_all add: paper_deduct_def)

interpretation handler_fees: fee_sink "\<lambda>a r w. snd (handler_deduct a r w)" "\<lambda>w. balance_btc (book w)"
  by unfold_locales (simp add: handler_deduct_def)

section \<open>Closing an updated deal\<close>

text \<open>Every close of the source first writes the exit trigger to the deal and then pops it.\<close>

definition closed_copy :: "real \<Rightarrow> string \<Rightarrow> int \<Rightarrow> real \<Rightarrow> real \<Rightarrow> paper_deal \<Rightarrow> paper_deal" where
  "closed_copy price reason now b q d = mark_closed price reason now d\<lparr>pnl_btc := b, pnl_pct := q\<rparr>"

lemma closed_copy_simps [simp]:
  "orders (closed_copy p r n b q d) = orders d" "leverage (closed_copy p r n b q d) = leverage d"
  "side (closed_copy p r n b q d) = side d" "deal_id (closed_copy p r n b q d) = deal_id d"
  "is_open (closed_copy p r n b q d) = False" "close_price (closed_copy p r n b q d) = Some p"
  "close_reason (closed_copy p r n b q d) = Some r" "pnl_btc (closed_copy p r n b q d) = b"
  "pnl_pct (closed_copy p r n b q d) = q" "exit_trigger (closed_copy p r n b q d) = exit_trigger d"
  by (simp_all add: closed_copy_def)

lemma put_deal_lookup [simp]: "map_of (open_deals (put_deal d s)) (deal_id d) = Some d"
  by (simp add: put_deal_def update_conv')

lemma put_deal_frame [simp]:
  "balance_btc (put_deal d s) = balance_btc s" "closed_deals (put_deal d s) = closed_deals s"
  "initial_balance_btc (put_deal d s) = initial_balance_btc s"
  by (simp_all add: put_deal_def)

lemma book_wf_put [wf_intros]: "book_wf s \<Longrightarrow> deal_wf d \<Longrightarrow> is_open d \<Longrightarrow> book_wf (put_deal d s)"
  by (simp add: put_deal_eq book_wf_open)

lemma close_after_put:
  assumes "calculate_pnl d p = Inr (b, q)"
  shows "state_close_deal (deal_id d) p r n (put_deal d s) =
    (Inr (Some (closed_copy p r n b q d)),
     s\<lparr>balance_btc := balance_btc s + b, open_deals := AList.delete (deal_id d) (open_deals s),
       closed_deals := closed_deals s @ [closed_copy p r n b q d]\<rparr>)"
  using close_deal_found [OF put_deal_lookup assms, of r n s]
  by (simp add: closed_copy_def put_deal_def delete_update_same)

text \<open>no sequence of fee debits by the engine overdraws the bot: a balance that is not negative stays
  so, it never grows by a debit, and it never falls by more than the fees asked for.\<close>

theorem engine_fees_never_overdraw:
  assumes "\<forall>(a, r) \<in> set fees. 0 \<le> a" "0 \<le> balance_btc (book w)"
  shows "0 \<le> balance_btc (book (fold (\<lambda>(a, r) w. snd (paper_deduct a r w)) fees w))
    \<and> balance_btc (book w) - sum_list (map fst fees)
        \<le> balance_btc (book (fold (\<lambda>(a, r) w. snd (paper_deduct a r w)) fees w))
    \<and> balance_btc (book (fold (\<lambda>(a, r) w. snd (paper_deduct a r w)) fees w)) \<le> balance_btc (book w)"
  using engine_fees.run_guard [OF assms(2), of fees] engine_fees.run_bounds [OF assms(1), of w] by blast

definition poor_world :: world where
  "poor_world = \<lparr>book = new_paper_state (1 / 100), dledger = empty_ledger, disk = [], outbox = []\<rparr>"

theorem engine_fees_never_overdraw_witness:
  "0 \<le> balance_btc (book (fold (\<lambda>(a, r) w. snd (paper_deduct a r w)) [(1 / 200, ''a''), (1, ''b'')] poor_world))"
  using engine_fees_never_overdraw [of "[(1 / 200, ''a''), (1, ''b'')]" poor_world]
  by (simp add: poor_world_def new_paper_state_def)

end
