(* ===== verification/Notify_Queue.thy ===== *)
theory Notify_Queue
  imports Bot_World "HOL-Library.Sublist"
begin

text \<open>
  The notification queue between the tick and the worker thread (\<open>core/trading_engine.py\<close>: \<open>_notify\<close>,
  \<open>_notify_worker\<close>, the end of \<open>stop\<close>).  Producer and worker are two program counters over one bounded
  queue; a step of either is one call on the queue, so every interleaving of the two is a run.
\<close>

section \<open>State and steps\<close>

text \<open>The environment variable: absent, not an integer, or an integer.\<close>

definition default_notify_queue_max :: int where
  "default_notify_queue_max = 1000"

definition resolve_notify_queue_max :: "int option option \<Rightarrow> int" where
  "resolve_notify_queue_max raw =
     (case raw of
        None \<Rightarrow> default_notify_queue_max
      | Some None \<Rightarrow> default_notify_queue_max
      | Some (Some v) \<Rightarrow> if v \<le> 0 then default_notify_queue_max else v)"

text \<open>The producer is idle, about to put, about to make room, about to put the stop sentinel, or done; the
  worker is about to get, running an item, about to look for a recovery, or gone.\<close>

datatype producer = P_Idle | P_Put message | P_Evict message | P_Stop | P_Stopped
datatype worker = W_Get | W_Run message | W_Check | W_Gone

text \<open>An item is a message or the stop sentinel.  \<open>nq_offered\<close> and \<open>nq_delivered\<close> are what was handed to \<open>_notify\<close>
  and what the worker called, in order; \<open>nq_summaries\<close> the recovery warnings.\<close>

record notify_queue =
  nq_items :: "message option list"
  nq_dropped :: nat
  nq_drop_pending :: bool
  nq_producer :: producer
  nq_worker :: worker
  nq_offered :: "message list"
  nq_delivered :: "message list"
  nq_summaries :: "nat list"

definition new_notify_queue :: notify_queue where
  "new_notify_queue =
     \<lparr>nq_items = [], nq_dropped = 0, nq_drop_pending = False, nq_producer = P_Idle, nq_worker = W_Get,
      nq_offered = [], nq_delivered = [], nq_summaries = []\<rparr>"

inductive nstep :: "nat \<Rightarrow> notify_queue \<Rightarrow> notify_queue \<Rightarrow> bool" for M where
  Call: "nq_producer q = P_Idle \<Longrightarrow> nstep M q (q\<lparr>nq_producer := P_Put x, nq_offered := nq_offered q @ [x]\<rparr>)"
| Put: "nq_producer q = P_Put x \<Longrightarrow> length (nq_items q) < M \<Longrightarrow>
    nstep M q (q\<lparr>nq_items := nq_items q @ [Some x], nq_producer := P_Idle\<rparr>)"
| Full: "nq_producer q = P_Put x \<Longrightarrow> M \<le> length (nq_items q) \<Longrightarrow> nstep M q (q\<lparr>nq_producer := P_Evict x\<rparr>)"
| Evict: "nq_producer q = P_Evict x \<Longrightarrow> nq_items q = y # ys \<Longrightarrow>
    nstep M q (q\<lparr>nq_items := ys, nq_dropped := nq_dropped q + 1, nq_drop_pending := True, nq_producer := P_Put x\<rparr>)"
| Drained: "nq_producer q = P_Evict x \<Longrightarrow> nq_items q = [] \<Longrightarrow> nstep M q (q\<lparr>nq_producer := P_Put x\<rparr>)"
| Stop: "nq_producer q = P_Idle \<Longrightarrow> nstep M q (q\<lparr>nq_producer := P_Stop\<rparr>)"
| Put_Stop: "nq_producer q = P_Stop \<Longrightarrow> length (nq_items q) < M \<Longrightarrow>
    nstep M q (q\<lparr>nq_items := nq_items q @ [None], nq_producer := P_Stopped\<rparr>)"
| Get: "nq_worker q = W_Get \<Longrightarrow> nq_items q = Some x # ys \<Longrightarrow> nstep M q (q\<lparr>nq_items := ys, nq_worker := W_Run x\<rparr>)"
| Get_Stop: "nq_worker q = W_Get \<Longrightarrow> nq_items q = None # ys \<Longrightarrow> nstep M q (q\<lparr>nq_items := ys, nq_worker := W_Gone\<rparr>)"
| Dispatch: "nq_worker q = W_Run x \<Longrightarrow> nstep M q (q\<lparr>nq_delivered := nq_delivered q @ [x], nq_worker := W_Check\<rparr>)"
| Check: "nq_worker q = W_Check \<Longrightarrow>
    nstep M q (if nq_drop_pending q \<and> nq_items q = []
               then q\<lparr>nq_summaries := nq_summaries q @ [nq_dropped q], nq_drop_pending := False, nq_worker := W_Get\<rparr>
               else q\<lparr>nq_worker := W_Get\<rparr>)"

inductive_cases nstep_cases: "nstep M q q'"
inductive_simps nstep_simps: "nstep M q q'"

abbreviation nrun :: "nat \<Rightarrow> notify_queue \<Rightarrow> notify_queue \<Rightarrow> bool" where
  "nrun M \<equiv> (nstep M)\<^sup>*\<^sup>*"

section \<open>Where an offered message is\<close>

definition somes :: "'a option list \<Rightarrow> 'a list" where
  "somes xs = map the (filter (\<lambda>x. x \<noteq> None) xs)"

lemma somes_simps [simp]:
  "somes [] = []" "somes (Some x # xs) = x # somes xs" "somes (None # xs) = somes xs" "somes (xs @ ys) = somes xs @ somes ys"
  by (simp_all add: somes_def)

fun in_flight :: "worker \<Rightarrow> message list" where
  "in_flight (W_Run x) = [x]"
| "in_flight _ = []"

fun in_hand :: "producer \<Rightarrow> message list" where
  "in_hand (P_Put x) = [x]"
| "in_hand (P_Evict x) = [x]"
| "in_hand _ = []"

definition in_line :: "notify_queue \<Rightarrow> message list" where
  "in_line q = nq_delivered q @ in_flight (nq_worker q) @ somes (nq_items q) @ in_hand (nq_producer q)"

text \<open>Bounded, in order, accounted for; the sentinel is last, put once, and only when the producer has stopped.\<close>

definition queue_inv :: "nat \<Rightarrow> notify_queue \<Rightarrow> bool" where
  "queue_inv M q =
     (length (nq_items q) \<le> M \<and> subseq (in_line q) (nq_offered q) \<and>
      length (nq_offered q) = length (in_line q) + nq_dropped q \<and>
      (None \<in> set (nq_items q) \<longrightarrow> nq_producer q = P_Stopped) \<and>
      (nq_offered q \<noteq> [] \<longrightarrow> in_line q \<noteq> [] \<and> last (in_line q) = last (nq_offered q)))"

lemma subseq_drop_middle: "subseq (as @ b # cs) os \<Longrightarrow> subseq (as @ cs) os"
  by (meson list_emb_append_mono subseq_Cons' subseq_order.order_refl subseq_order.trans)

lemma queue_inv_step: "nstep M q q' \<Longrightarrow> queue_inv M q \<Longrightarrow> queue_inv M q'"
proof (induction rule: nstep.induct)
  case (Call q x)
  then have "in_line (q\<lparr>nq_producer := P_Put x, nq_offered := nq_offered q @ [x]\<rparr>) = in_line q @ [x]"
    by (simp add: in_line_def)
  with Call show ?case by (auto simp: queue_inv_def)
next
  case (Evict q x y ys)
  then obtain z where y: "y = Some z" by (cases y) (auto simp: queue_inv_def)
  have "subseq (nq_delivered q @ in_flight (nq_worker q) @ somes ys @ [x]) (nq_offered q)"
    using Evict y subseq_drop_middle [of "nq_delivered q @ in_flight (nq_worker q)" z "somes ys @ [x]" "nq_offered q"]
    by (simp add: queue_inv_def in_line_def)
  then show ?case using Evict y by (auto simp: queue_inv_def in_line_def)
qed (auto simp: queue_inv_def in_line_def split: if_splits)

interpretation queue_inv: step_invariant "nstep M" "queue_inv M" for M
  by unfold_locales (rule queue_inv_step)

lemma queue_inv_new: "queue_inv M new_notify_queue"
  by (simp add: queue_inv_def new_notify_queue_def in_line_def)

definition queue_max :: "int option option \<Rightarrow> nat" where
  "queue_max raw = nat (resolve_notify_queue_max raw)"

lemma queue_max_pos: "0 < queue_max raw"
  by (auto simp: queue_max_def resolve_notify_queue_max_def default_notify_queue_max_def split: option.splits)

text \<open>C24: whatever the two threads do, in whatever order, the queue never holds more than the configured
  maximum; what was delivered is an in-order selection of what was offered; every offered message is delivered, being
  run, queued, in the producer's hand, or counted as dropped; and the most recent one is never among the dropped.\<close>

theorem notify_queue_bounded_fifo:
  assumes "nrun (queue_max raw) new_notify_queue q"
  shows "length (nq_items q) \<le> queue_max raw \<and> subseq (nq_delivered q) (nq_offered q)
    \<and> length (nq_offered q) = length (in_line q) + nq_dropped q
    \<and> (nq_offered q = [] \<or> in_line q \<noteq> [] \<and> last (in_line q) = last (nq_offered q))"
proof -
  have i: "queue_inv (queue_max raw) q" using queue_inv.run_keeps [OF assms queue_inv_new] .
  have "subseq (nq_delivered q) (in_line q)" unfolding in_line_def by (rule list_emb_prefix) simp
  with i show ?thesis unfolding queue_inv_def using subseq_order.trans by blast
qed

section \<open>The tick never waits, \<open>stop\<close> may\<close>

text \<open>How many steps of its own the producer still needs to hand over its message.\<close>

fun work_left :: "nat \<Rightarrow> notify_queue \<Rightarrow> nat" where
  "work_left M q = (case nq_producer q of
      P_Put _ \<Rightarrow> if length (nq_items q) < M then 1 else 3
    | P_Evict _ \<Rightarrow> 2
    | _ \<Rightarrow> 0)"

lemma producer_enabled:
  assumes "in_hand (nq_producer q) \<noteq> []"
  shows "\<exists>q'. nstep M q q' \<and> nq_producer q' \<noteq> nq_producer q"
proof (cases "nq_producer q")
  case (P_Put x)
  then show ?thesis using nstep.Put [OF P_Put, of M] nstep.Full [OF P_Put, of M] by (cases "length (nq_items q) < M") force+
next
  case (P_Evict x)
  then show ?thesis using nstep.Evict [OF P_Evict, of _ _ M] nstep.Drained [OF P_Evict, of M] by (cases "nq_items q") force+
qed (use assms in simp_all)

lemma work_shrinks:
  "nstep M q q' \<Longrightarrow> 0 < M \<Longrightarrow> length (nq_items q) \<le> M \<Longrightarrow> in_hand (nq_producer q) \<noteq> [] \<Longrightarrow>
    work_left M q' < work_left M q \<or> nq_producer q' = nq_producer q \<and> work_left M q' \<le> work_left M q"
  by (induction rule: nstep.induct) (auto split: producer.splits if_splits)

text \<open>handing a message to the queue never blocks the tick: wherever the call stands one of its own steps is
  possible, no step of the worker makes more work for it, and it returns after at most three steps of its own.\<close>

theorem notify_returns:
  assumes "nrun (queue_max raw) new_notify_queue q" "in_hand (nq_producer q) \<noteq> []"
  shows "(\<exists>q'. nstep (queue_max raw) q q' \<and> nq_producer q' \<noteq> nq_producer q)
    \<and> work_left (queue_max raw) q \<le> 3
    \<and> (\<forall>q'. nstep (queue_max raw) q q' \<longrightarrow>
        work_left (queue_max raw) q' < work_left (queue_max raw) q
        \<or> nq_producer q' = nq_producer q \<and> work_left (queue_max raw) q' \<le> work_left (queue_max raw) q)"
proof -
  have "length (nq_items q) \<le> queue_max raw"
    using queue_inv.run_keeps [OF assms(1) queue_inv_new] by (simp add: queue_inv_def)
  moreover have "work_left (queue_max raw) q \<le> 3" by (simp split: producer.split)
  ultimately show ?thesis using producer_enabled [OF assms(2)] work_shrinks [OF _ queue_max_pos _ assms(2)] by blast
qed

lemma fill_queue:
  "k \<le> M \<Longrightarrow> 0 < M \<Longrightarrow> \<exists>q. nrun M new_notify_queue q \<and> nq_producer q = P_Idle \<and> nq_worker q = W_Run x \<and> length (nq_items q) = k"
proof (induction k)
  case 0
  let ?c = "new_notify_queue\<lparr>nq_producer := P_Put x, nq_offered := [x]\<rparr>"
  let ?p = "?c\<lparr>nq_items := [Some x], nq_producer := P_Idle\<rparr>"
  have "nstep M new_notify_queue ?c" using nstep.Call [of new_notify_queue M x] by (simp add: new_notify_queue_def)
  moreover have "nstep M ?c ?p" using nstep.Put [of ?c x M] 0 by (simp add: new_notify_queue_def)
  moreover have "nstep M ?p (?p\<lparr>nq_items := [], nq_worker := W_Run x\<rparr>)" using nstep.Get [of ?p x "[]" M] by (simp add: new_notify_queue_def)
  ultimately have "nrun M new_notify_queue (?p\<lparr>nq_items := [], nq_worker := W_Run x\<rparr>)"
    by (meson rtranclp.rtrancl_into_rtrancl rtranclp.rtrancl_refl)
  then show ?case by (intro exI conjI) (auto simp: new_notify_queue_def)
next
  case (Suc k)
  then obtain q where q: "nrun M new_notify_queue q" "nq_producer q = P_Idle" "nq_worker q = W_Run x" "length (nq_items q) = k" by auto
  let ?c = "q\<lparr>nq_producer := P_Put x, nq_offered := nq_offered q @ [x]\<rparr>"
  have "nstep M q ?c" "nstep M ?c (?c\<lparr>nq_items := nq_items ?c @ [Some x], nq_producer := P_Idle\<rparr>)"
    using nstep.Call [OF q(2)] nstep.Put [of ?c x M] q Suc.prems by auto
  with q(1) have "nrun M new_notify_queue (?c\<lparr>nq_items := nq_items ?c @ [Some x], nq_producer := P_Idle\<rparr>)"
    by (meson rtranclp.rtrancl_into_rtrancl)
  then show ?case using q by (intro exI [of _ "?c\<lparr>nq_items := nq_items ?c @ [Some x], nq_producer := P_Idle\<rparr>"]) auto
qed

text \<open>C38: \<open>stop\<close> does wait: its sentinel goes in with a blocking \<open>put\<close>, and when the worker is inside a callback and
  the queue is full the only thing that can happen at all is the return of that callback. The drain timeout, which
  belongs to the \<open>join\<close> after the \<open>put\<close>, does not bound this.\<close>

theorem stop_waits_for_the_callback:
  "\<exists>q. nrun (queue_max raw) new_notify_queue q \<and> nq_producer q = P_Stop \<and> nq_worker q = W_Run x
    \<and> {q'. nstep (queue_max raw) q q'} = {q\<lparr>nq_delivered := nq_delivered q @ [x], nq_worker := W_Check\<rparr>}"
proof -
  obtain q where q: "nrun (queue_max raw) new_notify_queue q" "nq_producer q = P_Idle" "nq_worker q = W_Run x"
    "length (nq_items q) = queue_max raw"
    using fill_queue [OF order_refl queue_max_pos] by blast
  have "nrun (queue_max raw) new_notify_queue (q\<lparr>nq_producer := P_Stop\<rparr>)"
    using q(1) nstep.Stop [OF q(2)] by (meson rtranclp.rtrancl_into_rtrancl)
  moreover have "{q'. nstep (queue_max raw) (q\<lparr>nq_producer := P_Stop\<rparr>) q'}
      = {q\<lparr>nq_producer := P_Stop, nq_delivered := nq_delivered q @ [x], nq_worker := W_Check\<rparr>}"
    using q by (auto simp: nstep_simps)
  ultimately show ?thesis using q(3) by (intro exI [of _ "q\<lparr>nq_producer := P_Stop\<rparr>"]) auto
qed

section \<open>Witnesses\<close>

lemma one_message_run:
  "nrun (queue_max None) new_notify_queue (new_notify_queue\<lparr>nq_producer := P_Put x, nq_offered := [x]\<rparr>)"
  using nstep.Call [of new_notify_queue "queue_max None" x] by (auto simp: new_notify_queue_def)

theorem notify_queue_bounded_fifo_witness:
  "in_line (new_notify_queue\<lparr>nq_producer := P_Put (Msg_Shutdown), nq_offered := [Msg_Shutdown]\<rparr>) \<noteq> []"
  using notify_queue_bounded_fifo [OF one_message_run, of "Msg_Shutdown"] by simp

theorem notify_returns_witness:
  "\<exists>q'. nstep (queue_max None) (new_notify_queue\<lparr>nq_producer := P_Put (Msg_Shutdown), nq_offered := [Msg_Shutdown]\<rparr>) q'
    \<and> nq_producer q' \<noteq> P_Put (Msg_Shutdown)"
  using notify_returns [OF one_message_run, of "Msg_Shutdown"] by auto

end
