(* ===== verification/Indicators_Trend.thy ===== *)
theory Indicators_Trend
  imports Reverto_Prelude
begin

text \<open>
  The two trend-following indicators, Parabolic SAR (\<open>strategies/indicators/parabolic_sar.py\<close>) and
  Supertrend (\<open>strategies/indicators/supertrend.py\<close>).  The loops over the bars are \<open>scan\<close>s over the
  bar indices; the periods are positive.
\<close>

section \<open>Parabolic SAR\<close>

record psar_state =
  ps_trend :: int
  ps_ep :: real
  ps_sar :: real
  ps_af :: real

definition psar_init :: "real list \<Rightarrow> real list \<Rightarrow> real list \<Rightarrow> real \<Rightarrow> psar_state" where
  "psar_init highs lows closes iaf =
     (if closes ! 0 \<le> closes ! 1
      then \<lparr>ps_trend = 1, ps_ep = highs ! 1, ps_sar = lows ! 0, ps_af = iaf\<rparr>
      else \<lparr>ps_trend = - 1, ps_ep = lows ! 1, ps_sar = highs ! 0, ps_af = iaf\<rparr>)"

definition psar_step :: "real list \<Rightarrow> real list \<Rightarrow> real \<Rightarrow> real \<Rightarrow> nat \<Rightarrow> psar_state \<Rightarrow> psar_state" where
  "psar_step highs lows iaf maf i s =
     (let new_sar = ps_sar s + ps_af s * (ps_ep s - ps_sar s) in
      if ps_trend s = 1 then
        let new_sar = min (min new_sar (lows ! (i - 1))) (if 3 \<le> i then lows ! (i - 2) else lows ! (i - 1)) in
        if lows ! i < new_sar
        then \<lparr>ps_trend = - 1, ps_ep = lows ! i, ps_sar = ps_ep s, ps_af = iaf\<rparr>
        else if ps_ep s < highs ! i
        then s\<lparr>ps_sar := new_sar, ps_ep := highs ! i, ps_af := min (ps_af s + iaf) maf\<rparr>
        else s\<lparr>ps_sar := new_sar\<rparr>
      else
        let new_sar = max (max new_sar (highs ! (i - 1))) (if 3 \<le> i then highs ! (i - 2) else highs ! (i - 1)) in
        if new_sar < highs ! i
        then \<lparr>ps_trend = 1, ps_ep = highs ! i, ps_sar = ps_ep s, ps_af = iaf\<rparr>
        else if lows ! i < ps_ep s
        then s\<lparr>ps_sar := new_sar, ps_ep := lows ! i, ps_af := min (ps_af s + iaf) maf\<rparr>
        else s\<lparr>ps_sar := new_sar\<rparr>)"

definition psar_states :: "real list \<Rightarrow> real list \<Rightarrow> real list \<Rightarrow> real \<Rightarrow> real \<Rightarrow> psar_state list" where
  "psar_states highs lows closes iaf maf =
     (let s0 = psar_init highs lows closes iaf in
      s0 # s0 # scan (psar_step highs lows iaf maf) [2..<length closes] s0)"

definition calculate_parabolic_sar ::
  "real list \<Rightarrow> real list \<Rightarrow> real list \<Rightarrow> real \<Rightarrow> real \<Rightarrow> (real \<times> int) list res" where
  "calculate_parabolic_sar highs lows closes iaf maf =
     (if length closes < 10 then Inl ValueError
      else if length highs \<noteq> length closes \<or> length lows \<noteq> length closes then Inl ValueError
      else Inr (map (\<lambda>s. (ps_sar s, ps_trend s)) (psar_states highs lows closes iaf maf)))"

definition check_parabolic_sar_signal ::
  "real list \<Rightarrow> real list \<Rightarrow> real list \<Rightarrow> real \<Rightarrow> real \<Rightarrow> string \<Rightarrow> bool res" where
  "check_parabolic_sar_signal highs lows closes iaf maf condition =
     res_bind (calculate_parabolic_sar highs lows closes iaf maf) (\<lambda>series.
       if length series < 2 then Inl ValueError
       else
         let prev_trend = snd (series ! (length series - 2)); curr_trend = snd (last series) in
         if condition \<in> {''bullish'', ''price_greater_than''} then Inr (curr_trend = 1)
         else if condition \<in> {''bearish'', ''price_lower_than''} then Inr (curr_trend = - 1)
         else if condition \<in> {''bullish_flip'', ''price_crossing_up''}
         then Inr (prev_trend = - 1 \<and> curr_trend = 1)
         else if condition \<in> {''bearish_flip'', ''price_crossing_down''}
         then Inr (prev_trend = 1 \<and> curr_trend = - 1)
         else Inr False)"

lemma length_psar_states: "2 \<le> length closes \<Longrightarrow> length (psar_states h l closes iaf maf) = length closes"
  by (simp add: psar_states_def Let_def)

lemma psar_step_up:
  assumes "ps_trend s = 1"
  shows "\<exists>ns. psar_step h l iaf maf i s =
    (if l ! i < ns then \<lparr>ps_trend = - 1, ps_ep = l ! i, ps_sar = ps_ep s, ps_af = iaf\<rparr>
     else if ps_ep s < h ! i
     then s\<lparr>ps_sar := ns, ps_ep := h ! i, ps_af := min (ps_af s + iaf) maf\<rparr> else s\<lparr>ps_sar := ns\<rparr>)"
  unfolding psar_step_def Let_def if_P [OF assms] by (rule exI) (rule refl)

lemma psar_step_down:
  assumes "ps_trend s = - 1"
  shows "\<exists>ns. psar_step h l iaf maf i s =
    (if ns < h ! i then \<lparr>ps_trend = 1, ps_ep = h ! i, ps_sar = ps_ep s, ps_af = iaf\<rparr>
     else if l ! i < ps_ep s
     then s\<lparr>ps_sar := ns, ps_ep := l ! i, ps_af := min (ps_af s + iaf) maf\<rparr> else s\<lparr>ps_sar := ns\<rparr>)"
proof -
  have "ps_trend s \<noteq> 1" using assms by simp
  then show ?thesis unfolding psar_step_def Let_def by (simp only: if_False) (rule exI, rule refl)
qed

lemma psar_step_side:
  assumes "ps_trend s = 1 \<or> ps_trend s = - 1" "ps_trend (psar_step h l iaf maf i s) = ps_trend s"
  shows "if ps_trend s = 1 then ps_sar (psar_step h l iaf maf i s) \<le> l ! i
     else h ! i \<le> ps_sar (psar_step h l iaf maf i s)"
  using assms(1)
proof
  assume t: "ps_trend s = 1"
  from psar_step_up [OF t, of h l iaf maf i] assms(2) show ?thesis
    by (elim exE, cases "ps_ep s < h ! i") (simp_all add: t split: if_split_asm)
next
  assume t: "ps_trend s = - 1"
  from psar_step_down [OF t, of h l iaf maf i] assms(2) show ?thesis
    by (elim exE, cases "l ! i < ps_ep s") (simp_all add: t split: if_split_asm)
qed

lemma psar_step_trend_af:
  assumes "ps_trend s = 1 \<or> ps_trend s = - 1"
  shows "ps_trend (psar_step h l iaf maf i s) = 1 \<or> ps_trend (psar_step h l iaf maf i s) = - 1"
    and "iaf \<le> maf \<Longrightarrow> 0 \<le> iaf \<Longrightarrow> iaf \<le> ps_af s \<Longrightarrow> ps_af s \<le> maf \<Longrightarrow>
      iaf \<le> ps_af (psar_step h l iaf maf i s) \<and> ps_af (psar_step h l iaf maf i s) \<le> maf"
proof -
  have "(ps_trend (psar_step h l iaf maf i s) = 1 \<or> ps_trend (psar_step h l iaf maf i s) = - 1) \<and>
    (iaf \<le> maf \<longrightarrow> 0 \<le> iaf \<longrightarrow> iaf \<le> ps_af s \<longrightarrow> ps_af s \<le> maf \<longrightarrow>
      iaf \<le> ps_af (psar_step h l iaf maf i s) \<and> ps_af (psar_step h l iaf maf i s) \<le> maf)"
    using assms
  proof
    assume t: "ps_trend s = 1"
    from psar_step_up [OF t, of h l iaf maf i] show ?thesis
      by (elim exE, cases "ps_ep s < h ! i") (simp_all add: t)
  next
    assume t: "ps_trend s = - 1"
    from psar_step_down [OF t, of h l iaf maf i] show ?thesis
      by (elim exE, cases "l ! i < ps_ep s") (simp_all add: t)
  qed
  then show "ps_trend (psar_step h l iaf maf i s) = 1 \<or> ps_trend (psar_step h l iaf maf i s) = - 1"
    and "iaf \<le> maf \<Longrightarrow> 0 \<le> iaf \<Longrightarrow> iaf \<le> ps_af s \<Longrightarrow> ps_af s \<le> maf \<Longrightarrow>
      iaf \<le> ps_af (psar_step h l iaf maf i s) \<and> ps_af (psar_step h l iaf maf i s) \<le> maf"
    by blast+
qed

lemma psar_states_nth:
  assumes "2 \<le> i" "i < length closes"
  shows "psar_states h l closes iaf maf ! i =
    psar_step h l iaf maf i (psar_states h l closes iaf maf ! (i - 1))"
proof -
  define s0 where "s0 = psar_init h l closes iaf"
  have st: "psar_states h l closes iaf maf ! Suc k = (s0 # scan (psar_step h l iaf maf) [2..<length closes] s0) ! k" for k
    by (simp add: psar_states_def Let_def s0_def)
  obtain k where k: "i = Suc (Suc k)" using assms(1) by (metis Suc_le_D numeral_2_eq_2 Suc_le_mono)
  have "psar_states h l closes iaf maf ! i = psar_step h l iaf maf ([2..<length closes] ! k)
      ((s0 # scan (psar_step h l iaf maf) [2..<length closes] s0) ! k)"
    unfolding k st using assms k by (subst scan_at) auto
  also have "[2..<length closes] ! k = i" using assms k by simp
  finally show ?thesis by (simp add: k st)
qed

lemma psar_states_invariant:
  assumes "P (psar_init h l c iaf)" "\<And>i s. P s \<Longrightarrow> P (psar_step h l iaf maf i s)" "s \<in> set (psar_states h l c iaf maf)"
  shows "P s"
  using assms(1,3) scan_invariant [of P _ "[2..<length c]" "psar_step h l iaf maf" s] assms(2)
  by (auto simp: psar_states_def Let_def)

lemma psar_states_trend:
  assumes "s \<in> set (psar_states h l c iaf maf)"
  shows "ps_trend s = 1 \<or> ps_trend s = - 1"
proof (rule psar_states_invariant [where P = "\<lambda>s. ps_trend s = 1 \<or> ps_trend s = - 1", OF _ _ assms])
  show "ps_trend (psar_init h l c iaf) = 1 \<or> ps_trend (psar_init h l c iaf) = - 1"
    by (simp add: psar_init_def)
qed (rule psar_step_trend_af(1))

text \<open>Parabolic SAR answers for every bar with a trend of plus or minus one, and on every bar that
  continues the trend the stop is on its protective side: at or below the low in an uptrend, at or
  above the high in a downtrend.\<close>

theorem psar_protective_side:
  assumes "calculate_parabolic_sar h l c iaf maf = Inr series"
  shows "length series = length c \<and> (\<forall>i < length c. snd (series ! i) \<in> {1, - 1})
    \<and> (\<forall>i. 2 \<le> i \<longrightarrow> i < length c \<longrightarrow> snd (series ! i) = snd (series ! (i - 1)) \<longrightarrow>
         (if snd (series ! i) = 1 then fst (series ! i) \<le> l ! i else h ! i \<le> fst (series ! i)))"
proof -
  let ?s = "psar_states h l c iaf maf"
  have n: "10 \<le> length c" and s: "series = map (\<lambda>s. (ps_sar s, ps_trend s)) ?s"
    using assms by (auto simp: calculate_parabolic_sar_def split: if_splits)
  have len: "length ?s = length c" using n by (simp add: length_psar_states)
  have tr: "ps_trend (?s ! i) = 1 \<or> ps_trend (?s ! i) = - 1" if "i < length c" for i
    using psar_states_trend [of "?s ! i" h l c iaf maf] that len by simp
  have side: "if ps_trend (?s ! i) = 1 then ps_sar (?s ! i) \<le> l ! i else h ! i \<le> ps_sar (?s ! i)"
    if "2 \<le> i" "i < length c" "ps_trend (?s ! i) = ps_trend (?s ! (i - 1))" for i
    using psar_step_side [OF tr [of "i - 1"], of h l iaf maf i] psar_states_nth [OF that(1,2), of h l iaf maf] that
    by auto
  show ?thesis using len tr side by (auto simp: s)
qed

text \<open>the acceleration factor stays between its start value and its cap on every bar.\<close>

theorem psar_acceleration_bounded:
  assumes "0 \<le> iaf" "iaf \<le> maf" "s \<in> set (psar_states h l c iaf maf)"
  shows "iaf \<le> ps_af s \<and> ps_af s \<le> maf"
proof -
  have "(ps_trend s = 1 \<or> ps_trend s = - 1) \<and> iaf \<le> ps_af s \<and> ps_af s \<le> maf"
  proof (rule psar_states_invariant [where P =
        "\<lambda>s. (ps_trend s = 1 \<or> ps_trend s = - 1) \<and> iaf \<le> ps_af s \<and> ps_af s \<le> maf", OF _ _ assms(3)])
    show "(ps_trend (psar_init h l c iaf) = 1 \<or> ps_trend (psar_init h l c iaf) = - 1)
        \<and> iaf \<le> ps_af (psar_init h l c iaf) \<and> ps_af (psar_init h l c iaf) \<le> maf"
      using assms(1,2) by (simp add: psar_init_def)
  qed (use assms(1,2) psar_step_trend_af in blast)
  then show ?thesis by simp
qed

section \<open>Supertrend\<close>

definition true_range :: "real \<Rightarrow> real \<Rightarrow> real \<Rightarrow> real" where
  "true_range high low prev_close = max (max (high - low) \<bar>high - prev_close\<bar>) \<bar>low - prev_close\<bar>"

definition tr_series :: "real list \<Rightarrow> real list \<Rightarrow> real list \<Rightarrow> real list" where
  "tr_series highs lows closes =
     map (\<lambda>i. if i = 0 then 0 else true_range (highs ! i) (lows ! i) (closes ! (i - 1))) [0..<length closes]"

definition atr_step :: "real list \<Rightarrow> nat \<Rightarrow> nat \<Rightarrow> real \<Rightarrow> real" where
  "atr_step tr p i a = (a * (real p - 1) + tr ! i) / real p"

definition atr_series :: "real list \<Rightarrow> nat \<Rightarrow> real list" where
  "atr_series tr p =
     (let a0 = sum_list (slice 1 (p + 1) tr) / real p in
      replicate p 0 @ a0 # scan (atr_step tr p) [p + 1..<length tr] a0)"

record st_state =
  st_upper :: real
  st_lower :: real
  st_trend :: int

definition basic_band :: "real list \<Rightarrow> real list \<Rightarrow> real list \<Rightarrow> real \<Rightarrow> nat \<Rightarrow> real" where
  "basic_band highs lows atr m i = (highs ! i + lows ! i) / 2 + m * atr ! i"

definition st_first :: "real list \<Rightarrow> real list \<Rightarrow> real list \<Rightarrow> real list \<Rightarrow> real \<Rightarrow> nat \<Rightarrow> st_state" where
  "st_first highs lows closes atr m i =
     \<lparr>st_upper = basic_band highs lows atr m i, st_lower = basic_band highs lows atr (- m) i,
      st_trend = (if basic_band highs lows atr m i < closes ! i then 1 else - 1)\<rparr>"

definition st_step ::
  "real list \<Rightarrow> real list \<Rightarrow> real list \<Rightarrow> real list \<Rightarrow> real \<Rightarrow> nat \<Rightarrow> st_state \<Rightarrow> st_state" where
  "st_step highs lows closes atr m i s =
     (let basic_upper = basic_band highs lows atr m i;
          basic_lower = basic_band highs lows atr (- m) i;
          final_upper = (if basic_upper < st_upper s \<or> st_upper s < closes ! (i - 1)
                         then basic_upper else st_upper s);
          final_lower = (if st_lower s < basic_lower \<or> closes ! (i - 1) < st_lower s
                         then basic_lower else st_lower s);
          trend = (if st_trend s = 1 then (if closes ! i < final_lower then - 1 else 1)
                   else (if final_upper < closes ! i then 1 else - 1))
      in \<lparr>st_upper = final_upper, st_lower = final_lower, st_trend = trend\<rparr>)"

definition st_value :: "st_state \<Rightarrow> real \<times> int" where
  "st_value s = (if st_trend s = 1 then st_lower s else st_upper s, st_trend s)"

definition st_states :: "real list \<Rightarrow> real list \<Rightarrow> real list \<Rightarrow> nat \<Rightarrow> real \<Rightarrow> st_state list" where
  "st_states highs lows closes p m =
     (let atr = atr_series (tr_series highs lows closes) p; s0 = st_first highs lows closes atr m p in
      s0 # scan (st_step highs lows closes atr m) [p + 1..<length closes] s0)"

definition calculate_supertrend ::
  "real list \<Rightarrow> real list \<Rightarrow> real list \<Rightarrow> nat \<Rightarrow> real \<Rightarrow> (real \<times> int) list res" where
  "calculate_supertrend highs lows closes p m =
     (if length closes \<noteq> length highs \<or> length closes \<noteq> length lows then Inl ValueError
      else if length closes < p + 1 then Inl ValueError
      else Inr (replicate p (0, 1) @ map st_value (st_states highs lows closes p m)))"

definition check_supertrend_signal ::
  "real list \<Rightarrow> real list \<Rightarrow> real list \<Rightarrow> nat \<Rightarrow> real \<Rightarrow> string \<Rightarrow> bool res" where
  "check_supertrend_signal highs lows closes p m condition =
     res_bind (calculate_supertrend highs lows closes p m) (\<lambda>series.
       if length series < 2 then Inl ValueError
       else
         let prev_trend = snd (series ! (length series - 2)); curr_trend = snd (last series) in
         if condition = ''bullish'' then Inr (curr_trend = 1)
         else if condition = ''bearish'' then Inr (curr_trend = - 1)
         else if condition \<in> {''bullish_flip'', ''from_down_to_up''}
         then Inr (prev_trend = - 1 \<and> curr_trend = 1)
         else if condition \<in> {''bearish_flip'', ''from_up_to_down''}
         then Inr (prev_trend = 1 \<and> curr_trend = - 1)
         else Inl ValueError)"

lemma st_states_nth:
  assumes "p < i" "i < length c"
  shows "st_states h l c p m ! (i - p) =
    st_step h l c (atr_series (tr_series h l c) p) m i (st_states h l c p m ! (i - 1 - p))"
proof -
  let ?atr = "atr_series (tr_series h l c) p"
  let ?s0 = "st_first h l c ?atr m p" and ?u = "[p + 1..<length c]"
  have e: "st_states h l c p m = ?s0 # scan (st_step h l c ?atr m) ?u ?s0"
    by (simp add: st_states_def Let_def)
  have "st_states h l c p m ! (i - p) = st_step h l c ?atr m (?u ! (i - p - 1)) (st_states h l c p m ! (i - p - 1))"
    unfolding e using assms by (intro scan_at) auto
  also have "?u ! (i - p - 1) = i" using assms by simp
  also have "i - p - 1 = i - 1 - p" by simp
  finally show ?thesis .
qed

lemma length_st_states: "p < length c \<Longrightarrow> length (st_states h l c p m) = length c - p"
  by (simp add: st_states_def Let_def)

lemma st_step_trend: "st_trend (st_step h l c atr m i s) = 1 \<or> st_trend (st_step h l c atr m i s) = - 1"
  by (simp add: st_step_def Let_def)

lemma st_states_trend:
  assumes "s \<in> set (st_states h l c p m)"
  shows "st_trend s = 1 \<or> st_trend s = - 1"
proof -
  let ?P = "\<lambda>s. st_trend s = 1 \<or> st_trend s = - 1"
  let ?atr = "atr_series (tr_series h l c) p"
  have f: "?P (st_first h l c ?atr m p)" by (simp add: st_first_def)
  have "?P t" if "t \<in> set (scan (st_step h l c ?atr m) [p + 1..<length c] (st_first h l c ?atr m p))" for t
    by (rule scan_invariant [where P = ?P, OF f _ that]) (rule st_step_trend)
  with f assms show ?thesis by (auto simp: st_states_def Let_def)
qed

lemma st_step_stays_up:
  "st_trend s = 1 \<Longrightarrow> st_trend (st_step h l c atr m i s) = 1 \<Longrightarrow> st_lower (st_step h l c atr m i s) \<le> c ! i"
  by (auto simp: st_step_def Let_def not_less split: if_splits)

lemma st_step_stays_down:
  "st_trend s = - 1 \<Longrightarrow> st_trend (st_step h l c atr m i s) = - 1 \<Longrightarrow> c ! i \<le> st_upper (st_step h l c atr m i s)"
  by (auto simp: st_step_def Let_def not_less split: if_splits)

lemma st_step_lower_mono: "st_lower s \<le> c ! (i - 1) \<Longrightarrow> st_lower s \<le> st_lower (st_step h l c atr m i s)"
  by (simp add: st_step_def Let_def)

lemma st_step_upper_mono: "c ! (i - 1) \<le> st_upper s \<Longrightarrow> st_upper (st_step h l c atr m i s) \<le> st_upper s"
  by (simp add: st_step_def Let_def)

text \<open>Supertrend answers for every bar with a trend of plus or minus one, and the trailing stop
  ratchets: on three bars in a row of an uptrend the line does not fall on the last one, on three
  of a downtrend it does not rise.\<close>

theorem supertrend_ratchet:
  assumes "calculate_supertrend h l c p m = Inr series"
  shows "length series = length c \<and> (\<forall>i < length c. snd (series ! i) \<in> {1, - 1})
    \<and> (\<forall>i. p + 2 \<le> i \<longrightarrow> i < length c \<longrightarrow>
         snd (series ! i) = snd (series ! (i - 1)) \<longrightarrow> snd (series ! (i - 1)) = snd (series ! (i - 2)) \<longrightarrow>
         (if snd (series ! i) = 1 then fst (series ! (i - 1)) \<le> fst (series ! i)
          else fst (series ! i) \<le> fst (series ! (i - 1))))"
proof -
  let ?s = "st_states h l c p m" and ?atr = "atr_series (tr_series h l c) p"
  have n: "p < length c" and s: "series = replicate p (0, 1) @ map st_value ?s"
    using assms by (auto simp: calculate_supertrend_def split: if_splits)
  have len: "length ?s = length c - p" using n by (rule length_st_states)
  have nth: "series ! i = st_value (?s ! (i - p))" if "p \<le> i" "i < length c" for i
    using that len by (simp add: s nth_append)
  have tr: "snd (series ! i) = 1 \<or> snd (series ! i) = - 1" if "i < length c" for i
    using that len st_states_trend [of "?s ! (i - p)" h l c p m]
    by (cases "i < p") (auto simp: s nth_append st_value_def)
  have step: "if snd (series ! i) = 1 then fst (series ! (i - 1)) \<le> fst (series ! i)
      else fst (series ! i) \<le> fst (series ! (i - 1))"
    if i: "p + 2 \<le> i" "i < length c" "snd (series ! i) = snd (series ! (i - 1))"
      "snd (series ! (i - 1)) = snd (series ! (i - 2))" for i
  proof -
    define a b d where "a = ?s ! (i - 2 - p)" and "b = ?s ! (i - 1 - p)" and "d = ?s ! (i - p)"
    have b: "b = st_step h l c ?atr m (i - 1) a"
      using st_states_nth [of p "i - 1" c h l m] i by (simp add: a_def b_def numeral_2_eq_2)
    have d: "d = st_step h l c ?atr m i b"
      using st_states_nth [of p i c h l m] i by (simp add: b_def d_def)
    have v: "series ! i = st_value d" "series ! (i - 1) = st_value b" "series ! (i - 2) = st_value a"
      using nth [of i] nth [of "i - 1"] nth [of "i - 2"] i by (simp_all add: a_def b_def d_def)
    have t: "st_trend d = st_trend b" "st_trend b = st_trend a" "st_trend a = 1 \<or> st_trend a = - 1"
      using i(3,4) tr [of "i - 2"] i(1,2) unfolding v st_value_def snd_conv by auto
    show ?thesis
      using st_step_stays_up [of a h l c ?atr m "i - 1", folded b] st_step_lower_mono [of b c i h l ?atr m, folded d]
        st_step_stays_down [of a h l c ?atr m "i - 1", folded b] st_step_upper_mono [of c i b h l ?atr m, folded d] t
      unfolding v st_value_def fst_conv snd_conv by auto
  qed
  show ?thesis
  proof (intro conjI allI impI)
    show "length series = length c" using n len by (simp add: s)
  next
    fix i assume "i < length c"
    then show "snd (series ! i) \<in> {1, - 1}" using tr by blast
  qed (rule step)
qed

section \<open>No repainting\<close>

lemma psar_step_prefix:
  assumes "2 \<le> i" "i < length h" "length l = length h"
  shows "psar_step (h @ h') (l @ l') iaf maf i s = psar_step h l iaf maf i s"
proof -
  have "(h @ h') ! i = h ! i" "(h @ h') ! (i - 1) = h ! (i - 1)" "(h @ h') ! (i - 2) = h ! (i - 2)"
    "(l @ l') ! i = l ! i" "(l @ l') ! (i - 1) = l ! (i - 1)" "(l @ l') ! (i - 2) = l ! (i - 2)"
    using assms by (auto simp: nth_append)
  then show ?thesis unfolding psar_step_def by (simp only:)
qed

lemma psar_states_prefix:
  assumes "length h = length c" "length l = length c" "2 \<le> length c"
  shows "take (length c) (psar_states (h @ h') (l @ l') (c @ c') iaf maf) = psar_states h l c iaf maf"
proof -
  have i: "psar_init (h @ h') (l @ l') (c @ c') iaf = psar_init h l c iaf"
  proof -
    have "(c @ c') ! 0 = c ! 0" "(c @ c') ! 1 = c ! 1" "(h @ h') ! 0 = h ! 0" "(h @ h') ! 1 = h ! 1"
      "(l @ l') ! 0 = l ! 0" "(l @ l') ! 1 = l ! 1"
      using assms by (auto simp: nth_append)
    then show ?thesis unfolding psar_init_def by (simp only:)
  qed
  have u: "[2..<length (c @ c')] = [2..<length c] @ [length c..<length (c @ c')]"
    using assms(3) by (simp add: upt_add_eq_append [symmetric])
  have "scan (psar_step (h @ h') (l @ l') iaf maf) [2..<length c] s = scan (psar_step h l iaf maf) [2..<length c] s" for s
    using assms by (intro scan_cong psar_step_prefix) auto
  then show ?thesis
    unfolding psar_states_def Let_def i u scan_append using assms(3) by (auto simp: take_Cons')
qed

lemma tr_series_prefix:
  assumes "length h = length c" "length l = length c"
  shows "tr_series (h @ h') (l @ l') (c @ c') = tr_series h l c @ drop (length c) (tr_series (h @ h') (l @ l') (c @ c'))"
proof -
  have "take (length c) (tr_series (h @ h') (l @ l') (c @ c')) = tr_series h l c"
    using assms by (auto simp: tr_series_def take_map nth_append intro!: nth_equalityI)
  then show ?thesis by (metis append_take_drop_id)
qed

lemma atr_series_prefix:
  assumes "p < length tr"
  shows "take (length tr) (atr_series (tr @ tr') p) = atr_series tr p"
proof -
  have u: "[p + 1..<length (tr @ tr')] = [p + 1..<length tr] @ [length tr..<length (tr @ tr')]"
    using assms by (simp add: upt_add_eq_append [symmetric] del: upt_Suc)
  have a: "slice 1 (p + 1) (tr @ tr') = slice 1 (p + 1) tr" using assms by (simp add: slice_append)
  have "scan (atr_step (tr @ tr') p) [p + 1..<length tr] s = scan (atr_step tr p) [p + 1..<length tr] s" for s
    by (intro scan_cong) (simp add: atr_step_def nth_append)
  then show ?thesis
    unfolding atr_series_def Let_def u scan_append a using assms by (simp add: take_Cons')
qed

lemma st_states_prefix:
  assumes "length h = length c" "length l = length c" "p < length c"
  shows "take (length c - p) (st_states (h @ h') (l @ l') (c @ c') p m) = st_states h l c p m"
proof -
  define tr atr where "tr = tr_series h l c" and "atr = atr_series tr p"
  define atr2 where "atr2 = atr_series (tr_series (h @ h') (l @ l') (c @ c')) p"
  have lt: "length tr = length c" by (simp add: tr_def tr_series_def)
  have "take (length c) atr2 = atr"
    using atr_series_prefix [of p tr "drop (length c) (tr_series (h @ h') (l @ l') (c @ c'))"]
      tr_series_prefix [OF assms(1,2), of h' l' c'] lt assms(3) by (simp add: atr2_def atr_def tr_def)
  then have at: "atr2 ! i = atr ! i" if "i < length c" for i using that by (metis nth_take)
  have bb: "basic_band (h @ h') (l @ l') atr2 k i = basic_band h l atr k i" if "i < length c" for i k
    using that assms at by (simp add: basic_band_def nth_append)
  have f: "st_first (h @ h') (l @ l') (c @ c') atr2 m p = st_first h l c atr m p"
    using assms bb by (simp add: st_first_def nth_append)
  have st: "st_step (h @ h') (l @ l') (c @ c') atr2 m i s = st_step h l c atr m i s" if "i < length c" for i s
  proof -
    have "(c @ c') ! i = c ! i" "(c @ c') ! (i - 1) = c ! (i - 1)" using that by (auto simp: nth_append)
    then show ?thesis unfolding st_step_def bb [OF that] by (simp only:)
  qed
  have u: "[p + 1..<length (c @ c')] = [p + 1..<length c] @ [length c..<length (c @ c')]"
    using assms(3) by (simp add: upt_add_eq_append [symmetric] del: upt_Suc)
  have "scan (st_step (h @ h') (l @ l') (c @ c') atr2 m) [p + 1..<length c] s = scan (st_step h l c atr m) [p + 1..<length c] s" for s
    using st by (intro scan_cong) auto
  then show ?thesis
    unfolding st_states_def Let_def atr2_def [symmetric] tr_def [symmetric] atr_def [symmetric] f u scan_append
    using assms(3) by (simp add: take_Cons')
qed

text \<open>neither indicator repaints: with more bars appended, the values of the earlier bars are the
  same, so a value never depends on a later bar.\<close>

theorem trend_indicators_causal:
  assumes "length h = length c" "length l = length c" "length h' = length c'" "length l' = length c'"
  shows "(\<forall>s. calculate_parabolic_sar h l c iaf maf = Inr s \<longrightarrow>
      (\<exists>t. calculate_parabolic_sar (h @ h') (l @ l') (c @ c') iaf maf = Inr (s @ t)))
    \<and> (\<forall>s. calculate_supertrend h l c p m = Inr s \<longrightarrow>
      (\<exists>t. calculate_supertrend (h @ h') (l @ l') (c @ c') p m = Inr (s @ t)))"
proof (intro conjI allI impI)
  fix s assume a: "calculate_parabolic_sar h l c iaf maf = Inr s"
  then have n: "10 \<le> length c" and s: "s = map (\<lambda>x. (ps_sar x, ps_trend x)) (psar_states h l c iaf maf)"
    by (auto simp: calculate_parabolic_sar_def split: if_splits)
  let ?long = "psar_states (h @ h') (l @ l') (c @ c') iaf maf"
  have "map (\<lambda>x. (ps_sar x, ps_trend x)) ?long = s @ map (\<lambda>x. (ps_sar x, ps_trend x)) (drop (length c) ?long)"
  proof -
    have "2 \<le> length c" using n by simp
    from psar_states_prefix [OF assms(1,2) this, of h' l' c' iaf maf] show ?thesis
      unfolding s map_append [symmetric] by (metis append_take_drop_id)
  qed
  then show "\<exists>t. calculate_parabolic_sar (h @ h') (l @ l') (c @ c') iaf maf = Inr (s @ t)"
    using assms n by (simp add: calculate_parabolic_sar_def)
next
  fix s assume a: "calculate_supertrend h l c p m = Inr s"
  then have n: "p < length c" and s: "s = replicate p (0, 1) @ map st_value (st_states h l c p m)"
    by (auto simp: calculate_supertrend_def split: if_splits)
  let ?long = "st_states (h @ h') (l @ l') (c @ c') p m"
  have "map st_value ?long = map st_value (st_states h l c p m) @ map st_value (drop (length c - p) ?long)"
    using st_states_prefix [of h c l p h' l' c' m] assms n
    unfolding map_append [symmetric] by (metis append_take_drop_id)
  then show "\<exists>t. calculate_supertrend (h @ h') (l @ l') (c @ c') p m = Inr (s @ t)"
    using assms n by (simp add: calculate_supertrend_def s)
qed

section \<open>Witnesses\<close>

definition up_bars :: "real list" where
  "up_bars = [10, 11, 12, 13, 14, 15, 16, 17, 18, 19, 20, 21]"

definition up_highs :: "real list" where
  "up_highs = map (\<lambda>x. x + 1) up_bars"

definition up_lows :: "real list" where
  "up_lows = map (\<lambda>x. x - 1) up_bars"

lemma up_psar: "\<exists>s. calculate_parabolic_sar up_highs up_lows up_bars (2 / 100) (20 / 100) = Inr s \<and> length s = 12"
  by (simp add: calculate_parabolic_sar_def up_highs_def up_lows_def up_bars_def length_psar_states)

lemma up_supertrend: "\<exists>s. calculate_supertrend up_highs up_lows up_bars 3 2 = Inr s"
  by (simp add: calculate_supertrend_def up_highs_def up_lows_def up_bars_def)

theorem psar_protective_side_witness:
  "\<exists>s. calculate_parabolic_sar up_highs up_lows up_bars (2 / 100) (20 / 100) = Inr s
     \<and> (\<forall>i < length up_bars. snd (s ! i) \<in> {1, - 1})"
proof -
  obtain s where s: "calculate_parabolic_sar up_highs up_lows up_bars (2 / 100) (20 / 100) = Inr s"
    using up_psar by blast
  from psar_protective_side [OF this] s show ?thesis by blast
qed

theorem psar_acceleration_bounded_witness:
  "\<forall>s \<in> set (psar_states up_highs up_lows up_bars (2 / 100) (20 / 100)). ps_af s \<le> 20 / 100"
  using psar_acceleration_bounded [of "2 / 100" "20 / 100" _ up_highs up_lows up_bars] by simp

theorem supertrend_ratchet_witness:
  "\<exists>s. calculate_supertrend up_highs up_lows up_bars 3 2 = Inr s \<and> length s = 12"
proof -
  obtain s where s: "calculate_supertrend up_highs up_lows up_bars 3 2 = Inr s" using up_supertrend by blast
  have "length up_bars = 12" by (simp add: up_bars_def)
  with supertrend_ratchet [OF s] s show ?thesis by auto
qed

theorem trend_indicators_causal_witness:
  "\<exists>s t. calculate_parabolic_sar (up_highs @ [30]) (up_lows @ [28]) (up_bars @ [29]) (2 / 100) (20 / 100) = Inr (s @ t)
     \<and> length s = 12"
proof -
  have l: "length up_highs = length up_bars" "length up_lows = length up_bars"
    by (simp_all add: up_highs_def up_lows_def)
  obtain s where s: "calculate_parabolic_sar up_highs up_lows up_bars (2 / 100) (20 / 100) = Inr s" "length s = 12"
    using up_psar by blast
  from trend_indicators_causal [OF l, of "[30]" "[29]" "[28]"] s show ?thesis by fastforce
qed

end
