(* ===== verification/Indicators_Levels.thy ===== *)
theory Indicators_Levels
  imports Reverto_Prelude
begin

text \<open>
  The indicators built on price levels: market structure (\<open>strategies/indicators/market_structure.py\<close>),
  support and resistance (\<open>strategies/indicators/support_resistance.py\<close>) and the QFL base scanner
  (\<open>strategies/indicators/qfl.py\<close>).  Look-backs and periods are natural numbers.  A loop whose body may
  raise carries \<open>Inl\<close> as its state once it has.
\<close>

section \<open>Market structure\<close>

definition is_swing_high :: "real list \<Rightarrow> nat \<Rightarrow> nat \<Rightarrow> bool" where
  "is_swing_high closes k i =
     (list_all (\<lambda>x. x < closes ! i) (slice (i - k) i closes) \<and>
      list_all (\<lambda>x. x < closes ! i) (slice (i + 1) (i + 1 + k) closes))"

definition is_swing_low :: "real list \<Rightarrow> nat \<Rightarrow> nat \<Rightarrow> bool" where
  "is_swing_low closes k i =
     (list_all (\<lambda>x. closes ! i < x) (slice (i - k) i closes) \<and>
      list_all (\<lambda>x. closes ! i < x) (slice (i + 1) (i + 1 + k) closes))"

definition swing_points :: "real list \<Rightarrow> nat \<Rightarrow> (nat \<times> real) list \<times> (nat \<times> real) list" where
  "swing_points closes k =
     (let idx = [k..<length closes - k] in
      (map (\<lambda>i. (i, closes ! i)) (filter (is_swing_high closes k) idx),
       map (\<lambda>i. (i, closes ! i)) (filter (\<lambda>i. \<not> is_swing_high closes k i \<and> is_swing_low closes k i) idx)))"

definition last_two :: "(nat \<times> real) list \<Rightarrow> (real \<Rightarrow> real \<Rightarrow> bool) \<Rightarrow> bool" where
  "last_two ps r = (2 \<le> length ps \<and> r (snd (last ps)) (snd (ps ! (length ps - 2))))"

definition check_market_structure_signal :: "real list \<Rightarrow> nat \<Rightarrow> string \<Rightarrow> bool res" where
  "check_market_structure_signal closes k condition =
     (if length closes < k * 10 then Inl ValueError
      else
        let highs = fst (swing_points closes k); lows = snd (swing_points closes k) in
        res_bind (py_last closes) (\<lambda>latest.
        if condition = ''bullish_bos'' then Inr (highs \<noteq> [] \<and> snd (last highs) < latest)
        else if condition = ''bearish_bos'' then Inr (lows \<noteq> [] \<and> latest < snd (last lows))
        else if condition = ''higher_low'' then Inr (last_two lows (\<lambda>a b. b < a))
        else if condition = ''lower_high'' then Inr (last_two highs (\<lambda>a b. a < b))
        else if condition = ''bullish_structure''
        then Inr (last_two highs (\<lambda>a b. b < a) \<and> last_two lows (\<lambda>a b. b < a))
        else if condition = ''bearish_structure''
        then Inr (last_two highs (\<lambda>a b. a < b) \<and> last_two lows (\<lambda>a b. a < b))
        else Inl ValueError))"

lemma list_all_slice:
  "b \<le> length xs \<Longrightarrow> list_all P (slice a b xs) \<longleftrightarrow> (\<forall>j. a \<le> j \<longrightarrow> j < b \<longrightarrow> P (xs ! j))"
  by (auto simp: list_all_iff set_slice)

text \<open>the swing points are exactly the strict local extrema: an index with a full window on both
  sides whose close is above (below) every other close of the window; the lists are in time order,
  and with a positive look-back no bar is both.\<close>

theorem swing_points_are_strict_extrema:
  "((i, v) \<in> set (fst (swing_points c k)) \<longleftrightarrow>
      k \<le> i \<and> i + k < length c \<and> v = c ! i \<and> (\<forall>j. i - k \<le> j \<and> j \<le> i + k \<and> j \<noteq> i \<longrightarrow> c ! j < v))
    \<and> (0 < k \<longrightarrow> ((i, v) \<in> set (snd (swing_points c k)) \<longleftrightarrow>
      k \<le> i \<and> i + k < length c \<and> v = c ! i \<and> (\<forall>j. i - k \<le> j \<and> j \<le> i + k \<and> j \<noteq> i \<longrightarrow> v < c ! j)))
    \<and> sorted (map fst (fst (swing_points c k))) \<and> sorted (map fst (snd (swing_points c k)))"
proof -
  have w: "is_swing_high c k i \<longleftrightarrow> (\<forall>j. i - k \<le> j \<and> j \<le> i + k \<and> j \<noteq> i \<longrightarrow> c ! j < c ! i)"
    "is_swing_low c k i \<longleftrightarrow> (\<forall>j. i - k \<le> j \<and> j \<le> i + k \<and> j \<noteq> i \<longrightarrow> c ! i < c ! j)"
    if "i + k < length c"
    using that by (auto simp: is_swing_high_def is_swing_low_def list_all_slice)
  have x: "\<not> (is_swing_high c k i \<and> is_swing_low c k i)" if "0 < k" "k \<le> i" "i + k < length c"
  proof -
    have "i - k \<le> i + 1" "i + 1 \<le> i + k" using that by auto
    then show ?thesis using w [OF that(3)] by (metis less_asym n_not_Suc_n Suc_eq_plus1)
  qed
  have s: "sorted (map fst (map (\<lambda>i. (i, c ! i)) (filter P [a..<b])))" for P a b
    by (simp add: comp_def sorted_wrt_filter)
  show ?thesis
    using w x s by (auto simp: swing_points_def Let_def)
qed

section \<open>Support and resistance\<close>

text \<open>\<open>max\<close> and \<open>min\<close> of a list, which raise on an empty one.\<close>

definition py_max :: "real list \<Rightarrow> real res" where
  "py_max xs = (if xs = [] then Inl ValueError else Inr (Max (set xs)))"

definition py_min :: "real list \<Rightarrow> real res" where
  "py_min xs = (if xs = [] then Inl ValueError else Inr (Min (set xs)))"

definition ema_list :: "real list \<Rightarrow> real \<Rightarrow> real list" where
  "ema_list values period =
     (case values of
        [] \<Rightarrow> []
      | v # vs \<Rightarrow> let k = 2 / (period + 1) in v # scan (\<lambda>x e. k * x + (1 - k) * e) vs v)"

definition volume_osc :: "real list \<Rightarrow> real list" where
  "volume_osc volumes =
     map2 (\<lambda>s l. if l \<noteq> 0 then 100 * (s - l) / l else 0) (ema_list volumes 5) (ema_list volumes 10)"

record sr_state =
  cur_res :: "real option"
  cur_sup :: "real option"
  res_touches :: int
  sup_touches :: int

definition pivot_high :: "real list \<Rightarrow> nat \<Rightarrow> nat \<Rightarrow> nat \<Rightarrow> bool res" where
  "pivot_high highs left right p =
     res_bind (py_max (slice (p - left) p highs)) (\<lambda>a.
       if a < highs ! p then
         res_bind (py_max (slice (p + 1) (p + right + 1) highs)) (\<lambda>b. Inr (b < highs ! p))
       else Inr False)"

definition pivot_low :: "real list \<Rightarrow> nat \<Rightarrow> nat \<Rightarrow> nat \<Rightarrow> bool res" where
  "pivot_low lows left right p =
     res_bind (py_min (slice (p - left) p lows)) (\<lambda>a.
       if lows ! p < a then
         res_bind (py_min (slice (p + 1) (p + right + 1) lows)) (\<lambda>b. Inr (lows ! p < b))
       else Inr False)"

definition vol_ok :: "real list option \<Rightarrow> real \<Rightarrow> nat \<Rightarrow> bool" where
  "vol_ok osc threshold p = (case osc of None \<Rightarrow> True | Some v \<Rightarrow> threshold < v ! p)"

definition count_touch :: "int \<Rightarrow> real option \<Rightarrow> real \<Rightarrow> int \<Rightarrow> int res" where
  "count_touch min_touches cur px t =
     (case cur of
        None \<Rightarrow> Inr t
      | Some c \<Rightarrow>
          if 1 < min_touches
          then res_bind (py_div \<bar>px - c\<bar> c) (\<lambda>q. Inr (if q < 5 / 1000 then t + 1 else t))
          else Inr t)"

definition sr_pivots ::
  "real list \<Rightarrow> real list \<Rightarrow> nat \<Rightarrow> nat \<Rightarrow> real list option \<Rightarrow> real \<Rightarrow> nat \<Rightarrow> sr_state \<Rightarrow> sr_state res" where
  "sr_pivots highs lows left right osc threshold i s =
     (if left + right \<le> i then
        let p = i - right in
        res_bind (pivot_high highs left right p) (\<lambda>is_high.
        let s1 = (if is_high \<and> vol_ok osc threshold p
                  then s\<lparr>cur_res := Some (highs ! p), res_touches := 1\<rparr> else s) in
        res_bind (pivot_low lows left right p) (\<lambda>is_low.
        Inr (if is_low \<and> vol_ok osc threshold p
             then s1\<lparr>cur_sup := Some (lows ! p), sup_touches := 1\<rparr> else s1)))
      else Inr s)"

definition sr_step ::
  "real list \<Rightarrow> real list \<Rightarrow> nat \<Rightarrow> nat \<Rightarrow> real list option \<Rightarrow> real \<Rightarrow> int \<Rightarrow> nat \<Rightarrow> sr_state res \<Rightarrow> sr_state res" where
  "sr_step highs lows left right osc threshold min_touches i r =
     res_bind r (\<lambda>s.
     res_bind (sr_pivots highs lows left right osc threshold i s) (\<lambda>s1.
     res_bind (count_touch min_touches (cur_res s1) (highs ! i) (res_touches s1)) (\<lambda>rt.
     res_bind (count_touch min_touches (cur_sup s1) (lows ! i) (sup_touches s1)) (\<lambda>st.
     Inr (s1\<lparr>res_touches := rt, sup_touches := st\<rparr>)))))"

definition sr_init :: sr_state where
  "sr_init = \<lparr>cur_res = None, cur_sup = None, res_touches = 0, sup_touches = 0\<rparr>"

definition sr_value :: "int \<Rightarrow> sr_state \<Rightarrow> real option \<times> real option" where
  "sr_value min_touches s =
     (if min_touches \<le> res_touches s then cur_res s else None,
      if min_touches \<le> sup_touches s then cur_sup s else None)"

text \<open>The pair of series; the pairs are (resistance, support) per bar.\<close>

definition calculate_sr_series ::
  "real list \<Rightarrow> real list \<Rightarrow> real list \<Rightarrow> nat \<Rightarrow> nat \<Rightarrow> real list option \<Rightarrow> real \<Rightarrow> int \<Rightarrow>
     (real option \<times> real option) list res" where
  "calculate_sr_series highs lows closes left right volumes threshold min_touches =
     (if length highs \<noteq> length closes \<or> length lows \<noteq> length closes then Inl ValueError
      else
        let osc = (case volumes of
              Some v \<Rightarrow> if v \<noteq> [] \<and> 0 < threshold \<and> length v = length closes then Some (volume_osc v) else None
            | None \<Rightarrow> None) in
        res_bind (all_ok (scan (sr_step highs lows left right osc threshold min_touches)
            [0..<length closes] (Inr sr_init))) (\<lambda>ss.
        Inr (map (sr_value min_touches) ss)))"

definition find_support_resistance ::
  "real list \<Rightarrow> real list \<Rightarrow> real list \<Rightarrow> nat \<Rightarrow> nat \<Rightarrow> (real list \<times> real list) res" where
  "find_support_resistance highs lows closes left right =
     res_bind (calculate_sr_series highs lows closes left right None 0 1) (\<lambda>series.
     res_bind (py_last series) (\<lambda>(r, s).
     Inr ((case s of None \<Rightarrow> [] | Some x \<Rightarrow> [x]), (case r of None \<Rightarrow> [] | Some x \<Rightarrow> [x]))))"

definition near_level :: "real \<Rightarrow> real option \<Rightarrow> real \<Rightarrow> bool res" where
  "near_level price level pct =
     (case level of
        None \<Rightarrow> Inr False
      | Some l \<Rightarrow> res_bind (py_div \<bar>price - l\<bar> l) (\<lambda>q. Inr (q * 100 \<le> pct)))"

definition check_support_resistance_signal ::
  "real list \<Rightarrow> real list \<Rightarrow> real list \<Rightarrow> nat \<Rightarrow> nat \<Rightarrow> real \<Rightarrow> string \<Rightarrow> string \<Rightarrow> real list option \<Rightarrow>
     real \<Rightarrow> int \<Rightarrow> bool res" where
  "check_support_resistance_signal highs lows closes left right proximity_pct condition val volumes
       threshold min_touches =
     (if length closes < left + right + 1 then Inl ValueError
      else
        res_bind (calculate_sr_series highs lows closes left right volumes threshold min_touches) (\<lambda>series.
        res_bind (py_last series) (\<lambda>(resistance, support).
        let price = last closes;
            prev = (if 2 \<le> length closes then closes ! (length closes - 2) else price);
            level = (if val = ''support'' then support else resistance) in
        if condition = ''price_crossing_up''
        then Inr (case level of None \<Rightarrow> False | Some l \<Rightarrow> prev < l \<and> l \<le> price)
        else if condition = ''price_crossing_down''
        then Inr (case level of None \<Rightarrow> False | Some l \<Rightarrow> l < prev \<and> price \<le> l)
        else if condition = ''price_greater_than''
        then Inr (case level of None \<Rightarrow> False | Some l \<Rightarrow> l < price)
        else if condition = ''price_lower_than''
        then Inr (case level of None \<Rightarrow> False | Some l \<Rightarrow> price < l)
        else if condition = ''near_support'' then near_level price support proximity_pct
        else if condition = ''near_resistance'' then near_level price resistance proximity_pct
        else if condition = ''below_support''
        then Inr (case support of None \<Rightarrow> False | Some l \<Rightarrow> price < l)
        else if condition = ''above_resistance''
        then Inr (case resistance of None \<Rightarrow> False | Some l \<Rightarrow> l < price)
        else Inr False)))"

section \<open>QFL\<close>

record qfl_bar =
  qb_base :: "real option"
  qb_buy_limit :: "real option"
  qb_new_base :: bool
  qb_highest_high :: "real option"

text \<open>\<open>min\<close> of a slice, infinity (\<open>None\<close>) when it is empty.\<close>

definition slice_min :: "nat \<Rightarrow> nat \<Rightarrow> real list \<Rightarrow> real option" where
  "slice_min a b xs = (if a < b then Some (Min (set (slice a b xs))) else None)"

definition is_new_base :: "real list \<Rightarrow> nat \<Rightarrow> nat \<Rightarrow> nat \<Rightarrow> real \<Rightarrow> bool" where
  "is_new_base lows bp pp i lowest_low =
     (if pp + 1 \<le> i then
        let end1 = max 1 (i - pp); end0 = i - pp + 1;
            ll1 = slice_min (end1 - bp) end1 lows; ll0 = slice_min (end0 - bp) end0 lows in
        (case (ll1, ll0) of
           (_, None) \<Rightarrow> False
         | (None, Some b) \<Rightarrow> b = lowest_low
         | (Some a, Some b) \<Rightarrow> b < a \<and> b = lowest_low)
      else False)"

definition qfl_step ::
  "real list \<Rightarrow> real list \<Rightarrow> nat \<Rightarrow> nat \<Rightarrow> real \<Rightarrow> real \<Rightarrow> nat \<Rightarrow> qfl_bar res \<Rightarrow> qfl_bar res" where
  "qfl_step highs lows bp pp pump_frac crack_frac i r =
     res_bind r (\<lambda>b.
     res_bind (py_min (slice (i + 1 - bp) (i + 1) lows)) (\<lambda>lowest_low.
     let new_base = is_new_base lows bp pp i lowest_low in
     res_bind (py_max (slice (i + 1 - pp) (i + 1) highs)) (\<lambda>offset_high.
     let hh = (case qb_highest_high b of
            None \<Rightarrow> offset_high
          | Some h \<Rightarrow> if new_base \<or> h < highs ! i then offset_high else h);
         base = (if new_base then Some lowest_low else qb_base b);
         limit = (case base of
            None \<Rightarrow> None
          | Some x \<Rightarrow>
              if 0 < x \<and> pump_frac < (hh - x) / x \<and> crack_frac < (x - lows ! i) / x
              then Some (x * (1 - crack_frac)) else None)
     in Inr \<lparr>qb_base = base, qb_buy_limit = limit, qb_new_base = new_base, qb_highest_high = Some hh\<rparr>)))"

definition qfl_init :: qfl_bar where
  "qfl_init = \<lparr>qb_base = None, qb_buy_limit = None, qb_new_base = False, qb_highest_high = None\<rparr>"

definition calculate_qfl_series ::
  "real list \<Rightarrow> real list \<Rightarrow> real list \<Rightarrow> nat \<Rightarrow> nat \<Rightarrow> real \<Rightarrow> real \<Rightarrow> qfl_bar list res" where
  "calculate_qfl_series highs lows closes bp pump pump_pct crack_pct =
     (if length highs \<noteq> length lows \<or> length closes \<noteq> length lows then Inl ValueError
      else all_ok (scan (qfl_step highs lows bp (min pump (bp - 1)) (pump_pct / 100) (crack_pct / 100))
             [0..<length lows] (Inr qfl_init)))"

definition check_qfl_signal ::
  "real list \<Rightarrow> string \<Rightarrow> nat \<Rightarrow> nat \<Rightarrow> real \<Rightarrow> real \<Rightarrow> real list option \<Rightarrow> real list option \<Rightarrow> bool res" where
  "check_qfl_signal closes condition bp pump pump_pct crack_pct highs lows =
     (if condition \<notin> {''below_base'', ''near_base'', ''base_retest''} then Inl ValueError
      else if length closes < bp then Inl ValueError
      else
        let pick = (\<lambda>series. case series of
              Some xs \<Rightarrow> if xs \<noteq> [] \<and> length xs = length closes then xs else closes
            | None \<Rightarrow> closes) in
        res_bind (calculate_qfl_series (pick highs) (pick lows) closes bp pump pump_pct crack_pct) (\<lambda>q.
        res_bind (py_last closes) (\<lambda>price.
        res_bind (py_last q) (\<lambda>b.
        if condition = ''below_base'' then Inr (qb_buy_limit b \<noteq> None)
        else case qb_base b of
          None \<Rightarrow> Inr False
        | Some base \<Rightarrow>
            if condition = ''near_base''
            then res_bind (py_div \<bar>price - base\<bar> base) (\<lambda>d. Inr (d < 5 / 1000))
            else Inr (base * (998 / 1000) \<le> price \<and> price \<le> base * (1002 / 1000))))))"

section \<open>What the levels are\<close>

lemma py_max_less: "py_max xs = Inr a \<Longrightarrow> a < h \<longleftrightarrow> (\<forall>x \<in> set xs. x < h)"
  by (auto simp: py_max_def split: if_splits)

lemma py_min_greater: "py_min xs = Inr a \<Longrightarrow> h < a \<longleftrightarrow> (\<forall>x \<in> set xs. h < x)"
  by (auto simp: py_min_def split: if_splits)

definition window_max :: "real list \<Rightarrow> nat \<Rightarrow> nat \<Rightarrow> nat \<Rightarrow> bool" where
  "window_max xs left right p = (\<forall>j. p - left \<le> j \<and> j \<le> p + right \<and> j \<noteq> p \<longrightarrow> xs ! j < xs ! p)"

definition window_min :: "real list \<Rightarrow> nat \<Rightarrow> nat \<Rightarrow> nat \<Rightarrow> bool" where
  "window_min xs left right p = (\<forall>j. p - left \<le> j \<and> j \<le> p + right \<and> j \<noteq> p \<longrightarrow> xs ! p < xs ! j)"

lemma pivot_high_window:
  assumes "pivot_high xs left right p = Inr True" "p + right < length xs"
  shows "window_max xs left right p"
proof -
  obtain a b where "py_max (slice (p - left) p xs) = Inr a" "a < xs ! p"
    "py_max (slice (p + 1) (p + right + 1) xs) = Inr b" "b < xs ! p"
    using assms(1) by (auto simp: pivot_high_def res_bind_eq_Inr_iff split: if_splits)
  then have "\<forall>x \<in> set (slice (p - left) p xs). x < xs ! p" "\<forall>x \<in> set (slice (p + 1) (p + right + 1) xs). x < xs ! p"
    using py_max_less by blast+
  then have "j < p \<Longrightarrow> p - left \<le> j \<Longrightarrow> xs ! j < xs ! p" "p < j \<Longrightarrow> j \<le> p + right \<Longrightarrow> xs ! j < xs ! p" for j
    using assms(2) by (auto simp: set_slice)
  then show ?thesis unfolding window_max_def by (metis linorder_neqE_nat)
qed

lemma pivot_low_window:
  assumes "pivot_low xs left right p = Inr True" "p + right < length xs"
  shows "window_min xs left right p"
proof -
  obtain a b where "py_min (slice (p - left) p xs) = Inr a" "xs ! p < a"
    "py_min (slice (p + 1) (p + right + 1) xs) = Inr b" "xs ! p < b"
    using assms(1) by (auto simp: pivot_low_def res_bind_eq_Inr_iff split: if_splits)
  then have "\<forall>x \<in> set (slice (p - left) p xs). xs ! p < x" "\<forall>x \<in> set (slice (p + 1) (p + right + 1) xs). xs ! p < x"
    using py_min_greater by blast+
  then have "j < p \<Longrightarrow> p - left \<le> j \<Longrightarrow> xs ! p < xs ! j" "p < j \<Longrightarrow> j \<le> p + right \<Longrightarrow> xs ! p < xs ! j" for j
    using assms(2) by (auto simp: set_slice)
  then show ?thesis unfolding window_min_def by (metis linorder_neqE_nat)
qed

definition sr_inv :: "real list \<Rightarrow> real list \<Rightarrow> nat \<Rightarrow> nat \<Rightarrow> nat \<Rightarrow> sr_state \<Rightarrow> bool" where
  "sr_inv h l left right i s =
     ((\<forall>r. cur_res s = Some r \<longrightarrow>
         (\<exists>p. left \<le> p \<and> p + right < i \<and> r = h ! p \<and> window_max h left right p)) \<and>
      (\<forall>r. cur_sup s = Some r \<longrightarrow>
         (\<exists>p. left \<le> p \<and> p + right < i \<and> r = l ! p \<and> window_min l left right p)))"

lemma sr_inv_mono: "sr_inv h l left right i s \<Longrightarrow> i \<le> i' \<Longrightarrow> sr_inv h l left right i' s"
  unfolding sr_inv_def by (meson less_le_trans)

lemma sr_pivots_inv:
  assumes "sr_inv h l left right i s" "sr_pivots h l left right osc th i s = Inr s'" "i < length h" "i < length l"
  shows "sr_inv h l left right (Suc i) s'"
proof (cases "left + right \<le> i")
  case False
  then show ?thesis using assms(1,2) by (auto simp: sr_pivots_def intro: sr_inv_mono)
next
  case True
  define p where "p = i - right"
  have p: "left \<le> p" "p + right = i" using True by (auto simp: p_def)
  obtain hi lo where hl: "pivot_high h left right p = Inr hi" "pivot_low l left right p = Inr lo"
    using assms(2) True by (auto simp: sr_pivots_def Let_def p_def res_bind_eq_Inr_iff)
  have "hi \<longrightarrow> window_max h left right p" "lo \<longrightarrow> window_min l left right p"
    using pivot_high_window [of h left right p] pivot_low_window [of l left right p] hl p assms(3,4) by auto
  moreover have "cur_res s' = (if hi \<and> vol_ok osc th p then Some (h ! p) else cur_res s)"
    "cur_sup s' = (if lo \<and> vol_ok osc th p then Some (l ! p) else cur_sup s)"
    using assms(2) True hl by (auto simp: sr_pivots_def Let_def p_def [symmetric])
  ultimately show ?thesis
    using assms(1) p unfolding sr_inv_def by (metis lessI less_SucI option.inject)
qed

lemma sr_step_inv:
  assumes "sr_inv h l left right i s" "sr_step h l left right osc th mt i (Inr s) = Inr s'" "i < length h" "i < length l"
  shows "sr_inv h l left right (Suc i) s'"
proof -
  obtain s1 where s1: "sr_pivots h l left right osc th i s = Inr s1" "cur_res s' = cur_res s1" "cur_sup s' = cur_sup s1"
    using assms(2) by (auto simp: sr_step_def res_bind_eq_Inr_iff)
  then show ?thesis using sr_pivots_inv [OF assms(1) s1(1) assms(3,4)] by (simp add: sr_inv_def)
qed

lemma sr_fold_inv:
  "fold (sr_step h l left right osc th mt) [0..<i] (Inr sr_init) = Inr s \<Longrightarrow> i \<le> length h \<Longrightarrow> i \<le> length l \<Longrightarrow>
    sr_inv h l left right i s"
proof (induction i arbitrary: s)
  case 0
  then have "s = sr_init" by simp
  then show ?case by (simp add: sr_inv_def sr_init_def)
next
  case (Suc i)
  let ?prev = "fold (sr_step h l left right osc th mt) [0..<i] (Inr sr_init)"
  have st: "sr_step h l left right osc th mt i ?prev = Inr s" using Suc.prems(1) by simp
  then obtain t where t: "?prev = Inr t" by (cases ?prev) (auto simp: sr_step_def)
  show ?case
    using sr_step_inv [OF Suc.IH [OF t] st [unfolded t]] Suc.prems(2,3) by simp
qed

text \<open>a reported level is a confirmed pivot: a resistance at a bar is the high of an earlier bar that
  is strictly above every other high of its window, the whole window lying in the past; a support
  mirrors it.\<close>

theorem sr_levels_are_confirmed_pivots:
  assumes "calculate_sr_series h l c left right vols th mt = Inr series" "i < length c"
  shows "(\<forall>r. fst (series ! i) = Some r \<longrightarrow>
      (\<exists>p. left \<le> p \<and> p + right \<le> i \<and> r = h ! p \<and> window_max h left right p))
    \<and> (\<forall>r. snd (series ! i) = Some r \<longrightarrow>
      (\<exists>p. left \<le> p \<and> p + right \<le> i \<and> r = l ! p \<and> window_min l left right p))"
proof -
  define osc where "osc = (case vols of
      Some v \<Rightarrow> if v \<noteq> [] \<and> 0 < th \<and> length v = length c then Some (volume_osc v) else None | None \<Rightarrow> None)"
  let ?f = "sr_step h l left right osc th mt"
  have len: "length h = length c" "length l = length c"
    using assms(1) by (auto simp: calculate_sr_series_def split: if_splits)
  obtain ss where ss: "scan ?f [0..<length c] (Inr sr_init) = map Inr ss" "series = map (sr_value mt) ss"
    using assms(1) by (auto simp: calculate_sr_series_def osc_def Let_def res_bind_eq_Inr_iff all_ok_Inr split: if_splits)
  have n: "length ss = length c" using arg_cong [OF ss(1), of length] by simp
  have "Inr (ss ! i) = scan ?f [0..<length c] (Inr sr_init) ! i" using n assms(2) by (simp add: ss(1))
  also have "\<dots> = fold ?f [0..<Suc i] (Inr sr_init)"
    using assms(2) by (subst nth_scan) (simp_all add: take_upt del: upt_Suc)
  finally have "fold ?f [0..<Suc i] (Inr sr_init) = Inr (ss ! i)" by simp
  from sr_fold_inv [OF this] have "sr_inv h l left right (Suc i) (ss ! i)" using assms(2) len by simp
  then show ?thesis
    using n assms(2) by (auto simp: ss(2) sr_value_def sr_inv_def less_Suc_eq_le split: if_splits)
qed

lemma qfl_step_limit:
  assumes "qfl_step h l bp pp pf cf i r = Inr s"
  shows "\<exists>hh. qb_highest_high s = Some hh \<and> qb_buy_limit s =
    (case qb_base s of None \<Rightarrow> None
     | Some x \<Rightarrow> if 0 < x \<and> pf < (hh - x) / x \<and> cf < (x - l ! i) / x then Some (x * (1 - cf)) else None)"
proof -
  obtain b lo oh where "r = Inr b" "py_min (slice (i + 1 - bp) (i + 1) l) = Inr lo"
    "py_max (slice (i + 1 - pp) (i + 1) h) = Inr oh"
    using assms by (auto simp: qfl_step_def Let_def res_bind_eq_Inr_iff)
  then show ?thesis using assms unfolding qfl_step_def Let_def by (auto simp del: split_paired_Ex)
qed

text \<open>the buy signal of QFL is what it says: a buy limit on a bar means the highest high since the
  base is more than the pump percentage above a positive base, the low of the bar is more than the
  crack percentage below it, and the limit is the base less the crack percentage, above that low.\<close>

theorem qfl_buy_limit_sound:
  assumes "calculate_qfl_series h l c bp pump pp cp = Inr series" "i < length c" "qb_buy_limit (series ! i) = Some x"
  shows "\<exists>b hh. qb_base (series ! i) = Some b \<and> qb_highest_high (series ! i) = Some hh \<and> 0 < b
    \<and> b * (1 + pp / 100) < hh \<and> l ! i < b * (1 - cp / 100) \<and> x = b * (1 - cp / 100)"
proof -
  let ?f = "qfl_step h l bp (min pump (bp - 1)) (pp / 100) (cp / 100)"
  have len: "length l = length c" and ss: "scan ?f [0..<length c] (Inr qfl_init) = map Inr series"
    using assms(1) by (auto simp: calculate_qfl_series_def all_ok_Inr split: if_splits)
  have n: "length series = length c" using arg_cong [OF ss, of length] by simp
  have "Inr (series ! i) = scan ?f [0..<length c] (Inr qfl_init) ! i"
    unfolding ss using n assms(2) by simp
  also have "\<dots> = ?f i (fold ?f [0..<i] (Inr qfl_init))"
    using assms(2) by (subst nth_scan) (simp_all add: take_upt del: upt_Suc, simp)
  finally have st: "?f i (fold ?f [0..<i] (Inr qfl_init)) = Inr (series ! i)" by simp
  from qfl_step_limit [OF st] assms(3)
  obtain b hh where b: "qb_base (series ! i) = Some b" "qb_highest_high (series ! i) = Some hh" "0 < b"
    "pp / 100 < (hh - b) / b" "cp / 100 < (b - l ! i) / b" "x = b * (1 - cp / 100)"
    by (auto split: if_splits option.splits)
  have "b * (pp / 100) < hh - b" "b * (cp / 100) < b - l ! i"
    using b(3-5) by (simp_all add: pos_less_divide_eq mult.commute)
  with b show ?thesis by (auto simp: algebra_simps)
qed

section \<open>No repainting\<close>

lemma py_slice_prefix: "b \<le> length xs \<Longrightarrow> slice a b (xs @ ys) = slice a b xs"
  by (rule slice_append)

lemma qfl_step_prefix:
  assumes "i < length h" "length l = length h"
  shows "qfl_step (h @ h') (l @ l') bp pp pf cf i r = qfl_step h l bp pp pf cf i r"
proof -
  have "slice a (i + 1) (l @ l') = slice a (i + 1) l" "slice a (i + 1) (h @ h') = slice a (i + 1) h" for a
    using assms by (simp_all add: slice_append)
  moreover have "(h @ h') ! i = h ! i" "(l @ l') ! i = l ! i" using assms by (simp_all add: nth_append)
  moreover have "is_new_base (l @ l') bp pp i x = is_new_base l bp pp i x" for x
  proof (cases "pp + 1 \<le> i")
    case True
    then have "max 1 (i - pp) \<le> length l" "i - pp + 1 \<le> length l" using assms by auto
    then have "slice a (max 1 (i - pp)) (l @ l') = slice a (max 1 (i - pp)) l"
      "slice a (i - pp + 1) (l @ l') = slice a (i - pp + 1) l" for a
      by (simp_all only: slice_append)
    then show ?thesis unfolding is_new_base_def slice_min_def Let_def by (simp only:)
  qed (simp add: is_new_base_def)
  ultimately show ?thesis unfolding qfl_step_def by (simp only:)
qed

text \<open>QFL does not repaint either: the bars of a longer series start with the bars of the shorter
  one.\<close>

theorem qfl_causal:
  assumes "calculate_qfl_series (h @ h') (l @ l') (c @ c') bp pump pp cp = Inr series"
    "length h = length l" "length c = length l"
  shows "\<exists>s t. calculate_qfl_series h l c bp pump pp cp = Inr s \<and> series = s @ t \<and> length s = length c"
proof -
  let ?f = "qfl_step h l bp (min pump (bp - 1)) (pp / 100) (cp / 100)"
  let ?g = "qfl_step (h @ h') (l @ l') bp (min pump (bp - 1)) (pp / 100) (cp / 100)"
  have u: "[0..<length (l @ l')] = [0..<length l] @ [length l..<length (l @ l')]"
    by (simp add: upt_add_eq_append [symmetric])
  have "scan ?g [0..<length l] s = scan ?f [0..<length l] s" for s
    using assms(2) by (intro scan_cong qfl_step_prefix) auto
  then have "all_ok (scan ?f [0..<length l] (Inr qfl_init) @ scan ?g [length l..<length (l @ l')]
      (fold ?g [0..<length l] (Inr qfl_init))) = Inr series"
    using assms(1) unfolding calculate_qfl_series_def u scan_append by (auto split: if_splits)
  from all_ok_append [OF this] obtain s t where s: "all_ok (scan ?f [0..<length l] (Inr qfl_init)) = Inr s" "series = s @ t"
    by blast
  have "length s = length c"
    using arg_cong [OF s(1) [unfolded all_ok_Inr], of length] assms(3) by simp
  with s assms(2,3) show ?thesis by (simp add: calculate_qfl_series_def)
qed

section \<open>Witnesses\<close>

theorem sr_levels_are_confirmed_pivots_witness:
  "\<exists>s. calculate_sr_series [1, 2, 5, 2, 1] [1, 1, 1, 1, 1] [1, 2, 4, 2, 1] 2 2 None 0 1 = Inr s
     \<and> fst (s ! 4) = Some 5 \<and> (\<exists>p. 2 \<le> p \<and> p + 2 \<le> 4 \<and> 5 = [1, 2, 5, 2, 1 :: real] ! p)"
proof -
  have s: "calculate_sr_series [1, 2, 5, 2, 1] [1, 1, 1, 1, 1] [1, 2, 4, 2, 1] 2 2 None 0 1
      = Inr [(None, None), (None, None), (None, None), (None, None), (Some 5, None)]"
    by code_simp
  from sr_levels_are_confirmed_pivots [OF s, of 4] s show ?thesis by force
qed

theorem swing_points_are_strict_extrema_witness:
  "(1, 3) \<in> set (fst (swing_points [1, 3, 2, 4, 1 :: real] 1)) \<and> (2, 2) \<in> set (snd (swing_points [1, 3, 2, 4, 1 :: real] 1))"
proof -
  have w: "(\<forall>j. (1::nat) - 1 \<le> j \<and> j \<le> 1 + 1 \<and> j \<noteq> 1 \<longrightarrow> [1, 3, 2, 4, 1 :: real] ! j < 3)"
    "(\<forall>j. (2::nat) - 1 \<le> j \<and> j \<le> 2 + 1 \<and> j \<noteq> 2 \<longrightarrow> 2 < [1, 3, 2, 4, 1 :: real] ! j)"
    by (auto simp: le_Suc_eq numeral_2_eq_2 numeral_3_eq_3)
  show ?thesis
    using swing_points_are_strict_extrema [of 1 3 "[1, 3, 2, 4, 1]" 1]
      swing_points_are_strict_extrema [of 2 2 "[1, 3, 2, 4, 1]" 1] w
    by simp
qed

theorem qfl_buy_limit_sound_witness:
  "\<exists>s (b::real). calculate_qfl_series [10, 10, 12, 12, 12, 10] [10, 9, 9, 10, 11, 8] [10, 10, 9, 11, 11, 8] 4 1 3 3 = Inr s
     \<and> qb_buy_limit (s ! 5) = Some (873 / 100) \<and> 8 < b * (1 - 3 / 100) \<and> 873 / 100 = b * (1 - 3 / 100)"
proof -
  let ?n = "\<lambda>h. \<lparr>qb_base = None, qb_buy_limit = None, qb_new_base = False, qb_highest_high = Some h\<rparr>"
  let ?b = "\<lambda>n m. \<lparr>qb_base = Some 9, qb_buy_limit = m, qb_new_base = n, qb_highest_high = Some 12\<rparr>"
  have s: "calculate_qfl_series [10, 10, 12, 12, 12, 10] [10, 9, 9, 10, 11, 8] [10, 10, 9, 11, 11, 8] 4 1 3 3
      = Inr [?n 10, ?n 10, ?b True None, ?b False None, ?b False None, ?b False (Some (873 / 100))]"
    by code_simp
  from qfl_buy_limit_sound [OF s, of 5 "873 / 100"] s show ?thesis by auto
qed

theorem qfl_causal_witness:
  "\<exists>s t. calculate_qfl_series [10] [9] [10] 2 1 3 3 = Inr s \<and> length s = 1 \<and> length (s @ t) = (2::nat)"
proof -
  let ?n = "\<lparr>qb_base = None, qb_buy_limit = None, qb_new_base = False, qb_highest_high = Some 10\<rparr>"
  have s: "calculate_qfl_series ([10] @ [10]) ([9] @ [9]) ([10] @ [10]) 2 1 3 3 = Inr [?n, ?n]"
    by code_simp
  from qfl_causal [OF s] obtain s t where "calculate_qfl_series [10] [9] [10] 2 1 3 3 = Inr s" "[?n, ?n] = s @ t" "length s = 1"
    by auto
  then show ?thesis by (metis length_Cons list.size(3) numeral_2_eq_2)
qed

end
