(* ===== verification/Indicators_Osc.thy ===== *)
theory Indicators_Osc
  imports Decimal_Text
begin

text \<open>
  The indicators on closing prices: Bollinger bands, RSI, MACD and EMA (\<open>strategies/indicators/\<close>
  \<open>bollinger.py\<close>, \<open>rsi.py\<close>, \<open>macd.py\<close>, \<open>ema.py\<close>).

  The last three call the third-party package pandas.  Its window functions are the parameter
  \<open>pandas\<close>, a record of functions; a \<open>Series\<close> is a list whose missing values (NaN) are \<open>None\<close>, and
  the arithmetic on a \<open>Series\<close> is the arithmetic on its elements, undefined where an operand is.
  What the theorems need of pandas is the predicate \<open>pandas_ok\<close>, satisfied by the documented
  definitions, which \<open>pandas_doc\<close> spells out.
\<close>

section \<open>Bollinger bands\<close>

text \<open>\<open>xs[-k:]\<close>, the whole list when \<open>k\<close> is 0.\<close>

definition last_n :: "nat \<Rightarrow> 'a list \<Rightarrow> 'a list" where
  "last_n k xs = (if k = 0 then xs else drop (length xs - k) xs)"

definition wma :: "real list \<Rightarrow> nat \<Rightarrow> real res" where
  "wma values period =
     (let w = map real [1..<period + 1] in
      py_div (sum_list (map2 (*) (last_n period values) w)) (sum_list w))"

definition ema_val :: "real list \<Rightarrow> nat \<Rightarrow> real res" where
  "ema_val values period =
     (case values of
        [] \<Rightarrow> Inl IndexError
      | v # vs \<Rightarrow> let k = 2 / (real period + 1) in Inr (fold (\<lambda>x e. k * x + (1 - k) * e) vs v))"

text \<open>The population standard deviation of the standard library.\<close>

definition pstdev :: "real list \<Rightarrow> real" where
  "pstdev xs =
     (let m = sum_list xs / length xs in sqrt (sum_list (map (\<lambda>x. (x - m)\<^sup>2) xs) / length xs))"

record bands =
  bb_upper :: real
  bb_middle :: real
  bb_lower :: real

definition calculate_bollinger_bands :: "real list \<Rightarrow> nat \<Rightarrow> real \<Rightarrow> string \<Rightarrow> bands res" where
  "calculate_bollinger_bands closes period mult ma_type =
     (if length closes < period then Inl ValueError
      else
        let window = last_n period closes in
        res_bind (if ma_type = ''EMA'' then ema_val closes period
                  else if ma_type = ''WMA'' then wma closes period
                  else py_div (sum_list window) (real period)) (\<lambda>middle.
        let std = (if 2 \<le> period then pstdev window else 0) in
        Inr \<lparr>bb_upper = middle + mult * std, bb_middle = middle, bb_lower = middle - mult * std\<rparr>))"

definition band_named :: "string \<Rightarrow> bands \<Rightarrow> real" where
  "band_named v b =
     (if v = ''upper'' then bb_upper b else if v = ''middle'' then bb_middle b else bb_lower b)"

text \<open>\<open>closes[-2] if len(closes) >= 2 else closes[-1]\<close>.\<close>

definition prev_close :: "real list \<Rightarrow> real" where
  "prev_close closes = (if 2 \<le> length closes then closes ! (length closes - 2) else last closes)"

definition check_bollinger_signal ::
  "real list \<Rightarrow> nat \<Rightarrow> real \<Rightarrow> string \<Rightarrow> real \<Rightarrow> string \<Rightarrow> string \<Rightarrow> bool res" where
  "check_bollinger_signal closes period mult condition squeeze_threshold ma_type val =
     res_bind (calculate_bollinger_bands closes period mult ma_type) (\<lambda>b.
     res_bind (py_last closes) (\<lambda>price.
     let prev = prev_close closes;
         band = band_named val b;
         bw = bb_upper b - bb_lower b;
         pct_b = (if 0 < bw then (price - bb_lower b) / bw else 1 / 2) in
     if condition = ''price_crossing_up'' then Inr (prev < band \<and> band < price)
     else if condition = ''price_crossing_down'' then Inr (band < prev \<and> price < band)
     else if condition = ''price_greater_than'' then Inr (band < price)
     else if condition = ''price_lower_than'' then Inr (price < band)
     else if condition = ''price_below_lower'' then Inr (price < bb_lower b)
     else if condition = ''price_above_upper'' then Inr (bb_upper b < price)
     else if condition = ''price_below_middle'' then Inr (price < bb_middle b)
     else if condition = ''price_above_middle'' then Inr (bb_middle b < price)
     else if condition = ''squeeze''
     then Inr (if bb_middle b = 0 then False
               else (bb_upper b - bb_lower b) / bb_middle b < squeeze_threshold)
     else if condition = ''percent_b_below_0'' then Inr (pct_b < 0)
     else if condition = ''percent_b_above_1'' then Inr (1 < pct_b)
     else if condition = ''percent_b_below_20'' then Inr (pct_b < 2 / 10)
     else if condition = ''percent_b_above_80'' then Inr (8 / 10 < pct_b)
     else Inr False))"

section \<open>pandas\<close>

type_synonym series = "real option list"

record pandas =
  pd_diff :: "real list \<Rightarrow> series"
  pd_ewm_com :: "int \<Rightarrow> nat \<Rightarrow> series \<Rightarrow> series res"
  pd_ewm_span :: "nat \<Rightarrow> series \<Rightarrow> series res"
  pd_rolling_mean :: "nat \<Rightarrow> series \<Rightarrow> series res"

definition series_of :: "real list \<Rightarrow> series" where
  "series_of xs = map Some xs"

definition opt_map2 :: "(real \<Rightarrow> real \<Rightarrow> real) \<Rightarrow> real option \<Rightarrow> real option \<Rightarrow> real option" where
  "opt_map2 f a b = (case (a, b) of (Some x, Some y) \<Rightarrow> Some (f x y) | _ \<Rightarrow> None)"

definition series_sub :: "series \<Rightarrow> series \<Rightarrow> series" where
  "series_sub xs ys = map2 (opt_map2 (-)) xs ys"

text \<open>What the theorems use: the documented definition of \<open>diff\<close>; the exponentially weighted mean
  keeps the length, and a mean of values that are not negative is not negative, of zeros zero.\<close>

definition pandas_ok :: "pandas \<Rightarrow> bool" where
  "pandas_ok pd =
     ((\<forall>xs. pd_diff pd xs = (if xs = [] then [] else None # map2 (\<lambda>b a. Some (b - a)) (tl xs) xs)) \<and>
      (\<forall>com mp xs ys. pd_ewm_com pd com mp xs = Inr ys \<longrightarrow>
         length ys = length xs \<and>
         ((\<forall>v. Some v \<in> set xs \<longrightarrow> 0 \<le> v) \<longrightarrow> (\<forall>v. Some v \<in> set ys \<longrightarrow> 0 \<le> v)) \<and>
         ((\<forall>v. Some v \<in> set xs \<longrightarrow> v = 0) \<longrightarrow> (\<forall>v. Some v \<in> set ys \<longrightarrow> v = 0))))"

section \<open>RSI\<close>

definition clip_gain :: "real option \<Rightarrow> real option" where
  "clip_gain d = map_option (\<lambda>x. max x 0) d"

definition clip_loss :: "real option \<Rightarrow> real option" where
  "clip_loss d = map_option (\<lambda>x. - min x 0) d"

text \<open>\<open>100 - 100 / (1 + gain / loss)\<close>, a zero loss being replaced by NaN and a NaN filled with 100.\<close>

definition rsi_value :: "real option \<Rightarrow> real option \<Rightarrow> real" where
  "rsi_value gain loss =
     (case (gain, loss) of
        (Some g, Some l) \<Rightarrow> if l = 0 then 100 else 100 - 100 / (1 + g / l)
      | _ \<Rightarrow> 100)"

definition rsi_values :: "pandas \<Rightarrow> real list \<Rightarrow> nat \<Rightarrow> real list res" where
  "rsi_values pd closes period =
     (if length closes < period + 1 then Inl ValueError
      else
        let delta = pd_diff pd closes in
        res_bind (pd_ewm_com pd (int period - 1) period (map clip_gain delta)) (\<lambda>avg_gain.
        res_bind (pd_ewm_com pd (int period - 1) period (map clip_loss delta)) (\<lambda>avg_loss.
        Inr (map2 rsi_value avg_gain avg_loss))))"

definition calculate_rsi :: "pandas \<Rightarrow> real list \<Rightarrow> nat \<Rightarrow> real res" where
  "calculate_rsi pd closes period =
     res_bind (rsi_values pd closes period) (\<lambda>rsi.
     res_bind (py_last rsi) (\<lambda>v. Inr (py_round v 2)))"

definition rsi_series :: "pandas \<Rightarrow> real list \<Rightarrow> nat \<Rightarrow> real list res" where
  "rsi_series pd closes period =
     res_bind (rsi_values pd closes period) (\<lambda>rsi. Inr (map (\<lambda>v. py_round v 2) rsi))"

datatype rsi_op = Cross_Above | Cross_Below | Above | Below

definition digits_value :: "string \<Rightarrow> nat" where
  "digits_value ds = fold (\<lambda>c n. 10 * n + (of_char c - 48)) ds 0"

text \<open>\<open>(\d+)$\<close>: one or more digits up to the end or up to a newline that ends the string.\<close>

definition match_digits :: "string \<Rightarrow> nat option" where
  "match_digits s =
     (let ds = (if s \<noteq> [] \<and> last s = CHR 0x0A then butlast s else s) in
      if ds \<noteq> [] \<and> list_all is_digit ds then Some (digits_value ds) else None)"

definition strip_prefix :: "string \<Rightarrow> string \<Rightarrow> string option" where
  "strip_prefix p s = (if take (length p) s = p then Some (drop (length p) s) else None)"

definition match_threshold :: "string \<Rightarrow> (rsi_op \<times> nat) option" where
  "match_threshold s =
     (case strip_prefix ''cross_above_'' s of
        Some r \<Rightarrow> map_option (Pair Cross_Above) (match_digits r)
      | None \<Rightarrow>
     (case strip_prefix ''cross_below_'' s of
        Some r \<Rightarrow> map_option (Pair Cross_Below) (match_digits r)
      | None \<Rightarrow>
     (case strip_prefix ''above_'' s of
        Some r \<Rightarrow> map_option (Pair Above) (match_digits r)
      | None \<Rightarrow>
     (case strip_prefix ''below_'' s of
        Some r \<Rightarrow> map_option (Pair Below) (match_digits r)
      | None \<Rightarrow> None))))"

text \<open>The value before the last candle and the value now.\<close>

definition rsi_pair :: "pandas \<Rightarrow> real list \<Rightarrow> nat \<Rightarrow> (real \<Rightarrow> real \<Rightarrow> bool) \<Rightarrow> bool res" where
  "rsi_pair pd closes period r =
     res_bind (calculate_rsi pd (butlast closes) period) (\<lambda>prev.
     res_bind (calculate_rsi pd closes period) (\<lambda>curr. Inr (r prev curr)))"

text \<open>\<open>xs[-k]\<close>.\<close>

definition nth_from_end :: "real list \<Rightarrow> nat \<Rightarrow> real" where
  "nth_from_end xs k = xs ! (length xs - k)"

definition check_rsi_signal :: "pandas \<Rightarrow> real list \<Rightarrow> nat \<Rightarrow> string \<Rightarrow> bool res" where
  "check_rsi_signal pd closes period threshold =
     (if threshold = ''rsi_cross_above_50'' then
        if length closes < period + 2 then Inr False
        else rsi_pair pd closes period (\<lambda>prev curr. prev < 50 \<and> 50 \<le> curr)
      else if threshold = ''rsi_cross_below_50'' then
        if length closes < period + 2 then Inr False
        else rsi_pair pd closes period (\<lambda>prev curr. 50 < prev \<and> curr \<le> 50)
      else if threshold = ''rsi_bullish_divergence'' then
        if length closes < period + 5 + 1 then Inr False
        else res_bind (rsi_series pd closes period) (\<lambda>rsi.
          Inr (last closes < nth_from_end closes 5 \<and> nth_from_end rsi 5 < last rsi))
      else if threshold = ''rsi_bearish_divergence'' then
        if length closes < period + 5 + 1 then Inr False
        else res_bind (rsi_series pd closes period) (\<lambda>rsi.
          Inr (nth_from_end closes 5 < last closes \<and> last rsi < nth_from_end rsi 5))
      else case match_threshold threshold of
        None \<Rightarrow> Inl ValueError
      | Some (rop, v) \<Rightarrow>
          if \<not> (1 \<le> v \<and> v \<le> 99) then Inl ValueError
          else if rop = Below then res_bind (calculate_rsi pd closes period) (\<lambda>x. Inr (x < real v))
          else if rop = Above then res_bind (calculate_rsi pd closes period) (\<lambda>x. Inr (real v < x))
          else if length closes < period + 2 then Inl ValueError
          else if rop = Cross_Above then rsi_pair pd closes period (\<lambda>prev curr. prev < real v \<and> real v \<le> curr)
          else rsi_pair pd closes period (\<lambda>prev curr. real v < prev \<and> curr \<le> real v))"

section \<open>MACD\<close>

text \<open>A comparison with NaN is false.\<close>

definition opt_less :: "real option \<Rightarrow> real option \<Rightarrow> bool" where
  "opt_less a b = (case (a, b) of (Some x, Some y) \<Rightarrow> x < y | _ \<Rightarrow> False)"

definition opt_le :: "real option \<Rightarrow> real option \<Rightarrow> bool" where
  "opt_le a b = (case (a, b) of (Some x, Some y) \<Rightarrow> x \<le> y | _ \<Rightarrow> False)"

record macd_data =
  md_macd :: "real option"
  md_signal :: "real option"
  md_histogram :: "real option"
  md_macd_prev :: "real option"
  md_histogram_series :: "real list"

definition round4 :: "real option \<Rightarrow> real option" where
  "round4 v = map_option (\<lambda>x. py_round x 4) v"

definition drop_na :: "series \<Rightarrow> real list" where
  "drop_na xs = List.map_filter (\<lambda>v. v) xs"

definition moving :: "pandas \<Rightarrow> string \<Rightarrow> nat \<Rightarrow> series \<Rightarrow> series res" where
  "moving pd ma_type window s = (if ma_type = ''SMA'' then pd_rolling_mean pd window s else pd_ewm_span pd window s)"

definition calculate_macd ::
  "pandas \<Rightarrow> real list \<Rightarrow> nat \<Rightarrow> nat \<Rightarrow> nat \<Rightarrow> string \<Rightarrow> string \<Rightarrow> macd_data res" where
  "calculate_macd pd closes fast slow signal osc_type sig_type =
     (if length closes < slow * 3 then Inl ValueError
      else
        res_bind (moving pd osc_type fast (series_of closes)) (\<lambda>ma_fast.
        res_bind (moving pd osc_type slow (series_of closes)) (\<lambda>ma_slow.
        let macd_line = series_sub ma_fast ma_slow in
        res_bind (moving pd sig_type signal macd_line) (\<lambda>signal_line.
        let histogram = series_sub macd_line signal_line in
        res_bind (py_last macd_line) (\<lambda>m.
        res_bind (py_last signal_line) (\<lambda>sg.
        res_bind (py_last histogram) (\<lambda>hv.
        Inr \<lparr>md_macd = round4 m, md_signal = round4 sg, md_histogram = round4 hv,
             md_macd_prev = (if 2 \<le> length macd_line then round4 (macd_line ! (length macd_line - 2)) else Some 0),
             md_histogram_series = drop_na histogram\<rparr>)))))))"

definition check_macd_signal :: "pandas \<Rightarrow> real list \<Rightarrow> string \<Rightarrow> bool \<Rightarrow> bool res" where
  "check_macd_signal pd closes condition use_percentile =
     res_bind (calculate_macd pd closes 12 26 9 ''EMA'' ''EMA'') (\<lambda>m.
     if condition = ''macd_cross_above_zero''
     then Inr (opt_less (md_macd_prev m) (Some 0) \<and> opt_le (Some 0) (md_macd m))
     else if condition = ''macd_cross_below_zero''
     then Inr (opt_less (Some 0) (md_macd_prev m) \<and> opt_le (md_macd m) (Some 0))
     else
       let hs = md_histogram_series m;
           hist_val = (if use_percentile \<and> hs \<noteq> [] then
             let recent = last_n (min 100 (length hs)) hs; max_abs = Max (set (map abs recent)) in
             if 0 < max_abs then map_option (\<lambda>h. h / max_abs) (md_histogram m) else Some 0
             else md_histogram m) in
       if condition = ''histogram_positive'' then Inr (opt_less (Some 0) hist_val)
       else if condition = ''histogram_negative'' then Inr (opt_less hist_val (Some 0))
       else if condition = ''macd_above_signal'' then Inr (opt_less (md_signal m) (md_macd m))
       else if condition = ''macd_below_signal'' then Inr (opt_less (md_macd m) (md_signal m))
       else Inl ValueError)"

section \<open>EMA\<close>

definition calculate_ema :: "pandas \<Rightarrow> real list \<Rightarrow> nat \<Rightarrow> real option res" where
  "calculate_ema pd closes period =
     (if length closes < period then Inl ValueError
      else res_bind (pd_ewm_span pd period (series_of closes)) (\<lambda>e.
        res_bind (py_last e) (\<lambda>v. Inr (map_option (\<lambda>x. py_round x 2) v))))"

definition py_last2 :: "'a list \<Rightarrow> 'a res" where
  "py_last2 xs = (if 2 \<le> length xs then Inr (xs ! (length xs - 2)) else Inl IndexError)"

definition check_ema_cross_signal :: "pandas \<Rightarrow> real list \<Rightarrow> nat \<Rightarrow> nat \<Rightarrow> string \<Rightarrow> bool res" where
  "check_ema_cross_signal pd closes fast slow signal =
     (if length closes < slow * 3 then Inl ValueError
      else
        res_bind (pd_ewm_span pd fast (series_of closes)) (\<lambda>fe.
        res_bind (pd_ewm_span pd slow (series_of closes)) (\<lambda>se.
        res_bind (py_last2 fe) (\<lambda>fp. res_bind (py_last fe) (\<lambda>fc.
        res_bind (py_last2 se) (\<lambda>sp. res_bind (py_last se) (\<lambda>sc.
        if signal = ''bullish'' then Inr (opt_le fp sp \<and> opt_less sc fc)
        else if signal = ''bearish'' then Inr (opt_le sp fp \<and> opt_less fc sc)
        else Inl ValueError)))))))"

section \<open>Bollinger: the bands and %B\<close>

lemma pstdev_nonneg: "0 \<le> pstdev xs"
  by (auto simp: pstdev_def Let_def intro!: divide_nonneg_nonneg sum_list_nonneg)

text \<open>with a multiplier that is not negative the bands are ordered, and when they are apart the two
  extreme %B conditions are the two price conditions: below 0 is a close below the lower band, above 1
  a close above the upper band.\<close>

theorem bollinger_bands_ordered:
  assumes "calculate_bollinger_bands closes period mult ma_type = Inr b" "0 \<le> mult"
  shows "bb_lower b \<le> bb_middle b \<and> bb_middle b \<le> bb_upper b \<and>
    (bb_lower b < bb_upper b \<longrightarrow>
       check_bollinger_signal closes period mult ''percent_b_below_0'' sq ma_type v
         = check_bollinger_signal closes period mult ''price_below_lower'' sq ma_type v \<and>
       check_bollinger_signal closes period mult ''percent_b_above_1'' sq ma_type v
         = check_bollinger_signal closes period mult ''price_above_upper'' sq ma_type v)"
proof -
  obtain m where b: "b = \<lparr>bb_upper = m + mult * (if 2 \<le> period then pstdev (last_n period closes) else 0),
      bb_middle = m, bb_lower = m - mult * (if 2 \<le> period then pstdev (last_n period closes) else 0)\<rparr>"
    using assms(1) by (auto simp: calculate_bollinger_bands_def Let_def res_bind_eq_Inr_iff split: if_splits)
  have "0 \<le> mult * (if 2 \<le> period then pstdev (last_n period closes) else 0)"
    using assms(2) pstdev_nonneg by simp
  then have ord: "bb_lower b \<le> bb_middle b" "bb_middle b \<le> bb_upper b" using b by auto
  have "check_bollinger_signal closes period mult ''percent_b_below_0'' sq ma_type v
         = check_bollinger_signal closes period mult ''price_below_lower'' sq ma_type v \<and>
       check_bollinger_signal closes period mult ''percent_b_above_1'' sq ma_type v
         = check_bollinger_signal closes period mult ''price_above_upper'' sq ma_type v"
    if w: "bb_lower b < bb_upper b"
  proof (cases "py_last closes")
    case (Inr p)
    have "(p - bb_lower b) / (bb_upper b - bb_lower b) < 0 \<longleftrightarrow> p < bb_lower b"
      "1 < (p - bb_lower b) / (bb_upper b - bb_lower b) \<longleftrightarrow> bb_upper b < p"
      using w by (auto simp: field_simps)
    then show ?thesis using w Inr assms(1) by (simp add: check_bollinger_signal_def Let_def)
  qed (simp add: check_bollinger_signal_def assms(1))
  with ord show ?thesis by blast
qed

section \<open>RSI: range and flat markets\<close>

lemma rsi_value_range: "(\<And>v. g = Some v \<Longrightarrow> 0 \<le> v) \<Longrightarrow> (\<And>v. l = Some v \<Longrightarrow> 0 \<le> v) \<Longrightarrow> 0 \<le> rsi_value g l \<and> rsi_value g l \<le> 100"
proof -
  assume g: "\<And>v. g = Some v \<Longrightarrow> 0 \<le> v" and l: "\<And>v. l = Some v \<Longrightarrow> 0 \<le> v"
  show ?thesis
  proof (cases "\<exists>a b. g = Some a \<and> l = Some b \<and> b \<noteq> 0")
    case True
    then obtain a b where ab: "g = Some a" "l = Some b" "b \<noteq> 0" by blast
    then have "0 \<le> a / b" using g l by simp
    then have "0 \<le> 100 / (1 + a / b)" "100 / (1 + a / b) \<le> 100" by (auto simp: divide_le_eq)
    then show ?thesis using ab by (simp add: rsi_value_def)
  qed (auto simp: rsi_value_def split: option.splits)
qed

lemma rsi_values_range:
  assumes ok: "pandas_ok pd" and r: "rsi_values pd closes period = Inr rs" "x \<in> set rs"
  shows "0 \<le> x \<and> x \<le> 100"
proof -
  define d where "d = pd_diff pd closes"
  obtain g l where gl: "pd_ewm_com pd (int period - 1) period (map clip_gain d) = Inr g"
    "pd_ewm_com pd (int period - 1) period (map clip_loss d) = Inr l" "rs = map2 rsi_value g l"
    using r(1) by (auto simp: rsi_values_def Let_def d_def res_bind_eq_Inr_iff split: if_splits)
  have "\<forall>v. Some v \<in> set (map clip_gain d) \<longrightarrow> 0 \<le> v" "\<forall>v. Some v \<in> set (map clip_loss d) \<longrightarrow> 0 \<le> v"
    by (auto simp: clip_gain_def clip_loss_def map_option_case min_def split: option.splits if_splits)
  then have "\<forall>v. Some v \<in> set g \<longrightarrow> 0 \<le> v" "\<forall>v. Some v \<in> set l \<longrightarrow> 0 \<le> v"
    using ok gl(1,2) unfolding pandas_ok_def by blast+
  moreover obtain a b where "x = rsi_value a b" "a \<in> set g" "b \<in> set l"
    using r(2) gl(3) by (auto dest: set_zip_leftD set_zip_rightD)
  ultimately show ?thesis using rsi_value_range [of a b] by metis
qed

text \<open>an RSI is between 0 and 100, rounding included.\<close>

theorem rsi_in_range:
  assumes "pandas_ok pd" "calculate_rsi pd closes period = Inr x"
  shows "0 \<le> x \<and> x \<le> 100"
proof -
  obtain rs where rs: "rsi_values pd closes period = Inr rs" "rs \<noteq> []" "x = py_round (last rs) 2"
    using assms(2) by (auto simp: calculate_rsi_def res_bind_eq_Inr_iff py_last_def split: if_splits)
  then have "0 \<le> last rs \<and> last rs \<le> 100" using rsi_values_range [OF assms(1) rs(1)] by simp
  moreover have "py_round 100 2 = 100" using py_round_int [of 100 2] by simp
  ultimately show ?thesis using py_round_mono [of 0 "last rs" 2] py_round_mono [of "last rs" 100 2] rs(3) by simp
qed

text \<open>a market that does not move reads as fully overbought: when every close is the same and the
  call returns, it returns 100, because a zero average loss is replaced by NaN and NaN is filled with
  100 whatever the average gain is.\<close>

theorem flat_market_rsi_is_100:
  assumes "pandas_ok pd" "calculate_rsi pd (replicate n c) period = Inr x"
  shows "x = 100"
proof -
  define d where "d = pd_diff pd (replicate n c)"
  obtain rs where rs: "rsi_values pd (replicate n c) period = Inr rs" "rs \<noteq> []" "x = py_round (last rs) 2"
    using assms(2) by (auto simp: calculate_rsi_def res_bind_eq_Inr_iff py_last_def split: if_splits)
  then obtain g l where gl: "pd_ewm_com pd (int period - 1) period (map clip_loss d) = Inr l" "rs = map2 rsi_value g l"
    by (auto simp: rsi_values_def Let_def d_def res_bind_eq_Inr_iff split: if_splits)
  have d: "d = (if replicate n c = [] then [] else None # map2 (\<lambda>b a. Some (b - a)) (tl (replicate n c)) (replicate n c))"
    using assms(1) by (simp add: d_def pandas_ok_def)
  have z: "Some v \<in> set d \<Longrightarrow> v = 0" for v
    unfolding d by (auto split: if_splits simp: in_set_zip nth_tl)
  have "\<forall>v. Some v \<in> set (map clip_loss d) \<longrightarrow> v = 0"
    by (auto simp: clip_loss_def map_option_case split: option.splits dest!: z)
  then have "\<forall>v. Some v \<in> set l \<longrightarrow> v = 0"
    using assms(1) gl(1) unfolding pandas_ok_def by blast
  then have "r = 100" if "r \<in> set rs" for r
    using that gl(2) by (fastforce simp: rsi_value_def dest: set_zip_rightD split: option.splits)
  then have "last rs = 100" using rs(2) by simp
  then show ?thesis using rs(3) py_round_int [of 100 2] by simp
qed

section \<open>MACD: the percentile option\<close>

lemma last_drop_na: "s \<noteq> [] \<Longrightarrow> last s = Some v \<Longrightarrow> drop_na s \<noteq> [] \<and> last (drop_na s) = v"
  by (induction s rule: rev_induct) (auto simp: drop_na_def map_filter_def)

lemma last_last_n: "xs \<noteq> [] \<Longrightarrow> last (last_n k xs) = last xs \<and> last_n k xs \<noteq> []"
  by (cases xs) (auto simp: last_n_def)

lemma opt_less_scale:
  "0 < m \<Longrightarrow> opt_less (Some 0) (map_option (\<lambda>h. h / m) v) = opt_less (Some 0) v"
  "0 < m \<Longrightarrow> opt_less (map_option (\<lambda>h. h / m) v) (Some 0) = opt_less v (Some 0)"
  by (auto simp: opt_less_def zero_less_divide_iff divide_less_0_iff split: option.split)

lemma flat_histogram:
  assumes "calculate_macd pd c f s g o1 o2 = Inr m" "md_histogram_series m \<noteq> []"
    "\<not> 0 < Max (set (map abs (last_n k (md_histogram_series m))))"
  shows "md_histogram m = None \<or> md_histogram m = Some 0"
proof -
  obtain h hv where h: "py_last h = Inr hv" "md_histogram m = round4 hv" "md_histogram_series m = drop_na h"
    using assms(1) by (auto simp: calculate_macd_def Let_def res_bind_eq_Inr_iff split: if_splits)
  show ?thesis
  proof (cases hv)
    case (Some v)
    have "h \<noteq> []" "last h = Some v" using h(1) Some by (auto simp: py_last_def split: if_splits)
    from last_drop_na [OF this] have l: "last (md_histogram_series m) = v" using h(3) by simp
    have "v \<in> set (last_n k (md_histogram_series m))"
      using last_last_n [OF assms(2), of k] l by (metis last_in_set)
    then have "\<bar>v\<bar> \<le> Max (set (map abs (last_n k (md_histogram_series m))))" by (auto intro!: Max_ge)
    then have "v = 0" using assms(3) by linarith
    then show ?thesis using h(2) Some by (simp add: round4_def)
  qed (simp add: h(2) round4_def)
qed

text \<open>the percentile option of the MACD condition changes nothing: dividing the histogram by a
  positive maximum keeps its sign, and the sign is all that the conditions read, so with the option and
  without it every condition gives the same result on every input.\<close>

theorem macd_percentile_is_noop:
  "check_macd_signal pd closes condition True = check_macd_signal pd closes condition False"
proof (cases "calculate_macd pd closes 12 26 9 ''EMA'' ''EMA''")
  case (Inr m)
  define mx where "mx = Max (set (map abs (last_n (min 100 (length (md_histogram_series m))) (md_histogram_series m))))"
  have z: "md_histogram m = None \<or> md_histogram m = Some 0" if "md_histogram_series m \<noteq> []" "\<not> 0 < mx"
    using flat_histogram [OF Inr] that unfolding mx_def by blast
  have "\<not> opt_less (Some 0) (md_histogram m) \<and> \<not> opt_less (md_histogram m) (Some 0)"
    if "md_histogram_series m \<noteq> []" "\<not> 0 < mx"
    using z [OF that] by (auto simp: opt_less_def)
  moreover have "\<not> opt_less (Some 0) (Some 0)" by (simp add: opt_less_def)
  ultimately show ?thesis
    unfolding check_macd_signal_def Let_def Inr res_bind_simps mx_def [symmetric] by (auto simp: opt_less_scale)
qed (simp add: check_macd_signal_def)

section \<open>The documented window functions, and witnesses\<close>

text \<open>The weighted mean of pandas' documentation for \<open>adjust=True\<close>: the observation \<open>k\<close> steps back
  has weight \<open>(1 - alpha) ^ k\<close>, missing ones are left out, fewer than \<open>min_periods\<close> give NaN; and the
  recursion for \<open>adjust=False\<close>.\<close>

definition ewm_point :: "real \<Rightarrow> nat \<Rightarrow> series \<Rightarrow> real option" where
  "ewm_point alpha mp past =
     (let obs = List.map_filter (\<lambda>(k, v). map_option (Pair k) v) (enumerate 0 (rev past)) in
      if obs = [] \<or> length obs < mp then None
      else Some (sum_list (map (\<lambda>(k, x). (1 - alpha) ^ k * x) obs) / sum_list (map (\<lambda>(k, x). (1 - alpha) ^ k) obs)))"

definition pandas_doc :: pandas where
  "pandas_doc =
     \<lparr>pd_diff = (\<lambda>xs. if xs = [] then [] else None # map2 (\<lambda>b a. Some (b - a)) (tl xs) xs),
      pd_ewm_com = (\<lambda>com mp xs. if com < 0 then Inl ValueError
         else Inr (map (\<lambda>i. ewm_point (1 / (1 + real_of_int com)) mp (take (Suc i) xs)) [0..<length xs])),
      pd_ewm_span = (\<lambda>span xs. if span = 0 then Inl ValueError
         else Inr (case xs of [] \<Rightarrow> [] | v # vs \<Rightarrow>
           v # scan (\<lambda>x e. opt_map2 (\<lambda>x e. 2 / (real span + 1) * x + (1 - 2 / (real span + 1)) * e) x e) vs v)),
      pd_rolling_mean = (\<lambda>w xs. Inr (map (\<lambda>i. if Suc i < w \<or> None \<in> set (last_n w (take (Suc i) xs)) then None
         else Some (sum_list (drop_na (last_n w (take (Suc i) xs))) / real w)) [0..<length xs]))\<rparr>"

lemma ewm_point_mean:
  assumes "0 \<le> alpha" "alpha \<le> 1" "ewm_point alpha mp past = Some y"
  shows "((\<forall>v. Some v \<in> set past \<longrightarrow> 0 \<le> v) \<longrightarrow> 0 \<le> y) \<and> ((\<forall>v. Some v \<in> set past \<longrightarrow> v = 0) \<longrightarrow> y = 0)"
proof -
  define obs where "obs = List.map_filter (\<lambda>(k, v). map_option (Pair k) v) (enumerate 0 (rev past))"
  have y: "y = sum_list (map (\<lambda>(k, x). (1 - alpha) ^ k * x) obs) / sum_list (map (\<lambda>(k, x). (1 - alpha) ^ k) obs)"
    using assms(3) by (simp add: ewm_point_def obs_def [symmetric] split: if_splits)
  have mem: "Some x \<in> set past" if "(k, x) \<in> set obs" for k x
  proof -
    have "(k, Some x) \<in> set (enumerate 0 (rev past))"
      using that by (auto simp: obs_def map_filter_def split: option.splits)
    then have "k < length (rev past)" "rev past ! k = Some x" by (auto simp: in_set_enumerate_eq)
    then have "Some x \<in> set (rev past)" by (metis nth_mem)
    then show ?thesis by simp
  qed
  have den: "0 \<le> sum_list (map (\<lambda>(k, x). (1 - alpha) ^ k) obs)"
    using assms(2) by (intro sum_list_nonneg) auto
  have "0 \<le> sum_list (map (\<lambda>(k, x). (1 - alpha) ^ k * x) obs)" if "\<forall>v. Some v \<in> set past \<longrightarrow> 0 \<le> v"
    using assms(2) mem that by (intro sum_list_nonneg) (auto intro!: mult_nonneg_nonneg)
  moreover have "sum_list (map (\<lambda>(k, x). (1 - alpha) ^ k * x) obs) = 0" if z: "\<forall>v. Some v \<in> set past \<longrightarrow> v = 0"
  proof -
    have "sum_list (map (\<lambda>(k, x). (1 - alpha) ^ k * x) obs) = sum_list (map (\<lambda>_. 0) obs)"
      using mem z by (intro arg_cong [where f = sum_list] map_cong) auto
    also have "\<dots> = 0" by simp
    finally show ?thesis .
  qed
  ultimately show ?thesis using den y by simp
qed

lemma pandas_doc_ok: "pandas_ok pandas_doc"
proof -
  have "length ys = length xs \<and>
       ((\<forall>v. Some v \<in> set xs \<longrightarrow> 0 \<le> v) \<longrightarrow> (\<forall>v. Some v \<in> set ys \<longrightarrow> 0 \<le> v)) \<and>
       ((\<forall>v. Some v \<in> set xs \<longrightarrow> v = 0) \<longrightarrow> (\<forall>v. Some v \<in> set ys \<longrightarrow> v = 0))"
    if "pd_ewm_com pandas_doc com mp xs = Inr ys" for com mp xs ys
  proof -
    let ?a = "1 / (1 + real_of_int com)"
    have c: "0 \<le> com" and ys: "ys = map (\<lambda>i. ewm_point ?a mp (take (Suc i) xs)) [0..<length xs]"
      using that by (auto simp: pandas_doc_def split: if_splits)
    then have a: "0 \<le> ?a" "?a \<le> 1" by (auto simp: divide_le_eq)
    have p: "\<exists>i. ewm_point ?a mp (take (Suc i) xs) = Some v" if "Some v \<in> set ys" for v
      using that ys by fastforce
    have q: "((\<forall>v. Some v \<in> set xs \<longrightarrow> 0 \<le> v) \<longrightarrow> 0 \<le> v) \<and> ((\<forall>v. Some v \<in> set xs \<longrightarrow> v = 0) \<longrightarrow> v = 0)"
      if m: "Some v \<in> set ys" for v
    proof -
      obtain i where i: "ewm_point ?a mp (take (Suc i) xs) = Some v" using p [OF m] by blast
      have "set (take (Suc i) xs) \<subseteq> set xs" by (rule set_take_subset)
      with ewm_point_mean [OF a i] show ?thesis by blast
    qed
    have "length ys = length xs" by (simp add: ys)
    with q show ?thesis by (intro conjI impI allI) auto
  qed
  moreover have "pd_diff pandas_doc xs = (if xs = [] then [] else None # map2 (\<lambda>b a. Some (b - a)) (tl xs) xs)" for xs
    by (simp add: pandas_doc_def)
  ultimately show ?thesis unfolding pandas_ok_def by blast
qed

theorem bollinger_bands_ordered_witness:
  "\<exists>b. calculate_bollinger_bands [1, 3] 2 2 ''SMA'' = Inr b \<and> bb_lower b \<le> bb_middle b \<and> bb_middle b \<le> bb_upper b"
proof -
  have b: "calculate_bollinger_bands [1, 3] 2 2 ''SMA'' = Inr \<lparr>bb_upper = 2 + 2 * sqrt 1, bb_middle = 2, bb_lower = 2 - 2 * sqrt 1\<rparr>"
    by (simp add: calculate_bollinger_bands_def last_n_def pstdev_def)
  then show ?thesis using bollinger_bands_ordered [OF b] by auto
qed

theorem rsi_in_range_witness:
  "\<exists>x. calculate_rsi pandas_doc [1, 2, 4, 3] 2 = Inr x \<and> 0 \<le> x \<and> x \<le> 100"
proof -
  have x: "calculate_rsi pandas_doc [1, 2, 4, 3] 2 = Inr (1389 / 25)" by code_simp
  then show ?thesis using rsi_in_range [OF pandas_doc_ok x] by blast
qed

theorem flat_market_rsi_is_100_witness:
  "calculate_rsi pandas_doc (replicate 4 5) 2 = Inr 100"
proof -
  have "calculate_rsi pandas_doc (replicate 4 5) 2 = Inr 100" by code_simp
  then show ?thesis using flat_market_rsi_is_100 [OF pandas_doc_ok] by blast
qed

end
