(* ===== verification/Indicator_Engine.thy ===== *)
theory Indicator_Engine
  imports Bot_Config Paper_State Indicators_Trend Indicators_Levels Indicators_Osc
begin

text \<open>
  The combination of the indicators into entry and take-profit signals
  (\<open>strategies/indicator_engine.py\<close>): the per-indicator dispatch with its defaults, the groups (every
  indicator of a group must agree, the first group that does wins), the entry signal with the ASAP
  bypass, the take-profit confirmation and the set of timeframes the engine asks for.  Prices per
  timeframe are association lists; an exception inside an indicator is \<open>Inl\<close> and reads as no signal.
\<close>

section \<open>Parameters of the engine\<close>

type_synonym per_tf = "(string \<times> real list) list"

text \<open>\<open>x or default\<close>: \<open>None\<close> and the falsy value both give the default.\<close>

definition or_default :: "'a option \<Rightarrow> 'a \<Rightarrow> 'a \<Rightarrow> 'a" where
  "or_default x falsy d = (case x of None \<Rightarrow> d | Some v \<Rightarrow> if v = falsy then d else v)"

abbreviation or_nat :: "nat option \<Rightarrow> nat \<Rightarrow> nat" where
  "or_nat x d \<equiv> or_default x 0 d"

abbreviation or_real :: "real option \<Rightarrow> real \<Rightarrow> real" where
  "or_real x d \<equiv> or_default x 0 d"

abbreviation or_str :: "string option \<Rightarrow> string \<Rightarrow> string" where
  "or_str x d \<equiv> or_default x '''' d"

text \<open>\<open>str.upper\<close> on the letters of ASCII.  Of the other characters below 256 only one has an upper case
  with ASCII letters in it, a double S, which no indicator name contains.\<close>

definition up_char :: "char \<Rightarrow> char" where
  "up_char c = (let n = of_char c :: nat in if 97 \<le> n \<and> n \<le> 122 then char_of (n - 32) else c)"

definition upper :: "string \<Rightarrow> string" where
  "upper s = map up_char s"

definition indicator_tf :: "indicator_config \<Rightarrow> string \<Rightarrow> string" where
  "indicator_tf i bot_tf = or_str (ind_timeframe i) bot_tf"

definition closes_for :: "per_tf \<Rightarrow> string \<Rightarrow> real list option" where
  "closes_for m tf =
     (case map_of m tf of None \<Rightarrow> None | Some xs \<Rightarrow> if xs = [] then None else Some xs)"

definition all_indicators :: "bot_config \<Rightarrow> indicator_config list" where
  "all_indicators cfg =
     entry_indicators (entry_cfg cfg) @ concat (map group_indicators (entry_groups (entry_cfg cfg)))"

definition required_timeframes :: "bot_config \<Rightarrow> string \<Rightarrow> string set" where
  "required_timeframes cfg bot_tf =
     insert bot_tf ((\<lambda>i. indicator_tf i bot_tf) ` set (all_indicators cfg))"

section \<open>One indicator\<close>

definition has_prices :: "real list option \<Rightarrow> bool" where
  "has_prices x = (x \<noteq> None \<and> x \<noteq> Some [])"

definition resolve_price_source ::
  "string option \<Rightarrow> real list \<Rightarrow> real list option \<Rightarrow> real list option \<Rightarrow> real list option \<Rightarrow> real list" where
  "resolve_price_source src closes highs lows opens =
     (let s = or_str src ''close'' in
      if s = ''close'' then closes
      else if s = ''high'' \<and> has_prices highs then the highs
      else if s = ''low'' \<and> has_prices lows then the lows
      else if s = ''open'' \<and> has_prices opens then the opens
      else if s = ''hl2'' \<and> has_prices highs \<and> has_prices lows
      then map2 (\<lambda>h l. (h + l) / 2) (the highs) (the lows)
      else if s = ''hlc3'' \<and> has_prices highs \<and> has_prices lows
      then map2 (\<lambda>(h, l) c. (h + l + c) / 3) (zip (the highs) (the lows)) closes
      else if s = ''ohlc4'' \<and> has_prices opens \<and> has_prices highs \<and> has_prices lows
      then map2 (\<lambda>((p, h), l) c. (p + h + l + c) / 4) (zip (zip (the opens) (the highs)) (the lows)) closes
      else closes)"

definition dispatch_indicator ::
  "pandas \<Rightarrow> indicator_config \<Rightarrow> string \<Rightarrow> real list \<Rightarrow> real list option \<Rightarrow> real list option \<Rightarrow>
     real list option \<Rightarrow> bool res" where
  "dispatch_indicator pd i itype closes highs lows opens =
     (if itype = ''RSI'' then
        check_rsi_signal pd (resolve_price_source (ind_price_source i) closes highs lows opens)
          (or_nat (ind_period i) 14) (or_str (ind_threshold i) ''below_35'')
      else if itype = ''MACD'' then
        check_macd_signal pd closes
          (or_str (ind_condition i) (or_str (ind_threshold i) ''histogram_positive''))
          (ind_use_percentile i = Some True)
      else if itype = ''BOLLINGER'' then
        check_bollinger_signal closes (or_nat (ind_period i) 20) (or_real (ind_multiplier i) 2)
          (or_str (ind_condition i) ''price_below_lower'') (or_real (ind_squeeze_threshold i) (2 / 100))
          (or_str (ind_ma_type i) ''SMA'') (or_str (ind_value i) ''lower'')
      else if itype = ''PARABOLIC_SAR'' then
        if \<not> has_prices highs \<or> \<not> has_prices lows then Inr False
        else check_parabolic_sar_signal (the highs) (the lows) closes
          (or_real (ind_initial_af i) (2 / 100)) (or_real (ind_max_af i) (20 / 100))
          (or_str (ind_condition i) ''bullish'')
      else if itype = ''SUPERTREND'' then
        if highs = None \<or> lows = None then Inr False
        else check_supertrend_signal (the highs) (the lows) closes
          (or_nat (ind_atr_period i) 10) (or_real (ind_multiplier i) 3)
          (or_str (ind_condition i) ''bullish'')
      else if itype = ''MARKET_STRUCTURE'' then
        check_market_structure_signal closes (or_nat (ind_lookback i) 3)
          (or_str (ind_condition i) ''bullish_bos'')
      else if itype = ''SUPPORT_RESISTANCE'' then
        if \<not> has_prices highs \<or> \<not> has_prices lows then Inr False
        else check_support_resistance_signal (the highs) (the lows) closes
          (or_nat (ind_left_bars i) 15) (or_nat (ind_right_bars i) 15)
          (or_real (ind_proximity_pct i) 1) (or_str (ind_condition i) ''price_crossing_down'')
          (or_str (ind_value i) ''resistance'') None
          (or_real (ind_volume_threshold i) 0) (or_default (ind_min_touches i) 0 1)
      else if itype = ''QFL'' then
        check_qfl_signal closes (or_str (ind_condition i) ''below_base'')
          (or_nat (ind_base_periods i) 36) (or_nat (ind_pump_periods i) 8)
          (or_real (ind_pump_from_base_pct i) 3) (or_real (ind_base_crack_pct i) 3) highs lows
      else Inr False)"

definition evaluate_indicator ::
  "pandas \<Rightarrow> indicator_config \<Rightarrow> real list \<Rightarrow> real list option \<Rightarrow> real list option \<Rightarrow>
     real list option \<Rightarrow> bool" where
  "evaluate_indicator pd i closes highs lows opens =
     (let itype = upper (ind_type i) in
      if itype = ''ASAP'' then True
      else case dispatch_indicator pd i itype closes highs lows opens of Inl e \<Rightarrow> False | Inr b \<Rightarrow> b)"

section \<open>Groups\<close>

text \<open>The prices of a tick: closes, highs, lows and opens per timeframe; a dict the caller leaves out is
  empty.\<close>

record prices =
  closes_tf :: per_tf
  highs_tf :: per_tf
  lows_tf :: per_tf
  opens_tf :: per_tf

definition indicator_agrees :: "pandas \<Rightarrow> prices \<Rightarrow> string \<Rightarrow> indicator_config \<Rightarrow> bool" where
  "indicator_agrees pd p bot_tf i =
     (let tf = indicator_tf i bot_tf in
      case closes_for (closes_tf p) tf of
        None \<Rightarrow> False
      | Some closes \<Rightarrow>
          evaluate_indicator pd i closes (map_of (highs_tf p) tf) (map_of (lows_tf p) tf) (map_of (opens_tf p) tf))"

definition group_trigger :: "indicator_group \<Rightarrow> trigger" where
  "group_trigger g = Entry_Trigger (group_id g) (group_name g) (map ind_type (group_indicators g))"

fun eval_groups :: "pandas \<Rightarrow> indicator_group list \<Rightarrow> prices \<Rightarrow> string \<Rightarrow> bool \<times> trigger option" where
  "eval_groups pd [] p bot_tf = (False, None)"
| "eval_groups pd (g # gs) p bot_tf =
     (if group_indicators g \<noteq> [] \<and> list_all (indicator_agrees pd p bot_tf) (group_indicators g)
      then (True, Some (group_trigger g))
      else eval_groups pd gs p bot_tf)"

definition check_entry_signal :: "pandas \<Rightarrow> bot_config \<Rightarrow> prices \<Rightarrow> string \<Rightarrow> bool \<times> trigger option" where
  "check_entry_signal pd cfg p bot_tf =
     (let inds = all_indicators cfg; groups = entry_groups (entry_cfg cfg) in
      if inds = [] \<and> groups = [] then (True, None)
      else if list_ex (\<lambda>i. upper (ind_type i) = ''ASAP'') inds
      then (True, Some (Entry_Trigger 0 ''ASAP'' [''ASAP'']))
      else
        let to_eval = (if groups \<noteq> [] then filter (\<lambda>g. group_indicators g \<noteq> []) groups
                       else if entry_indicators (entry_cfg cfg) \<noteq> []
                       then [\<lparr>group_id = 1, group_name = ''Default'',
                              group_indicators = entry_indicators (entry_cfg cfg)\<rparr>]
                       else []) in
        if to_eval = [] then (False, None) else eval_groups pd to_eval p bot_tf)"

text \<open>The confirmation has no handler of its own: an unknown condition or a short series raises.\<close>

definition check_tp_confirmation :: "pandas \<Rightarrow> bot_config \<Rightarrow> per_tf \<Rightarrow> string \<Rightarrow> bool res" where
  "check_tp_confirmation pd cfg closes bot_tf =
     (let tp = or_str (indicator_confirm (take_profit_cfg cfg)) '''' in
      if tp = '''' then Inr True
      else case closes_for closes bot_tf of
        None \<Rightarrow> Inr False
      | Some c \<Rightarrow> check_macd_signal pd c tp False)"

definition check_tp_indicator_groups :: "pandas \<Rightarrow> bot_config \<Rightarrow> prices \<Rightarrow> string \<Rightarrow> bool \<times> trigger option" where
  "check_tp_indicator_groups pd cfg p bot_tf =
     (let gs = tp_groups (take_profit_cfg cfg) in
      if gs = [] then (False, None) else eval_groups pd gs (p\<lparr>opens_tf := []\<rparr>) bot_tf)"

section \<open>Soundness of the signals\<close>

lemma eval_groups_cases:
  "eval_groups pd gs p tf =
     (case find (\<lambda>g. group_indicators g \<noteq> [] \<and> list_all (indicator_agrees pd p tf) (group_indicators g)) gs of
        None \<Rightarrow> (False, None) | Some g \<Rightarrow> (True, Some (group_trigger g)))"
  by (induction gs) auto

lemma eval_groups_True:
  "eval_groups pd gs p tf = (True, t) \<Longrightarrow>
    \<exists>g \<in> set gs. group_indicators g \<noteq> [] \<and> list_all (indicator_agrees pd p tf) (group_indicators g)
      \<and> t = Some (group_trigger g)"
  by (induction gs) (auto split: if_splits)

lemma agrees_dispatch:
  assumes "indicator_agrees pd p tf i" "upper (ind_type i) \<noteq> ''ASAP''"
  shows "\<exists>c. map_of (closes_tf p) (indicator_tf i tf) = Some c \<and> c \<noteq> [] \<and>
    dispatch_indicator pd i (upper (ind_type i)) c (map_of (highs_tf p) (indicator_tf i tf))
      (map_of (lows_tf p) (indicator_tf i tf)) (map_of (opens_tf p) (indicator_tf i tf)) = Inr True"
  using assms
  by (auto simp: indicator_agrees_def closes_for_def evaluate_indicator_def Let_def
      split: option.splits if_splits sum.splits)

text \<open>the entry signal fails closed: when anything is configured and no indicator is ASAP, a signal
  names a group with at least one indicator, and every indicator of that group had a non-empty price
  series for its timeframe and a check that returned true on it.  Missing data, an unknown type and
  an exception cannot take part in a signal.\<close>

theorem entry_signal_fails_closed:
  assumes "check_entry_signal pd cfg p tf = (True, t)"
    and "all_indicators cfg \<noteq> [] \<or> entry_groups (entry_cfg cfg) \<noteq> []"
    and "\<forall>i \<in> set (all_indicators cfg). upper (ind_type i) \<noteq> ''ASAP''"
  shows "\<exists>g. t = Some (group_trigger g) \<and> group_indicators g \<noteq> [] \<and>
    (\<forall>i \<in> set (group_indicators g). i \<in> set (all_indicators cfg) \<and> indicator_tf i tf \<in> required_timeframes cfg tf \<and>
      (\<exists>c. map_of (closes_tf p) (indicator_tf i tf) = Some c \<and> c \<noteq> [] \<and>
        dispatch_indicator pd i (upper (ind_type i)) c (map_of (highs_tf p) (indicator_tf i tf))
          (map_of (lows_tf p) (indicator_tf i tf)) (map_of (opens_tf p) (indicator_tf i tf)) = Inr True))"
proof -
  let ?gs = "entry_groups (entry_cfg cfg)" and ?is = "entry_indicators (entry_cfg cfg)"
  have no_asap: "\<not> list_ex (\<lambda>i. upper (ind_type i) = ''ASAP'') (all_indicators cfg)"
    using assms(3) by (simp add: list_ex_iff)
  obtain gs where gs: "eval_groups pd gs p tf = (True, t)"
    "\<forall>g \<in> set gs. set (group_indicators g) \<subseteq> set (all_indicators cfg)"
  proof (cases "?gs = []")
    case True
    then have "eval_groups pd [\<lparr>group_id = 1, group_name = ''Default'', group_indicators = ?is\<rparr>] p tf = (True, t)"
      using assms(1,2) no_asap by (auto simp: check_entry_signal_def Let_def all_indicators_def split: if_splits)
    then show ?thesis by (rule that) (simp add: all_indicators_def)
  next
    case False
    then have "eval_groups pd (filter (\<lambda>g. group_indicators g \<noteq> []) ?gs) p tf = (True, t)"
      using assms(1) no_asap unfolding check_entry_signal_def Let_def by (auto split: if_splits)
    then show ?thesis by (rule that) (auto simp: all_indicators_def)
  qed
  from eval_groups_True [OF gs(1)] obtain g where g: "g \<in> set gs" "group_indicators g \<noteq> []"
    "list_all (indicator_agrees pd p tf) (group_indicators g)" "t = Some (group_trigger g)" by blast
  have "i \<in> set (all_indicators cfg)" if "i \<in> set (group_indicators g)" for i using gs(2) g(1) that by blast
  then show ?thesis
    using g agrees_dispatch [of pd p tf] assms(3)
    by (intro exI [of _ g]) (auto simp: list_all_iff required_timeframes_def)
qed

text \<open>a take-profit group is evaluated on whatever timeframes the entry side asked for: when the
  prices hold only the required timeframes, a group with an indicator on any other timeframe never
  fires, so if every group has one there is no indicator exit at all.\<close>

theorem tp_group_on_other_timeframe_never_fires:
  assumes "set (keys (closes_tf p)) \<subseteq> required_timeframes cfg tf"
    and "\<forall>g \<in> set (tp_groups (take_profit_cfg cfg)).
      \<exists>i \<in> set (group_indicators g). indicator_tf i tf \<notin> required_timeframes cfg tf"
  shows "check_tp_indicator_groups pd cfg p tf = (False, None)"
proof -
  have "\<not> indicator_agrees pd (p\<lparr>opens_tf := []\<rparr>) tf i" if "indicator_tf i tf \<notin> required_timeframes cfg tf" for i
  proof -
    have "map_of (closes_tf p) (indicator_tf i tf) = None"
      using that assms(1) by (auto simp: map_of_eq_None_iff)
    then show ?thesis by (simp add: indicator_agrees_def closes_for_def)
  qed
  then have "eval_groups pd (tp_groups (take_profit_cfg cfg)) (p\<lparr>opens_tf := []\<rparr>) tf = (False, None)"
    using assms(2) by (auto simp: eval_groups_cases find_None_iff list_all_iff split: option.split
        dest!: find_Some_iff [THEN iffD1] nth_mem)
  then show ?thesis by (simp add: check_tp_indicator_groups_def Let_def)
qed

section \<open>Parameters that are read and parameters that are not\<close>

lemma sr_pivots_no_volume: "sr_pivots h l a b None th = sr_pivots h l a b None th'"
  by (intro ext) (simp add: sr_pivots_def vol_ok_def)

lemma sr_step_no_volume: "sr_step h l a b None th mt = sr_step h l a b None th' mt"
  by (intro ext) (simp only: sr_step_def sr_pivots_no_volume [of h l a b th th'])

lemma sr_series_no_volume: "calculate_sr_series h l c a b None th mt = calculate_sr_series h l c a b None th' mt"
  by (simp only: calculate_sr_series_def option.case Let_def sr_step_no_volume [of h l a b th mt th'])

lemma sr_ignores_threshold:
  "check_support_resistance_signal h l c a b pr cond v None th mt = check_support_resistance_signal h l c a b pr cond v None th' mt"
  by (simp only: check_support_resistance_signal_def sr_series_no_volume [of h l c a b th mt th'])

text \<open>the fast, slow and signal periods and the moving-average types of a MACD indicator, the volume
  threshold of a support/resistance indicator and the trigger type are configurable and have no effect:
  the verdict of every indicator is the same whatever they are.\<close>

theorem configured_parameters_without_effect:
  "evaluate_indicator pd (i\<lparr>ind_macd_fast := f, ind_macd_slow := s, ind_macd_signal := g,
     ind_oscillator_ma_type := ot, ind_signal_ma_type := st, ind_fast := f', ind_slow := s', ind_signal := g',
     ind_volume_threshold := vt, ind_trigger_type := tt\<rparr>) closes highs lows opens
   = evaluate_indicator pd i closes highs lows opens"
  unfolding evaluate_indicator_def dispatch_indicator_def indicator_config.simps
    indicator_config.update_convs Let_def
  by (simp add: sr_ignores_threshold [of _ _ _ _ _ _ _ _ "or_default vt 0 0" _ "or_default (ind_volume_threshold i) 0 0"]
      del: not_None_eq)

section \<open>Witnesses\<close>

definition ms_indicator :: "string option \<Rightarrow> indicator_config" where
  "ms_indicator tf =
     (plain_indicator ''market_structure'')\<lparr>ind_lookback := Some 1, ind_condition := Some ''higher_low'', ind_timeframe := tf\<rparr>"

definition ms_bot :: bot_config where
  "ms_bot = (default_bot ''ms'' PAPER 1 100)
     \<lparr>entry_cfg := \<lparr>entry_indicators = [], entry_groups = [\<lparr>group_id = 7, group_name = ''swing'',
        group_indicators = [ms_indicator None]\<rparr>]\<rparr>,
      take_profit_cfg := default_take_profit\<lparr>tp_groups := [\<lparr>group_id = 1, group_name = ''exit'',
        group_indicators = [ms_indicator (Some ''4h'')]\<rparr>]\<rparr>\<rparr>"

definition ms_prices :: prices where
  "ms_prices = \<lparr>closes_tf = [(''1h'', [5, 4, 3, 5, 6, 5, 4, 6, 7, 8])], highs_tf = [], lows_tf = [], opens_tf = []\<rparr>"

lemma ms_bot_agrees: "indicator_agrees pandas_doc ms_prices ''1h'' (ms_indicator None)"
proof -
  have u: "upper (ind_type (ms_indicator None)) = ''MARKET_STRUCTURE''" by code_simp
  have c: "check_market_structure_signal [5, 4, 3, 5, 6, 5, 4, 6, 7, 8] 1 ''higher_low'' = Inr True" by code_simp
  then have "dispatch_indicator pandas_doc (ms_indicator None) ''MARKET_STRUCTURE'' [5, 4, 3, 5, 6, 5, 4, 6, 7, 8] None None None = Inr True"
    by (simp add: dispatch_indicator_def ms_indicator_def plain_indicator_def or_default_def)
  then have "evaluate_indicator pandas_doc (ms_indicator None) [5, 4, 3, 5, 6, 5, 4, 6, 7, 8] None None None"
    by (simp add: evaluate_indicator_def u)
  moreover have "indicator_tf (ms_indicator None) ''1h'' = ''1h''" by code_simp
  ultimately show ?thesis by (simp add: indicator_agrees_def closes_for_def ms_prices_def)
qed

theorem entry_signal_fails_closed_witness:
  "check_entry_signal pandas_doc ms_bot ms_prices ''1h'' = (True, Some (Entry_Trigger 7 ''swing'' [''market_structure'']))
   \<and> (\<exists>g. group_trigger g = Entry_Trigger 7 ''swing'' [''market_structure''] \<and> group_indicators g \<noteq> [])"
proof -
  have s: "check_entry_signal pandas_doc ms_bot ms_prices ''1h'' = (True, Some (Entry_Trigger 7 ''swing'' [''market_structure'']))"
    using ms_bot_agrees
    by (simp add: check_entry_signal_def Let_def all_indicators_def ms_bot_def default_defs group_trigger_def)
      (simp add: ms_indicator_def plain_indicator_def upper_def up_char_def)
  have a: "all_indicators ms_bot \<noteq> [] \<or> entry_groups (entry_cfg ms_bot) \<noteq> []" by code_simp
  have n: "\<forall>i \<in> set (all_indicators ms_bot). upper (ind_type i) \<noteq> ''ASAP''" by code_simp
  from entry_signal_fails_closed [OF s a n] s show ?thesis by (metis option.inject)
qed

theorem tp_group_on_other_timeframe_never_fires_witness:
  "check_tp_indicator_groups pandas_doc ms_bot ms_prices ''1h'' = (False, None)"
proof -
  have k: "set (keys (closes_tf ms_prices)) \<subseteq> required_timeframes ms_bot ''1h''"
    by (simp add: ms_prices_def required_timeframes_def)
  have g: "\<forall>g \<in> set (tp_groups (take_profit_cfg ms_bot)).
      \<exists>i \<in> set (group_indicators g). indicator_tf i ''1h'' \<notin> required_timeframes ms_bot ''1h''"
    by code_simp
  show ?thesis by (rule tp_group_on_other_timeframe_never_fires [OF k g])
qed

end
