(* ===== verification/Close_Handler.thy ===== *)
theory Close_Handler
  imports Bot_World
begin

text \<open>
  The close handler (\<open>paper/close_handler.py\<close>): closing or cancelling one deal by hand, from the tick
  loop of a running bot or from the portal while the bot is stopped.  A handler is a record of the
  arguments of its constructor; its operations run on any extension of the world.  A refusal is a
  value, as in the source; an exception of the arithmetic propagates.
\<close>

section \<open>The handler\<close>

record close_ctx =
  cc_user :: int
  cc_slug :: "string option"
  cc_name :: string
  cc_fee :: real
  cc_notifier :: bool
  cc_file :: "string option"
  cc_now :: int
  cc_db_up :: bool

text \<open>The constructor's \<open>bot_slug or None\<close> and \<open>bot_name or (bot_slug or "unknown")\<close>.\<close>

definition handler_slug :: "close_ctx \<Rightarrow> string option" where
  "handler_slug c = (if cc_slug c = Some '''' then None else cc_slug c)"

definition handler_name :: "close_ctx \<Rightarrow> string" where
  "handler_name c =
     (if cc_name c \<noteq> '''' then cc_name c
      else case handler_slug c of None \<Rightarrow> ''unknown'' | Some s \<Rightarrow> s)"

datatype close_error = Invalid_Action | Invalid_Origin | Deal_Not_Found | Bad_Price

record close_report =
  cr_action :: string
  cr_deal_id :: string
  cr_close_price :: real
  cr_pnl_btc :: real
  cr_pnl_pct :: real
  cr_fee_btc :: real
  cr_deal :: deal_json

datatype close_result = Refused close_error | Done close_report

section \<open>Helpers\<close>

definition handler_fee :: "close_ctx \<Rightarrow> real \<Rightarrow> real" where
  "handler_fee c sz = sz * cc_fee c"

definition handler_db_close ::
  "close_ctx \<Rightarrow> string \<Rightarrow> real \<Rightarrow> string \<Rightarrow> real \<Rightarrow> real \<Rightarrow> trigger \<Rightarrow> ('w world_scheme, unit) prog" where
  "handler_db_close c did price reason b p trig =
     (case handler_slug c of
        None \<Rightarrow> pskip
      | Some _ \<Rightarrow>
          pseq (ptry (on_ledger (cc_db_up c)
            (ledger_close_deal did price reason b p (cc_user c) (cc_now c) (Some trig)))) pskip)"

definition handler_notify :: "close_ctx \<Rightarrow> message \<Rightarrow> ('w world_scheme, unit) prog" where
  "handler_notify c m = (if cc_notifier c then notify m else pskip)"

text \<open>The snapshot merged into whatever the engine last wrote.\<close>

definition merged_snapshot ::
  "close_ctx \<Rightarrow> paper_state \<Rightarrow> deal_json list \<Rightarrow> deal_json list \<Rightarrow> state_json \<Rightarrow> state_json" where
  "merged_snapshot c s opens hist j =
     j\<lparr>sj_bot_name := Some (handler_name c), sj_balance_btc := Some (balance_btc s),
       sj_initial_balance_btc := Some (initial_balance_btc s), sj_open_deals := Some opens,
       sj_closed_deals := Some hist, sj_open_deals_count := Some (length opens),
       sj_closed_deals_count := Some (length hist)\<rparr>"

definition persist_state :: "close_ctx \<Rightarrow> ('w world_scheme, unit) prog" where
  "persist_state c =
     pseq (ptry (\<lambda>w.
       case res_bind (all_ok (map (\<lambda>d. deal_to_dict d 0) (vals (open_deals (book w))))) (\<lambda>opens.
            res_bind (all_ok (map (\<lambda>d. deal_to_dict d 0) (closed_deals (book w)))) (\<lambda>hist.
            Inr (opens, hist))) of
         Inl e \<Rightarrow> (Inl e, w)
       | Inr (opens, hist) \<Rightarrow>
           (case state_load (cc_file c) (disk w) of
              (loaded, fs) \<Rightarrow>
                (Inr (), w\<lparr>disk := state_write (cc_file c)
                   (merged_snapshot c (book w) opens hist (get_or empty_json loaded)) fs\<rparr>)))) pskip"

section \<open>Close and cancel\<close>

text \<open>Pop the deal and book its PnL; the deal object that comes back is the closed one.\<close>

definition book_close :: "close_ctx \<Rightarrow> string \<Rightarrow> real \<Rightarrow> string \<Rightarrow> ('w world_scheme, paper_deal option) prog" where
  "book_close c did price reason = on_book (state_close_deal did price reason (cc_now c))"

definition handler_close :: "close_ctx \<Rightarrow> paper_deal \<Rightarrow> real \<Rightarrow> string \<Rightarrow> ('w world_scheme, close_result) prog" where
  "handler_close c d price origin =
     pbind (plift (calculate_pnl d price)) (\<lambda>(b, p).
     let exit_size = total_size d; d1 = d\<lparr>exit_trigger := Some (Exit_Trigger ''manual'')\<rparr> in
     pseq (put_book_deal d1)
     (pbind (book_close c (deal_id d) price ''manual'') (\<lambda>closed.
     let fee = handler_fee c exit_size; d2 = (case closed of None \<Rightarrow> d1 | Some x \<Rightarrow> x) in
     pseq (handler_deduct fee (''manual_close:'' @ deal_id d))
     (pseq (handler_db_close c (deal_id d) price ''manual'' b p (Exit_Trigger ''manual''))
     (pseq (handler_notify c (if origin = ''portal'' then Msg_Manual_Close (symbol d) price b p
                              else Msg_Take_Profit (symbol d) price b p))
     (pseq (persist_state c)
     (pbind (plift (deal_to_dict d2 price)) (\<lambda>j.
     pret (Done \<lparr>cr_action = ''close'', cr_deal_id = deal_id d, cr_close_price = price, cr_pnl_btc = b,
                 cr_pnl_pct = p, cr_fee_btc = fee, cr_deal = j\<rparr>)))))))))"

definition handler_cancel :: "close_ctx \<Rightarrow> paper_deal \<Rightarrow> real \<Rightarrow> string \<Rightarrow> ('w world_scheme, close_result) prog" where
  "handler_cancel c d price origin =
     (let d1 = d\<lparr>exit_trigger := Some (Exit_Trigger ''cancelled'')\<rparr> in
     pseq (put_book_deal d1)
     (pbind (book_close c (deal_id d) price ''cancelled'') (\<lambda>closed.
     let d2 = (case closed of None \<Rightarrow> d1 | Some x \<Rightarrow> x) in
     pseq (handler_db_close c (deal_id d) price ''cancelled'' 0 0 (Exit_Trigger ''cancelled''))
     (pseq (handler_notify c (if origin = ''portal'' then Msg_Manual_Cancel (symbol d)
                              else Msg_Stop_Loss (symbol d) price 0 0))
     (pseq (persist_state c)
     (pbind (plift (deal_to_dict d2 price)) (\<lambda>j.
     pret (Done \<lparr>cr_action = ''cancel'', cr_deal_id = deal_id d, cr_close_price = price, cr_pnl_btc = 0,
                 cr_pnl_pct = 0, cr_fee_btc = 0, cr_deal = j\<rparr>))))))))"

definition handler_close_deal ::
  "close_ctx \<Rightarrow> string \<Rightarrow> real \<Rightarrow> string \<Rightarrow> string \<Rightarrow> ('w world_scheme, close_result) prog" where
  "handler_close_deal c did price action origin =
     (\<lambda>w. if action \<noteq> ''close'' \<and> action \<noteq> ''cancel'' then (Inr (Refused Invalid_Action), w)
          else if origin \<noteq> ''engine'' \<and> origin \<noteq> ''portal'' then (Inr (Refused Invalid_Origin), w)
          else case map_of (open_deals (book w)) did of
            None \<Rightarrow> (Inr (Refused Deal_Not_Found), w)
          | Some d \<Rightarrow>
              if price \<le> 0 then (Inr (Refused Bad_Price), w)
              else if action = ''close'' then handler_close c d price origin w
              else handler_cancel c d price origin w)"

section \<open>What the helpers leave alone\<close>

lemma persist_frame [frame_simps]:
  "fst (persist_state c w) = Inr ()" "book (snd (persist_state c w)) = book w"
  "dledger (snd (persist_state c w)) = dledger w" "outbox (snd (persist_state c w)) = outbox w"
  "world.more (snd (persist_state c w)) = world.more w"
  by (auto simp: persist_state_def pseq_def pbind_apply ptry_apply split: prod.split sum.split)

lemma handler_notify_frame [frame_simps]:
  "fst (handler_notify c m w) = Inr ()" "book (snd (handler_notify c m w)) = book w"
  "dledger (snd (handler_notify c m w)) = dledger w" "disk (snd (handler_notify c m w)) = disk w"
  "world.more (snd (handler_notify c m w)) = world.more w"
  "outbox (snd (handler_notify c m w)) = outbox w @ (if cc_notifier c then [m] else [])"
  by (simp_all add: handler_notify_def)

lemma handler_db_close_frame [frame_simps]:
  "fst (handler_db_close c did p r b q t w) = Inr ()" "book (snd (handler_db_close c did p r b q t w)) = book w"
  "disk (snd (handler_db_close c did p r b q t w)) = disk w" "outbox (snd (handler_db_close c did p r b q t w)) = outbox w"
  "world.more (snd (handler_db_close c did p r b q t w)) = world.more w"
  by (auto simp: handler_db_close_def pseq_def pbind_apply ptry_apply on_ledger_def
      split: option.split prod.split sum.split)

lemma pseq_known: "fst (m w) = Inr () \<Longrightarrow> pseq m n w = n (snd (m w))"
  by (cases "m w") (auto simp: pseq_def pbind_def)

lemma pseq_deduct: "pseq (handler_deduct a r) n w = 
    n (w\<lparr>book := (book w)\<lparr>balance_btc := balance_btc (book w) - a\<rparr>\<rparr>)"
  using pseq_known [of "handler_deduct a r" w n] by (simp add: handler_deduct_def)

lemma pseq_put: "pseq (put_book_deal d) n w = n (w\<lparr>book := put_deal d (book w)\<rparr>)"
  using pseq_known [of "put_book_deal d" w n] by simp

lemmas handler_steps = pseq_deduct pseq_put
  pseq_known [OF persist_frame(1)] pseq_known [OF handler_notify_frame(1)]
  pseq_known [OF handler_db_close_frame(1)]

lemma deal_to_dict_defined: "deal_wf d \<Longrightarrow> \<exists>j. deal_to_dict d c = Inr j"
  using pnl_defined [of d c] by (auto simp: deal_to_dict_def reported_pnl_def)

lemma dict_of_closed:
  "deal_wf d \<Longrightarrow> \<exists>j. deal_to_dict (closed_copy p r n b q d) c = Inr j"
  by (rule deal_to_dict_defined) (simp add: deal_wf_def)

text \<open>The world a manual close leaves behind, up to the file.\<close>

definition db_after_close ::
  "close_ctx \<Rightarrow> string \<Rightarrow> real \<Rightarrow> string \<Rightarrow> real \<Rightarrow> real \<Rightarrow> trigger \<Rightarrow> ledger \<Rightarrow> ledger" where
  "db_after_close c did price reason b q trig db =
     (if handler_slug c = None \<or> \<not> cc_db_up c then db
      else snd (ledger_close_deal did price reason b q (cc_user c) (cc_now c) (Some trig) db))"

lemma handler_db_close_ledger:
  "dledger (snd (handler_db_close c did p r b q t w)) = db_after_close c did p r b q t (dledger w)"
  by (auto simp: handler_db_close_def db_after_close_def pseq_def pbind_apply ptry_apply on_ledger_def
      split: option.split prod.split sum.split)

definition book_after_close ::
  "close_ctx \<Rightarrow> paper_deal \<Rightarrow> real \<Rightarrow> string \<Rightarrow> real \<Rightarrow> real \<Rightarrow> real \<Rightarrow> paper_state \<Rightarrow> paper_state" where
  "book_after_close c d price reason b q fee s =
     s\<lparr>balance_btc := balance_btc s + b - fee, open_deals := AList.delete (deal_id d) (open_deals s),
       closed_deals := closed_deals s @
         [closed_copy price reason (cc_now c) b q (d\<lparr>exit_trigger := Some (Exit_Trigger reason)\<rparr>)]\<rparr>"

lemma handler_close_eq:
  assumes "deal_wf d" "calculate_pnl d price = Inr (b, q)"
  shows "\<exists>j w'. handler_close c d price origin w =
      (Inr (Done \<lparr>cr_action = ''close'', cr_deal_id = deal_id d, cr_close_price = price, cr_pnl_btc = b,
                 cr_pnl_pct = q, cr_fee_btc = handler_fee c (total_size d), cr_deal = j\<rparr>), w')
    \<and> book w' = book_after_close c d price ''manual'' b q (handler_fee c (total_size d)) (book w)
    \<and> dledger w' = db_after_close c (deal_id d) price ''manual'' b q (Exit_Trigger ''manual'') (dledger w)
    \<and> outbox w' = outbox w @ (if \<not> cc_notifier c then []
        else if origin = ''portal'' then [Msg_Manual_Close (symbol d) price b q] else [Msg_Take_Profit (symbol d) price b q])
    \<and> world.more w' = world.more w"
proof -
  let ?d1 = "d\<lparr>exit_trigger := Some (Exit_Trigger ''manual'')\<rparr>"
  have "calculate_pnl ?d1 price = Inr (b, q)" using assms(2) by (simp add: pnl_cong [of ?d1 d])
  note cl = close_after_put [OF this, of "''manual''" "cc_now c" "book w", simplified]
  obtain j where "deal_to_dict (closed_copy price ''manual'' (cc_now c) b q ?d1) price = Inr j"
    using dict_of_closed [of ?d1 price "''manual''" "cc_now c" b q price] assms(1) deal_wf_cong [of ?d1 d] by auto
  then show ?thesis
    by (auto simp: handler_close_def assms(2) Let_def book_close_def on_book_def cl handler_steps
        frame_simps handler_db_close_ledger book_after_close_def pbind_apply)
qed

lemma handler_cancel_eq:
  assumes "deal_wf d" "calculate_pnl d price = Inr (b, q)"
  shows "\<exists>j w'. handler_cancel c d price origin w =
      (Inr (Done \<lparr>cr_action = ''cancel'', cr_deal_id = deal_id d, cr_close_price = price, cr_pnl_btc = 0,
                 cr_pnl_pct = 0, cr_fee_btc = 0, cr_deal = j\<rparr>), w')
    \<and> book w' = book_after_close c d price ''cancelled'' b q 0 (book w)
    \<and> dledger w' = db_after_close c (deal_id d) price ''cancelled'' 0 0 (Exit_Trigger ''cancelled'') (dledger w)
    \<and> world.more w' = world.more w"
proof -
  let ?d1 = "d\<lparr>exit_trigger := Some (Exit_Trigger ''cancelled'')\<rparr>"
  have "calculate_pnl ?d1 price = Inr (b, q)" using assms(2) by (simp add: pnl_cong [of ?d1 d])
  note cl = close_after_put [OF this, of "''cancelled''" "cc_now c" "book w", simplified]
  obtain j where "deal_to_dict (closed_copy price ''cancelled'' (cc_now c) b q ?d1) price = Inr j"
    using dict_of_closed [of ?d1 price "''cancelled''" "cc_now c" b q price] assms(1) deal_wf_cong [of ?d1 d] by auto
  then show ?thesis
    by (auto simp: handler_cancel_def Let_def book_close_def on_book_def cl handler_steps
        frame_simps handler_db_close_ledger book_after_close_def pbind_apply)
qed

section \<open>What a manual close promises\<close>

text \<open>C9: closing a deal by hand at a positive price succeeds on a well-formed book and does exactly this:
  the deal leaves the open deals and enters the history with the PnL at that price, the balance
  changes by that PnL less the exit fee, every other open deal stays, the ledger row gets the same PnL,
  and one message with it is sent when the handler has a notifier, of the kind that fits the origin, none otherwise.\<close>

theorem manual_close_exact:
  assumes "book_wf (book w)" "map_of (open_deals (book w)) did = Some d" "0 < price"
    "origin = ''engine'' \<or> origin = ''portal''"
  shows "\<exists>rep w'. handler_close_deal c did price ''close'' origin w = (Inr (Done rep), w')
    \<and> book w' = book_after_close c d price ''manual'' (pnl_of d price)
        (pnl_of d price / (total_size d / of_int (leverage d)) * 100) (total_size d * cc_fee c) (book w)
    \<and> cr_pnl_btc rep = pnl_of d price \<and> cr_fee_btc rep = total_size d * cc_fee c
    \<and> dledger w' = db_after_close c did price ''manual'' (cr_pnl_btc rep) (cr_pnl_pct rep)
        (Exit_Trigger ''manual'') (dledger w)
    \<and> outbox w' = outbox w @ (if \<not> cc_notifier c then []
        else if origin = ''portal'' then [Msg_Manual_Close (symbol d) price (cr_pnl_btc rep) (cr_pnl_pct rep)]
        else [Msg_Take_Profit (symbol d) price (cr_pnl_btc rep) (cr_pnl_pct rep)])"
proof -
  note wf = book_wf_lookup [OF assms(1,2)]
  let ?b = "pnl_of d price" and ?q = "pnl_of d price / (total_size d / of_int (leverage d)) * 100"
  let ?rep = "\<lambda>j. \<lparr>cr_action = ''close'', cr_deal_id = deal_id d, cr_close_price = price, cr_pnl_btc = ?b,
    cr_pnl_pct = ?q, cr_fee_btc = handler_fee c (total_size d), cr_deal = j\<rparr>"
  from handler_close_eq [OF wf(3) calculate_pnl_wf [OF wf(3) assms(3)], of c origin w]
  obtain j w' where w': "handler_close c d price origin w = (Inr (Done (?rep j)), w')"
    "book w' = book_after_close c d price ''manual'' ?b ?q (handler_fee c (total_size d)) (book w)"
    "dledger w' = db_after_close c (deal_id d) price ''manual'' ?b ?q (Exit_Trigger ''manual'') (dledger w)"
    "outbox w' = outbox w @ (if \<not> cc_notifier c then []
        else if origin = ''portal'' then [Msg_Manual_Close (symbol d) price ?b ?q] else [Msg_Take_Profit (symbol d) price ?b ?q])"
    by blast
  have "handler_close_deal c did price ''close'' origin w = (Inr (Done (?rep j)), w')"
    using assms w'(1) by (auto simp: handler_close_deal_def)
  then show ?thesis
    using w'(2-4) wf(1) by (intro exI [of _ "?rep j"] exI [of _ w']) (simp add: handler_fee_def)
qed

text \<open>a cancel realises PnL after all: it reports and records a PnL of zero in the ledger, but the
  book's close adds the PnL at the given price to the balance and keeps it in the history, so the
  two disagree by exactly that PnL.\<close>

theorem cancel_realises_pnl_in_the_book:
  assumes "book_wf (book w)" "map_of (open_deals (book w)) did = Some d" "0 < price"
    "origin = ''engine'' \<or> origin = ''portal''"
  shows "\<exists>rep w'. handler_close_deal c did price ''cancel'' origin w = (Inr (Done rep), w')
    \<and> cr_pnl_btc rep = 0
    \<and> balance_btc (book w') = balance_btc (book w) + pnl_of d price
    \<and> pnl_btc (last (closed_deals (book w'))) = pnl_of d price
    \<and> dledger w' = db_after_close c did price ''cancelled'' 0 0 (Exit_Trigger ''cancelled'') (dledger w)"
proof -
  note wf = book_wf_lookup [OF assms(1,2)]
  from handler_cancel_eq [OF wf(3) calculate_pnl_wf [OF wf(3) assms(3)], of c origin w]
  show ?thesis using assms wf(1) by (auto simp: handler_close_deal_def book_after_close_def)
qed

text \<open>a refusal changes nothing, and a second close of the same deal is refused as not found: of two
  calls racing for one deal the balance is touched once.\<close>

theorem close_is_once_only:
  assumes "book_wf (book w)" "handler_close_deal c did price action origin w = (Inr r, w')"
  shows "(case r of Refused e \<Rightarrow> w' = w
     | Done rep \<Rightarrow> did \<notin> set (keys (open_deals (book w'))) \<and>
        (\<forall>price' action' origin'.
           \<exists>e. handler_close_deal c did price' action' origin' w' = (Inr (Refused e), w')))"
proof (cases r)
  case (Refused e)
  have "w' = w" if "map_of (open_deals (book w)) did = Some d" "0 < price" "action \<in> {''close'', ''cancel''}" for d
  proof -
    note wf = book_wf_lookup [OF assms(1) that(1)]
    show ?thesis
      using assms(2) that handler_close_eq [OF wf(3) calculate_pnl_wf [OF wf(3) that(2)], of c origin w]
        handler_cancel_eq [OF wf(3) calculate_pnl_wf [OF wf(3) that(2)], of c origin w]
      by (auto simp: handler_close_deal_def Refused split: if_splits)
  qed
  then show ?thesis
    using assms(2) by (fastforce simp: handler_close_deal_def Refused split: if_splits option.splits)
next
  case (Done rep)
  then obtain d where d: "map_of (open_deals (book w)) did = Some d" "0 < price"
    "(Inr r, w') = (if action = ''close'' then handler_close c d price origin w else handler_cancel c d price origin w)"
    using assms(2) by (auto simp: handler_close_deal_def not_le split: if_splits option.splits)
  note wf = book_wf_lookup [OF assms(1) d(1)]
  have "\<exists>fee b reason q. book w' = book_after_close c d price reason b q fee (book w)"
    using d(3) handler_close_eq [OF wf(3) calculate_pnl_wf [OF wf(3) d(2)], of c origin w]
      handler_cancel_eq [OF wf(3) calculate_pnl_wf [OF wf(3) d(2)], of c origin w]
    by (auto split: if_splits)
  then have "did \<notin> set (keys (open_deals (book w')))" using wf(1) by (auto simp: book_after_close_def set_delete_eq)
  moreover from this have "map_of (open_deals (book w')) did = None" by (simp add: map_of_eq_None_iff)
  ultimately show ?thesis by (auto simp: Done handler_close_deal_def)
qed

section \<open>Witnesses\<close>

definition manual_ctx :: close_ctx where
  "manual_ctx = \<lparr>cc_user = 1, cc_slug = Some ''bot'', cc_name = ''Bot'', cc_fee = 6 / 10000, cc_notifier = True,
     cc_file = Some ''bot.state.json'', cc_now = 5, cc_db_up = True\<rparr>"

definition one_deal_world :: world where
  "one_deal_world = \<lparr>book = state_open_deal ledger_deal (new_paper_state (1 / 10)), dledger = ledger_one,
     disk = [], outbox = []\<rparr>"

lemma one_deal_world_wf:
  "book_wf (book one_deal_world)"
  "map_of (open_deals (book one_deal_world)) ''202604192359-0001'' = Some ledger_deal"
  using ledger_deal_wf
  by (auto simp: one_deal_world_def ledger_deal_def state_open_deal_def new_paper_state_def intro: wf_intros)
    (auto simp: book_wf_def entry_wf_def)

lemma ledger_deal_pnl: "pnl_of ledger_deal 100000 = 1 / 2000"
  by (simp add: pnl_of_def ledger_deal_def ledger_order_def total_size_def avg_of_def total_value_def)

theorem manual_close_exact_witness:
  "\<exists>rep w'. handler_close_deal manual_ctx ''202604192359-0001'' 100000 ''close'' ''engine'' one_deal_world
      = (Inr (Done rep), w') \<and> cr_pnl_btc rep = 1 / 2000"
  using manual_close_exact [OF one_deal_world_wf, of 100000 "''engine''" manual_ctx] ledger_deal_pnl by auto

theorem cancel_realises_pnl_in_the_book_witness:
  "\<exists>rep w'. handler_close_deal manual_ctx ''202604192359-0001'' 100000 ''cancel'' ''portal'' one_deal_world
      = (Inr (Done rep), w') \<and> cr_pnl_btc rep = 0
      \<and> balance_btc (book w') = balance_btc (book one_deal_world) + 1 / 2000"
  using cancel_realises_pnl_in_the_book [OF one_deal_world_wf, of 100000 "''portal''" manual_ctx] ledger_deal_pnl by auto

theorem close_is_once_only_witness:
  "\<exists>rep w'. handler_close_deal manual_ctx ''202604192359-0001'' 100000 ''close'' ''portal'' one_deal_world = (Inr (Done rep), w')
     \<and> (\<exists>e. handler_close_deal manual_ctx ''202604192359-0001'' 100000 ''close'' ''engine'' w' = (Inr (Refused e), w'))"
proof -
  from handler_close_eq [OF book_wf_lookup(3) [OF one_deal_world_wf] calculate_pnl_wf [OF book_wf_lookup(3) [OF one_deal_world_wf]],
      of 100000 manual_ctx "''portal''" one_deal_world]
  obtain rep w' where h: "handler_close_deal manual_ctx ''202604192359-0001'' 100000 ''close'' ''portal'' one_deal_world = (Inr (Done rep), w')"
    by (auto simp: handler_close_deal_def one_deal_world_wf)
  from close_is_once_only [OF one_deal_world_wf(1) h] h show ?thesis by auto
qed

end
