(* ===== verification/Engine_State.thy ===== *)
theory Engine_State
  imports Indicator_Engine Close_Handler Drawdown_Guard Liquidation_Guard Schedule_Guard Inverse_Perp Tick_Errors
begin

text \<open>
  The state of a trading engine (\<open>core/trading_engine.py\<close>, \<open>TradingEngine.__init__\<close>) and the helpers its
  handlers share: the ledger calls that never raise, the creation of a deal with a fresh id per
  retry, the fee.  \<open>wiring\<close> is what the constructor is given and never changes, \<open>tick_env\<close> what one tick
  reads from outside (clock, exchange, files, reachability of the database), \<open>engine\<close> what changes;
  \<open>eg_unlinked\<close> lists the sentinel files the engine has removed.
\<close>

section \<open>Wiring, environment, state\<close>

record wiring =
  st_cfg :: bot_config
  st_slug :: "string option"
  st_user :: int
  st_poll :: real
  st_file :: "string option"
  st_manual :: "string option"
  st_exchange :: string
  st_fresh_id :: "nat \<Rightarrow> string"
  st_pandas :: pandas
  st_date_str :: "int \<Rightarrow> string"

record candle =
  c_ts :: real
  c_open :: real
  c_high :: real
  c_low :: real
  c_close :: real

text \<open>The settings of an edit sentinel; a key its JSON lacks is \<open>None\<close>.\<close>

record edit_settings =
  es_tp :: "tp_override option option"
  es_sl :: "sl_override option option"
  es_dca :: "bool option"

text \<open>\<open>env_ticker\<close> is the mark price, when there is one, and the last price; \<open>env_log_files\<close> lists the names in
  the user's log directory with what reading the file gives.\<close>

record tick_env =
  env_now :: int
  env_clock :: real
  env_ticker :: "(real option \<times> real) res"
  env_ohlcv :: "string \<Rightarrow> nat \<Rightarrow> candle list res"
  env_today :: int
  env_hhmm :: string
  env_manual_present :: bool
  env_log_files :: "(string \<times> edit_settings res) list"
  env_db_up :: bool
  env_http_status :: "int option"

record engine = world +
  eg_fees :: real
  eg_dd :: dd_guard
  eg_paused :: bool
  eg_running :: bool
  eg_price :: real
  eg_last_schedule :: "bool option"
  eg_closes :: per_tf
  eg_highs :: per_tf
  eg_lows :: per_tf
  eg_fetched_at :: "(string \<times> real) list"
  eg_wick :: "(string \<times> (real \<times> real \<times> real)) list"
  eg_wick_at :: real
  eg_liq :: liq_guard
  eg_streak :: streak
  eg_next_id :: nat
  eg_unlinked :: "string list"

abbreviation dca_of :: "wiring \<Rightarrow> dca_config" where
  "dca_of S \<equiv> dca_cfg (st_cfg S)"

abbreviation tp_cfg_of :: "wiring \<Rightarrow> take_profit_config" where
  "tp_cfg_of S \<equiv> take_profit_cfg (st_cfg S)"

abbreviation sl_cfg_of :: "wiring \<Rightarrow> stop_loss_config" where
  "sl_cfg_of S \<equiv> stop_loss_cfg (st_cfg S)"

abbreviation opens :: "'e world_scheme \<Rightarrow> (string \<times> paper_deal) list" where
  "opens e \<equiv> open_deals (book e)"

text \<open>The slug: the explicit one, else the stem of the state file less a trailing \<open>.state\<close>, else the
  cleaned name; an empty result is none.\<close>

definition bot_slug_of :: "string option \<Rightarrow> string option \<Rightarrow> string \<Rightarrow> string option" where
  "bot_slug_of slug state_file name =
     (let non_empty = (\<lambda>s. if s = '''' then None else Some s) in
      if slug \<noteq> None \<and> slug \<noteq> Some '''' then slug
      else if state_file \<noteq> None \<and> state_file \<noteq> Some ''''
      then let stem = name_stem (the state_file) in
           non_empty (if suffix ''.state'' stem then take (length stem - 6) stem else stem)
      else non_empty (map (\<lambda>c. if c = CHR '' '' then CHR ''_'' else c) (map lower_char (py_strip name))))"

definition init_engine :: "wiring \<Rightarrow> real \<Rightarrow> ledger \<Rightarrow> dir \<Rightarrow> engine" where
  "init_engine S initial_balance db fs =
     \<lparr>book = new_paper_state initial_balance, dledger = db, disk = fs, outbox = [], eg_fees = 0,
      eg_dd = new_dd_guard, eg_paused = False, eg_running = False, eg_price = 0, eg_last_schedule = None,
      eg_closes = [], eg_highs = [], eg_lows = [], eg_fetched_at = [], eg_wick = [], eg_wick_at = 0,
      eg_liq = new_liq_guard (leverage_cfg (st_cfg S)), eg_streak = new_streak, eg_next_id = 0,
      eg_unlinked = []\<rparr>"

section \<open>Ledger calls that never raise\<close>

definition with_slug :: "wiring \<Rightarrow> (string \<Rightarrow> (engine, unit) prog) \<Rightarrow> (engine, unit) prog" where
  "with_slug S f = (case st_slug S of None \<Rightarrow> pskip | Some s \<Rightarrow> pseq (ptry (f s)) pskip)"

definition db_save_deal :: "wiring \<Rightarrow> tick_env \<Rightarrow> paper_deal \<Rightarrow> (engine, unit) prog" where
  "db_save_deal S t d =
     with_slug S (\<lambda>slug. on_ledger (env_db_up t) (save_deal d slug (cfg_name (st_cfg S)) (st_user S)))"

definition db_save_order :: "wiring \<Rightarrow> tick_env \<Rightarrow> paper_order \<Rightarrow> string \<Rightarrow> real \<Rightarrow> (engine, unit) prog" where
  "db_save_order S t ord did fee =
     with_slug S (\<lambda>slug. on_ledger (env_db_up t) (save_order ord did slug (st_user S) fee))"

definition db_close_deal ::
  "wiring \<Rightarrow> tick_env \<Rightarrow> string \<Rightarrow> real \<Rightarrow> string \<Rightarrow> real \<Rightarrow> real \<Rightarrow> trigger \<Rightarrow> (engine, unit) prog" where
  "db_close_deal S t did price reason b q trig =
     with_slug S (\<lambda>_. on_ledger (env_db_up t)
       (ledger_close_deal did price reason b q (st_user S) (env_now t) (Some trig)))"

text \<open>The next id of the generator; each call consumes one.\<close>

definition new_deal_id :: "wiring \<Rightarrow> (engine, string) prog" where
  "new_deal_id S = (\<lambda>e. (Inr (st_fresh_id S (eg_next_id e)), e\<lparr>eg_next_id := eg_next_id e + 1\<rparr>))"

text \<open>Up to \<open>n\<close> attempts, each collision with a fresh id; the deal that comes back carries the id tried
  last.  Any other failure gives up at once.\<close>

fun db_create_deal_with_retry ::
  "wiring \<Rightarrow> tick_env \<Rightarrow> string \<Rightarrow> nat \<Rightarrow> paper_deal \<Rightarrow> (engine, bool \<times> paper_deal) prog" where
  "db_create_deal_with_retry S t slug 0 d = pret (False, d)"
| "db_create_deal_with_retry S t slug (Suc n) d =
     (\<lambda>e. case on_ledger (env_db_up t) (create_deal d slug (cfg_name (st_cfg S)) (st_user S)) e of
        (Inr _, e1) \<Rightarrow> (Inr (True, d), e1)
      | (Inl err, e1) \<Rightarrow>
          if err = IntegrityError
          then pbind (new_deal_id S) (\<lambda>i. db_create_deal_with_retry S t slug n (d\<lparr>deal_id := i\<rparr>)) e1
          else (Inr (False, d), e1))"

definition create_attempts :: nat where
  "create_attempts = 3"

section \<open>Fees and exits\<close>

definition calc_fee :: "wiring \<Rightarrow> real \<Rightarrow> real" where
  "calc_fee S sz = sz * taker_fee (dca_of S)"

text \<open>Deduct a fee and count it as paid, in this order; the count does not ask whether it was.\<close>

definition charge_fee :: "wiring \<Rightarrow> real \<Rightarrow> string \<Rightarrow> (engine, unit) prog" where
  "charge_fee S fee reason =
     pbind (paper_deduct fee reason) (\<lambda>_. pmod (\<lambda>e. e\<lparr>eg_fees := eg_fees e + fee\<rparr>))"

text \<open>The statements every exit of the engine shares: PnL, exit trigger, close in the book, fee, ledger,
  notification.\<close>

definition engine_exit ::
  "wiring \<Rightarrow> tick_env \<Rightarrow> paper_deal \<Rightarrow> real \<Rightarrow> string \<Rightarrow> trigger \<Rightarrow> string \<Rightarrow> (real \<Rightarrow> real \<Rightarrow> message) \<Rightarrow>
     (engine, unit) prog" where
  "engine_exit S t d price reason trig fee_tag msg =
     pbind (plift (calculate_pnl d price)) (\<lambda>(b, q).
     pseq (put_book_deal (d\<lparr>exit_trigger := Some trig\<rparr>))
     (pbind (on_book (state_close_deal (deal_id d) price reason (env_now t))) (\<lambda>_.
     pseq (charge_fee S (calc_fee S (total_size d)) (fee_tag @ deal_id d))
     (pseq (db_close_deal S t (deal_id d) price reason b q trig)
     (notify (msg b q))))))"

end
