(* ===== verification/Engine_Upkeep.thy ===== *)
theory Engine_Upkeep
  imports Engine_State
begin

text \<open>
  The parts of a tick that do not trade (\<open>core/trading_engine.py\<close>): candles and the forming candle, the
  schedule transition, the positions handed to the liquidation guard, equity and the drawdown guard.
\<close>

section \<open>Candles\<close>

definition tf_seconds :: "(string \<times> real) list" where
  "tf_seconds = [(''15m'', 900), (''1h'', 3600), (''4h'', 14400), (''1d'', 86400)]"

text \<open>A failed or empty fetch is retried after 100 seconds.\<close>

definition retry_stamp :: "real \<Rightarrow> real \<Rightarrow> real" where
  "retry_stamp now interval = now - max (interval - 100) 0"

definition completed_candles :: "real \<Rightarrow> real \<Rightarrow> candle list \<Rightarrow> candle list" where
  "completed_candles now interval cs = filter (\<lambda>c. c_ts c + interval * 1000 < now * 1000) cs"

definition stamp_fetch :: "string \<Rightarrow> real \<Rightarrow> engine \<Rightarrow> engine" where
  "stamp_fetch tf at_time e = e\<lparr>eg_fetched_at := AList.update tf at_time (eg_fetched_at e)\<rparr>"

definition fetch_timeframe :: "tick_env \<Rightarrow> string \<Rightarrow> engine \<Rightarrow> engine" where
  "fetch_timeframe t tf e =
     (case map_of tf_seconds tf of
        None \<Rightarrow> e
      | Some interval \<Rightarrow>
          if env_clock t - get_or 0 (map_of (eg_fetched_at e) tf) < interval then e
          else case env_ohlcv t tf 101 of
            Inl _ \<Rightarrow> stamp_fetch tf (retry_stamp (env_clock t) interval) e
          | Inr cs \<Rightarrow>
              let done = completed_candles (env_clock t) interval cs in
              if done = [] then stamp_fetch tf (retry_stamp (env_clock t) interval) e
              else stamp_fetch tf (env_clock t)
                (e\<lparr>eg_closes := AList.update tf (map c_close done) (eg_closes e),
                   eg_highs := AList.update tf (map c_high done) (eg_highs e),
                   eg_lows := AList.update tf (map c_low done) (eg_lows e)\<rparr>))"

text \<open>The set of required timeframes is walked in the order of its names; each timeframe has its own
  entries, so the order does not matter.\<close>

definition fetch_closes_if_needed :: "wiring \<Rightarrow> tick_env \<Rightarrow> engine \<Rightarrow> engine" where
  "fetch_closes_if_needed S t e =
     fold (fetch_timeframe t) (sorted_list_of_set (required_timeframes (st_cfg S) (timeframe (st_cfg S)))) e"

definition wick_ttl :: "real \<Rightarrow> real" where
  "wick_ttl poll = max 5 (min (poll * 2) 30)"

definition refresh_wick_candle :: "wiring \<Rightarrow> tick_env \<Rightarrow> engine \<Rightarrow> engine" where
  "refresh_wick_candle S t e =
     (if \<not> use_wick_simulation (st_cfg S) then e
      else if env_clock t - eg_wick_at e < wick_ttl (st_poll S) then e
      else case env_ohlcv t (timeframe (st_cfg S)) 1 of
        Inl _ \<Rightarrow> e
      | Inr cs \<Rightarrow>
          if cs = [] then e
          else e\<lparr>eg_wick := AList.update (timeframe (st_cfg S))
                   (c_high (last cs), c_low (last cs), c_close (last cs)) (eg_wick e),
                 eg_wick_at := env_clock t\<rparr>)"

definition wick_high_low :: "wiring \<Rightarrow> real \<Rightarrow> engine \<Rightarrow> real \<times> real" where
  "wick_high_low S price e =
     (if \<not> use_wick_simulation (st_cfg S) then (price, price)
      else case map_of (eg_wick e) (timeframe (st_cfg S)) of
        None \<Rightarrow> (price, price)
      | Some (high, low, _) \<Rightarrow> (max high price, min low price))"

section \<open>Schedule\<close>

definition check_schedule_transition :: "wiring \<Rightarrow> tick_env \<Rightarrow> bool \<Rightarrow> (engine, unit) prog" where
  "check_schedule_transition S t opened = (\<lambda>e.
     let remember = pmod (\<lambda>e. e\<lparr>eg_last_schedule := Some opened\<rparr>);
         status = schedule_status (st_date_str S) (schedule_cfg (st_cfg S)) (env_today t) (env_hhmm t) (Some opened) in
     (case eg_last_schedule e of
        None \<Rightarrow> remember
      | Some was_open \<Rightarrow>
          if opened \<and> \<not> was_open then
            pbind (plift status) (\<lambda>r. pseq (notify (Msg_Schedule_Open (st_next_open r))) remember)
          else if \<not> opened \<and> was_open then
            pbind (plift status) (\<lambda>r.
            pseq (notify (Msg_Schedule_Close (st_next_open r) (length (opens e)))) remember)
          else remember) e)"

section \<open>Liquidation guard and drawdown guard\<close>

definition position_of :: "real \<Rightarrow> paper_deal \<Rightarrow> position res" where
  "position_of mark d =
     res_bind (avg_entry_price d) (\<lambda>avg.
     Inr \<lparr>pos_deal_id = deal_id d, pos_symbol = symbol d, pos_side = side d, pos_entry_price = avg,
          pos_mark_price = mark, pos_leverage = leverage d\<rparr>)"

definition update_liq_guard :: "real \<Rightarrow> (engine, unit) prog" where
  "update_liq_guard mark = (\<lambda>e.
     pbind (plift (all_ok (map (position_of mark) (vals (opens e))))) (\<lambda>ps.
     pmod (\<lambda>e. e\<lparr>eg_liq := update_positions ps (eg_liq e)\<rparr>)) e)"

definition current_equity_btc :: "real \<Rightarrow> engine \<Rightarrow> real" where
  "current_equity_btc price e =
     balance_btc (book e) +
     sum_list (map (\<lambda>d. case calculate_pnl d price of Inl _ \<Rightarrow> 0 | Inr (b, _) \<Rightarrow> b) (vals (opens e)))"

definition drawdown_metric :: "drawdown_config \<Rightarrow> real \<Rightarrow> engine \<Rightarrow> real" where
  "drawdown_metric cfg price e =
     (if dd_metric cfg = ''balance'' then balance_btc (book e) else current_equity_btc price e)"

definition update_drawdown_guard :: "wiring \<Rightarrow> real \<Rightarrow> (engine, unit) prog" where
  "update_drawdown_guard S price = (\<lambda>e.
     let cfg = drawdown_cfg (st_cfg S) in
     if \<not> dd_enabled cfg then pskip e
     else
       let (triggered, g) = dd_update cfg (drawdown_metric cfg price e) (eg_dd e); e1 = e\<lparr>eg_dd := g\<rparr> in
       if \<not> triggered \<or> eg_paused e1 then pskip e1
       else pseq (notify (Msg_Drawdown (dd_reason g) (dd_action cfg)))
         (pmod (\<lambda>e. e\<lparr>eg_running := (if dd_action cfg = ''stop'' then False else eg_running e), eg_paused := True\<rparr>)) e1)"

end
