(* ===== verification/Deal_Entry.thy ===== *)
theory Deal_Entry
  imports Engine_State
begin

text \<open>
  How a deal comes to be (\<open>core/trading_engine.py\<close>: \<open>_open_deal\<close>, \<open>_check_entry\<close>, \<open>_check_manual_trigger\<close>).
\<close>

definition base_order :: "wiring \<Rightarrow> tick_env \<Rightarrow> real \<Rightarrow> paper_order" where
  "base_order S t price =
     \<lparr>order_number = 1, order_price = price, order_size = base_order_size (dca_of S),
      order_timestamp = env_now t, order_type = ''base''\<rparr>"

definition fresh_deal :: "wiring \<Rightarrow> tick_env \<Rightarrow> string \<Rightarrow> real \<Rightarrow> trigger option \<Rightarrow> paper_deal" where
  "fresh_deal S t did price trig =
     \<lparr>deal_id = did, bot_name = cfg_name (st_cfg S), symbol = cfg_pair (st_cfg S),
      side = (if direction (st_cfg S) = ''long'' \<or> direction (st_cfg S) = ''short''
              then direction (st_cfg S) else ''long''),
      leverage = lev_size (leverage_cfg (st_cfg S)), orders = [base_order S t price], is_open = True,
      opened_at = env_now t, closed_at = None, close_price = None, close_reason = None, pnl_btc = 0,
      pnl_pct = 0, entry_trigger = trig, exit_trigger = None, peak_price = 0, tp_ov = None, sl_ov = None,
      deal_dca_enabled = True, wick_high_since_open = 0, wick_low_since_open = 0\<rparr>"

text \<open>The ledger row comes first: with a slug, a deal the ledger refuses is not opened.\<close>

definition register_deal :: "wiring \<Rightarrow> tick_env \<Rightarrow> paper_deal \<Rightarrow> (engine, bool \<times> paper_deal) prog" where
  "register_deal S t d =
     (case st_slug S of
        None \<Rightarrow> pret (True, d)
      | Some slug \<Rightarrow> db_create_deal_with_retry S t slug create_attempts d)"

definition open_deal :: "wiring \<Rightarrow> tick_env \<Rightarrow> real \<Rightarrow> trigger option \<Rightarrow> (engine, unit) prog" where
  "open_deal S t price trig =
     pbind (new_deal_id S) (\<lambda>did.
     pbind (plift (post_init (fresh_deal S t did price trig))) (\<lambda>d0.
     pbind (register_deal S t d0) (\<lambda>(created, d).
     if \<not> created then pskip
     else
       let ord = base_order S t price; fee = calc_fee S (order_size ord) in
       pseq (on_book (pmod (state_open_deal d)))
       (pseq (charge_fee S fee (''entry_fee:'' @ deal_id d))
       (pseq (db_save_order S t ord (deal_id d) fee)
       (notify (Msg_Entry (cfg_pair (st_cfg S)) price (order_size ord) (lev_size (leverage_cfg (st_cfg S))))))))))"

text \<open>Entry on a signal.\<close>

definition check_entry :: "wiring \<Rightarrow> tick_env \<Rightarrow> real \<Rightarrow> (engine, unit) prog" where
  "check_entry S t price = (\<lambda>e.
     if opens e \<noteq> [] then pskip e
     else if closes_for (eg_closes e) (timeframe (st_cfg S)) = None then pskip e
     else case check_entry_signal (st_pandas S) (st_cfg S)
            \<lparr>closes_tf = eg_closes e, highs_tf = eg_highs e, lows_tf = eg_lows e, opens_tf = []\<rparr>
            (timeframe (st_cfg S)) of
       (True, info) \<Rightarrow> open_deal S t price info e
     | (False, _) \<Rightarrow> pskip e)"

text \<open>The pre-flight of a manual trigger, always for the long side, and its refusal message.\<close>

definition manual_trigger_liq_safe :: "wiring \<Rightarrow> real \<Rightarrow> (engine, bool) prog" where
  "manual_trigger_liq_safe S price =
     (let l = leverage_cfg (st_cfg S); liq = liq_price_of price (lev_size l) ''long'' in
      if lev_size l \<le> 1 \<or> \<not> lev_enabled l then pret True
      else if liq \<le> 0 \<or> price \<le> 0 then pret False
      else if \<bar>price - liq\<bar> / price * 100 \<le> emergency_close_pct (lev_liq_guard l)
      then pseq (notify (Msg_Manual_Refused (emergency_close_pct (lev_liq_guard l)))) (pret False)
      else pret True)"

definition unlink_sentinel :: "string \<Rightarrow> (engine, unit) prog" where
  "unlink_sentinel f = pmod (\<lambda>e. e\<lparr>eg_unlinked := eg_unlinked e @ [f]\<rparr>)"

definition check_manual_trigger :: "wiring \<Rightarrow> tick_env \<Rightarrow> real \<Rightarrow> (engine, unit) prog" where
  "check_manual_trigger S t price =
     (case st_manual S of
        None \<Rightarrow> pskip
      | Some f \<Rightarrow>
          if \<not> env_manual_present t then pskip
          else
            pseq (unlink_sentinel f)
            (pbind (pget (\<lambda>e. opens e \<noteq> [])) (\<lambda>busy.
             if busy then pskip
             else pbind (manual_trigger_liq_safe S price) (\<lambda>safe.
             if safe then open_deal S t price None else pskip))))"

end
