(* ===== verification/Deal_Monitor.thy ===== *)
theory Deal_Monitor
  imports Engine_State
begin

text \<open>
  The monitoring of open deals (\<open>core/trading_engine.py\<close>: \<open>_update_deal_wick_trackers\<close>, \<open>_check_tp\<close>,
  \<open>_check_sl\<close>, \<open>_check_dca\<close>, \<open>_monitor_open_deals\<close>).  The handlers get the id of a deal and read the
  deal from the book, which is what holding the deal object amounts to: a mutation of the object is
  an update of its entry.  Log lines are left out.
\<close>

section \<open>Wick trackers\<close>

definition track :: "real \<Rightarrow> paper_deal \<Rightarrow> paper_deal" where
  "track price d =
     (let d1 = (if wick_high_since_open d < price then d\<lparr>wick_high_since_open := price\<rparr> else d) in
      if price < wick_low_since_open d1 then d1\<lparr>wick_low_since_open := price\<rparr> else d1)"

definition update_deal_wick_trackers :: "real \<Rightarrow> (engine, unit) prog" where
  "update_deal_wick_trackers price =
     pmod (\<lambda>e. e\<lparr>book := (book e)\<lparr>open_deals := map (\<lambda>(i, d). (i, track price d)) (opens e)\<rparr>\<rparr>)"

section \<open>Take profit\<close>

text \<open>The target percentage, \<open>None\<close> when take profit is off for the deal.\<close>

definition tp_pct_of :: "take_profit_config \<Rightarrow> paper_deal \<Rightarrow> real option" where
  "tp_pct_of c d =
     (case tp_ov d of
        Some ov \<Rightarrow> if get_or True (tpo_enabled ov) then Some (get_or (target_pct c) (tpo_target_pct ov)) else None
      | None \<Rightarrow> if tp_enabled c then Some (target_pct c) else None)"

definition tp_wick_hit :: "bool \<Rightarrow> paper_deal \<Rightarrow> real \<Rightarrow> real \<Rightarrow> bool" where
  "tp_wick_hit wick_sim d target price =
     (wick_sim \<and>
      (if side d = ''long'' then target \<le> max (wick_high_since_open d) price
       else min (wick_low_since_open d) price \<le> target))"

definition tp_tick_hit :: "paper_deal \<Rightarrow> real \<Rightarrow> real \<Rightarrow> bool" where
  "tp_tick_hit d target price = (if side d = ''long'' then target \<le> price else price \<le> target)"

definition engine_prices :: "engine \<Rightarrow> prices" where
  "engine_prices e = \<lparr>closes_tf = eg_closes e, highs_tf = eg_highs e, lows_tf = eg_lows e, opens_tf = []\<rparr>"

text \<open>The two reasons to hold a deal whose target price is reached.\<close>

definition below_minimum_tp :: "wiring \<Rightarrow> paper_deal \<Rightarrow> real \<Rightarrow> bool res" where
  "below_minimum_tp S d price =
     (case minimum_tp_pct (tp_cfg_of S) of
        None \<Rightarrow> Inr False
      | Some m \<Rightarrow> res_bind (calculate_pnl d price) (\<lambda>(_, q). Inr (q < m)))"

definition confirmation_missing :: "wiring \<Rightarrow> engine \<Rightarrow> bool res" where
  "confirmation_missing S e =
     (let tf = timeframe (st_cfg S) in
      if closes_for (eg_closes e) tf = None then Inr False
      else res_bind (check_tp_confirmation (st_pandas S) (st_cfg S) (eg_closes e) tf) (\<lambda>ok. Inr (\<not> ok)))"

definition check_tp :: "wiring \<Rightarrow> tick_env \<Rightarrow> string \<Rightarrow> real \<Rightarrow> (engine, unit) prog" where
  "check_tp S t did price = (\<lambda>e.
     case map_of (opens e) did of
       None \<Rightarrow> pskip e
     | Some d \<Rightarrow>
         (case tp_pct_of (tp_cfg_of S) d of
            None \<Rightarrow> pskip e
          | Some pct \<Rightarrow>
              pbind (plift (avg_entry_price d)) (\<lambda>avg.
              pbind (plift (compute_tp_target_price avg pct (side d))) (\<lambda>target.
              let wick_hit = tp_wick_hit (use_wick_simulation (st_cfg S)) d target price;
                  tick_hit = tp_tick_hit d target price in
              if wick_hit \<or> tick_hit then
                pbind (plift (below_minimum_tp S d price)) (\<lambda>hold.
                if hold then pskip
                else pbind (plift (confirmation_missing S e)) (\<lambda>hold.
                if hold then pskip
                else
                  let fill = (if wick_hit \<and> \<not> tick_hit then target else price) in
                  engine_exit S t d fill ''tp'' (Exit_Trigger ''price_tp'') ''tp_fee:''
                    (Msg_Take_Profit (symbol d) fill)))
              else
                (case check_tp_indicator_groups (st_pandas S) (st_cfg S) (engine_prices e) (timeframe (st_cfg S)) of
                   (True, info) \<Rightarrow>
                     engine_exit S t d price ''tp''
                       (case info of
                          Some (Entry_Trigger _ g is) \<Rightarrow> Indicator_Exit g is
                        | _ \<Rightarrow> Indicator_Exit '''' [])
                       ''tp_indicator_fee:'' (Msg_Take_Profit (symbol d) price)
                 | (False, _) \<Rightarrow> pskip))) e))"

section \<open>Stop loss\<close>

text \<open>Type and percentage, \<open>None\<close> when there is no stop.  An override that is enabled is not asked whether
  its type is \<open>none\<close>.\<close>

definition sl_params :: "stop_loss_config \<Rightarrow> paper_deal \<Rightarrow> (string \<times> real) option" where
  "sl_params c d =
     (case sl_ov d of
        Some ov \<Rightarrow>
          if get_or True (slo_enabled ov) then Some (get_or (sl_type c) (slo_type ov), get_or (sl_pct c) (slo_pct ov))
          else None
      | None \<Rightarrow> if sl_type c = ''none'' then None else Some (sl_type c, sl_pct c))"

text \<open>The running extreme a trailing stop follows: seeded with the price, then the best since open.\<close>

definition trail :: "bool \<Rightarrow> paper_deal \<Rightarrow> real \<Rightarrow> paper_deal" where
  "trail wick_sim d price =
     (let p0 = (if peak_price d = 0 then price else peak_price d);
          high = (if wick_sim then max (wick_high_since_open d) price else price);
          low = (if wick_sim then min (wick_low_since_open d) price else price) in
      d\<lparr>peak_price := (if side d = ''long'' then max p0 high else min p0 low)\<rparr>)"

definition check_sl :: "wiring \<Rightarrow> tick_env \<Rightarrow> string \<Rightarrow> real \<Rightarrow> (engine, unit) prog" where
  "check_sl S t did price = (\<lambda>e.
     case map_of (opens e) did of
       None \<Rightarrow> pskip e
     | Some d0 \<Rightarrow>
         (case sl_params (sl_cfg_of S) d0 of
            None \<Rightarrow> pskip e
          | Some (ty, pct) \<Rightarrow>
              let trailing = (ty = ''trailing'');
                  d = (if trailing then trail (use_wick_simulation (st_cfg S)) d0 price else d0) in
              pseq (if trailing then put_book_deal d else pskip)
              (pbind (plift (if trailing then Inr (peak_price d) else avg_entry_price d)) (\<lambda>anchor.
              pbind (plift (compute_sl_target_price anchor pct (side d))) (\<lambda>sl_price.
              if (if side d = ''long'' then price \<le> sl_price else sl_price \<le> price)
              then engine_exit S t d price ''sl''
                     (Exit_Trigger (if trailing then ''trailing_sl'' else ''price_sl'')) ''sl_fee:''
                     (Msg_Stop_Loss (symbol d) price)
              else pskip))) e))"

section \<open>DCA\<close>

definition dca_allowed :: "wiring \<Rightarrow> paper_deal \<Rightarrow> bool" where
  "dca_allowed S d =
     (dca_on (dca_of S) \<and> deal_dca_enabled d \<and> 1 < max_orders (dca_of S) \<and>
      int (dca_count d) < max_orders (dca_of S) - 1)"

definition dca_triggered :: "wiring \<Rightarrow> paper_deal \<Rightarrow> real \<Rightarrow> real \<Rightarrow> bool" where
  "dca_triggered S d last_price price =
     (let step = order_spacing_pct (dca_of S) * step_scale (dca_of S) ^ dca_count d in
      if side d = ''long'' then price \<le> last_price * (1 - step / 100)
      else last_price * (1 + step / 100) \<le> price)"

definition dca_size :: "wiring \<Rightarrow> paper_deal \<Rightarrow> real" where
  "dca_size S d = py_round (base_order_size (dca_of S) * dca_multiplier (dca_of S) ^ dca_count d) 8"

definition check_dca :: "wiring \<Rightarrow> tick_env \<Rightarrow> string \<Rightarrow> real \<Rightarrow> (engine, bool) prog" where
  "check_dca S t did price = (\<lambda>e.
     case map_of (opens e) did of
       None \<Rightarrow> (Inr False, e)
     | Some d \<Rightarrow>
         if \<not> dca_allowed S d then (Inr False, e)
         else
           pbind (plift (py_last (orders d))) (\<lambda>last_order.
           if \<not> dca_triggered S d (order_price last_order) price then pret False
           else
             let ord = \<lparr>order_number = int (dca_count d) + 2, order_price = price, order_size = dca_size S d,
                        order_timestamp = env_now t, order_type = ''dca''\<rparr>;
                 d1 = d\<lparr>orders := orders d @ [ord]\<rparr>;
                 fee = calc_fee S (dca_size S d) in
             pseq (put_book_deal d1)
             (pseq (charge_fee S fee (''dca_fee:'' @ deal_id d))
             (pseq (db_save_order S t ord (deal_id d) fee)
             (pseq (db_save_deal S t d1)
             (pbind (plift (avg_entry_price d1)) (\<lambda>avg.
             pseq (notify (Msg_Dca (symbol d) price (dca_size S d) (order_number ord) avg))
             (pret True))))))) e)"

section \<open>The monitoring loop\<close>

definition max_dca_per_tick :: nat where
  "max_dca_per_tick = 1"

text \<open>\<open>deal_id not in self.state.open_deals\<close> after a check skips the rest for that deal.\<close>

definition still_open :: "string \<Rightarrow> engine \<Rightarrow> bool" where
  "still_open did e = (did \<in> set (keys (opens e)))"

definition monitor_one :: "wiring \<Rightarrow> tick_env \<Rightarrow> real \<Rightarrow> string \<Rightarrow> nat \<Rightarrow> (engine, nat) prog" where
  "monitor_one S t price did n =
     pseq (check_tp S t did price)
     (pbind (pget (still_open did)) (\<lambda>b. if \<not> b then pret n else
     pseq (check_sl S t did price)
     (pbind (pget (still_open did)) (\<lambda>b. if \<not> b then pret n else
     if max_dca_per_tick \<le> n then pret n
     else pbind (check_dca S t did price) (\<lambda>placed. pret (if placed then n + 1 else n))))))"

fun monitor_all :: "wiring \<Rightarrow> tick_env \<Rightarrow> real \<Rightarrow> string list \<Rightarrow> nat \<Rightarrow> (engine, nat) prog" where
  "monitor_all S t price [] n = pret n"
| "monitor_all S t price (did # ds) n = pbind (monitor_one S t price did n) (monitor_all S t price ds)"

definition monitor_open_deals :: "wiring \<Rightarrow> tick_env \<Rightarrow> real \<Rightarrow> (engine, unit) prog" where
  "monitor_open_deals S t price =
     pseq (update_deal_wick_trackers price)
     (pbind (pget (\<lambda>e. keys (opens e))) (\<lambda>ids.
     pbind (monitor_all S t price ids 0) (\<lambda>_. pskip)))"

end
