(* ===== verification/Engine_Tick.thy ===== *)
theory Engine_Tick
  imports Engine_Upkeep Deal_Entry Deal_Monitor Decimal_Text
begin

text \<open>
  The tick of the engine and its life cycle (\<open>core/trading_engine.py\<close>: \<open>_check_deal_sentinels\<close>,
  \<open>_write_state\<close>, \<open>_load_state\<close>, \<open>_tick\<close>, \<open>start\<close>, \<open>stop\<close>).  Log lines, metrics and the dashboard's indicator
  snapshot are left out: nothing reads them back.
\<close>

section \<open>Sentinel files\<close>

definition engine_slug :: "bot_config \<Rightarrow> string" where
  "engine_slug cfg = map (\<lambda>c. if c = CHR '' '' then CHR ''_'' else c) (map lower_char (cfg_name cfg))"

text \<open>\<open>name.split(".", 1)[1].split("_", 2)\<close>: the second and third part, when there are three.\<close>

definition sentinel_parts :: "string \<Rightarrow> (string \<times> string) option" where
  "sentinel_parts n =
     (let rest = drop 1 (dropWhile (\<lambda>c. c \<noteq> CHR ''.'') n);
          tail1 = dropWhile (\<lambda>c. c \<noteq> CHR ''_'') rest;
          tail2 = dropWhile (\<lambda>c. c \<noteq> CHR ''_'') (drop 1 tail1) in
      if tail1 = [] \<or> tail2 = [] then None
      else Some (takeWhile (\<lambda>c. c \<noteq> CHR ''_'') (drop 1 tail1), drop 1 tail2))"

definition apply_edit :: "edit_settings \<Rightarrow> paper_deal \<Rightarrow> paper_deal" where
  "apply_edit es d =
     d\<lparr>tp_ov := get_or (tp_ov d) (es_tp es), sl_ov := get_or (sl_ov d) (es_sl es),
       deal_dca_enabled := get_or (deal_dca_enabled d) (es_dca es)\<rparr>"

definition engine_close_ctx :: "wiring \<Rightarrow> tick_env \<Rightarrow> close_ctx" where
  "engine_close_ctx S t =
     \<lparr>cc_user = st_user S, cc_slug = st_slug S, cc_name = cfg_name (st_cfg S), cc_fee = taker_fee (dca_of S),
      cc_notifier = True, cc_file = st_file S, cc_now = env_now t, cc_db_up = env_db_up t\<rparr>"

text \<open>A close through the shared handler; its fee is counted when there is one.\<close>

definition sentinel_close :: "wiring \<Rightarrow> tick_env \<Rightarrow> real \<Rightarrow> string \<Rightarrow> string \<Rightarrow> (engine, unit) prog" where
  "sentinel_close S t price action did =
     pbind (handler_close_deal (engine_close_ctx S t) did price action ''engine'') (\<lambda>r.
     case r of
       Refused _ \<Rightarrow> pskip
     | Done rep \<Rightarrow>
         if cr_fee_btc rep \<noteq> 0 then pmod (\<lambda>e. e\<lparr>eg_fees := eg_fees e + cr_fee_btc rep\<rparr>) else pskip)"

text \<open>A file that cannot be read stays where it is; any other is removed, whatever it asks for.\<close>

definition handle_sentinel :: "wiring \<Rightarrow> tick_env \<Rightarrow> real \<Rightarrow> string \<times> edit_settings res \<Rightarrow> (engine, unit) prog" where
  "handle_sentinel S t price = (\<lambda>(n, payload).
     case sentinel_parts n of
       None \<Rightarrow> unlink_sentinel n
     | Some (action, did) \<Rightarrow>
         if \<not> deal_id_match did then unlink_sentinel n
         else case payload of
           Inl _ \<Rightarrow> pskip
         | Inr settings \<Rightarrow>
             pseq (unlink_sentinel n) (\<lambda>e.
             case map_of (opens e) did of
               None \<Rightarrow> pskip e
             | Some d \<Rightarrow>
                 if action = ''edit'' then put_book_deal (apply_edit settings d) e
                 else if action = ''cancel'' \<or> action = ''close'' then sentinel_close S t price action did e
                 else pskip e))"

fun handle_sentinels :: "wiring \<Rightarrow> tick_env \<Rightarrow> real \<Rightarrow> (string \<times> edit_settings res) list \<Rightarrow> (engine, unit) prog" where
  "handle_sentinels S t price [] = pskip"
| "handle_sentinels S t price (f # fs) = pseq (handle_sentinel S t price f) (handle_sentinels S t price fs)"

definition check_deal_sentinels :: "wiring \<Rightarrow> tick_env \<Rightarrow> real \<Rightarrow> (engine, unit) prog" where
  "check_deal_sentinels S t price =
     handle_sentinels S t price
       (filter (\<lambda>(n, _). prefix (engine_slug (st_cfg S) @ ''.deal_'') n) (env_log_files t))"

section \<open>The state file\<close>

definition closed_deals_ui_cap :: nat where
  "closed_deals_ui_cap = 50"

definition state_snapshot :: "wiring \<Rightarrow> real \<Rightarrow> bool \<Rightarrow> engine \<Rightarrow> state_json res" where
  "state_snapshot S price sched_open e =
     (let sm = state_summary (book e) in
      res_bind (all_ok (map (\<lambda>d. deal_to_dict d price) (vals (opens e)))) (\<lambda>os.
      res_bind (all_ok (map (\<lambda>d. deal_to_dict d 0) (take closed_deals_ui_cap (rev (closed_deals (book e)))))) (\<lambda>hist.
      Inr \<lparr>sj_bot_name = Some (cfg_name (st_cfg S)), sj_running = Some True, sj_current_price = Some price,
           sj_schedule_open = Some sched_open, sj_balance_btc = Some (sum_balance sm),
           sj_initial_balance_btc = Some (initial_balance_btc (book e)),
           sj_total_pnl_btc = Some (sum_total_pnl sm), sj_win_rate = Some (sum_win_rate sm),
           sj_open_deals_count = Some (length (opens e)), sj_closed_deals_count = Some (sum_closed sm),
           sj_fees_paid_btc = Some (py_round (eg_fees e) 10), sj_open_deals = Some os,
           sj_closed_deals = Some hist, sj_drawdown_guard = Some (dd_to_dict (eg_dd e)),
           sj_paused_by_drawdown = Some (eg_paused e)\<rparr>)))"

definition write_state :: "wiring \<Rightarrow> real \<Rightarrow> bool \<Rightarrow> (engine, unit) prog" where
  "write_state S price sched_open = (\<lambda>e.
     if st_file S = None then pskip e
     else pbind (plift (state_snapshot S price sched_open e)) (\<lambda>j.
       pmod (\<lambda>e. e\<lparr>disk := state_write (st_file S) j (disk e)\<rparr>)) e)"

definition restore_fields :: "int \<Rightarrow> state_json \<Rightarrow> engine \<Rightarrow> engine" where
  "restore_fields now raw e =
     e\<lparr>book := restore_book now (get_or [] (sj_closed_deals raw)) (get_or [] (sj_open_deals raw))
         ((book e)\<lparr>balance_btc := get_or (balance_btc (book e)) (sj_balance_btc raw),
                   initial_balance_btc := get_or (initial_balance_btc (book e)) (sj_initial_balance_btc raw)\<rparr>),
       eg_fees := get_or (eg_fees e) (sj_fees_paid_btc raw),
       eg_dd := (case sj_drawdown_guard raw of None \<Rightarrow> eg_dd e | Some j \<Rightarrow> dd_from_dict j (eg_dd e)),
       eg_paused := (eg_paused e \<or> get_or False (sj_paused_by_drawdown raw))\<rparr>"

definition load_state :: "wiring \<Rightarrow> tick_env \<Rightarrow> (engine, unit) prog" where
  "load_state S t = (\<lambda>e.
     case state_load (st_file S) (disk e) of
       (None, fs) \<Rightarrow> (Inr (), e\<lparr>disk := fs\<rparr>)
     | (Some raw, fs) \<Rightarrow>
         let e1 = restore_fields (env_now t) raw (e\<lparr>disk := fs\<rparr>) in
         with_slug S (\<lambda>slug. pseq (on_ledger (env_db_up t)
           (replay_deals_in_transaction (vals (opens e1) @ closed_deals (book e1)) slug (cfg_name (st_cfg S)) (st_user S)))
           pskip) e1)"

definition boot :: "wiring \<Rightarrow> tick_env \<Rightarrow> real \<Rightarrow> ledger \<Rightarrow> dir \<Rightarrow> engine" where
  "boot S t initial_balance db fs = snd (load_state S t (init_engine S initial_balance db fs))"

section \<open>The tick\<close>

definition ticker_price :: "real option \<times> real \<Rightarrow> real" where
  "ticker_price = (\<lambda>(mark, last_price). case mark of Some m \<Rightarrow> m | None \<Rightarrow> last_price)"

definition tick_body :: "wiring \<Rightarrow> tick_env \<Rightarrow> (engine, unit) prog" where
  "tick_body S t =
     pbind (plift (env_ticker t)) (\<lambda>ticker.
     let price = ticker_price ticker in
     pseq (pmod (\<lambda>e. e\<lparr>eg_price := price\<rparr>))
     (pbind (plift (schedule_is_open (st_date_str S) (schedule_cfg (st_cfg S)) (env_today t) (env_hhmm t))) (\<lambda>sched_open.
     pseq (check_schedule_transition S t sched_open)
     (pseq (pmod (fetch_closes_if_needed S t))
     (pseq (pmod (refresh_wick_candle S t))
     (pseq (monitor_open_deals S t price)
     (pseq (update_liq_guard price)
     (pseq (update_drawdown_guard S price)
     (pseq (check_manual_trigger S t price)
     (pseq (check_deal_sentinels S t price)
     (pseq (\<lambda>e. if sched_open \<and> \<not> eg_paused e then check_entry S t price e else pskip e)
     (pseq (write_state S price sched_open)
     (pmod (\<lambda>e. e\<lparr>eg_streak := tick_succeeded (eg_streak e)\<rparr>))))))))))))))"

text \<open>A \<open>NotImplementedError\<close> goes through to the caller; every other exception is counted and perhaps
  reported.\<close>

definition tick_caught :: "wiring \<Rightarrow> tick_env \<Rightarrow> py_error \<Rightarrow> engine \<Rightarrow> engine" where
  "tick_caught S t err e =
     (case tick_failed err (env_http_status t) (st_exchange S) (cfg_pair (st_cfg S)) (eg_streak e) of
        (msg, s) \<Rightarrow>
          e\<lparr>eg_streak := s,
            outbox := outbox e @ (case msg of None \<Rightarrow> [] | Some te \<Rightarrow> [Msg_Persistent te])\<rparr>)"

definition tick :: "wiring \<Rightarrow> tick_env \<Rightarrow> (engine, unit) prog" where
  "tick S t = (\<lambda>e.
     case tick_body S t e of
       (Inr _, e1) \<Rightarrow> (Inr (), e1)
     | (Inl err, e1) \<Rightarrow>
         if ''NotImplementedError'' \<in> set (mro_of err) then (Inl err, e1)
         else (Inr (), tick_caught S t err e1))"

section \<open>Start, loop, stop\<close>

definition mode_value :: "bot_mode \<Rightarrow> string" where
  "mode_value m = (case m of LIVE \<Rightarrow> ''live'' | PAPER \<Rightarrow> ''paper'' | BACKTEST \<Rightarrow> ''backtest'')"

fun tick_loop :: "wiring \<Rightarrow> tick_env list \<Rightarrow> (engine, unit) prog" where
  "tick_loop S [] = pskip"
| "tick_loop S (t # ts) = (\<lambda>e. if eg_running e then pseq (tick S t) (tick_loop S ts) e else pskip e)"

definition engine_stop :: "wiring \<Rightarrow> engine \<Rightarrow> engine" where
  "engine_stop S e =
     e\<lparr>eg_running := False, disk := mark_stopped (st_file S) (disk e),
       eg_wick := filter (\<lambda>(k, _). k \<in> required_timeframes (st_cfg S) (timeframe (st_cfg S))) (eg_wick e),
       outbox := outbox e @ [Msg_Shutdown]\<rparr>"

text \<open>The environments are those of the ticks until the interrupt.\<close>

definition engine_start :: "wiring \<Rightarrow> tick_env list \<Rightarrow> (engine, unit) prog" where
  "engine_start S ts =
     pseq (pmod (\<lambda>e. e\<lparr>eg_running := True,
       outbox := outbox e @ [Msg_Startup (mode_value (cfg_mode (st_cfg S))) (st_exchange S)]\<rparr>))
     (tick_loop S ts)"

end
