(* ===== verification/Trade_Steps.thy ===== *)
theory Trade_Steps
  imports Deal_Monitor
begin

text \<open>
  An abstract account of what trading code may do to a bot: a step relation on the book, the fees
  counted as paid and the keys of the ledger's deal rows.  Every handler of the engine is a run of
  these steps (the simulation lemmas), so a property of all runs, shown once by rule induction, holds
  for all of them: the well-formed book, the accounting identity, the cap on DCA orders, the ledger
  that knows every open deal.
\<close>

section \<open>The view and its steps\<close>

type_synonym view = "paper_state \<times> real \<times> (string \<times> int) set"

definition ledger_keys :: "ledger \<Rightarrow> (string \<times> int) set" where
  "ledger_keys db = (\<lambda>r. (row_id r, row_user r)) ` set (deals_tbl db)"

definition view_of :: "engine \<Rightarrow> view" where
  "view_of e = (book e, eg_fees e, ledger_keys (dledger e))"

text \<open>Two states of one deal with the same position: only trackers, overrides, triggers may differ.\<close>

definition same_position :: "paper_deal \<Rightarrow> paper_deal \<Rightarrow> bool" where
  "same_position d d' =
     (deal_id d' = deal_id d \<and> orders d' = orders d \<and> leverage d' = leverage d \<and> side d' = side d \<and>
      is_open d' = is_open d)"

definition pay :: "real \<Rightarrow> paper_state \<Rightarrow> paper_state" where
  "pay fee b = b\<lparr>balance_btc := balance_btc b - fee\<rparr>"

definition dca_order :: "wiring \<Rightarrow> paper_deal \<Rightarrow> real \<Rightarrow> int \<Rightarrow> paper_order" where
  "dca_order S d price now =
     \<lparr>order_number = int (dca_count d) + 2, order_price = price, order_size = dca_size S d,
      order_timestamp = now, order_type = ''dca''\<rparr>"

inductive vstep :: "wiring \<Rightarrow> view \<Rightarrow> view \<Rightarrow> bool" for S where
  Ledger: "K \<subseteq> K' \<Longrightarrow> vstep S (b, f, K) (b, f, K')"
| Touch: "list_all2 (\<lambda>(i, d) (j, d'). i = j \<and> same_position d d') (open_deals b) os \<Longrightarrow>
    vstep S (b, f, K) (b\<lparr>open_deals := os\<rparr>, f, K)"
| Close: "map_of (open_deals b) i = Some d \<Longrightarrow> calculate_pnl d p = Inr (x, q) \<Longrightarrow>
    vstep S (b, f, K) (snd (state_close_deal i p r n b), f, K)"
| Paid: "0 \<le> fee \<Longrightarrow> vstep S (b, f, K) (pay fee b, f + fee, K)"
| Unpaid: "0 \<le> fee \<Longrightarrow> balance_btc b < fee \<Longrightarrow> vstep S (b, f, K) (b, f + fee, K)"
| Dca: "map_of (open_deals b) (deal_id d) = Some d \<Longrightarrow> dca_allowed S d \<Longrightarrow> 0 < p \<Longrightarrow>
    vstep S (b, f, K) (put_deal (d\<lparr>orders := orders d @ [dca_order S d p n]\<rparr>) b, f, K)"
| Open: "open_deals b = [] \<Longrightarrow> deal_wf d \<Longrightarrow> is_open d \<Longrightarrow> dca_count d = 0 \<Longrightarrow>
    (st_slug S \<noteq> None \<Longrightarrow> (deal_id d, st_user S) \<in> K) \<Longrightarrow>
    vstep S (b, f, K) (state_open_deal d b, f, K)"

abbreviation vrun :: "wiring \<Rightarrow> view \<Rightarrow> view \<Rightarrow> bool" where
  "vrun S \<equiv> (vstep S)\<^sup>*\<^sup>*"

inductive_cases vstep_cases: "vstep S v v'"

text \<open>The configuration a running bot has, and lot sizes that do not round to nothing.\<close>

definition wiring_ok :: "wiring \<Rightarrow> bool" where
  "wiring_ok S =
     (valid_bot (st_cfg S) \<and>
      (\<forall>k < 50. 0 < py_round (base_order_size (dca_of S) * dca_multiplier (dca_of S) ^ k) 8))"

lemma wiring_ok_parts:
  assumes "wiring_ok S"
  shows "0 \<le> taker_fee (dca_of S)" "0 < base_order_size (dca_of S)" "1 \<le> lev_size (leverage_cfg (st_cfg S))"
    "valid_side (direction (st_cfg S))" "max_orders (dca_of S) \<le> 50"
  using assms by (auto simp: wiring_ok_def valid_bot_def valid_dca_def valid_leverage_def valid_side_def)

lemma dca_size_pos: "wiring_ok S \<Longrightarrow> dca_allowed S d \<Longrightarrow> 0 < dca_size S d"
proof -
  assume a: "wiring_ok S" "dca_allowed S d"
  then have "dca_count d < 50"
    using wiring_ok_parts(5) [OF a(1)] by (auto simp: dca_allowed_def)
  then show ?thesis using a(1) unfolding wiring_ok_def dca_size_def by blast
qed

section \<open>Invariants of runs\<close>

text \<open>What each step keeps, every run keeps; what no step lowers, no run lowers.\<close>

lemma same_position_wf: "same_position d d' \<Longrightarrow> deal_wf d' = deal_wf d"
  by (rule deal_wf_cong) (simp_all add: same_position_def)

lemma same_position_refl [simp]: "same_position d d"
  by (simp add: same_position_def)

lemma touch_keys:
  "list_all2 (\<lambda>(i, d) (j, d'). i = j \<and> same_position d d') xs ys \<Longrightarrow> keys ys = keys xs"
  by (induction rule: list_all2_induct) auto

lemma touch_member:
  "list_all2 (\<lambda>(i, d) (j, d'). i = j \<and> same_position d d') xs ys \<Longrightarrow> (i, d') \<in> set ys \<Longrightarrow>
    \<exists>d. (i, d) \<in> set xs \<and> same_position d d'"
  by (induction rule: list_all2_induct) auto

lemma touch_update:
  "map_of xs (deal_id d) = Some d0 \<Longrightarrow> same_position d0 d \<Longrightarrow>
    list_all2 (\<lambda>(i, d) (j, d'). i = j \<and> same_position d d') xs (AList.update (deal_id d) d xs)"
  by (induction xs) (auto simp: list_all2_same split: if_splits)

lemma touch_put:
  "map_of (open_deals b) (deal_id d) = Some d0 \<Longrightarrow> same_position d0 d \<Longrightarrow> vstep S (b, f, K) (put_deal d b, f, K)"
  unfolding put_deal_def by (rule vstep.Touch) (rule touch_update)

lemma dca_deal_wf:
  "wiring_ok S \<Longrightarrow> dca_allowed S d \<Longrightarrow> deal_wf d \<Longrightarrow> 0 < p \<Longrightarrow> deal_wf (d\<lparr>orders := orders d @ [dca_order S d p n]\<rparr>)"
  using dca_size_pos [of S d] by (simp add: deal_wf_def order_wf_def dca_order_def)

lemma vstep_book_wf: "vstep S v v' \<Longrightarrow> wiring_ok S \<Longrightarrow> book_wf (fst v) \<Longrightarrow> book_wf (fst v')"
proof (induction rule: vstep.induct)
  case (Touch b os f K)
  have "entry_wf (i, d)" if "(i, d) \<in> set os" for i d
    using touch_member [OF Touch(1) that] Touch(3)
    by (auto simp: book_wf_def list_all_iff entry_wf_def same_position_wf) (auto simp: same_position_def)
  then show ?case
    using Touch touch_keys [OF Touch(1)] by (auto simp: book_wf_def list_all_iff)
next
  case (Close b i d p x q f K r n)
  then show ?case by (auto intro: wf_intros)
next
  case (Dca b d p f K n)
  have wf: "deal_wf d" "is_open d"
    using book_wf_lookup [of b "deal_id d" d] Dca by auto
  show ?case
    using Dca wf by (auto intro!: book_wf_put dca_deal_wf)
next
  case (Open b d K f)
  then show ?case by (auto intro: wf_intros)
qed (auto simp: pay_def book_wf_def)

interpretation sound_book: step_invariant "vstep S" "\<lambda>v. wiring_ok S \<longrightarrow> book_wf (fst v)" for S
  by unfold_locales (auto dest: vstep_book_wf)

lemma vrun_book_wf: "vrun S v v' \<Longrightarrow> wiring_ok S \<Longrightarrow> book_wf (fst v) \<Longrightarrow> book_wf (fst v')"
  using sound_book.run_keeps by blast

text \<open>Accounting: what the balance would be if every fee counted as paid had been taken is never more
  than the balance.\<close>

definition unpaid_fees :: "view \<Rightarrow> real" where
  "unpaid_fees v = balance_btc (fst v) - (initial_balance_btc (fst v) + total_pnl_btc (fst v) - fst (snd v))"

lemma vstep_accounting:
  "vstep S v v' \<Longrightarrow>
    initial_balance_btc (fst v') = initial_balance_btc (fst v) \<and> unpaid_fees v \<le> unpaid_fees v'"
proof (induction rule: vstep.induct)
  case (Close b i d p x q f K r n)
  then show ?case
    by (simp add: close_deal_found unpaid_fees_def total_pnl_btc_def)
qed (auto simp: unpaid_fees_def pay_def total_pnl_btc_def put_deal_def state_open_deal_def)

interpretation accounts: step_invariant "vstep S"
    "\<lambda>v. initial_balance_btc (fst v) = i \<and> u \<le> unpaid_fees v" for S i u
  by unfold_locales (auto dest!: vstep_accounting)

lemma vrun_accounting:
  "vrun S v v' \<Longrightarrow>
    initial_balance_btc (fst v') = initial_balance_btc (fst v) \<and> unpaid_fees v \<le> unpaid_fees v'"
  using accounts.run_keeps by blast

text \<open>No deal ever has more DCA orders than the configuration allows.\<close>

definition dca_capped :: "wiring \<Rightarrow> paper_state \<Rightarrow> bool" where
  "dca_capped S b = list_all (\<lambda>(i, d). int (dca_count d) \<le> max 0 (max_orders (dca_of S) - 1)) (open_deals b)"

lemma dca_count_snoc: "dca_count (d\<lparr>orders := orders d @ [dca_order S d p n]\<rparr>) = dca_count d + 1"
  by (simp add: dca_count_def dca_order_def)

lemma vstep_capped: "vstep S v v' \<Longrightarrow> dca_capped S (fst v) \<Longrightarrow> dca_capped S (fst v')"
proof (induction rule: vstep.induct)
  case (Touch b os f K)
  have "int (dca_count d') \<le> max 0 (max_orders (dca_of S) - 1)" if m: "(i, d') \<in> set os" for i d'
  proof -
    obtain d where d: "(i, d) \<in> set (open_deals b)" "same_position d d'"
      using touch_member [OF Touch(1) m] by blast
    then have "dca_count d' = dca_count d" by (simp add: same_position_def dca_count_def)
    moreover have "int (dca_count d) \<le> max 0 (max_orders (dca_of S) - 1)"
      using Touch(2) d(1) by (fastforce simp: dca_capped_def list_all_iff)
    ultimately show ?thesis by simp
  qed
  then show ?case by (auto simp: dca_capped_def list_all_iff)
next
  case (Close b i d p x q f K r n)
  then show ?case by (auto simp: close_deal_found dca_capped_def list_all_iff set_delete_eq)
next
  case (Dca b d p f K n)
  let ?d = "d\<lparr>orders := orders d @ [dca_order S d p n]\<rparr>"
  have new: "int (dca_count ?d) \<le> max 0 (max_orders (dca_of S) - 1)"
    using Dca(2) unfolding dca_count_snoc dca_allowed_def by linarith
  have "int (dca_count y) \<le> max 0 (max_orders (dca_of S) - 1)" if "(j, y) \<in> set (open_deals (put_deal ?d b))" for j y
    using that new Dca(4) set_update_subset [of "deal_id d" ?d "open_deals b"]
    by (fastforce simp: put_deal_def dca_capped_def list_all_iff)
  then show ?case by (auto simp: dca_capped_def list_all_iff)
next
  case (Open b d K f)
  then show ?case by (simp add: dca_capped_def state_open_deal_def)
qed (auto simp: pay_def dca_capped_def)

interpretation capped: step_invariant "vstep S" "\<lambda>v. dca_capped S (fst v)" for S
  by unfold_locales (rule vstep_capped)

text \<open>At most one deal is open, and the ledger has a row for each.\<close>

definition single_mirrored :: "wiring \<Rightarrow> view \<Rightarrow> bool" where
  "single_mirrored S v =
     (length (open_deals (fst v)) \<le> 1 \<and>
      (st_slug S \<noteq> None \<longrightarrow> (\<forall>i \<in> set (keys (open_deals (fst v))). (i, st_user S) \<in> snd (snd v))))"

lemma set_delete_keys: "set (keys (AList.delete k d)) \<subseteq> set (keys d)"
  by (auto simp: set_delete_eq)

lemma keys_update_mem: "k \<in> set (keys d) \<Longrightarrow> keys (AList.update k v d) = keys d"
  by (induction d) auto

lemma vstep_mirrored: "vstep S v v' \<Longrightarrow> single_mirrored S v \<Longrightarrow> single_mirrored S v'"
proof (induction rule: vstep.induct)
  case (Touch b os f K)
  then show ?case
    using touch_keys [OF Touch(1)] list_all2_lengthD [OF Touch(1)] by (simp add: single_mirrored_def)
next
  case (Close b i d p x q f K r n)
  then show ?case
    using le_trans [OF length_delete_alist [of i "open_deals b"]]
    unfolding single_mirrored_def close_deal_found [OF Close(1,2)] by (auto simp: set_delete_eq)
next
  case (Dca b d p f K n)
  have "deal_id d \<in> set (keys (open_deals b))" using Dca(1) by (rule map_of_mem_keys)
  then have k: "keys (open_deals (put_deal (d\<lparr>orders := orders d @ [dca_order S d p n]\<rparr>) b)) = keys (open_deals b)"
    by (simp add: put_deal_def keys_update_mem)
  then have l: "length (open_deals (put_deal (d\<lparr>orders := orders d @ [dca_order S d p n]\<rparr>) b)) = length (open_deals b)"
    by (metis length_map)
  show ?case using Dca(4) unfolding single_mirrored_def fst_conv snd_conv l k by blast
next
  case (Open b d K f)
  then show ?case by (auto simp: single_mirrored_def state_open_deal_def)
qed (auto simp: pay_def single_mirrored_def)

interpretation mirrored: step_invariant "vstep S" "single_mirrored S" for S
  by unfold_locales (rule vstep_mirrored)

section \<open>The ledger calls only add keys\<close>

lemma ledger_keys_map:
  "(\<And>r. row_id (g r) = row_id r \<and> row_user (g r) = row_user r) \<Longrightarrow>
    ledger_keys (db\<lparr>deals_tbl := map g (deals_tbl db)\<rparr>) = ledger_keys db"
  by (simp add: ledger_keys_def image_image)

lemma keys_insert_deal: "insert_deal_row r db = Inr db' \<Longrightarrow> ledger_keys db' = insert (row_id r, row_user r) (ledger_keys db)"
  by (auto simp: insert_deal_row_def ledger_keys_def split: if_splits)

lemma keys_create_deal:
  "ledger_keys db \<subseteq> ledger_keys (snd (create_deal d slug name u db))"
  "fst (create_deal d slug name u db) = Inr v \<Longrightarrow> (deal_id d, u) \<in> ledger_keys (snd (create_deal d slug name u db))"
proof -
  let ?r = "res_bind (deal_row_tuple d slug name u) (\<lambda>row. insert_deal_row row db)"
  have r: "create_deal d slug name u db = (case ?r of Inl e \<Rightarrow> (Inl e, db) | Inr db' \<Rightarrow> (Inr (), db'))"
    by (simp add: create_deal_def commit_def)
  have "ledger_keys db' = insert (deal_id d, u) (ledger_keys db)" if "?r = Inr db'" for db'
    using that by (auto simp: res_bind_eq_Inr_iff keys_insert_deal dest!: deal_row_tuple_keys)
  then show "ledger_keys db \<subseteq> ledger_keys (snd (create_deal d slug name u db))"
    "fst (create_deal d slug name u db) = Inr v \<Longrightarrow> (deal_id d, u) \<in> ledger_keys (snd (create_deal d slug name u db))"
    unfolding r by (auto split: sum.splits)
qed

lemma keys_update_deal: "ledger_keys (snd (update_deal d slug name u db)) = ledger_keys db"
proof (cases "deal_row_tuple d slug name u")
  case (Inr row)
  have "row_id (if row_matches (row_id row) (row_user row) (row_slug row) r then row else r) = row_id r
      \<and> row_user (if row_matches (row_id row) (row_user row) (row_slug row) r then row else r) = row_user r" for r
    by (auto simp: row_matches_def)
  then show ?thesis by (simp add: update_deal_def Inr ledger_keys_map)
qed (simp add: update_deal_def)

lemma keys_save_deal: "ledger_keys db \<subseteq> ledger_keys (snd (save_deal d slug name u db))"
  using keys_update_deal [of d slug name u db] keys_create_deal(1) [of "snd (update_deal d slug name u db)" d slug name u]
  by (auto simp: save_deal_def pbind_apply split: prod.split sum.split)

lemma keys_save_order: "ledger_keys (snd (save_order ord did slug u fee db)) = ledger_keys db"
  by (auto simp: save_order_def commit_def insert_order_row_def ledger_keys_def split: sum.split)

lemma keys_close_deal: "ledger_keys (snd (ledger_close_deal did p r b q u ts trig db)) = ledger_keys db"
  by (simp add: ledger_close_deal_def ledger_keys_map close_row_def)

text \<open>A ledger call of the engine: it returns, and changes the ledger only, whose keys grow.\<close>

lemma with_slug_ledger:
  assumes "\<And>s db. ledger_keys db \<subseteq> ledger_keys (snd (m s db))"
  shows "\<exists>db. with_slug S (\<lambda>s. on_ledger up (m s)) e = (Inr (), e\<lparr>dledger := db\<rparr>) \<and>
    ledger_keys (dledger e) \<subseteq> ledger_keys db"
proof (cases "st_slug S")
  case None
  have "e = e\<lparr>dledger := dledger e\<rparr>" by simp
  then show ?thesis unfolding with_slug_def None by (metis option.case(1) pskip_apply order_refl)
next
  case (Some s)
  show ?thesis
    using assms [of "dledger e" s] snd_on_ledger [of up "m s" e]
    by (cases "on_ledger up (m s) e")
      (auto simp: with_slug_def Some pseq_def pbind_apply ptry_apply split: sum.split intro!: exI)
qed

lemma db_calls:
  "\<exists>db. db_save_deal S t d e = (Inr (), e\<lparr>dledger := db\<rparr>) \<and> ledger_keys (dledger e) \<subseteq> ledger_keys db"
  "\<exists>db. db_save_order S t ord did fee e = (Inr (), e\<lparr>dledger := db\<rparr>) \<and> ledger_keys (dledger e) \<subseteq> ledger_keys db"
  "\<exists>db. db_close_deal S t did p r b q trig e = (Inr (), e\<lparr>dledger := db\<rparr>) \<and> ledger_keys (dledger e) \<subseteq> ledger_keys db"
  unfolding db_save_deal_def db_save_order_def db_close_deal_def
  using with_slug_ledger [of "\<lambda>s. save_deal d s (cfg_name (st_cfg S)) (st_user S)"]
    with_slug_ledger [of "\<lambda>s. save_order ord did s (st_user S) fee"]
    with_slug_ledger [of "\<lambda>_. ledger_close_deal did p r b q (st_user S) (env_now t) (Some trig)"]
    keys_save_deal keys_save_order keys_close_deal
  by (metis order_refl)+

section \<open>Fees and exits as runs\<close>

lemma charge_fee_eq:
  "charge_fee S fee reason e =
    (Inr (), if balance_btc (book e) < fee
      then e\<lparr>outbox := outbox e @ [Msg_Insufficient reason], eg_fees := eg_fees e + fee\<rparr>
      else e\<lparr>book := pay fee (book e), eg_fees := eg_fees e + fee\<rparr>)"
  by (simp add: charge_fee_def paper_deduct_def pbind_apply pay_def)

lemma vrun_step: "vstep S v v' \<Longrightarrow> vrun S v' v'' \<Longrightarrow> vrun S v v''"
  by (rule converse_rtranclp_into_rtranclp)

lemma charge_fee_run: "0 \<le> fee \<Longrightarrow> vstep S (view_of e) (view_of (snd (charge_fee S fee reason e)))"
  by (auto simp: charge_fee_eq view_of_def intro: vstep.Paid vstep.Unpaid)

end
