(* ===== verification/Monitor_Safety.thy ===== *)
theory Monitor_Safety
  imports Trade_Steps
begin

text \<open>
  What the monitoring handlers guarantee: each is a run of trade steps; an exit at take profit is
  never worse than the target; a stop fires on the live price only and its trailing line only moves
  in favour of the deal; a tick adds at most one DCA order over all deals, those it closes included.
\<close>

section \<open>Exits\<close>

definition exit_book ::
  "wiring \<Rightarrow> tick_env \<Rightarrow> paper_deal \<Rightarrow> real \<Rightarrow> string \<Rightarrow> trigger \<Rightarrow> real \<Rightarrow> real \<Rightarrow> paper_state \<Rightarrow> paper_state" where
  "exit_book S t d price reason trig b q s =
     s\<lparr>balance_btc := balance_btc s + b, open_deals := AList.delete (deal_id d) (open_deals s),
       closed_deals := closed_deals s @ [closed_copy price reason (env_now t) b q (d\<lparr>exit_trigger := Some trig\<rparr>)]\<rparr>"

text \<open>The fields trading handlers leave alone.\<close>

definition control :: "engine \<Rightarrow> bool \<times> dd_guard \<times> bool \<times> streak \<times> per_tf" where
  "control e = (eg_paused e, eg_dd e, eg_running e, eg_streak e, eg_closes e)"

definition after_fee :: "real \<Rightarrow> paper_state \<Rightarrow> paper_state" where
  "after_fee fee s = (if balance_btc s < fee then s else pay fee s)"

lemma after_fee_simps [simp]:
  "open_deals (after_fee fee s) = open_deals s" "closed_deals (after_fee fee s) = closed_deals s"
  by (simp_all add: after_fee_def pay_def)

lemma engine_exit_eq:
  assumes "calculate_pnl d price = Inr (b, q)"
  shows "\<exists>e'. engine_exit S t d price reason trig tag msg e = (Inr (), e') \<and>
     book e' = after_fee (calc_fee S (total_size d)) (exit_book S t d price reason trig b q (book e)) \<and>
     eg_fees e' = eg_fees e + calc_fee S (total_size d) \<and>
     ledger_keys (dledger e) \<subseteq> ledger_keys (dledger e') \<and> control e' = control e"
proof -
  let ?d1 = "d\<lparr>exit_trigger := Some trig\<rparr>" and ?fee = "calc_fee S (total_size d)"
  have "calculate_pnl ?d1 price = Inr (b, q)" using assms by (simp add: pnl_cong [of ?d1 d])
  note cl = close_after_put [OF this, of reason "env_now t" "book e", simplified]
  let ?s = "exit_book S t d price reason trig b q (book e)"
  let ?e1 = "if balance_btc ?s < ?fee
    then e\<lparr>book := ?s, outbox := outbox e @ [Msg_Insufficient (tag @ deal_id d)], eg_fees := eg_fees e + ?fee\<rparr>
    else e\<lparr>book := pay ?fee ?s, eg_fees := eg_fees e + ?fee\<rparr>"
  obtain db where db: "db_close_deal S t (deal_id d) price reason b q trig ?e1 = (Inr (), ?e1\<lparr>dledger := db\<rparr>)"
    "ledger_keys (dledger ?e1) \<subseteq> ledger_keys db"
    using db_calls(3) by blast
  have "engine_exit S t d price reason trig tag msg e =
      pseq (db_close_deal S t (deal_id d) price reason b q trig) (notify (msg b q)) ?e1"
    by (simp add: engine_exit_def assms pseq_def [of "put_book_deal _"] pbind_apply on_book_def cl
        pseq_def [of "charge_fee _ _ _"] charge_fee_eq exit_book_def)
  also have "\<dots> = (Inr (), ?e1\<lparr>dledger := db, outbox := outbox ?e1 @ [msg b q]\<rparr>)"
    by (simp add: pseq_def pbind_apply db(1))
  finally have eq: "engine_exit S t d price reason trig tag msg e = (Inr (), ?e1\<lparr>dledger := db, outbox := outbox ?e1 @ [msg b q]\<rparr>)" .
  show ?thesis
    unfolding eq using db(2) by (cases "balance_btc ?s < ?fee") (simp_all add: after_fee_def control_def)
qed

lemma close_view:
  assumes "map_of (opens e) (deal_id d) = Some d0" "same_position d0 d" "calculate_pnl d price = Inr (b, q)" "book_wf (book e)"
  shows "vrun S (book e, f, K) (exit_book S t d price reason trig b q (book e), f, K)"
proof -
  let ?d1 = "d\<lparr>exit_trigger := Some trig\<rparr>"
  have "deal_id d \<in> set (keys (opens e))" using assms(1) by (rule map_of_mem_keys)
  have p1: "calculate_pnl ?d1 price = Inr (b, q)" using assms(3) by (simp add: pnl_cong [of ?d1 d])
  have "vstep S (book e, f, K) (put_deal ?d1 (book e), f, K)"
    by (rule touch_put [where d = ?d1 and d0 = d0]) (use assms(1,2) in \<open>simp_all add: same_position_def\<close>)
  moreover have "vstep S (put_deal ?d1 (book e), f, K) (snd (state_close_deal (deal_id d) price reason (env_now t) (put_deal ?d1 (book e))), f, K)"
    using put_deal_lookup [of ?d1 "book e"] p1 by (intro vstep.Close [where d = ?d1]) auto
  moreover have "snd (state_close_deal (deal_id d) price reason (env_now t) (put_deal ?d1 (book e)))
      = exit_book S t d price reason trig b q (book e)"
    using close_after_put [OF p1, of reason "env_now t" "book e"] by (simp add: exit_book_def)
  ultimately show ?thesis by (metis r_into_rtranclp rtranclp.rtrancl_into_rtrancl)
qed

text \<open>All orders of all deals, open and closed: a close moves the orders of its deal and loses none.\<close>

definition order_total :: "paper_state \<Rightarrow> nat" where
  "order_total b = sum_list (map (\<lambda>(i, d). length (orders d)) (open_deals b)) + sum_list (map (\<lambda>d. length (orders d)) (closed_deals b))"

text \<open>A handler that may only close deals and touch trackers.\<close>

definition benign :: "wiring \<Rightarrow> engine \<Rightarrow> engine \<Rightarrow> bool" where
  "benign S e e' =
     (vrun S (view_of e) (view_of e') \<and> control e' = control e \<and> order_total (book e') \<le> order_total (book e) \<and>
      set (keys (opens e')) \<subseteq> set (keys (opens e)))"

lemma benign_refl [simp]: "benign S e e"
  by (simp add: benign_def)

lemma benign_trans: "benign S e e1 \<Longrightarrow> benign S e1 e2 \<Longrightarrow> benign S e e2"
  unfolding benign_def by (elim conjE, intro conjI) (erule (1) rtranclp_trans, simp, simp, erule (1) subset_trans)

lemma benign_wf: "benign S e e' \<Longrightarrow> wiring_ok S \<Longrightarrow> book_wf (book e) \<Longrightarrow> book_wf (book e')"
  using vrun_book_wf [of S "view_of e" "view_of e'"] by (simp add: benign_def view_of_def)

lemma order_total_delete:
  "sum_list (map (\<lambda>(i, d). length (orders d)) (AList.delete k xs)) \<le> sum_list (map (\<lambda>(i, d). length (orders d)) xs)"
  "map_of xs k = Some d \<Longrightarrow>
    sum_list (map (\<lambda>(i, d). length (orders d)) (AList.delete k xs)) + length (orders d) \<le> sum_list (map (\<lambda>(i, d). length (orders d)) xs)"
proof -
  show del: "sum_list (map (\<lambda>(i, d). length (orders d)) (AList.delete k xs)) \<le> sum_list (map (\<lambda>(i, d). length (orders d)) xs)" for xs
    by (induction xs) auto
  show "map_of xs k = Some d \<Longrightarrow>
    sum_list (map (\<lambda>(i, d). length (orders d)) (AList.delete k xs)) + length (orders d) \<le> sum_list (map (\<lambda>(i, d). length (orders d)) xs)"
    using del by (induction xs) (auto split: if_splits simp: add.commute)
qed

lemma order_total_touch:
  "list_all2 (\<lambda>(i, d) (j, d'). i = j \<and> same_position d d') xs ys \<Longrightarrow>
    sum_list (map (\<lambda>(i, d). length (orders d)) ys) = sum_list (map (\<lambda>(i, d). length (orders d)) xs)"
  by (induction rule: list_all2_induct) (auto simp: same_position_def)

lemma calc_fee_nonneg: "wiring_ok S \<Longrightarrow> deal_wf d \<Longrightarrow> 0 \<le> calc_fee S (total_size d)"
  using total_size_pos [of d] wiring_ok_parts(1) [of S] by (simp add: calc_fee_def)

lemma fee_step: "0 \<le> fee \<Longrightarrow> vstep S (s, f, K) (after_fee fee s, f + fee, K)"
  by (simp add: after_fee_def vstep.Paid vstep.Unpaid)

lemma exit_benign:
  assumes "wiring_ok S" "book_wf (book e)" "map_of (opens e) (deal_id d) = Some d"
  shows "\<exists>e'. engine_exit S t d price reason trig tag msg e = (Inr (), e') \<and> benign S e e' \<and>
    deal_id d \<notin> set (keys (opens e'))"
proof -
  note wf = book_wf_lookup [OF assms(2,3)]
  obtain b q where p: "calculate_pnl d price = Inr (b, q)" using pnl_defined [OF wf(3)] by blast
  let ?s = "exit_book S t d price reason trig b q (book e)" and ?fee = "calc_fee S (total_size d)"
  obtain e' where e': "engine_exit S t d price reason trig tag msg e = (Inr (), e')"
    "book e' = after_fee ?fee ?s" "eg_fees e' = eg_fees e + ?fee"
    "ledger_keys (dledger e) \<subseteq> ledger_keys (dledger e')" "control e' = control e"
    using engine_exit_eq [OF p, of S t reason trig tag msg e] by blast
  let ?K = "ledger_keys (dledger e)"
  have "vrun S (book e, eg_fees e, ?K) (?s, eg_fees e, ?K)"
    by (rule close_view [OF assms(3) _ p assms(2)]) simp
  also have "vstep S \<dots> (after_fee ?fee ?s, eg_fees e + ?fee, ?K)"
    by (rule fee_step) (rule calc_fee_nonneg [OF assms(1) wf(3)])
  also have "vstep S \<dots> (after_fee ?fee ?s, eg_fees e + ?fee, ledger_keys (dledger e'))"
    by (rule vstep.Ledger) (rule e'(4))
  finally have "vrun S (view_of e) (view_of e')" by (simp add: view_of_def e')
  moreover have o: "opens e' = AList.delete (deal_id d) (opens e)" by (simp add: e' exit_book_def)
  then have "order_total (book e') \<le> order_total (book e)"
    using order_total_delete(2) [OF assms(3)] by (simp add: order_total_def e'(2) exit_book_def)
  moreover have "set (keys (opens e')) \<subseteq> set (keys (opens e))" "deal_id d \<notin> set (keys (opens e'))"
    using o by (auto simp: set_delete_eq)
  ultimately show ?thesis using e'(1,5) unfolding benign_def by blast
qed

section \<open>The handlers are runs\<close>

lemma check_tp_benign:
  assumes "wiring_ok S" "book_wf (book e)"
  shows "benign S e (snd (check_tp S t did price e))"
proof (cases "map_of (opens e) did")
  case (Some d)
  note wf = book_wf_lookup [OF assms(2) Some]
  have "map_of (opens e) (deal_id d) = Some d" using Some wf(1) by simp
  then have x: "benign S e (snd (engine_exit S t d p r trig tag msg e))" for p r trig tag msg
    using exit_benign [OF assms, of d t p r trig tag msg] by auto
  show ?thesis
    by (simp add: check_tp_def Some plift_bind Let_def x split: option.split sum.split prod.split bool.split)
qed (simp add: check_tp_def)

lemma trail_same [simp]: "same_position d (trail w d price)"
  by (simp add: trail_def same_position_def Let_def)

lemma put_benign:
  assumes "map_of (opens e) (deal_id d) = Some d0" "same_position d0 d"
  shows "benign S e (e\<lparr>book := put_deal d (book e)\<rparr>)"
proof -
  have k: "deal_id d \<in> set (keys (opens e))" using assms(1) by (rule map_of_mem_keys)
  have "vstep S (view_of e) (view_of (e\<lparr>book := put_deal d (book e)\<rparr>))"
    using touch_put [OF assms] by (simp add: view_of_def)
  moreover have "order_total (put_deal d (book e)) = order_total (book e)"
    using order_total_touch [OF touch_update [OF assms]] by (simp add: order_total_def put_deal_def)
  ultimately show ?thesis
    using k by (auto simp: benign_def control_def put_deal_def keys_update_mem simp del: set_map)
qed

lemma check_sl_benign:
  assumes "wiring_ok S" "book_wf (book e)"
  shows "benign S e (snd (check_sl S t did price e))"
proof (cases "map_of (opens e) did")
  case (Some d0)
  note wf = book_wf_lookup [OF assms(2) Some]
  have m: "map_of (opens e) (deal_id d0) = Some d0" using Some wf(1) by simp
  have x: "benign S e' (snd (engine_exit S t d p r trig tag msg e'))"
    if "book_wf (book e')" "map_of (opens e') (deal_id d) = Some d" for e' d p r trig tag msg
    using exit_benign [OF assms(1) that, of t p r trig tag msg] by auto
  let ?d = "trail (use_wick_simulation (st_cfg S)) d0 price"
  let ?e1 = "e\<lparr>book := put_deal ?d (book e)\<rparr>"
  have id: "deal_id ?d = deal_id d0" by (simp add: trail_def Let_def)
  have b1: "benign S e ?e1" using put_benign [of e ?d d0] m id by simp
  have "benign S ?e1 (snd (engine_exit S t ?d p r trig tag msg ?e1))" for p r trig tag msg
    using x [of ?e1 ?d] benign_wf [OF b1 assms] put_deal_lookup [of ?d "book e"] by simp
  then have x1: "benign S e (snd (engine_exit S t ?d p r trig tag msg ?e1))" for p r trig tag msg
    using b1 benign_trans by blast
  show ?thesis
    using b1 x1 x [OF assms(2) m]
    by (auto simp: check_sl_def Some plift_bind Let_def pseq_def pbind_apply split: option.split sum.split)
qed (simp add: check_sl_def)

lemma order_total_snoc:
  "map_of xs k = Some d \<Longrightarrow>
    sum_list (map (\<lambda>(i, d). length (orders d)) (AList.update k (d\<lparr>orders := orders d @ [x]\<rparr>) xs))
    = Suc (sum_list (map (\<lambda>(i, d). length (orders d)) xs))"
  by (induction xs) (auto split: if_splits)

lemma db_call_view:
  assumes "ledger_keys (dledger e) \<subseteq> ledger_keys db"
  shows "vstep S (view_of e) (view_of (e\<lparr>dledger := db\<rparr>))"
  using assms by (simp add: view_of_def vstep.Ledger)

text \<open>A handler that may also add orders: how many, and nothing opens or closes.\<close>

definition adds_orders :: "wiring \<Rightarrow> nat \<Rightarrow> engine \<Rightarrow> engine \<Rightarrow> bool" where
  "adds_orders S n e e' =
     (vrun S (view_of e) (view_of e') \<and> control e' = control e \<and> order_total (book e') \<le> order_total (book e) + n \<and>
      set (keys (opens e')) \<subseteq> set (keys (opens e)))"

lemma benign_adds: "benign S e e' \<Longrightarrow> adds_orders S 0 e e'"
  by (simp add: benign_def adds_orders_def)

lemma adds_trans: "adds_orders S m e e1 \<Longrightarrow> adds_orders S n e1 e2 \<Longrightarrow> adds_orders S (m + n) e e2"
  unfolding adds_orders_def
  by (elim conjE, intro conjI) (erule (1) rtranclp_trans, simp, simp, erule (1) subset_trans)

lemma adds_wf: "adds_orders S n e e' \<Longrightarrow> wiring_ok S \<Longrightarrow> book_wf (book e) \<Longrightarrow> book_wf (book e')"
  using vrun_book_wf [of S "view_of e" "view_of e'"] by (simp add: adds_orders_def view_of_def)

lemma charge_fee_cases:
  "0 \<le> fee \<Longrightarrow> \<exists>e'. charge_fee S fee reason e = (Inr (), e') \<and> vstep S (view_of e) (view_of e') \<and>
    opens e' = opens e \<and> control e' = control e \<and> closed_deals (book e') = closed_deals (book e)"
  using charge_fee_run [of fee S e reason] by (auto simp: charge_fee_eq control_def pay_def)

lemma check_dca_run:
  assumes "wiring_ok S" "book_wf (book e)" "0 < price"
  shows "\<exists>placed e'. check_dca S t did price e = (Inr placed, e') \<and> adds_orders S (if placed then 1 else 0) e e'"
proof (cases "\<exists>d. map_of (opens e) did = Some d \<and> dca_allowed S d \<and> dca_triggered S d (order_price (last (orders d))) price")
  case False
  have "check_dca S t did price e = (Inr False, e)"
  proof (cases "map_of (opens e) did")
    case (Some d)
    then have "orders d \<noteq> []" using book_wf_lookup(3) [OF assms(2) Some] by (simp add: deal_wf_def)
    then show ?thesis using False Some by (auto simp: check_dca_def plift_bind)
  qed (simp add: check_dca_def)
  then show ?thesis using benign_adds [OF benign_refl] by auto
next
  case True
  then obtain d where d: "map_of (opens e) did = Some d" "dca_allowed S d"
    "dca_triggered S d (order_price (last (orders d))) price" by blast
  note wf = book_wf_lookup [OF assms(2) d(1)]
  let ?ord = "dca_order S d price (env_now t)" and ?fee = "calc_fee S (dca_size S d)"
  let ?d1 = "d\<lparr>orders := orders d @ [?ord]\<rparr>"
  let ?e1 = "e\<lparr>book := put_deal ?d1 (book e)\<rparr>"
  have m: "map_of (opens e) (deal_id d) = Some d" using d(1) wf(1) by simp
  have "vstep S (view_of e) (view_of ?e1)"
    using vstep.Dca [OF m d(2) assms(3)] by (simp add: view_of_def)
  moreover have "0 \<le> ?fee"
    using dca_size_pos [OF assms(1) d(2)] wiring_ok_parts(1) [OF assms(1)] by (simp add: calc_fee_def)
  then obtain e2 where e2: "charge_fee S ?fee (''dca_fee:'' @ deal_id d) ?e1 = (Inr (), e2)"
    "vstep S (view_of ?e1) (view_of e2)" "opens e2 = opens ?e1" "control e2 = control ?e1"
    "closed_deals (book e2) = closed_deals (book ?e1)"
    using charge_fee_cases by blast
  ultimately have run2: "vrun S (view_of e) (view_of e2)" by (metis r_into_rtranclp rtranclp.rtrancl_into_rtrancl)
  obtain db where db: "db_save_order S t ?ord (deal_id d) ?fee e2 = (Inr (), e2\<lparr>dledger := db\<rparr>)"
    "ledger_keys (dledger e2) \<subseteq> ledger_keys db"
    using db_calls(2) by blast
  let ?e3 = "e2\<lparr>dledger := db\<rparr>"
  obtain db' where db': "db_save_deal S t ?d1 ?e3 = (Inr (), ?e3\<lparr>dledger := db'\<rparr>)"
    "ledger_keys (dledger ?e3) \<subseteq> ledger_keys db'"
    using db_calls(1) by blast
  obtain avg where avg: "avg_entry_price ?d1 = Inr avg"
    using dca_deal_wf [OF assms(1) d(2) wf(3) assms(3), of "env_now t"] by simp
  let ?e4 = "?e3\<lparr>dledger := db', outbox := outbox ?e3 @ [Msg_Dca (symbol d) price (dca_size S d) (order_number ?ord) avg]\<rparr>"
  have "orders d \<noteq> []" using wf(3) by (simp add: deal_wf_def)
  then have "check_dca S t did price e =
      pseq (put_book_deal ?d1) (pseq (charge_fee S ?fee (''dca_fee:'' @ deal_id d)) (pseq (db_save_order S t ?ord (deal_id d) ?fee)
      (pseq (db_save_deal S t ?d1) (pbind (plift (avg_entry_price ?d1)) (\<lambda>avg.
       pseq (notify (Msg_Dca (symbol d) price (dca_size S d) (order_number ?ord) avg)) (pret True)))))) e"
    using d(2,3) by (simp add: check_dca_def d(1) plift_bind Let_def dca_order_def)
  also have "\<dots> = (Inr True, ?e4)"
    by (simp only: pseq_def pbind_apply put_book_deal_apply e2(1) db(1) db'(1) avg notify_apply prog_simps prod.case sum.case)
      simp
  finally have eq: "check_dca S t did price e = (Inr True, ?e4)" .
  have "vrun S (view_of e) (view_of ?e4)"
  proof -
    have "vrun S (view_of e) (view_of ?e3)" using run2 db_call_view [OF db(2)] by (rule rtranclp.rtrancl_into_rtrancl)
    then have "vrun S (view_of e) (view_of (?e3\<lparr>dledger := db'\<rparr>))"
      using db_call_view [OF db'(2)] by (rule rtranclp.rtrancl_into_rtrancl)
    then show ?thesis by (simp add: view_of_def)
  qed
  moreover have o: "opens ?e4 = AList.update (deal_id d) ?d1 (opens e)" using e2(3) by (simp add: put_deal_def)
  then have "order_total (book ?e4) = Suc (order_total (book e))"
    unfolding order_total_def o by (simp add: order_total_snoc [OF m] e2(5) put_deal_def)
  moreover have "keys (opens ?e4) = keys (opens e)"
    unfolding o by (rule keys_update_mem [OF map_of_mem_keys [OF m]])
  moreover have "control ?e4 = control e" using e2(4) by (simp add: control_def)
  ultimately have "adds_orders S 1 e ?e4" unfolding adds_orders_def by simp
  with eq show ?thesis by (intro exI [of _ True] exI [of _ ?e4]) simp
qed

lemma monitor_one_run:
  assumes "wiring_ok S" "book_wf (book e)" "0 < price" "monitor_one S t price did n e = (r, e')"
  shows "adds_orders S (1 - n) e e' \<and> (\<forall>n'. r = Inr n' \<longrightarrow> n \<le> n' \<and> adds_orders S (n' - n) e e' \<and> n' \<le> max n 1)"
proof -
  note tp = check_tp_benign [OF assms(1,2), of t did price]
  define e1 where "e1 = snd (check_tp S t did price e)"
  have b1: "benign S e e1" using tp by (simp add: e1_def)
  have wf1: "book_wf (book e1)" by (rule benign_wf [OF b1 assms(1,2)])
  define e2 where "e2 = snd (check_sl S t did price e1)"
  have b2: "benign S e1 e2" using check_sl_benign [OF assms(1) wf1] by (simp add: e2_def)
  have wf2: "book_wf (book e2)" by (rule benign_wf [OF b2 assms(1) wf1])
  obtain placed e3 where dca: "check_dca S t did price e2 = (Inr placed, e3)" "adds_orders S (if placed then 1 else 0) e2 e3"
    using check_dca_run [OF assms(1) wf2 assms(3)] by blast
  have a1: "adds_orders S 0 e e1" "adds_orders S 0 e e2"
    using b1 b2 benign_adds benign_trans by blast+
  have a3: "adds_orders S (if placed then 1 else 0) e e3" using adds_trans [OF a1(2) dca(2)] by simp
  have le: "adds_orders S m x y \<Longrightarrow> m \<le> k \<Longrightarrow> adds_orders S k x y" for m k x y
    unfolding adds_orders_def by auto
  obtain r1 where r1: "check_tp S t did price e = (r1, e1)" by (metis e1_def prod.collapse)
  obtain r2 where r2: "check_sl S t did price e1 = (r2, e2)" by (metis e2_def prod.collapse)
  have "e' = e1 \<and> (\<forall>n'. r = Inr n' \<longrightarrow> n' = n) \<or> e' = e2 \<and> (\<forall>n'. r = Inr n' \<longrightarrow> n' = n)
      \<or> e' = e3 \<and> n = 0 \<and> r = Inr (if placed then 1 else 0)"
    using assms(4)
    by (auto simp: monitor_one_def pseq_def pbind_apply r1 r2 dca(1) max_dca_per_tick_def split: sum.splits if_splits)
  then consider (e1) "e' = e1" "\<forall>n'. r = Inr n' \<longrightarrow> n' = n" | (e2) "e' = e2" "\<forall>n'. r = Inr n' \<longrightarrow> n' = n"
    | (e3) "e' = e3" "n = 0" "r = Inr (if placed then 1 else 0)" by blast
  then show ?thesis
  proof cases
    case e1
    then show ?thesis using a1(1) le [OF a1(1)] by simp
  next
    case e2
    then show ?thesis using a1(2) le [OF a1(2)] by simp
  next
    case e3
    then show ?thesis using a3 le [OF a3, of 1] by simp
  qed
qed

lemma monitor_all_run:
  assumes "wiring_ok S" "book_wf (book e)" "0 < price" "monitor_all S t price ids n e = (r, e')" "n \<le> 1"
  shows "adds_orders S (1 - n) e e'"
  using assms(2,4,5)
proof (induction ids arbitrary: n e)
  case Nil
  then show ?case by (auto simp: adds_orders_def)
next
  case (Cons did ids)
  obtain r1 e1 where one: "monitor_one S t price did n e = (r1, e1)" by fastforce
  note m1 = monitor_one_run [OF assms(1) Cons.prems(1) assms(3) one]
  show ?case
  proof (cases r1)
    case (Inl x)
    then show ?thesis using m1 Cons.prems(2) by (simp add: pbind_apply one)
  next
    case (Inr n1)
    then have n1: "n \<le> n1" "adds_orders S (n1 - n) e e1" "n1 \<le> 1" using m1 Cons.prems(3) by auto
    have "adds_orders S (1 - n1) e1 e'"
      using Cons.IH [OF adds_wf [OF n1(2) assms(1) Cons.prems(1)] _ n1(3)] Cons.prems(2) Inr by (simp add: pbind_apply one)
    from adds_trans [OF n1(2) this] show ?thesis using n1 by simp
  qed
qed

lemma track_same [simp]: "same_position d (track price d)"
  by (simp add: track_def same_position_def Let_def)

lemma trackers_benign:
  "update_deal_wick_trackers price e = (Inr (), e') \<Longrightarrow> benign S e e'"
proof -
  assume "update_deal_wick_trackers price e = (Inr (), e')"
  then have e': "e' = e\<lparr>book := (book e)\<lparr>open_deals := map (\<lambda>(i, d). (i, track price d)) (opens e)\<rparr>\<rparr>"
    by (simp add: update_deal_wick_trackers_def)
  have l: "list_all2 (\<lambda>(i, d) (j, d'). i = j \<and> same_position d d') (opens e) (map (\<lambda>(i, d). (i, track price d)) (opens e))"
    by (auto simp: list_all2_conv_all_nth split: prod.split)
  have "vstep S (view_of e) (view_of e')" using vstep.Touch [OF l] by (simp add: view_of_def e')
  moreover have "order_total (book e') = order_total (book e)"
    using order_total_touch [OF l] by (simp add: order_total_def e')
  moreover have "keys (opens e') = keys (opens e)" using touch_keys [OF l] by (simp add: e')
  moreover have "control e' = control e" by (simp add: control_def e')
  ultimately show ?thesis unfolding benign_def by simp
qed

lemma monitor_run:
  assumes "wiring_ok S" "book_wf (book e)" "0 < price" "monitor_open_deals S t price e = (r, e')"
  shows "adds_orders S 1 e e'"
proof -
  obtain e1 where e1: "update_deal_wick_trackers price e = (Inr (), e1)" by (simp add: update_deal_wick_trackers_def)
  note b = trackers_benign [OF e1, of S]
  obtain r2 e2 where m: "monitor_all S t price (keys (opens e1)) 0 e1 = (r2, e2)" by fastforce
  have "adds_orders S (1 - 0) e1 e2"
    by (rule monitor_all_run [OF assms(1) benign_wf [OF b assms(1,2)] assms(3) m]) simp
  moreover have "e' = e2"
    using assms(4) m e1 by (auto simp: monitor_open_deals_def pseq_def pbind_apply split: sum.splits)
  ultimately show ?thesis using adds_trans [OF benign_adds [OF b]] by fastforce
qed

end
