(* ===== verification/Engine_Safety.thy ===== *)
theory Engine_Safety
  imports Engine_Tick Monitor_Safety
begin

text \<open>
  Every tick of the engine, completed or failed half way, is a run of trade steps (\<open>Trade_Steps\<close>); with
  it hold, for every engine a boot can give and every sequence of ticks, the well-formed book, the
  single open deal the ledger knows, the cap on DCA orders and the accounting of fees.
\<close>

section \<open>Statements that run\<close>

text \<open>What every part of a tick does: a run of trade steps that never clears the pause flag and, unless
  entries are allowed, opens nothing.\<close>

definition moves :: "wiring \<Rightarrow> bool \<Rightarrow> engine \<Rightarrow> engine \<Rightarrow> bool" where
  "moves S entry e e' =
     (vrun S (view_of e) (view_of e') \<and> (eg_paused e \<longrightarrow> eg_paused e') \<and>
      (\<not> entry \<longrightarrow> set (keys (opens e')) \<subseteq> set (keys (opens e))))"

lemma moves_refl [simp]: "moves S entry e e"
  by (simp add: moves_def)

lemma moves_trans: "moves S entry e e1 \<Longrightarrow> moves S entry e1 e2 \<Longrightarrow> moves S entry e e2"
  unfolding moves_def by (elim conjE, intro conjI impI) (erule (1) rtranclp_trans, simp, blast)

lemma moves_wf: "moves S entry e e' \<Longrightarrow> wiring_ok S \<Longrightarrow> book_wf (book e) \<Longrightarrow> book_wf (book e')"
  using vrun_book_wf [of S "view_of e" "view_of e'"] by (simp add: moves_def view_of_def)

lemma moves_mono: "moves S entry e e' \<Longrightarrow> (entry \<Longrightarrow> entry') \<Longrightarrow> moves S entry' e e'"
  by (auto simp: moves_def)

lemma moves_bind:
  assumes "m e = (r, e1)" "moves S entry e e1" "\<And>v. r = Inr v \<Longrightarrow> moves S entry e1 (snd (f v e1))"
  shows "moves S entry e (snd (pbind m f e))"
  using assms moves_trans by (cases r) auto

lemma moves_seq:
  assumes "moves S entry e (snd (m e))" "\<And>v e1. m e = (Inr v, e1) \<Longrightarrow> moves S entry e1 (snd (n e1))"
  shows "moves S entry e (snd (pseq m n e))"
  unfolding pseq_def using assms by (cases "m e") (auto intro: moves_bind)

lemma moves_adds: "adds_orders S n e e' \<Longrightarrow> moves S False e e'"
  by (simp add: moves_def adds_orders_def control_def)

lemma moves_quiet: "view_of e' = view_of e \<Longrightarrow> (eg_paused e \<Longrightarrow> eg_paused e') \<Longrightarrow> moves S entry e e'"
  by (simp add: moves_def view_of_def)

lemma more_fees: "world.more e' = world.more e \<Longrightarrow> eg_fees (e' :: engine) = eg_fees e \<and> control e' = control e"
  by (cases e; cases e') (simp add: control_def)

section \<open>The quiet parts\<close>

lemma view_frames [simp]:
  "view_of (e\<lparr>disk := fs\<rparr>) = view_of e" "view_of (e\<lparr>outbox := ms\<rparr>) = view_of e"
  "view_of (e\<lparr>eg_price := p\<rparr>) = view_of e" "view_of (e\<lparr>eg_last_schedule := b\<rparr>) = view_of e"
  "view_of (e\<lparr>eg_liq := l\<rparr>) = view_of e" "view_of (e\<lparr>eg_dd := g\<rparr>) = view_of e"
  "view_of (e\<lparr>eg_running := r, eg_paused := q\<rparr>) = view_of e" "view_of (e\<lparr>eg_streak := s\<rparr>) = view_of e"
  "view_of (e\<lparr>eg_unlinked := u\<rparr>) = view_of e" "view_of (e\<lparr>eg_next_id := n\<rparr>) = view_of e"
  "view_of (e\<lparr>eg_fetched_at := f\<rparr>) = view_of e"
  "view_of (e\<lparr>eg_closes := c, eg_highs := h, eg_lows := w\<rparr>) = view_of e"
  "view_of (e\<lparr>eg_wick := wk, eg_wick_at := at_time\<rparr>) = view_of e"
  by (simp_all add: view_of_def)

lemma transition_quiet: "moves S entry e (snd (check_schedule_transition S t b e))"
  by (rule moves_quiet)
    (auto simp: check_schedule_transition_def Let_def pseq_def pbind_apply split: option.split sum.split)

lemma fetch_timeframe_quiet: "moves S entry e (fetch_timeframe t tf e)"
  by (rule moves_quiet) (simp_all add: fetch_timeframe_def stamp_fetch_def Let_def split: option.split sum.split)

lemma fetch_quiet: "moves S entry e (fetch_closes_if_needed S t e)"
proof -
  have "moves S entry x (fold (fetch_timeframe t) tfs x)" for tfs x
    by (induction tfs arbitrary: x) (auto intro: moves_trans [OF fetch_timeframe_quiet])
  then show ?thesis by (simp add: fetch_closes_if_needed_def)
qed

lemma wick_quiet: "moves S entry e (refresh_wick_candle S t e)"
  by (rule moves_quiet) (simp_all add: refresh_wick_candle_def split: sum.split)

lemma liq_quiet: "moves S entry e (snd (update_liq_guard price e))"
  by (rule moves_quiet) (simp_all add: update_liq_guard_def plift_bind split: sum.split)

lemma drawdown_quiet: "moves S entry e (snd (update_drawdown_guard S price e))"
  by (rule moves_quiet) (auto simp: update_drawdown_guard_def Let_def pseq_def pbind_apply split: prod.split)

lemma write_quiet: "moves S entry e (snd (write_state S price b e))"
  by (rule moves_quiet) (auto simp: write_state_def plift_bind split: sum.split)

section \<open>Opening\<close>

lemma create_call:
  assumes "on_ledger up (create_deal d slug name u) e = (r, e')"
  shows "book e' = book e" "eg_fees e' = eg_fees (e :: engine)" "control e' = control e" "disk e' = disk e"
    "ledger_keys (dledger e) \<subseteq> ledger_keys (dledger e')"
    "r = Inr v \<Longrightarrow> (deal_id d, u) \<in> ledger_keys (dledger e')"
proof -
  obtain db where e': "e' = e\<lparr>dledger := db\<rparr>" "db = (if up then snd (create_deal d slug name u (dledger e)) else dledger e)"
    using assms snd_on_ledger [of up "create_deal d slug name u" e] by auto
  show "book e' = book e" "eg_fees e' = eg_fees e" "control e' = control e" "disk e' = disk e"
    by (simp_all add: e'(1) control_def)
  show "ledger_keys (dledger e) \<subseteq> ledger_keys (dledger e')"
    using keys_create_deal(1) [of "dledger e" d slug name u] by (simp add: e')
  show "r = Inr v \<Longrightarrow> (deal_id d, u) \<in> ledger_keys (dledger e')"
    using assms keys_create_deal(2) [of d slug name u "dledger e" v]
    by (auto simp: e' on_ledger_def split: if_splits prod.splits)
qed

lemma id_self: "\<exists>i. d = d\<lparr>deal_id := i\<rparr>"
  by (rule exI [of _ "deal_id d"]) simp

lemma create_retry:
  assumes "db_create_deal_with_retry S t slug n d e = (r, e')"
  shows "\<exists>ok d'. r = Inr (ok, d') \<and> (\<exists>i. d' = d\<lparr>deal_id := i\<rparr>) \<and> book e' = book e \<and> eg_fees e' = eg_fees e \<and>
    control e' = control e \<and> disk e' = disk e \<and> ledger_keys (dledger e) \<subseteq> ledger_keys (dledger e') \<and>
    (ok \<longrightarrow> (deal_id d', st_user S) \<in> ledger_keys (dledger e'))"
  using assms
proof (induction n arbitrary: d e)
  case 0
  then have "r = Inr (False, d)" "e' = e" by simp_all
  then show ?case using id_self [of d] by (intro exI [of _ False] exI [of _ d]) simp
next
  case (Suc n)
  obtain r1 e1 where c: "on_ledger (env_db_up t) (create_deal d slug (cfg_name (st_cfg S)) (st_user S)) e = (r1, e1)" by fastforce
  note f = create_call [OF c]
  note self = id_self [of d]
  show ?case
  proof (cases r1)
    case (Inr v)
    then have "r = Inr (True, d)" "e' = e1" using Suc.prems c by simp_all
    then show ?thesis using f Inr self by auto
  next
    case (Inl err)
    show ?thesis
    proof (cases "err = IntegrityError")
      case True
      let ?d1 = "d\<lparr>deal_id := st_fresh_id S (eg_next_id e1)\<rparr>" and ?e2 = "e1\<lparr>eg_next_id := eg_next_id e1 + 1\<rparr>"
      have "db_create_deal_with_retry S t slug n ?d1 ?e2 = (r, e')"
        using Suc.prems c Inl True by (simp add: pbind_apply new_deal_id_def)
      note ih = Suc.IH [OF this]
      have x: "book ?e2 = book e" "eg_fees ?e2 = eg_fees e" "control ?e2 = control e" "disk ?e2 = disk e"
        "dledger ?e2 = dledger e1"
        using f(1,2,3,4) by (simp_all add: control_def)
      show ?thesis using ih f(5) unfolding x by (fastforce intro: order_trans)
    next
      case False
      then have "r = Inr (False, d)" "e' = e1" using Suc.prems c Inl by simp_all
      then show ?thesis using f self by auto
    qed
  qed
qed

lemma register_run:
  assumes "register_deal S t d e = (r, e')"
  shows "\<exists>ok d'. r = Inr (ok, d') \<and> (\<exists>i. d' = d\<lparr>deal_id := i\<rparr>) \<and> book e' = book e \<and> eg_fees e' = eg_fees e \<and>
    control e' = control e \<and> disk e' = disk e \<and> ledger_keys (dledger e) \<subseteq> ledger_keys (dledger e') \<and>
    (ok \<and> st_slug S \<noteq> None \<longrightarrow> (deal_id d', st_user S) \<in> ledger_keys (dledger e'))"
proof (cases "st_slug S")
  case None
  then have "r = Inr (True, d)" "e' = e" using assms by (simp_all add: register_deal_def)
  then show ?thesis using None id_self [of d] by (intro exI [of _ True] exI [of _ d]) simp
next
  case (Some slug)
  then show ?thesis using create_retry [of S t slug create_attempts d e r e'] assms by (auto simp: register_deal_def)
qed

lemma fresh_deal_seeded:
  assumes "wiring_ok S" "0 < price"
  shows "post_init (fresh_deal S t did price trig) =
    Inr ((fresh_deal S t did price trig)\<lparr>wick_high_since_open := price, wick_low_since_open := price\<rparr>)"
    "deal_wf (fresh_deal S t did price trig)"
proof -
  let ?d = "fresh_deal S t did price trig"
  show wf: "deal_wf ?d"
    using wiring_ok_parts(2,3) [OF assms(1)] assms(2)
    by (simp add: deal_wf_def fresh_deal_def base_order_def order_wf_def valid_side_def)
  have "avg_entry_price ?d = Inr price"
    using wiring_ok_parts(2) [OF assms(1)]
    by (simp add: avg_entry_price_def fresh_deal_def base_order_def total_value_def total_size_def)
  moreover have "avg_entry_price (?d\<lparr>wick_high_since_open := price\<rparr>) = avg_entry_price ?d"
    by (simp add: avg_entry_price_def total_value_def total_size_def)
  ultimately show "post_init ?d = Inr (?d\<lparr>wick_high_since_open := price, wick_low_since_open := price\<rparr>)"
    by (simp add: post_init_def fresh_deal_def base_order_def)
qed

text \<open>What follows a registered deal: into the book, the fee, the order row, the message.\<close>

definition enter_book :: "wiring \<Rightarrow> tick_env \<Rightarrow> real \<Rightarrow> paper_deal \<Rightarrow> (engine, unit) prog" where
  "enter_book S t price d =
     (let ord = base_order S t price; fee = calc_fee S (order_size ord) in
      pseq (on_book (pmod (state_open_deal d)))
      (pseq (charge_fee S fee (''entry_fee:'' @ deal_id d))
      (pseq (db_save_order S t ord (deal_id d) fee)
      (notify (Msg_Entry (cfg_pair (st_cfg S)) price (order_size ord) (lev_size (leverage_cfg (st_cfg S))))))))"

lemma enter_book_run:
  assumes "wiring_ok S" "opens e = []" "deal_wf d" "is_open d" "dca_count d = 0"
    "st_slug S \<noteq> None \<longrightarrow> (deal_id d, st_user S) \<in> ledger_keys (dledger e)"
  shows "\<exists>e'. enter_book S t price d e = (Inr (), e') \<and> vrun S (view_of e) (view_of e') \<and> control e' = control e \<and>
    opens e' = [(deal_id d, d)] \<and> eg_fees e' = eg_fees e + calc_fee S (base_order_size (dca_of S)) \<and>
    ledger_keys (dledger e) \<subseteq> ledger_keys (dledger e')"
proof -
  let ?fee = "calc_fee S (base_order_size (dca_of S))" and ?e3 = "e\<lparr>book := state_open_deal d (book e)\<rparr>"
  have "vstep S (view_of e) (view_of ?e3)"
    using vstep.Open [of "book e" d S "ledger_keys (dledger e)" "eg_fees e"] assms by (simp add: view_of_def)
  moreover have "0 \<le> ?fee" using wiring_ok_parts(1,2) [OF assms(1)] by (simp add: calc_fee_def)
  then obtain e4 where e4: "charge_fee S ?fee (''entry_fee:'' @ deal_id d) ?e3 = (Inr (), e4)"
    "vstep S (view_of ?e3) (view_of e4)" "opens e4 = opens ?e3" "control e4 = control ?e3"
    using charge_fee_cases by blast
  have fees: "eg_fees e4 = eg_fees e + ?fee" "dledger e4 = dledger e"
    using e4(1) by (auto simp: charge_fee_eq split: if_splits)
  obtain db where db: "db_save_order S t (base_order S t price) (deal_id d) ?fee e4 = (Inr (), e4\<lparr>dledger := db\<rparr>)"
    "ledger_keys (dledger e4) \<subseteq> ledger_keys db"
    using db_calls(2) by blast
  let ?e5 = "e4\<lparr>dledger := db, outbox := outbox e4 @
    [Msg_Entry (cfg_pair (st_cfg S)) price (base_order_size (dca_of S)) (lev_size (leverage_cfg (st_cfg S)))]\<rparr>"
  have "enter_book S t price d e = (Inr (), ?e5)"
    using e4(1) db(1) by (simp add: enter_book_def Let_def pseq_def pbind_apply on_book_def base_order_def)
  moreover have "vrun S (view_of e) (view_of ?e5)"
    using calculation(1) \<open>vstep S (view_of e) (view_of ?e3)\<close> e4(2) db_call_view [OF db(2), of S]
    by (auto simp: view_of_def intro: rtranclp.rtrancl_into_rtrancl)
  moreover have "opens ?e5 = [(deal_id d, d)]" using e4(3) assms(2) by (simp add: state_open_deal_def)
  moreover have "control ?e5 = control e" using e4(4) by (simp add: control_def)
  moreover have "eg_fees ?e5 = eg_fees e + ?fee" "ledger_keys (dledger e) \<subseteq> ledger_keys (dledger ?e5)"
    using fees db(2) by simp_all
  ultimately show ?thesis by blast
qed

text \<open>An opening either leaves book, fees and control as they were, or opens the one deal and charges it.\<close>

definition seeded_deal :: "wiring \<Rightarrow> tick_env \<Rightarrow> string \<Rightarrow> real \<Rightarrow> trigger option \<Rightarrow> paper_deal" where
  "seeded_deal S t i price trig =
     (fresh_deal S t i price trig)\<lparr>wick_high_since_open := price, wick_low_since_open := price\<rparr>"

lemma seeded_deal_simps [simp]:
  "deal_id (seeded_deal S t i price trig) = i" "is_open (seeded_deal S t i price trig)"
  "dca_count (seeded_deal S t i price trig) = 0" "(seeded_deal S t i price trig)\<lparr>deal_id := j\<rparr> = seeded_deal S t j price trig"
  "orders (seeded_deal S t i price trig) = [base_order S t price]"
  by (simp_all add: seeded_deal_def fresh_deal_def dca_count_def base_order_def)

lemma seeded_deal_wf: "wiring_ok S \<Longrightarrow> 0 < price \<Longrightarrow> deal_wf (seeded_deal S t i price trig)"
  using fresh_deal_seeded(2) [of S price t i trig] by (simp add: seeded_deal_def deal_wf_def)

lemma open_deal_cases:
  assumes "wiring_ok S" "0 < price" "opens e = []"
  shows "\<exists>e'. open_deal S t price trig e = (Inr (), e') \<and> vrun S (view_of e) (view_of e') \<and> control e' = control e \<and>
    (book e' = book e \<and> eg_fees e' = eg_fees e \<or>
     (\<exists>i. opens e' = [(i, seeded_deal S t i price trig)] \<and>
       eg_fees e' = eg_fees e + calc_fee S (base_order_size (dca_of S)) \<and>
       (st_slug S \<noteq> None \<longrightarrow> (i, st_user S) \<in> ledger_keys (dledger e'))))"
proof -
  let ?i = "st_fresh_id S (eg_next_id e)" and ?e1 = "e\<lparr>eg_next_id := eg_next_id e + 1\<rparr>"
  obtain r2 e2 where reg0: "register_deal S t (seeded_deal S t ?i price trig) ?e1 = (r2, e2)" by fastforce
  from register_run [OF this] obtain ok i where reg: "r2 = Inr (ok, seeded_deal S t i price trig)"
    and frame: "book e2 = book ?e1" "eg_fees e2 = eg_fees ?e1" "control e2 = control ?e1"
      "ledger_keys (dledger ?e1) \<subseteq> ledger_keys (dledger e2)"
    and row: "ok \<and> st_slug S \<noteq> None \<longrightarrow> (i, st_user S) \<in> ledger_keys (dledger e2)"
    by auto
  have eq: "open_deal S t price trig e = (if ok then enter_book S t price (seeded_deal S t i price trig) e2 else (Inr (), e2))"
    using reg0 fresh_deal_seeded(1) [OF assms(1,2), of t ?i trig]
    by (simp add: open_deal_def new_deal_id_def pbind_apply reg Let_def enter_book_def seeded_deal_def)
  have run2: "vrun S (view_of e) (view_of e2)"
    using frame vstep.Ledger [of "ledger_keys (dledger e)" "ledger_keys (dledger e2)"] by (auto simp: view_of_def)
  have c2: "control e2 = control e" using frame(3) by (simp add: control_def)
  show ?thesis
  proof (cases ok)
    case False
    then show ?thesis using eq run2 c2 frame(1,2) by simp
  next
    case True
    obtain e' where e': "enter_book S t price (seeded_deal S t i price trig) e2 = (Inr (), e')"
      "vrun S (view_of e2) (view_of e')" "control e' = control e2" "opens e' = [(i, seeded_deal S t i price trig)]"
      "eg_fees e' = eg_fees e2 + calc_fee S (base_order_size (dca_of S))"
      "ledger_keys (dledger e2) \<subseteq> ledger_keys (dledger e')"
      using enter_book_run [where t = t and price = price, OF assms(1) _ seeded_deal_wf [OF assms(1,2)], of e2 t i trig] row True frame(1) assms(3) by auto
    have "st_slug S \<noteq> None \<longrightarrow> (i, st_user S) \<in> ledger_keys (dledger e')" using row True e'(6) by blast
    moreover have "vrun S (view_of e) (view_of e')" by (rule rtranclp_trans [OF run2 e'(2)])
    moreover have "eg_fees e' = eg_fees e + calc_fee S (base_order_size (dca_of S))" using e'(5) frame(2) by simp
    moreover have "open_deal S t price trig e = (Inr (), e')" using eq True e'(1) by simp
    ultimately show ?thesis using e'(3,4) c2 by metis
  qed
qed

section \<open>Entries and sentinels\<close>

lemma open_deal_moves:
  "wiring_ok S \<Longrightarrow> 0 < price \<Longrightarrow> opens e = [] \<Longrightarrow> moves S True e (snd (open_deal S t price trig e))"
  using open_deal_cases [of S price e t trig] by (auto simp: moves_def control_def)

lemma check_entry_moves:
  "wiring_ok S \<Longrightarrow> 0 < price \<Longrightarrow> moves S True e (snd (check_entry S t price e))"
  by (auto simp: check_entry_def open_deal_moves split: prod.split bool.split)

lemma liq_safe_quiet: "moves S entry e (snd (manual_trigger_liq_safe S price e)) \<and> opens (snd (manual_trigger_liq_safe S price e)) = opens e"
  by (auto simp: manual_trigger_liq_safe_def Let_def pseq_def pbind_apply moves_def view_of_def)

lemma unlink_quiet: "moves S entry e (snd (unlink_sentinel f e))"
  by (rule moves_quiet) (simp_all add: unlink_sentinel_def)

lemma manual_moves:
  assumes "wiring_ok S" "0 < price"
  shows "moves S (env_manual_present t \<and> st_manual S \<noteq> None) e (snd (check_manual_trigger S t price e))"
proof (cases "env_manual_present t \<and> st_manual S \<noteq> None")
  case True
  then obtain f where f: "st_manual S = Some f" by blast
  define go where "go = pbind (pget (\<lambda>e :: engine. opens e \<noteq> [])) (\<lambda>busy. if busy then pskip
    else pbind (manual_trigger_liq_safe S price) (\<lambda>safe. if safe then open_deal S t price None else pskip))"
  have eq: "check_manual_trigger S t price = pseq (unlink_sentinel f) go"
    using True by (simp add: check_manual_trigger_def f go_def)
  have go: "moves S True e1 (snd (go e1))" for e1
  proof (cases "opens e1 = []")
    case o: True
    obtain r e2 where m: "manual_trigger_liq_safe S price e1 = (r, e2)" by fastforce
    have s: "moves S True e1 e2" "opens e2 = []" using liq_safe_quiet [of S True e1 price] m o by simp_all
    have "moves S True e1 (snd (pbind (manual_trigger_liq_safe S price)
        (\<lambda>safe. if safe then open_deal S t price None else pskip) e1))"
      using s open_deal_moves [OF assms s(2), of t None] by (auto intro!: moves_bind [where m = "manual_trigger_liq_safe S price", OF m])
    then show ?thesis using o by (simp add: go_def pbind_apply)
  qed (simp add: go_def pbind_apply)
  have "moves S True e (snd (check_manual_trigger S t price e))"
    unfolding eq by (rule moves_seq [OF unlink_quiet go])
  with True show ?thesis by simp
next
  case False
  then show ?thesis by (auto simp: check_manual_trigger_def split: option.split)
qed

lemma keys_after_close: "ledger_keys (db_after_close c did p r b q trig db) = ledger_keys db"
  by (simp add: db_after_close_def keys_close_deal)

lemma book_after_close_exit:
  "book_after_close (engine_close_ctx S t) d price reason b q fee s =
    pay fee (exit_book S t d price reason (Exit_Trigger reason) b q s)"
  by (simp add: book_after_close_def exit_book_def pay_def engine_close_ctx_def)

text \<open>A close or cancel by sentinel: a close in the book, the fee, the same ledger keys.\<close>

lemma handler_moves:
  assumes "wiring_ok S" "book_wf (book e)" "map_of (opens e) did = Some d" "0 < price"
    "book e' = book_after_close (engine_close_ctx S t) d price reason b q fee (book e)" "0 \<le> fee"
    "calculate_pnl d price = Inr (b, q)" "ledger_keys (dledger e') = ledger_keys (dledger e)"
    "eg_fees e' = eg_fees e + fee" "control e' = control e"
  shows "moves S False e e'"
proof -
  note wf = book_wf_lookup [OF assms(2,3)]
  let ?s = "exit_book S t d price reason (Exit_Trigger reason) b q (book e)" and ?K = "ledger_keys (dledger e)"
  have m: "map_of (opens e) (deal_id d) = Some d" using assms(3) wf(1) by simp
  have "vrun S (book e, eg_fees e, ?K) (?s, eg_fees e, ?K)"
    by (rule close_view [OF m _ assms(7,2)]) simp
  also have "vstep S \<dots> (pay fee ?s, eg_fees e + fee, ?K)" by (rule vstep.Paid [OF assms(6)])
  finally have "vrun S (view_of e) (view_of e')"
    by (simp add: view_of_def assms(5,8,9) book_after_close_exit)
  moreover have "set (keys (opens e')) \<subseteq> set (keys (opens e))"
    by (auto simp: assms(5) book_after_close_exit exit_book_def pay_def set_delete_eq)
  ultimately show ?thesis using assms(10) by (simp add: moves_def control_def)
qed

lemma sentinel_close_moves:
  assumes "wiring_ok S" "book_wf (book e)"
  shows "moves S False e (snd (sentinel_close S t price action did e))"
proof (cases "(action = ''close'' \<or> action = ''cancel'') \<and> 0 < price \<and> map_of (opens e) did \<noteq> None")
  case False
  then have "\<exists>x. handler_close_deal (engine_close_ctx S t) did price action ''engine'' e = (Inr (Refused x), e)"
    by (auto simp: handler_close_deal_def split: option.split)
  then show ?thesis by (auto simp: sentinel_close_def pbind_apply)
next
  case True
  then obtain d where d: "map_of (opens e) did = Some d" "0 < price" by blast
  note wf = book_wf_lookup [OF assms(2) d(1)]
  obtain b q where p: "calculate_pnl d price = Inr (b, q)" using pnl_defined [OF wf(3)] by blast
  let ?c = "engine_close_ctx S t" and ?fee = "calc_fee S (total_size d)"
  have fee: "handler_fee ?c (total_size d) = ?fee" "0 \<le> ?fee"
    using calc_fee_nonneg [OF assms(1) wf(3)] by (simp_all add: handler_fee_def calc_fee_def engine_close_ctx_def)
  show ?thesis
  proof (cases "action = ''close''")
    case close: True
    obtain j e1 where h: "handler_close_deal ?c did price action ''engine'' e = (Inr (Done \<lparr>cr_action = ''close'',
        cr_deal_id = deal_id d, cr_close_price = price, cr_pnl_btc = b, cr_pnl_pct = q, cr_fee_btc = ?fee, cr_deal = j\<rparr>), e1)"
      "book e1 = book_after_close ?c d price ''manual'' b q ?fee (book e)"
      "dledger e1 = db_after_close ?c (deal_id d) price ''manual'' b q (Exit_Trigger ''manual'') (dledger e)"
      "world.more e1 = world.more e"
      using handler_close_eq [OF wf(3) p, of ?c "''engine''" e] d close fee(1) by (auto simp: handler_close_deal_def)
    let ?e2 = "e1\<lparr>eg_fees := eg_fees e1 + ?fee\<rparr>"
    have "moves S False e ?e2"
      by (rule handler_moves [OF assms d _ fee(2) p])
        (use more_fees [OF h(4)] in \<open>simp_all add: h keys_after_close control_def\<close>)
    moreover have "e1\<lparr>eg_fees := eg_fees e1\<rparr> = e1" by simp
    ultimately show ?thesis by (cases "?fee = 0") (simp_all add: sentinel_close_def pbind_apply h(1))
  next
    case False
    then have cancel: "action = ''cancel''" using True by blast
    obtain j e1 where h: "handler_close_deal ?c did price action ''engine'' e = (Inr (Done \<lparr>cr_action = ''cancel'',
        cr_deal_id = deal_id d, cr_close_price = price, cr_pnl_btc = 0, cr_pnl_pct = 0, cr_fee_btc = 0, cr_deal = j\<rparr>), e1)"
      "book e1 = book_after_close ?c d price ''cancelled'' b q 0 (book e)"
      "dledger e1 = db_after_close ?c (deal_id d) price ''cancelled'' 0 0 (Exit_Trigger ''cancelled'') (dledger e)"
      "world.more e1 = world.more e"
      using handler_cancel_eq [OF wf(3) p, of ?c "''engine''" e] d cancel by (auto simp: handler_close_deal_def)
    have "moves S False e e1"
      by (rule handler_moves [OF assms d h(2) order_refl p])
        (use more_fees [OF h(4)] in \<open>simp_all add: h keys_after_close\<close>)
    then show ?thesis by (simp add: sentinel_close_def pbind_apply h(1))
  qed
qed

lemma apply_edit_same [simp]: "same_position d (apply_edit es d)" "deal_id (apply_edit es d) = deal_id d"
  by (simp_all add: apply_edit_def same_position_def)

lemma handle_sentinel_moves:
  assumes "wiring_ok S" "book_wf (book e)"
  shows "moves S False e (snd (handle_sentinel S t price f e))"
proof -
  have edit: "moves S False e1 (e1\<lparr>book := put_deal (apply_edit es d) (book e1)\<rparr>)"
    if "book_wf (book e1)" "map_of (opens e1) did = Some d" for e1 es d did
  proof -
    have "map_of (opens e1) (deal_id (apply_edit es d)) = Some d" using that book_wf_lookup(1) [OF that] by simp
    then show ?thesis using put_benign [of e1 "apply_edit es d" d S] by (auto dest!: benign_adds moves_adds)
  qed
  define act where "act settings action did = (\<lambda>e1. case map_of (opens e1) did of None \<Rightarrow> pskip e1
    | Some d \<Rightarrow> if action = ''edit'' then put_book_deal (apply_edit settings d) e1
        else if action = ''cancel'' \<or> action = ''close'' then sentinel_close S t price action did e1 else pskip e1)"
    for settings action did
  have act: "moves S False e1 (snd (act settings action did e1))" if "book_wf (book e1)" for e1 settings action did
    using edit [OF that] sentinel_close_moves [OF assms(1) that] by (auto simp: act_def split: option.split)
  obtain n payload where f: "f = (n, payload)" by fastforce
  have "book_wf (book (snd (unlink_sentinel n e)))" using assms(2) by (simp add: unlink_sentinel_def)
  then have "moves S False e (snd (pseq (unlink_sentinel n) (act settings action did) e))" for settings action did
    by (intro moves_seq unlink_quiet act) simp
  then show ?thesis
    unfolding handle_sentinel_def f act_def [symmetric] prod.case
    using unlink_quiet by (auto split: option.split sum.split)
qed

lemma handle_sentinels_moves:
  "wiring_ok S \<Longrightarrow> book_wf (book e) \<Longrightarrow> moves S False e (snd (handle_sentinels S t price fs e))"
proof (induction fs arbitrary: e)
  case (Cons f fs)
  show ?case
    unfolding handle_sentinels.simps
  proof (rule moves_seq)
    show m: "moves S False e (snd (handle_sentinel S t price f e))" by (rule handle_sentinel_moves [OF Cons.prems])
    show "moves S False e1 (snd (handle_sentinels S t price fs e1))"
      if "handle_sentinel S t price f e = (Inr v, e1)" for v e1
      using Cons.IH [OF Cons.prems(1) moves_wf [OF _ Cons.prems, of False e1]] m that by simp
  qed
qed simp

section \<open>The tick is a run\<close>

text \<open>From a well-formed book, paused when \<open>p\<close> says so.\<close>

definition ready :: "bool \<Rightarrow> engine \<Rightarrow> bool" where
  "ready p e = (book_wf (book e) \<and> (p \<longrightarrow> eg_paused e))"

definition safe :: "wiring \<Rightarrow> bool \<Rightarrow> bool \<Rightarrow> (engine, 'a) prog \<Rightarrow> bool" where
  "safe S p entry m = (\<forall>e. ready p e \<longrightarrow> moves S entry e (snd (m e)))"

lemma ready_moves: "wiring_ok S \<Longrightarrow> ready p e \<Longrightarrow> moves S entry e e' \<Longrightarrow> ready p e'"
  using moves_wf [of S entry e e'] by (auto simp: ready_def moves_def)

lemma safe_seq: "wiring_ok S \<Longrightarrow> safe S p entry m \<Longrightarrow> safe S p entry n \<Longrightarrow> safe S p entry (pseq m n)"
  unfolding safe_def by (metis moves_seq ready_moves snd_conv)

lemma safe_lift: "(\<And>v. r = Inr v \<Longrightarrow> safe S p entry (f v)) \<Longrightarrow> safe S p entry (pbind (plift r) f)"
  by (cases r) (auto simp: safe_def plift_bind)

lemma safe_mod: "(\<And>e. moves S entry e (f e)) \<Longrightarrow> safe S p entry (pmod f)"
  by (simp add: safe_def)

lemma safe_quiet: "(\<And>e. moves S entry e (snd (m e))) \<Longrightarrow> safe S p entry m"
  by (simp add: safe_def)

lemma moves_any: "moves S False e e' \<Longrightarrow> moves S entry e e'"
  by (simp add: moves_def)

definition ticker_ok :: "tick_env \<Rightarrow> bool" where
  "ticker_ok t = (case env_ticker t of Inl _ \<Rightarrow> True | Inr x \<Rightarrow> 0 < ticker_price x)"

text \<open>When a tick may open a deal: by hand, or unpaused inside the schedule.\<close>

definition entry_allowed :: "wiring \<Rightarrow> tick_env \<Rightarrow> bool \<Rightarrow> bool" where
  "entry_allowed S t paused =
     (env_manual_present t \<and> st_manual S \<noteq> None \<or>
      \<not> paused \<and> schedule_is_open (st_date_str S) (schedule_cfg (st_cfg S)) (env_today t) (env_hhmm t) = Inr True)"

lemma tick_body_safe:
  assumes "wiring_ok S" "ticker_ok t"
  shows "safe S p (entry_allowed S t p) (tick_body S t)"
  unfolding tick_body_def Let_def
proof (intro safe_lift safe_seq [OF assms(1)])
  fix ticker sched_open
  assume tk: "env_ticker t = Inr ticker"
    and sc: "schedule_is_open (st_date_str S) (schedule_cfg (st_cfg S)) (env_today t) (env_hhmm t) = Inr sched_open"
  let ?price = "ticker_price ticker" and ?E = "entry_allowed S t p"
  have pos: "0 < ?price" using assms(2) tk by (simp add: ticker_ok_def)
  show "safe S p ?E (monitor_open_deals S t ?price)"
    unfolding safe_def ready_def
    using monitor_run [OF assms(1) _ pos] by (metis moves_adds moves_any prod.collapse)
  have "moves S ?E e (snd (check_manual_trigger S t ?price e))" for e
    by (rule moves_mono [OF manual_moves [OF assms(1) pos]]) (simp add: entry_allowed_def)
  then show "safe S p ?E (check_manual_trigger S t ?price)" by (rule safe_quiet)
  show "safe S p ?E (check_deal_sentinels S t ?price)"
    unfolding safe_def ready_def check_deal_sentinels_def using handle_sentinels_moves [OF assms(1)] moves_any by blast
  show "safe S p ?E (\<lambda>e. if sched_open \<and> \<not> eg_paused e then check_entry S t ?price e else pskip e)"
    unfolding safe_def
  proof (intro allI impI)
    fix e
    assume r: "ready p e"
    show "moves S ?E e (snd (if sched_open \<and> \<not> eg_paused e then check_entry S t ?price e else pskip e))"
    proof (cases "sched_open \<and> \<not> eg_paused e")
      case True
      then have ?E using r sc by (auto simp: entry_allowed_def ready_def)
      with True show ?thesis using check_entry_moves [OF assms(1) pos, of e t] by simp
    qed auto
  qed
qed (auto intro!: safe_quiet safe_mod transition_quiet fetch_quiet wick_quiet liq_quiet drawdown_quiet write_quiet moves_quiet)

lemma tick_moves:
  assumes "wiring_ok S" "ticker_ok t" "book_wf (book e)"
  shows "moves S (entry_allowed S t (eg_paused e)) e (snd (tick S t e))"
proof -
  let ?E = "entry_allowed S t (eg_paused e)"
  obtain r e1 where b: "tick_body S t e = (r, e1)" by fastforce
  have "ready (eg_paused e) e" using assms(3) by (simp add: ready_def)
  then have m: "moves S ?E e e1"
    using tick_body_safe [OF assms(1,2), of "eg_paused e"] b unfolding safe_def by force
  have "moves S ?E e1 (tick_caught S t err e1)" for err
    by (rule moves_quiet) (simp_all add: tick_caught_def view_of_def split: prod.split)
  then show ?thesis using m moves_trans by (auto simp: tick_def b split: sum.split)
qed

end
