(* ===== verification/Exit_Rules.thy ===== *)
theory Exit_Rules
  imports Monitor_Safety
begin

text \<open>
  The rules by which the engine leaves a position: what a take profit realises, what a trailing stop
  follows, how many DCA orders a tick adds.
\<close>

section \<open>Take profit\<close>

lemma pnl_of_mono:
  assumes "deal_wf d" "0 < c" "0 < c'" "if side d = ''long'' then c \<le> c' else c' \<le> c"
  shows "pnl_of d c \<le> pnl_of d c'"
proof -
  have a: "0 < avg_of d" "0 < total_size d" "0 \<le> (of_int (leverage d) :: real)"
    using avg_of_pos total_size_pos assms(1) by (auto simp: deal_wf_def)
  have "(if side d = ''long'' then c - avg_of d else avg_of d - c) / c
      \<le> (if side d = ''long'' then c' - avg_of d else avg_of d - c') / c'"
    using a(1) assms(2-4) by (auto simp: field_simps)
  then show ?thesis
    unfolding pnl_of_def times_divide_eq_right [symmetric] using a by (intro mult_right_mono mult_left_mono) auto
qed

lemma exit_history:
  assumes "deal_wf d" "0 < price" "engine_exit S t d price reason trig tag msg e = (r, e')"
  shows "r = Inr ()" "opens e' = AList.delete (deal_id d) (opens e)"
    "\<exists>x. closed_deals (book e') = closed_deals (book e) @ [x] \<and> deal_id x = deal_id d \<and> orders x = orders d \<and>
      pnl_btc x = pnl_of d price \<and> close_price x = Some price \<and> exit_trigger x = Some trig"
  using engine_exit_eq [OF calculate_pnl_wf [OF assms(1,2)], of S t reason trig tag msg e] assms(3)
  by (auto simp: exit_book_def)

text \<open>C2: a take profit by price never realises less than configured: when the price or the best price
  since opening reaches the target, the deal is either held (below the minimum, or its confirmation
  missing or raising) or closed once, with its orders, at a PnL of at least the configured percentage of its size times the leverage.\<close>

theorem take_profit_realises_target:
  assumes "book_wf (book e)" "map_of (opens e) did = Some d" "tp_pct_of (tp_cfg_of S) d = Some pct"
    "0 < pct" "pct < 100" "0 < price" "compute_tp_target_price (avg_of d) pct (side d) = Inr target"
    "tp_wick_hit (use_wick_simulation (st_cfg S)) d target price \<or> tp_tick_hit d target price"
    "check_tp S t did price e = (r, e')"
  shows "e' = e \<or>
    (r = Inr () \<and> opens e' = AList.delete did (opens e) \<and>
     (\<exists>x. closed_deals (book e') = closed_deals (book e) @ [x] \<and> deal_id x = did \<and> orders x = orders d \<and>
        total_size d * of_int (leverage d) * pct / 100 \<le> pnl_btc x \<and> exit_trigger x = Some (Exit_Trigger ''price_tp'')))"
proof -
  note wf = book_wf_lookup [OF assms(1,2)]
  let ?fill = "if tp_wick_hit (use_wick_simulation (st_cfg S)) d target price \<and> \<not> tp_tick_hit d target price then target else price"
  have c: "side d = ''long'' \<longrightarrow> pct < 100" "side d \<noteq> ''long'' \<longrightarrow> - 100 < pct" using assms(4,5) by auto
  obtain u where u: "0 < u" "compute_tp_target_price (avg_of d) pct (side d) = Inr u"
    "calculate_pnl d u = Inr (total_size d * of_int (leverage d) * pct / 100, (of_int (leverage d))\<^sup>2 * pct)"
    using tp_target_pnl [OF wf(3) c] by blast
  then have tgt: "0 < target" "pnl_of d target = total_size d * of_int (leverage d) * pct / 100"
    using assms(7) calculate_pnl_wf [OF wf(3), of target] by auto
  have fill: "0 < ?fill" "pnl_of d target \<le> pnl_of d ?fill"
    using assms(6,8) tgt(1) pnl_of_mono [OF wf(3) tgt(1) assms(6)] by (auto simp: tp_tick_hit_def)
  have "check_tp S t did price e = (r, e') \<Longrightarrow> e' = e \<or>
      engine_exit S t d ?fill ''tp'' (Exit_Trigger ''price_tp'') ''tp_fee:'' (Msg_Take_Profit (symbol d) ?fill) e = (r, e')"
    using assms(8) unfolding check_tp_def
    by (auto simp: assms(2,3,7) plift_bind wf(3) Let_def pskip_apply split: sum.splits if_splits)
  then show ?thesis
    using assms(9) exit_history [OF wf(3) fill(1)] wf(1) fill(2) tgt(2) by fastforce
qed

text \<open>with wick simulation a target the price once touched stays hit: when the deal was held at the touch, or its
  target is lowered below an old high, a later tick at a loss closes it at the target, and the book
  takes the full configured profit at a time when the market offers a loss.\<close>

theorem stale_wick_books_unavailable_profit:
  assumes "book_wf (book e)" "map_of (opens e) did = Some d" "side d = ''long''" "tp_pct_of (tp_cfg_of S) d = Some pct"
    "0 < pct" "pct < 100" "use_wick_simulation (st_cfg S)" "avg_of d / (1 - pct / 100) \<le> wick_high_since_open d"
    "0 < price" "price < avg_of d" "below_minimum_tp S d price = Inr False" "confirmation_missing S e = Inr False"
  shows "\<exists>e' x. check_tp S t did price e = (Inr (), e') \<and> closed_deals (book e') = closed_deals (book e) @ [x] \<and> deal_id x = did
    \<and> pnl_btc x = total_size d * of_int (leverage d) * pct / 100 \<and> 0 < pnl_btc x \<and> pnl_of d price < 0"
proof -
  note wf = book_wf_lookup [OF assms(1,2)]
  let ?t = "avg_of d / (1 - pct / 100)"
  have c: "side d = ''long'' \<longrightarrow> pct < 100" "side d \<noteq> ''long'' \<longrightarrow> - 100 < pct" using assms(5,6) by auto
  note tgt = tp_target_exists [OF wf(3) c]
  have t: "0 < ?t" "compute_tp_target_price (avg_of d) pct (side d) = Inr ?t" using tgt assms(3) by simp_all
  have pnl: "pnl_of d ?t = total_size d * of_int (leverage d) * pct / 100"
    using tp_target_pnl [OF wf(3) c] t calculate_pnl_wf [OF wf(3), of ?t] by auto
  have "avg_of d * 1 \<le> ?t" using avg_of_pos [OF wf(3)] assms(5,6) by (simp add: field_simps)
  then have miss: "\<not> tp_tick_hit d ?t price" and hit: "tp_wick_hit True d ?t price"
    using assms(3,8,10) by (auto simp: tp_tick_hit_def tp_wick_hit_def)
  obtain r e' where ex: "engine_exit S t d ?t ''tp'' (Exit_Trigger ''price_tp'') ''tp_fee:'' (Msg_Take_Profit (symbol d) ?t) e = (r, e')"
    by fastforce
  have eq: "check_tp S t did price e = (r, e')"
    using miss hit assms(7,11,12) ex by (simp add: check_tp_def assms(2,4) plift_bind wf(3) t(2) Let_def)
  have size: "0 < total_size d" "1 \<le> leverage d" using total_size_pos [OF wf(3)] wf(3) by (simp_all add: deal_wf_def)
  then have "pnl_of d price < 0" using assms(3,9,10) by (simp add: pnl_of_def mult_less_0_iff divide_less_0_iff)
  moreover have "0 < total_size d * of_int (leverage d) * pct / 100" using size assms(5) by simp
  ultimately show ?thesis using exit_history [OF wf(3) t(1) ex] eq wf(1) pnl by auto
qed

section \<open>Trailing stop\<close>

lemma delete_update_same: "AList.delete k (AList.update k v xs) = AList.delete k xs"
  by (induction xs) auto


section \<open>DCA\<close>

text \<open>C7: however far the price falls in one tick, and whatever is closed on the way, the monitoring of all open
  deals adds at most one order to all deals of the book together, the open ones and those of the history, opens no deal,
  and leaves the pause flag and the drawdown guard alone.\<close>

theorem one_dca_order_per_tick:
  assumes "wiring_ok S" "book_wf (book e)" "0 < price"
  shows "order_total (book (snd (monitor_open_deals S t price e))) \<le> order_total (book e) + 1
    \<and> set (keys (opens (snd (monitor_open_deals S t price e)))) \<subseteq> set (keys (opens e))
    \<and> control (snd (monitor_open_deals S t price e)) = control e"
  using monitor_run [OF assms, of t] by (metis adds_orders_def prod.collapse)

end
