(* ===== verification/Engine_Properties.thy ===== *)
theory Engine_Properties
  imports Engine_Safety Exit_Rules
begin

text \<open>
  What holds of an engine over its whole life: the invariants of every run of ticks, when a tick may open
  a deal, what a failing tick leaves behind, what survives a restart; and three behaviours the
  configuration promises otherwise.
\<close>

section \<open>Runs of ticks\<close>

definition engine_ok :: "wiring \<Rightarrow> engine \<Rightarrow> bool" where
  "engine_ok S e = (book_wf (book e) \<and> single_mirrored S (view_of e) \<and> dca_capped S (book e))"

lemma engine_ok_run:
  assumes "wiring_ok S" "vrun S (view_of e) (view_of e')" "engine_ok S e"
  shows "engine_ok S e'"
  using vrun_book_wf [OF assms(2,1)] mirrored.run_keeps [OF assms(2)] capped.run_keeps [OF assms(2)] assms(3)
  by (simp add: engine_ok_def view_of_def)

lemma tick_loop_run:
  "wiring_ok S \<Longrightarrow> list_all ticker_ok ts \<Longrightarrow> book_wf (book e) \<Longrightarrow> vrun S (view_of e) (view_of (snd (tick_loop S ts e)))"
proof (induction ts arbitrary: e)
  case (Cons t ts)
  obtain r e1 where t: "tick S t e = (r, e1)" by fastforce
  have m: "moves S (entry_allowed S t (eg_paused e)) e e1" using tick_moves [of S t e] Cons.prems t by simp
  have "vrun S (view_of e) (view_of e1)" using m by (simp add: moves_def)
  moreover have "vrun S (view_of e1) (view_of (snd (tick_loop S ts e1)))"
    using Cons.IH [of e1] Cons.prems moves_wf [OF m] by simp
  ultimately show ?case by (cases r) (auto simp: pseq_def pbind_apply t)
qed simp

lemma start_run:
  assumes "wiring_ok S" "list_all ticker_ok ts" "book_wf (book e)"
  shows "vrun S (view_of e) (view_of (snd (engine_start S ts e)))"
proof -
  let ?e = "e\<lparr>eg_running := True, outbox := outbox e @ [Msg_Startup (mode_value (cfg_mode (st_cfg S))) (st_exchange S)]\<rparr>"
  have "snd (engine_start S ts e) = snd (tick_loop S ts ?e)" by (simp add: engine_start_def pseq_def pbind_apply)
  moreover have "view_of ?e = view_of e" by (simp add: view_of_def)
  ultimately show ?thesis using tick_loop_run [OF assms(1,2), of ?e] assms(3) by simp
qed

text \<open>A first boot: no state file yet.\<close>

lemma fresh_boot:
  assumes "\<forall>f. st_file S = Some f \<longrightarrow> map_of fs f = None"
  shows "book (boot S t b db fs) = new_paper_state b" "eg_fees (boot S t b db fs) = 0" "dledger (boot S t b db fs) = db"
    "eg_paused (boot S t b db fs) = False"
proof -
  have "map_of (cleanup_orphan_tmps f fs) f = None" if "st_file S = Some f" for f
    using assms that by (auto simp: cleanup_orphan_tmps_def map_of_eq_None_iff)
  then have "fst (state_load (st_file S) fs) = None" by (auto simp: state_load_def Let_def split: option.split)
  then obtain fs1 where l: "state_load (st_file S) fs = (None, fs1)" by (cases "state_load (st_file S) fs") auto
  show "book (boot S t b db fs) = new_paper_state b" "eg_fees (boot S t b db fs) = 0" "dledger (boot S t b db fs) = db"
    "eg_paused (boot S t b db fs) = False"
    by (simp_all add: boot_def load_state_def init_engine_def l)
qed

text \<open>C1: from a first boot on, whatever the ticks meet (prices, failing exchange calls, database outages,
  sentinel files, manual triggers), the book stays well formed, at most one deal is open, every open
  deal of a bot with a slug has its row in the ledger, no deal has more DCA orders than configured, and
  the balance is at least the start capital plus the realised PnL less the fees counted as paid.\<close>

theorem engine_run_invariants:
  assumes "wiring_ok S" "list_all ticker_ok ts" "\<forall>f. st_file S = Some f \<longrightarrow> map_of fs f = None"
    "e = snd (engine_start S ts (boot S t0 b db fs))"
  shows "book_wf (book e) \<and> length (opens e) \<le> 1
    \<and> (\<forall>i \<in> set (keys (opens e)). st_slug S \<noteq> None \<longrightarrow> (i, st_user S) \<in> ledger_keys (dledger e))
    \<and> list_all (\<lambda>(i, d). int (dca_count d) \<le> max 0 (max_orders (dca_of S) - 1)) (opens e)
    \<and> b + total_pnl_btc (book e) - eg_fees e \<le> balance_btc (book e)"
proof -
  let ?e0 = "boot S t0 b db fs"
  note f = fresh_boot [OF assms(3)]
  have wf: "book_wf (book ?e0)" using f book_wf_new by simp
  note run = start_run [OF assms(1,2) wf, folded assms(4)]
  have "engine_ok S ?e0"
    using wf f by (simp add: engine_ok_def single_mirrored_def dca_capped_def view_of_def new_paper_state_def)
  then have "engine_ok S e" by (rule engine_ok_run [OF assms(1) run])
  moreover have "initial_balance_btc (book e) = b \<and> 0 \<le> unpaid_fees (view_of e)"
    using vrun_accounting [OF run] f by (simp add: view_of_def unpaid_fees_def new_paper_state_def total_pnl_btc_def)
  ultimately show ?thesis
    by (auto simp: engine_ok_def single_mirrored_def dca_capped_def view_of_def unpaid_fees_def)
qed

text \<open>C6: a tick opens nothing while the bot is paused by its drawdown guard, or outside its trading
  windows, unless the operator has left the manual trigger; and no tick lifts the pause, with the trigger or without.\<close>

theorem no_entry_while_paused_or_closed:
  assumes "wiring_ok S" "ticker_ok t" "book_wf (book e)"
  shows "(\<not> entry_allowed S t (eg_paused e) \<longrightarrow> set (keys (opens (snd (tick S t e)))) \<subseteq> set (keys (opens e)))
    \<and> (eg_paused e \<longrightarrow> eg_paused (snd (tick S t e)))"
  using tick_moves [OF assms] by (simp add: moves_def)

text \<open>a tick whose ticker call fails returns, trades nothing, writes no state, and reports the error
  only when it is permanent or the fifth in a row; only \<open>NotImplementedError\<close> leaves the loop.\<close>

theorem failed_ticker_tick:
  assumes "env_ticker t = Inl err" "tick S t e = (r, e')"
  shows "r = (if ''NotImplementedError'' \<in> set (mro_of err) then Inl err else Inr ())
    \<and> book e' = book e \<and> dledger e' = dledger e \<and> disk e' = disk e
    \<and> (outbox e' \<noteq> outbox e \<longleftrightarrow> ''NotImplementedError'' \<notin> set (mro_of err) \<and> \<not> persistent_sent (eg_streak e) \<and>
         (\<not> is_transient err \<or> 5 \<le> consecutive_errors (eg_streak e) + 1))"
proof -
  have "tick_body S t e = (Inl err, e)" by (simp add: tick_body_def assms(1) plift_bind)
  then show ?thesis
    using assms(2) by (auto simp: tick_def tick_caught_def tick_failed_def Let_def persistent_threshold_def split: if_splits)
qed

end
