(* ===== verification/Engine_Restart.thy ===== *)
theory Engine_Restart
  imports Engine_Properties
begin

text \<open>
  What a restart keeps: the state file a tick writes, read back by the boot of a new process.
\<close>

text \<open>A deal as the file gives it back: the reported result rounded, everything else the same.\<close>

definition file_copy :: "real \<Rightarrow> paper_deal \<Rightarrow> paper_deal" where
  "file_copy c d = (case reported_pnl d c of Inl _ \<Rightarrow> d | Inr (b, q) \<Rightarrow> rounded_deal d b q)"

lemma file_copy_simps [simp]:
  "deal_id (file_copy c d) = deal_id d" "orders (file_copy c d) = orders d" "is_open (file_copy c d) = is_open d"
  "side (file_copy c d) = side d" "leverage (file_copy c d) = leverage d" "peak_price (file_copy c d) = peak_price d"
  by (simp_all add: file_copy_def rounded_deal_def split: sum.split prod.split)

lemma deals_written:
  assumes "list_all deal_wf ds"
  shows "\<exists>js. all_ok (map (\<lambda>d. deal_to_dict d c) ds) = Inr js \<and> parse_deals now js = map (file_copy c) ds"
  using assms
proof (induction ds)
  case (Cons d ds)
  obtain js where js: "all_ok (map (\<lambda>d. deal_to_dict d c) ds) = Inr js" "parse_deals now js = map (file_copy c) ds"
    using Cons by auto
  have "deal_wf d" using Cons.prems by simp
  then obtain b p j where j: "reported_pnl d c = Inr (b, p)" "deal_to_dict d c = Inr j" "dict_to_deal now j = Inr (rounded_deal d b p)"
    using deal_dict_roundtrip by metis
  then show ?case using js by (auto simp: parse_deals_def file_copy_def)
qed (simp add: parse_deals_def)

lemma slug_call_frame:
  "\<exists>db. snd (with_slug S (\<lambda>s. pseq (on_ledger up (m s)) pskip) e) = e\<lparr>dledger := db\<rparr>"
proof (cases "st_slug S")
  case None
  have "e = e\<lparr>dledger := dledger e\<rparr>" by simp
  then show ?thesis unfolding with_slug_def None option.case pskip_apply snd_conv by metis
next
  case (Some s)
  obtain r e1 where o: "on_ledger up (m s) e = (r, e1)" by fastforce
  then have "e1 = e\<lparr>dledger := (if up then snd (m s (dledger e)) else dledger e)\<rparr>"
    using snd_on_ledger [of up "m s" e] by simp
  moreover have "snd (with_slug S (\<lambda>s. pseq (on_ledger up (m s)) pskip) e) = e1"
    by (cases r) (simp_all add: with_slug_def Some pseq_def pbind_apply ptry_apply o)
  ultimately show ?thesis by metis
qed

lemma restore_fields_open:
  assumes "sj_open_deals raw = Some os" "parse_deals now os = ds" "distinct (map deal_id ds)" "opens e = []"
  shows "opens (restore_fields now raw e) = map (\<lambda>d. (deal_id d, d)) ds"
    "closed_deals (book (restore_fields now raw e)) = closed_deals (book e) @ parse_deals now (get_or [] (sj_closed_deals raw))"
    "balance_btc (book (restore_fields now raw e)) = get_or (balance_btc (book e)) (sj_balance_btc raw)"
    "initial_balance_btc (book (restore_fields now raw e)) = get_or (initial_balance_btc (book e)) (sj_initial_balance_btc raw)"
  using assms by (simp_all add: restore_fields_def restore_book_def fold_open_fresh)

lemma restart_from_write:
  assumes "book_wf (book e)" "st_file S = Some (base @ ''.json'')" "base \<noteq> []"
    "write_state S price sched e = (r, e1)" "e2 = boot S t b (dledger e1) (disk e1)"
  shows "r = Inr () \<and> opens e2 = map (\<lambda>(i, d). (i, file_copy price d)) (opens e)
    \<and> closed_deals (book e2) = map (file_copy 0) (take 50 (rev (closed_deals (book e))))
    \<and> balance_btc (book e2) = py_round (balance_btc (book e)) 8
    \<and> initial_balance_btc (book e2) = initial_balance_btc (book e)
    \<and> eg_fees e2 = py_round (eg_fees e) 10 \<and> eg_dd e2 = eg_dd e \<and> eg_paused e2 = eg_paused e"
proof -
  let ?n = "base @ ''.json''" and ?ds = "vals (opens e)" and ?hs = "take 50 (rev (closed_deals (book e)))"
  have wf: "list_all deal_wf ?ds" "list_all deal_wf ?hs"
    using assms(1) by (auto simp: book_wf_def list_all_iff entry_wf_def dest!: in_set_takeD)
  obtain os hs where os: "all_ok (map (\<lambda>d. deal_to_dict d price) ?ds) = Inr os" "parse_deals (env_now t) os = map (file_copy price) ?ds"
    and hs: "all_ok (map (\<lambda>d. deal_to_dict d 0) ?hs) = Inr hs" "parse_deals (env_now t) hs = map (file_copy 0) ?hs"
    using deals_written [OF wf(1)] deals_written [OF wf(2)] by metis
  obtain j where j: "state_snapshot S price sched e = Inr j" "sj_open_deals j = Some os"
    "sj_closed_deals j = Some hs" "sj_balance_btc j = Some (py_round (balance_btc (book e)) 8)"
    "sj_initial_balance_btc j = Some (initial_balance_btc (book e))" "sj_fees_paid_btc j = Some (py_round (eg_fees e) 10)"
    "sj_drawdown_guard j = Some (dd_to_dict (eg_dd e))" "sj_paused_by_drawdown j = Some (eg_paused e)"
    by (simp add: state_snapshot_def os(1) hs(1) closed_deals_ui_cap_def state_summary_def del: map_map)
  have e1: "r = Inr ()" "e1 = e\<lparr>disk := state_write (Some ?n) j (disk e)\<rparr>"
    using assms(2,4) j(1) by (auto simp: write_state_def)
  have s: "\<not> suffix ''.tmp'' ?n" by (auto simp: suffix_def append_eq_append_conv2 append_eq_Cons_conv)
  obtain fs where l: "state_load (Some ?n) (disk e1) = (Some j, fs)"
    using state_load_after_write [OF tmp_json_differs [OF assms(3)] s, of j "disk e"] e1(2)
    by (cases "state_load (Some ?n) (disk e1)") simp
  let ?init = "init_engine S b (dledger e1) (disk e1)\<lparr>disk := fs\<rparr>"
  let ?e = "restore_fields (env_now t) j ?init"
  have "e2 = snd (with_slug S (\<lambda>slug. pseq (on_ledger (env_db_up t)
      (replay_deals_in_transaction (vals (opens ?e) @ closed_deals (book ?e)) slug (cfg_name (st_cfg S)) (st_user S))) pskip) ?e)"
    using l by (simp add: assms(2,5) boot_def load_state_def init_engine_def Let_def)
  then obtain db where e2: "e2 = ?e\<lparr>dledger := db\<rparr>" using slug_call_frame by metis
  have "map deal_id ?ds = keys (opens e)"
    using assms(1) by (auto simp: book_wf_def list_all_iff entry_wf_def)
  moreover have "map deal_id (map (file_copy price) ?ds) = map deal_id ?ds" by simp
  moreover have "distinct (keys (opens e))" using assms(1) by (simp add: book_wf_def)
  ultimately have d: "distinct (map deal_id (map (file_copy price) ?ds))" by metis
  have o: "opens ?init = []" "closed_deals (book ?init) = []" by (simp_all add: init_engine_def new_paper_state_def)
  note res = restore_fields_open [OF j(2) os(2) d o(1)]
  have "map (\<lambda>d. (deal_id d, d)) (map (file_copy price) ?ds) = map (\<lambda>(i, d). (i, file_copy price d)) (opens e)"
    using assms(1) by (auto simp: book_wf_def list_all_iff entry_wf_def)
  moreover have "eg_dd ?e = eg_dd e" "eg_paused ?e = eg_paused e" "eg_fees ?e = py_round (eg_fees e) 10"
    using j by (simp_all add: restore_fields_def init_engine_def dd_from_dict_def dd_to_dict_def opt_get_def)
  ultimately show ?thesis using e1(1) res j hs(2) o(2) by (simp add: e2)
qed

text \<open>C4: what a tick has written, a restarted bot has: the same open deals under the same ids with their
  orders, trackers and overrides, the same drawdown guard and pause flag, balance and fees up to the
  rounding of the file.  The history comes back newest first, and without all but its last fifty deals.\<close>

theorem restart_restores_engine:
  assumes "book_wf (book e)" "st_file S = Some (base @ ''.json'')" "base \<noteq> []"
    "write_state S price sched e = (r, e1)" "e2 = boot S t b (dledger e1) (disk e1)"
  shows "r = Inr () \<and> opens e2 = map (\<lambda>(i, d). (i, file_copy price d)) (opens e)
    \<and> closed_deals (book e2) = map (file_copy 0) (take 50 (rev (closed_deals (book e))))
    \<and> balance_btc (book e2) = py_round (balance_btc (book e)) 8
    \<and> initial_balance_btc (book e2) = initial_balance_btc (book e)
    \<and> eg_fees e2 = py_round (eg_fees e) 10 \<and> eg_dd e2 = eg_dd e \<and> eg_paused e2 = eg_paused e"
  by (rule restart_from_write [OF assms])

end
