(* ===== verification/Order_Reconciler.thy ===== *)
theory Order_Reconciler
  imports Paper_State
begin

text \<open>
  Pending live orders, the position check and partial fills (\<open>live/order_reconciliation.py\<close>).  A
  reconciliation takes its snapshot and commits its removals under the lock, in two critical sections;
  other threads may track orders in between, so it is two functions here.
\<close>

section \<open>Pending orders\<close>

record pending_order =
  po_client_id :: string
  po_deal_id :: string
  po_side :: string
  po_size :: real
  po_placed_at :: real
  po_status :: string
  po_exchange_id :: "string option"
  po_error :: "real option"
  po_fill_price :: "real option"
  po_filled_size :: "real option"

text \<open>\<open>po_error\<close> is the age the text of a timeout shows.\<close>

record reconciler =
  rc_max_age :: real
  rc_pending :: "(string \<times> pending_order) list"

definition new_reconciler :: "real \<Rightarrow> reconciler" where
  "new_reconciler max_age = \<lparr>rc_max_age = max_age, rc_pending = []\<rparr>"

definition track_order :: "pending_order \<Rightarrow> reconciler \<Rightarrow> reconciler" where
  "track_order p r = r\<lparr>rc_pending := AList.update (po_client_id p) p (rc_pending r)\<rparr>"

definition get_pending :: "reconciler \<Rightarrow> pending_order list" where
  "get_pending r = vals (rc_pending r)"

definition overdue :: "real \<Rightarrow> real \<Rightarrow> pending_order \<Rightarrow> bool" where
  "overdue max_age now p = (max_age < now - po_placed_at p)"

definition timed_out :: "real \<Rightarrow> pending_order \<Rightarrow> pending_order" where
  "timed_out now p = p\<lparr>po_status := ''timeout'', po_error := Some (py_round (now - po_placed_at p) 1)\<rparr>"

text \<open>The checks outside the lock, over a snapshot.\<close>

definition reconcile_scan :: "real \<Rightarrow> real \<Rightarrow> (string \<times> pending_order) list \<Rightarrow> pending_order list" where
  "reconcile_scan max_age now snapshot = map (timed_out now) (filter (overdue max_age now) (vals snapshot))"

definition reconcile_commit :: "pending_order list \<Rightarrow> reconciler \<Rightarrow> reconciler" where
  "reconcile_commit completed r =
     r\<lparr>rc_pending := fold (\<lambda>p. AList.delete (po_client_id p)) completed (rc_pending r)\<rparr>"

definition reconcile :: "real \<Rightarrow> reconciler \<Rightarrow> pending_order list \<times> reconciler" where
  "reconcile now r =
     (let completed = reconcile_scan (rc_max_age r) now (rc_pending r) in (completed, reconcile_commit completed r))"

definition clear_pending :: "reconciler \<Rightarrow> reconciler" where
  "clear_pending r = r\<lparr>rc_pending := []\<rparr>"

section \<open>Positions and partial fills\<close>

text \<open>What \<open>fetch_positions\<close> does: unsupported, failing, or one size per position, \<open>None\<close> for an entry that is
  no dict or whose size is no number; a missing size is 0.\<close>

datatype positions_reply = Positions_Unsupported | Positions_Failed | Positions "real option list"

record drift_report =
  dr_local :: real
  dr_exchange :: real
  dr_local_deals :: nat
  dr_positions :: nat
  dr_mismatch :: bool

datatype position_report = Not_Implemented_Report | Error_Report | Drift_Report drift_report

definition position_reconcile :: "positions_reply \<Rightarrow> paper_state \<Rightarrow> position_report" where
  "position_reconcile reply s =
     (case reply of
        Positions_Unsupported \<Rightarrow> Not_Implemented_Report
      | Positions_Failed \<Rightarrow> Error_Report
      | Positions ps \<Rightarrow>
          let local_size = sum_list (map total_size (vals (open_deals s)));
              exchange_size = sum_list (map (\<lambda>p. case p of None \<Rightarrow> 0 | Some x \<Rightarrow> x) ps) in
          Drift_Report \<lparr>dr_local = local_size, dr_exchange = exchange_size, dr_local_deals = length (open_deals s),
            dr_positions = length ps, dr_mismatch = (1 / 10 ^ 8 < \<bar>local_size - exchange_size\<bar>)\<rparr>)"

datatype fill_class = Accept | Partial_Fill | Abandon

definition classify_partial_fill :: "real \<Rightarrow> real \<Rightarrow> real \<Rightarrow> real \<Rightarrow> fill_class" where
  "classify_partial_fill filled requested accept abandon =
     (if requested \<le> 0 then Abandon
      else if accept \<le> filled / requested then Accept
      else if filled / requested < abandon then Abandon
      else Partial_Fill)"

section \<open>Reconciliation\<close>

definition pending_wf :: "reconciler \<Rightarrow> bool" where
  "pending_wf r = (distinct (keys (rc_pending r)) \<and> list_all (\<lambda>(i, p). po_client_id p = i) (rc_pending r))"

lemma pending_wf_new: "pending_wf (new_reconciler m)"
  by (simp add: pending_wf_def new_reconciler_def)

lemma pending_wf_track: "pending_wf r \<Longrightarrow> pending_wf (track_order p r)"
  by (auto simp: pending_wf_def track_order_def list_all_iff set_update_distinct)

lemma scan_ids [simp]: "map po_client_id (reconcile_scan m now xs) = map po_client_id (filter (overdue m now) (vals xs))"
  by (simp add: reconcile_scan_def timed_out_def comp_def)

lemma delete_many:
  "fold (\<lambda>p. AList.delete (po_client_id p)) ps xs = filter (\<lambda>(i, _). i \<notin> po_client_id ` set ps) xs"
proof (induction ps arbitrary: xs)
  case (Cons p ps)
  have "fold (\<lambda>p. AList.delete (po_client_id p)) (p # ps) xs
      = filter (\<lambda>(i, _). i \<notin> po_client_id ` set ps) (AList.delete (po_client_id p) xs)"
    by (simp add: Cons.IH)
  then show ?case by (auto simp: AList.delete_eq intro!: filter_cong)
qed simp

lemma map_of_filter_keys: "map_of (filter (\<lambda>(i, _). i \<notin> A) xs) k = (if k \<in> A then None else map_of xs k)"
  by (induction xs) auto

text \<open>What a committed scan leaves of whatever is pending by then.\<close>

lemma commit_pending:
  "rc_pending (reconcile_commit (reconcile_scan m now xs) r)
    = filter (\<lambda>(i, _). i \<notin> po_client_id ` set (filter (overdue m now) (vals xs))) (rc_pending r)"
proof -
  have "po_client_id ` set (reconcile_scan m now xs) = po_client_id ` set (filter (overdue m now) (vals xs))"
    by (metis scan_ids list.set_map)
  then show ?thesis by (simp add: reconcile_commit_def delete_many)
qed

lemma pending_wf_commit: "pending_wf r \<Longrightarrow> pending_wf (reconcile_commit (reconcile_scan m now xs) r)"
  unfolding pending_wf_def commit_pending by (auto simp: list_all_iff distinct_map_filter)

text \<open>a reconciliation splits what is pending: exactly the overdue orders come back, each once, marked as
  timed out and removed; every other order stays as it was, and a second pass at the same time finds nothing more.\<close>

theorem reconcile_splits_pending:
  assumes "pending_wf r" "reconcile now r = (completed, r')"
  shows "completed = map (timed_out now) (filter (overdue (rc_max_age r) now) (get_pending r))
    \<and> get_pending r' = filter (\<lambda>p. \<not> overdue (rc_max_age r) now p) (get_pending r)
    \<and> pending_wf r' \<and> fst (reconcile now r') = []"
proof -
  have r': "r' = reconcile_commit (reconcile_scan (rc_max_age r) now (rc_pending r)) r"
    and c: "completed = reconcile_scan (rc_max_age r) now (rc_pending r)"
    using assms(2) by (auto simp: reconcile_def Let_def)
  have "(i \<notin> po_client_id ` set (filter (overdue (rc_max_age r) now) (vals (rc_pending r)))) \<longleftrightarrow> \<not> overdue (rc_max_age r) now p"
    if "(i, p) \<in> set (rc_pending r)" for i p
  proof -
    have "po_client_id p = i" "\<And>j x. (j, x) \<in> set (rc_pending r) \<Longrightarrow> po_client_id x = i \<Longrightarrow> x = p"
      using assms(1) that by (auto simp: pending_wf_def list_all_iff dest: eq_key_imp_eq_value)
    then show ?thesis using that by force
  qed
  then have "rc_pending r' = filter (\<lambda>(i, p). \<not> overdue (rc_max_age r) now p) (rc_pending r)"
    unfolding r' commit_pending by (intro filter_cong) auto
  then have g: "get_pending r' = filter (\<lambda>p. \<not> overdue (rc_max_age r) now p) (get_pending r)"
    by (simp add: get_pending_def filter_map comp_def split_def)
  have "rc_max_age r' = rc_max_age r" by (simp add: r' reconcile_commit_def)
  then have "fst (reconcile now r') = []"
    using g by (simp add: reconcile_def Let_def reconcile_scan_def get_pending_def filter_empty_conv)
  then show ?thesis using c g pending_wf_commit [OF assms(1)] r' by (simp add: reconcile_scan_def get_pending_def)
qed

text \<open>an order tracked by another thread between snapshot and commit survives the commit, unless it reuses
  the client id of an order that has just timed out: then the commit removes the fresh order, which
  was never checked and is not among the completed.\<close>

theorem reconcile_race:
  assumes "pending_wf r" "fresh = po_client_id p"
  shows "map_of (rc_pending (reconcile_commit (reconcile_scan (rc_max_age r) now (rc_pending r)) (track_order p r))) fresh
    = (case map_of (rc_pending r) fresh of
         Some old \<Rightarrow> if overdue (rc_max_age r) now old then None else Some p
       | None \<Rightarrow> Some p)"
proof -
  let ?gone = "po_client_id ` set (filter (overdue (rc_max_age r) now) (vals (rc_pending r)))"
  have "map_of (filter (\<lambda>(i, _). i \<notin> ?gone) xs) fresh = (if fresh \<in> ?gone then None else map_of xs fresh)" for xs :: "(string \<times> pending_order) list"
    by (rule map_of_filter_keys)
  moreover have "map_of (rc_pending (track_order p r)) fresh = Some p"
    by (simp add: track_order_def assms(2) update_conv')
  moreover have "fresh \<in> ?gone \<longleftrightarrow> (\<exists>old. map_of (rc_pending r) fresh = Some old \<and> overdue (rc_max_age r) now old)"
  proof
    assume "fresh \<in> ?gone"
    then obtain i old where o: "(i, old) \<in> set (rc_pending r)" "overdue (rc_max_age r) now old" "po_client_id old = fresh" by auto
    then have "i = fresh" using assms(1) by (auto simp: pending_wf_def list_all_iff)
    then show "\<exists>old. map_of (rc_pending r) fresh = Some old \<and> overdue (rc_max_age r) now old"
      using o assms(1) by (auto simp: pending_wf_def intro: map_of_is_SomeI)
  next
    assume "\<exists>old. map_of (rc_pending r) fresh = Some old \<and> overdue (rc_max_age r) now old"
    then obtain old where o: "(fresh, old) \<in> set (rc_pending r)" "overdue (rc_max_age r) now old" by (auto dest: map_of_SomeD)
    then have "po_client_id old = fresh" using assms(1) by (auto simp: pending_wf_def list_all_iff)
    with o show "fresh \<in> ?gone" by force
  qed
  ultimately show ?thesis unfolding commit_pending by (simp split: option.split)
qed

section \<open>Partial fills\<close>

lemma classify_mono:
  assumes "0 < requested" "abandon \<le> accept" "x \<le> y"
  shows "classify_partial_fill x requested accept abandon = Accept \<Longrightarrow> classify_partial_fill y requested accept abandon = Accept"
    "classify_partial_fill y requested accept abandon = Abandon \<Longrightarrow> classify_partial_fill x requested accept abandon = Abandon"
  using divide_right_mono [OF assms(3), of requested] assms by (auto simp: classify_partial_fill_def split: if_splits)

section \<open>Witnesses\<close>

definition lost_order :: pending_order where
  "lost_order = \<lparr>po_client_id = ''c1'', po_deal_id = ''d1'', po_side = ''buy'', po_size = 1, po_placed_at = 0,
     po_status = ''pending'', po_exchange_id = None, po_error = None, po_fill_price = None, po_filled_size = None\<rparr>"

theorem reconcile_splits_pending_witness:
  "fst (reconcile 100 (track_order lost_order (new_reconciler 60))) = [timed_out 100 lost_order]"
proof -
  let ?r = "track_order lost_order (new_reconciler 60)"
  have "get_pending ?r = [lost_order]" "rc_max_age ?r = 60" "overdue 60 100 lost_order"
    by (simp_all add: get_pending_def track_order_def new_reconciler_def overdue_def lost_order_def)
  moreover have w: "pending_wf ?r" by (rule pending_wf_track [OF pending_wf_new])
  moreover obtain c r' where r: "reconcile 100 ?r = (c, r')" by (cases "reconcile 100 ?r")
  ultimately show ?thesis using conjunct1 [OF reconcile_splits_pending [OF w r]] unfolding r by simp
qed

theorem reconcile_race_witness:
  "map_of (rc_pending (reconcile_commit (reconcile_scan 60 100 [(''c1'', lost_order)])
     (track_order (lost_order\<lparr>po_placed_at := 99\<rparr>) \<lparr>rc_max_age = 60, rc_pending = [(''c1'', lost_order)]\<rparr>))) ''c1'' = None"
proof -
  let ?r = "\<lparr>rc_max_age = 60, rc_pending = [(''c1'', lost_order)]\<rparr>"
  let ?p = "lost_order\<lparr>po_placed_at := 99\<rparr>"
  have w: "pending_wf ?r" "''c1'' = po_client_id ?p" by (simp_all add: pending_wf_def lost_order_def)
  have o: "overdue 60 100 lost_order" "rc_max_age ?r = 60" by (simp_all add: lost_order_def overdue_def)
  show ?thesis using reconcile_race [OF w, of 100] o by simp
qed

end
