(* ===== verification/Live_Engine.thy ===== *)
theory Live_Engine
  imports Engine_Restart Order_Reconciler Rate_Budget
begin

text \<open>
  The live engine (\<open>live/live_engine.py\<close>): the paper engine's tick between two hooks, a clock-skew gate and a
  periodic reconciliation of pending orders, and the order interface of its first phase.
\<close>

section \<open>State\<close>

record order_intent =
  oi_side :: string
  oi_size :: real
  oi_price :: "real option"
  oi_dry_run :: bool
  oi_timestamp :: int

record fill =
  fl_filled :: real
  fl_average :: "real option"
  fl_timestamp :: int

record live =
  lv_engine :: engine
  lv_dry_run :: bool
  lv_order_log :: "order_intent list"
  lv_clock :: clock_monitor
  lv_skew_paused :: bool
  lv_prev_drawdown :: bool
  lv_reconciler :: reconciler
  lv_counter :: nat

text \<open>What one live tick reads: what its paper tick reads, the time and probe of the clock check, the time of
  the reconciliation.\<close>

record live_env =
  le_tick :: tick_env
  le_check_at :: real
  le_probe :: time_probe
  le_reconcile_at :: real

definition live_order_log_maxlen :: nat where
  "live_order_log_maxlen = 10000"

definition reconcile_every_n_ticks :: nat where
  "reconcile_every_n_ticks = 5"

definition init_live :: "engine \<Rightarrow> bool \<Rightarrow> real \<Rightarrow> live" where
  "init_live e dry_run tolerance =
     \<lparr>lv_engine = e, lv_dry_run = dry_run, lv_order_log = [], lv_clock = new_clock_monitor tolerance,
      lv_skew_paused = False, lv_prev_drawdown = False, lv_reconciler = new_reconciler 60, lv_counter = 0\<rparr>"

section \<open>Hooks\<close>

definition pre_tick_hook :: "live_env \<Rightarrow> live \<Rightarrow> live" where
  "pre_tick_hook x l =
     (case clock_check (le_check_at x) (le_probe x) (lv_clock l) of
        ((_, ok), m) \<Rightarrow>
          let l1 = l\<lparr>lv_clock := m\<rparr> in
          if \<not> ok
          then l1\<lparr>lv_skew_paused := True, lv_prev_drawdown := eg_paused (lv_engine l1),
                  lv_engine := (lv_engine l1)\<lparr>eg_paused := True\<rparr>\<rparr>
          else l1\<lparr>lv_skew_paused := False\<rparr>)"

definition run_reconciliation :: "real \<Rightarrow> live \<Rightarrow> live" where
  "run_reconciliation now l =
     (case reconcile now (lv_reconciler l) of
        (completed, r) \<Rightarrow>
          let late = filter (\<lambda>p. po_status p = ''timeout'') completed; e = lv_engine l in
          l\<lparr>lv_reconciler := r,
            lv_engine := e\<lparr>outbox := outbox e @ map (\<lambda>p. Msg_Order_Timeout (po_client_id p)) late\<rparr>\<rparr>)"

definition post_tick_hook :: "live_env \<Rightarrow> live \<Rightarrow> live" where
  "post_tick_hook x l =
     (if lv_skew_paused l then l\<lparr>lv_engine := (lv_engine l)\<lparr>eg_paused := lv_prev_drawdown l\<rparr>\<rparr>
      else
        let l1 = l\<lparr>lv_counter := lv_counter l + 1\<rparr> in
        if reconcile_every_n_ticks \<le> lv_counter l1
        then run_reconciliation (le_reconcile_at x) (l1\<lparr>lv_counter := 0\<rparr>)
        else l1)"

text \<open>\<open>_post_tick_hook\<close> stands in a \<open>finally\<close>: it runs whatever the body did, and the body's exception goes on.\<close>

definition live_tick :: "wiring \<Rightarrow> live_env \<Rightarrow> (live, unit) prog" where
  "live_tick S x = (\<lambda>l.
     let l1 = pre_tick_hook x l in
     case tick S (le_tick x) (lv_engine l1) of
       (r, e) \<Rightarrow> (r, post_tick_hook x (l1\<lparr>lv_engine := e\<rparr>)))"

fun live_loop :: "wiring \<Rightarrow> live_env list \<Rightarrow> (live, unit) prog" where
  "live_loop S [] = pskip"
| "live_loop S (x # xs) = (\<lambda>l. if eg_running (lv_engine l) then pseq (live_tick S x) (live_loop S xs) l else pskip l)"

section \<open>Orders\<close>

definition place_market_order :: "int \<Rightarrow> string \<Rightarrow> real \<Rightarrow> real option \<Rightarrow> (live, fill) prog" where
  "place_market_order now order_side order_sz price = (\<lambda>l.
     let intent = \<lparr>oi_side = order_side, oi_size = order_sz, oi_price = price, oi_dry_run = lv_dry_run l, oi_timestamp = now\<rparr>;
         log1 = lv_order_log l @ [intent];
         l1 = l\<lparr>lv_order_log := drop (length log1 - live_order_log_maxlen) log1\<rparr> in
     if lv_dry_run l then (Inr \<lparr>fl_filled = order_sz, fl_average = price, fl_timestamp = now\<rparr>, l1)
     else (Inl NotImplementedError, l1))"

section \<open>A live tick is a run of trade steps\<close>

definition clock_ok :: "live_env \<Rightarrow> live \<Rightarrow> bool" where
  "clock_ok x l = snd (fst (clock_check (le_check_at x) (le_probe x) (lv_clock l)))"

lemma pre_hook_simps [simp]:
  "lv_engine (pre_tick_hook x l) = (if clock_ok x l then lv_engine l else (lv_engine l)\<lparr>eg_paused := True\<rparr>)"
  "lv_skew_paused (pre_tick_hook x l) = (\<not> clock_ok x l)"
  "\<not> clock_ok x l \<Longrightarrow> lv_prev_drawdown (pre_tick_hook x l) = eg_paused (lv_engine l)"
  "lv_reconciler (pre_tick_hook x l) = lv_reconciler l" "lv_order_log (pre_tick_hook x l) = lv_order_log l"
  "lv_dry_run (pre_tick_hook x l) = lv_dry_run l" "lv_counter (pre_tick_hook x l) = lv_counter l"
  by (auto simp: pre_tick_hook_def clock_ok_def Let_def split: prod.split)

lemma run_reconciliation_frame [simp]:
  "book (lv_engine (run_reconciliation now l)) = book (lv_engine l)"
  "dledger (lv_engine (run_reconciliation now l)) = dledger (lv_engine l)"
  "disk (lv_engine (run_reconciliation now l)) = disk (lv_engine l)"
  "world.more (lv_engine (run_reconciliation now l)) = world.more (lv_engine l)"
  "lv_order_log (run_reconciliation now l) = lv_order_log l"
  "lv_reconciler (run_reconciliation now l) = snd (reconcile now (lv_reconciler l))"
  by (simp_all add: run_reconciliation_def Let_def split: prod.split)

lemma reconcile_nothing: "rc_pending r = [] \<Longrightarrow> reconcile now r = ([], r)"
  by (simp add: reconcile_def reconcile_scan_def reconcile_commit_def)

lemma post_hook_frame:
  "book (lv_engine (post_tick_hook x l)) = book (lv_engine l)"
  "dledger (lv_engine (post_tick_hook x l)) = dledger (lv_engine l)"
  "eg_fees (lv_engine (post_tick_hook x l)) = eg_fees (lv_engine l)"
  "disk (lv_engine (post_tick_hook x l)) = disk (lv_engine l)"
  "lv_order_log (post_tick_hook x l) = lv_order_log l"
  "eg_paused (lv_engine (post_tick_hook x l)) = (if lv_skew_paused l then lv_prev_drawdown l else eg_paused (lv_engine l))"
proof -
  note m = more_fees [OF run_reconciliation_frame(4)]
  show "book (lv_engine (post_tick_hook x l)) = book (lv_engine l)"
    "dledger (lv_engine (post_tick_hook x l)) = dledger (lv_engine l)"
    "eg_fees (lv_engine (post_tick_hook x l)) = eg_fees (lv_engine l)"
    "disk (lv_engine (post_tick_hook x l)) = disk (lv_engine l)"
    "lv_order_log (post_tick_hook x l) = lv_order_log l"
    "eg_paused (lv_engine (post_tick_hook x l)) = (if lv_skew_paused l then lv_prev_drawdown l else eg_paused (lv_engine l))"
    using m by (auto simp: post_tick_hook_def Let_def control_def)
qed

lemma live_tick_eq:
  "live_tick S x l =
     (case tick S (le_tick x) (if clock_ok x l then lv_engine l else (lv_engine l)\<lparr>eg_paused := True\<rparr>) of
        (r, e) \<Rightarrow> (r, post_tick_hook x ((pre_tick_hook x l)\<lparr>lv_engine := e\<rparr>)))"
  by (simp add: live_tick_def Let_def)

lemma live_tick_run:
  assumes "wiring_ok S" "ticker_ok (le_tick x)" "book_wf (book (lv_engine l))" "live_tick S x l = (r, l')"
  shows "vrun S (view_of (lv_engine l)) (view_of (lv_engine l')) \<and> lv_order_log l' = lv_order_log l
    \<and> (\<not> clock_ok x l \<longrightarrow> eg_paused (lv_engine l') = eg_paused (lv_engine l))
    \<and> (\<not> entry_allowed S (le_tick x) (eg_paused (lv_engine l) \<or> \<not> clock_ok x l) \<longrightarrow>
         set (keys (opens (lv_engine l'))) \<subseteq> set (keys (opens (lv_engine l))))"
proof -
  define e where "e = (if clock_ok x l then lv_engine l else (lv_engine l)\<lparr>eg_paused := True\<rparr>)"
  obtain q e1 where t: "tick S (le_tick x) e = (q, e1)" by fastforce
  have l': "l' = post_tick_hook x ((pre_tick_hook x l)\<lparr>lv_engine := e1\<rparr>)"
    using assms(4) t by (simp add: live_tick_eq e_def [symmetric])
  have e: "view_of e = view_of (lv_engine l)" "book e = book (lv_engine l)"
    "eg_paused e = (eg_paused (lv_engine l) \<or> \<not> clock_ok x l)"
    by (auto simp: e_def view_of_def)
  have "moves S (entry_allowed S (le_tick x) (eg_paused e)) e e1"
    using tick_moves [OF assms(1,2), of e] assms(3) e t by simp
  then show ?thesis
    using e post_hook_frame [of x "(pre_tick_hook x l)\<lparr>lv_engine := e1\<rparr>"]
    by (simp add: l' moves_def view_of_def)
qed

lemma live_loop_run:
  assumes "wiring_ok S"
  shows "list_all (\<lambda>x. ticker_ok (le_tick x)) xs \<Longrightarrow> book_wf (book (lv_engine l)) \<Longrightarrow>
    vrun S (view_of (lv_engine l)) (view_of (lv_engine (snd (live_loop S xs l))))
    \<and> lv_order_log (snd (live_loop S xs l)) = lv_order_log l"
proof (induction xs arbitrary: l)
  case (Cons x xs)
  obtain r l1 where t: "live_tick S x l = (r, l1)" by fastforce
  have m: "vrun S (view_of (lv_engine l)) (view_of (lv_engine l1))" "lv_order_log l1 = lv_order_log l"
    using live_tick_run [OF assms _ _ t] Cons.prems by simp_all
  have "book_wf (book (lv_engine l1))" using vrun_book_wf [OF m(1) assms] Cons.prems(2) by (simp add: view_of_def)
  then have "vrun S (view_of (lv_engine l1)) (view_of (lv_engine (snd (live_loop S xs l1))))
      \<and> lv_order_log (snd (live_loop S xs l1)) = lv_order_log l1"
    using Cons by simp
  then show ?case using m by (cases r) (auto simp: pseq_def pbind_apply t)
qed simp

text \<open>C18: a live engine keeps the invariants of the paper engine over every sequence of live ticks, whatever the
  clocks and the exchange do (the book well formed, one deal open at most, its row in the ledger, the cap on averaging
  orders, and a balance that covers what it was plus the PnL realised since less the fees counted since), and places no order
  in any of them, also with dry-run off: the order interface is never called by the loop.\<close>

theorem live_run_invariants:
  assumes "wiring_ok S" "list_all (\<lambda>x. ticker_ok (le_tick x)) xs" "engine_ok S e"
    "l = snd (live_loop S xs (init_live e dry_run tolerance))"
  shows "book_wf (book (lv_engine l)) \<and> length (opens (lv_engine l)) \<le> 1
    \<and> (\<forall>i \<in> set (keys (opens (lv_engine l))). st_slug S \<noteq> None \<longrightarrow> (i, st_user S) \<in> ledger_keys (dledger (lv_engine l)))
    \<and> list_all (\<lambda>(i, d). int (dca_count d) \<le> max 0 (max_orders (dca_of S) - 1)) (opens (lv_engine l))
    \<and> balance_btc (book e) + (total_pnl_btc (book (lv_engine l)) - total_pnl_btc (book e)) - (eg_fees (lv_engine l) - eg_fees e)
        \<le> balance_btc (book (lv_engine l))
    \<and> lv_order_log l = []"
proof -
  have "book_wf (book e)" using assms(3) by (simp add: engine_ok_def)
  then have run: "vrun S (view_of e) (view_of (lv_engine l))" "lv_order_log l = []"
    using live_loop_run [OF assms(1,2), of "init_live e dry_run tolerance"] assms(4) by (simp_all add: init_live_def)
  show ?thesis
    using engine_ok_run [OF assms(1) run(1) assms(3)] vrun_accounting [OF run(1)] run(2)
    by (auto simp: engine_ok_def single_mirrored_def dca_capped_def view_of_def unpaid_fees_def)
qed

section \<open>Parity with the paper engine\<close>

lemma live_tick_paper:
  assumes "clock_ok x l" "rc_pending (lv_reconciler l) = []" "tick S (le_tick x) (lv_engine l) = (r, e)"
  shows "\<exists>l'. live_tick S x l = (r, l') \<and> lv_engine l' = e \<and> rc_pending (lv_reconciler l') = []"
  using assms
  by (simp add: live_tick_eq post_tick_hook_def Let_def run_reconciliation_def reconcile_nothing)

text \<open>The clock checks of a whole run, each with the monitor the one before has left.\<close>

fun clocks_ok :: "live_env list \<Rightarrow> clock_monitor \<Rightarrow> bool" where
  "clocks_ok [] m = True"
| "clocks_ok (x # xs) m =
     (case clock_check (le_check_at x) (le_probe x) m of ((_, ok), m') \<Rightarrow> ok \<and> clocks_ok xs m')"

lemma live_tick_clock: "live_tick S x l = (r, l') \<Longrightarrow> lv_clock l' = snd (clock_check (le_check_at x) (le_probe x) (lv_clock l))"
  by (auto simp: live_tick_def pre_tick_hook_def post_tick_hook_def run_reconciliation_def Let_def split: prod.splits if_splits)

lemma live_loop_paper:
  "clocks_ok xs (lv_clock l) \<Longrightarrow> rc_pending (lv_reconciler l) = [] \<Longrightarrow>
    fst (live_loop S xs l) = fst (tick_loop S (map le_tick xs) (lv_engine l))
    \<and> lv_engine (snd (live_loop S xs l)) = snd (tick_loop S (map le_tick xs) (lv_engine l))"
proof (induction xs arbitrary: l)
  case (Cons x xs)
  obtain r e where t: "tick S (le_tick x) (lv_engine l) = (r, e)" by fastforce
  have ok: "clock_ok x l" "clocks_ok xs (snd (clock_check (le_check_at x) (le_probe x) (lv_clock l)))"
    using Cons.prems(1) by (auto simp: clock_ok_def split: prod.splits)
  obtain l1 where l1: "live_tick S x l = (r, l1)" "lv_engine l1 = e" "rc_pending (lv_reconciler l1) = []"
    using live_tick_paper [OF ok(1) Cons.prems(2) t] by blast
  have "clocks_ok xs (lv_clock l1)" using ok(2) live_tick_clock [OF l1(1)] by simp
  from Cons.IH [OF this l1(3)] show ?case using l1 t by (cases r) (auto simp: pseq_def pbind_apply)
qed simp

text \<open>C33: while the clocks agree, a live engine does to its book, ledger, files and messages exactly what a
  paper engine does on the same market, exceptions included, with dry-run on or off.\<close>

theorem live_matches_paper:
  assumes "clocks_ok xs (new_clock_monitor tolerance)"
  shows "fst (live_loop S xs (init_live e dry_run tolerance)) = fst (tick_loop S (map le_tick xs) e)
    \<and> lv_engine (snd (live_loop S xs (init_live e dry_run tolerance))) = snd (tick_loop S (map le_tick xs) e)"
  using live_loop_paper [of xs "init_live e dry_run tolerance" S] assms by (simp add: init_live_def new_reconciler_def)

section \<open>A skewed tick\<close>

text \<open>on a tick whose clock check fails a live engine opens no deal, except by manual trigger, runs no
  reconciliation, and leaves its own pause flag as it was.\<close>

theorem skewed_tick_opens_nothing:
  assumes "wiring_ok S" "ticker_ok (le_tick x)" "book_wf (book (lv_engine l))" "\<not> clock_ok x l"
    "\<not> env_manual_present (le_tick x)" "live_tick S x l = (r, l')"
  shows "set (keys (opens (lv_engine l'))) \<subseteq> set (keys (opens (lv_engine l)))
    \<and> eg_paused (lv_engine l') = eg_paused (lv_engine l) \<and> lv_reconciler l' = lv_reconciler l"
proof -
  have "lv_reconciler l' = lv_reconciler l"
    using assms(4,6) by (auto simp: live_tick_eq post_tick_hook_def split: prod.splits)
  then show ?thesis using live_tick_run [OF assms(1-3,6)] assms(4,5) by (simp add: entry_allowed_def)
qed

end
