(* ===== verification/Pause_Persistence.thy ===== *)
theory Pause_Persistence
  imports Live_Engine
begin

text \<open>
  The pause flag across ticks, restarts and the operator's reset (\<open>web/routes/drawdown.py\<close>): the engine reads the
  state file at boot only and rewrites it after every tick, so what the file says of the pause is what the
  last completed tick had in memory.
\<close>

section \<open>Statements that do not look\<close>

text \<open>A statement that neither reads nor writes what \<open>f\<close> changes.\<close>

definition blind :: "('s \<Rightarrow> 's) \<Rightarrow> ('s, 'a) prog \<Rightarrow> bool" where
  "blind f m = (\<forall>s. m (f s) = (case m s of (r, s') \<Rightarrow> (r, f s')))"

lemma blind_bind: "blind f m \<Longrightarrow> (\<And>v. blind f (k v)) \<Longrightarrow> blind f (pbind m k)"
  by (auto simp: blind_def pbind_apply split: prod.split sum.split)

lemma blind_seq: "blind f m \<Longrightarrow> blind f n \<Longrightarrow> blind f (pseq m n)"
  unfolding pseq_def by (rule blind_bind)

lemma blind_try: "blind f m \<Longrightarrow> blind f (ptry m)"
  by (auto simp: blind_def ptry_apply split: prod.split sum.split)

lemma blind_lift: "blind f (plift r)" "blind f (pret v)" "blind f pskip"
  by (simp_all add: blind_def)

lemma blind_get: "(\<And>s. g (f s) = g s) \<Longrightarrow> blind f (pget g)"
  by (simp add: blind_def)

lemma blind_mod: "(\<And>s. h (f s) = f (h s)) \<Longrightarrow> blind f (pmod h)"
  by (simp add: blind_def)

lemma blind_read:
  assumes "\<And>s. g (f s) = g s" "\<And>v. blind f (m v)"
  shows "blind f (\<lambda>s. m (g s) s)"
  using assms by (simp add: blind_def)

lemmas blind_rules = blind_bind blind_seq blind_try blind_lift

definition set_pause :: "bool \<Rightarrow> engine \<Rightarrow> engine" where
  "set_pause b e = e\<lparr>eg_paused := b\<rparr>"

lemma set_pause_frames [simp]:
  "book (set_pause b e) = book e" "dledger (set_pause b e) = dledger e" "disk (set_pause b e) = disk e"
  "engine_prices (set_pause b e) = engine_prices e" "eg_closes (set_pause b e) = eg_closes e"
  "eg_paused (set_pause b e) = b"
  by (simp_all add: set_pause_def engine_prices_def)

lemma blind_on_book: "blind (set_pause b) (on_book m)"
  by (auto simp: blind_def on_book_def set_pause_def split: prod.split)

lemma blind_ledger: "blind (set_pause b) (on_ledger up m)"
  by (auto simp: blind_def on_ledger_def set_pause_def split: prod.split)

lemma blind_put: "blind (set_pause b) (put_book_deal d)"
  by (simp add: blind_def set_pause_def)

lemma blind_notify: "blind (set_pause b) (notify n)"
  by (simp add: blind_def set_pause_def)

lemma blind_fee: "blind (set_pause b) (charge_fee S fee reason)"
  unfolding charge_fee_def
  by (intro blind_bind blind_mod) (auto simp: blind_def paper_deduct_def set_pause_def)

lemma blind_slug: "(\<And>s. blind f (m s)) \<Longrightarrow> blind f (with_slug S m)"
  by (cases "st_slug S") (auto simp: with_slug_def intro!: blind_rules)

lemma blind_exit: "blind (set_pause b) (engine_exit S t d price reason trig tag msg)"
  unfolding engine_exit_def db_close_deal_def case_prod_beta
  by (intro blind_rules blind_put blind_on_book blind_fee blind_slug blind_ledger blind_notify)

lemma blind_case: "(\<And>x. blind f (m x)) \<Longrightarrow> blind f n \<Longrightarrow> blind f (\<lambda>s. case opt of None \<Rightarrow> n s | Some x \<Rightarrow> m x s)"
  by (cases opt) auto

lemma blind_if: "blind f m \<Longrightarrow> blind f n \<Longrightarrow> blind f (\<lambda>s. if c then m s else n s)"
  by (cases c) auto

lemma blind_done: "blind f (Pair r)"
  by (simp add: blind_def)

text \<open>The handlers read the deal they manage first.\<close>

lemma blind_deal:
  assumes "\<And>d. blind (set_pause b) (m d)" "blind (set_pause b) n"
  shows "blind (set_pause b) (\<lambda>e. case map_of (opens e) did of None \<Rightarrow> n e | Some d \<Rightarrow> m d e)"
  using assms by (auto simp: blind_def split: option.split)

lemma blind_tp: "blind (set_pause b) (check_tp S t did price)"
proof -
  have c: "confirmation_missing S (set_pause b e) = confirmation_missing S e" for e
    by (simp add: confirmation_missing_def Let_def cong: if_cong)
  have x: "engine_exit S t d p reason trig tag msg (set_pause b e)
      = (case engine_exit S t d p reason trig tag msg e of (r, e') \<Rightarrow> (r, set_pause b e'))" for d p reason trig tag msg e
    using blind_exit unfolding blind_def by blast
  show ?thesis
    unfolding blind_def
  proof
    fix e
    obtain hit info where g: "check_tp_indicator_groups (st_pandas S) (st_cfg S) (engine_prices e) (timeframe (st_cfg S)) = (hit, info)"
      by fastforce
    show "check_tp S t did price (set_pause b e) = (case check_tp S t did price e of (r, e') \<Rightarrow> (r, set_pause b e'))"
    proof (cases "map_of (opens e) did")
      case (Some d)
      show ?thesis
      proof (cases "tp_pct_of (tp_cfg_of S) d")
        case (Some pct)
        then show ?thesis using \<open>map_of (opens e) did = Some d\<close> g
          by (cases hit) (auto simp: check_tp_def c x plift_bind Let_def split: sum.split)
      qed (simp add: check_tp_def Some)
    qed (simp add: check_tp_def)
  qed
qed


lemma blind_sl: "blind (set_pause b) (check_sl S t did price)"
  unfolding check_sl_def Let_def case_prod_beta
  by (rule blind_deal, rule blind_case) (auto intro!: blind_rules blind_put blind_exit blind_done)

lemma blind_dca: "blind (set_pause b) (check_dca S t did price)"
  unfolding check_dca_def Let_def db_save_order_def db_save_deal_def
  by (rule blind_deal, rule blind_if)
    (auto intro!: blind_rules blind_put blind_fee blind_slug blind_ledger blind_notify blind_done)

lemma blind_monitor: "blind (set_pause b) (monitor_open_deals S t price)"
proof -
  have one: "blind (set_pause b) (monitor_one S t price did n)" for did n
    unfolding monitor_one_def
    by (auto intro!: blind_rules blind_tp blind_sl blind_dca blind_get simp: still_open_def)
  have all: "blind (set_pause b) (monitor_all S t price dids n)" for dids n
    by (induction dids arbitrary: n) (auto intro!: blind_rules one)
  have "blind (set_pause b) (update_deal_wick_trackers price)"
    by (simp add: blind_def update_deal_wick_trackers_def set_pause_def)
  then show ?thesis
    unfolding monitor_open_deals_def by (auto intro!: blind_rules all blind_get)
qed

text \<open>on a tick whose clock check fails the open deals are managed exactly as on any other tick: the same
  exits, and the same DCA orders, bought with the same sizes and booked with the same fees.\<close>

theorem skewed_tick_still_trades:
  assumes "\<not> clock_ok x l"
  shows "monitor_open_deals S t price (lv_engine (pre_tick_hook x l))
    = (case monitor_open_deals S t price (lv_engine l) of (r, e) \<Rightarrow> (r, e\<lparr>eg_paused := True\<rparr>))"
  using blind_monitor [of True S t price] assms by (simp add: blind_def set_pause_def)

lemma live_tick_pause:
  assumes "wiring_ok S" "ticker_ok (le_tick x)" "book_wf (book (lv_engine l))" "live_tick S x l = (r, l')"
    "eg_paused (lv_engine l)"
  shows "eg_paused (lv_engine l')"
proof (cases "clock_ok x l")
  case True
  obtain q e1 where t: "tick S (le_tick x) (lv_engine l) = (q, e1)" by fastforce
  have "eg_paused e1" using tick_moves [OF assms(1-3)] assms(5) t by (simp add: moves_def)
  then show ?thesis using assms(4) t True by (auto simp: live_tick_eq post_hook_frame)
next
  case False
  then show ?thesis using live_tick_run [OF assms(1-4)] assms(5) by simp
qed

section \<open>What the file says after a tick\<close>

lemma pseq_last: "pseq m n s = (Inr v, s') \<Longrightarrow> \<exists>s1. n s1 = (Inr v, s')"
  unfolding pseq_def by (cases "m s"; cases "fst (m s)") auto

lemma pseq_last3: "pseq m (pseq n (pseq k q)) s = (Inr v, s') \<Longrightarrow> \<exists>s1. q s1 = (Inr v, s')"
  by (blast dest: pseq_last)

lemma tick_body_ends_writing:
  assumes "tick_body S t e = (Inr (), e')"
  shows "\<exists>price sched e1 e2. write_state S price sched e1 = (Inr (), e2) \<and> e' = e2\<lparr>eg_streak := tick_succeeded (eg_streak e2)\<rparr>"
proof -
  obtain tk where tk: "env_ticker t = Inr tk"
    using assms by (cases "env_ticker t") (auto simp: tick_body_def plift_bind)
  obtain sched where sc: "schedule_is_open (st_date_str S) (schedule_cfg (st_cfg S)) (env_today t) (env_hhmm t) = Inr sched"
    using assms tk by (cases "schedule_is_open (st_date_str S) (schedule_cfg (st_cfg S)) (env_today t) (env_hhmm t)")
      (auto simp: tick_body_def plift_bind Let_def pseq_def)
  have "pseq (check_schedule_transition S t sched)
      (pseq (pmod (fetch_closes_if_needed S t))
      (pseq (pmod (refresh_wick_candle S t))
      (pseq (monitor_open_deals S t (ticker_price tk))
      (pseq (update_liq_guard (ticker_price tk))
      (pseq (update_drawdown_guard S (ticker_price tk))
      (pseq (check_manual_trigger S t (ticker_price tk))
      (pseq (check_deal_sentinels S t (ticker_price tk))
      (pseq (\<lambda>e. if sched \<and> \<not> eg_paused e then check_entry S t (ticker_price tk) e else pskip e)
      (pseq (write_state S (ticker_price tk) sched)
      (pmod (\<lambda>e. e\<lparr>eg_streak := tick_succeeded (eg_streak e)\<rparr>))))))))))) (e\<lparr>eg_price := ticker_price tk\<rparr>) = (Inr (), e')"
    using assms by (simp add: tick_body_def Let_def plift_bind tk sc pseq_def [of "pmod f" for f])
  then obtain e1 where w: "pseq (write_state S (ticker_price tk) sched)
      (pmod (\<lambda>e. e\<lparr>eg_streak := tick_succeeded (eg_streak e)\<rparr>)) e1 = (Inr (), e')"
    by (blast dest!: pseq_last3)
  obtain r e2 where e2: "write_state S (ticker_price tk) sched e1 = (r, e2)" by fastforce
  then show ?thesis using w by (cases r) (auto simp: pseq_def pbind_apply)
qed

text \<open>Whatever it started from, a completed tick leaves a file from which the next process gets the pause flag
  and the guard the tick had in memory.\<close>

lemma completed_tick_restart:
  assumes "book_wf (book e')" "st_file S = Some (base @ ''.json'')" "base \<noteq> []" "tick_body S t e = (Inr (), e')"
  shows "eg_paused (boot S t' b db (disk e')) = eg_paused e' \<and> eg_dd (boot S t' b db (disk e')) = eg_dd e'
    \<and> book_wf (book (boot S t' b db (disk e')))"
proof -
  obtain price sched e1 e2 where w: "write_state S price sched e1 = (Inr (), e2)"
    and e': "e' = e2\<lparr>eg_streak := tick_succeeded (eg_streak e2)\<rparr>"
    using tick_body_ends_writing [OF assms(4)] by blast
  have f: "book e1 = book e2" "eg_paused e1 = eg_paused e2" "eg_dd e1 = eg_dd e2"
    using w by (auto simp: write_state_def pbind_apply split: if_splits sum.splits prod.splits)
  have wf: "book_wf (book e1)" using assms(1) e' f by simp
  let ?d = "e1\<lparr>dledger := db\<rparr>"
  have w': "write_state S price sched ?d = (Inr (), e2\<lparr>dledger := db\<rparr>)"
    using w by (auto simp: write_state_def pbind_apply state_snapshot_def split: if_splits sum.splits prod.splits)
  have "book_wf (book ?d)" using wf by simp
  note r = restart_from_write [OF this assms(2,3) w' refl, of t' b]
  have "deal_wf (file_copy c d) = deal_wf d" for c d by (rule deal_wf_cong) simp_all
  moreover have "fst \<circ> (\<lambda>(i :: string, d). (i, file_copy price d)) = fst" by auto
  ultimately have "book_wf (book (boot S t' b db (disk e2)))"
    using r wf by (auto simp: book_wf_def list_all_iff entry_wf_def dest!: in_set_takeD)
  then show ?thesis using r f e' by simp
qed

lemma live_loop_paused:
  assumes "wiring_ok S"
  shows "list_all (\<lambda>x. ticker_ok (le_tick x)) xs \<Longrightarrow> book_wf (book (lv_engine l)) \<Longrightarrow> eg_paused (lv_engine l) \<Longrightarrow>
    eg_paused (lv_engine (snd (live_loop S xs l)))"
proof (induction xs arbitrary: l)
  case (Cons x xs)
  obtain r l1 where t: "live_tick S x l = (r, l1)" by fastforce
  have p: "vrun S (view_of (lv_engine l)) (view_of (lv_engine l1))" "eg_paused (lv_engine l1)"
    using live_tick_run [OF assms _ _ t] live_tick_pause [OF assms _ _ t] Cons.prems by auto
  have "book_wf (book (lv_engine l1))" using vrun_book_wf [OF p(1) assms] Cons.prems(2) by (simp add: view_of_def)
  then have "eg_paused (lv_engine (snd (live_loop S xs l1)))" using Cons p by simp
  then show ?case using Cons.prems p by (cases r) (auto simp: pseq_def pbind_apply t)
qed simp

text \<open>the pause of a skewed tick is meant to last that tick, and in memory it does; the state file of the
  tick says \<open>paused\<close>, so a bot that is restarted before its next completed tick comes up paused, and stays so
  for every later tick, although its drawdown guard has not fired.\<close>

theorem skew_pause_becomes_permanent:
  assumes "wiring_ok S" "ticker_ok (le_tick x)" "book_wf (book (lv_engine l))"
    "st_file S = Some (base @ ''.json'')" "base \<noteq> []" "\<not> clock_ok x l" "live_tick S x l = (r, l')"
    "fst (tick_body S (le_tick x) ((lv_engine l)\<lparr>eg_paused := True\<rparr>)) = Inr ()"
    "list_all (\<lambda>x. ticker_ok (le_tick x)) xs" "e2 = boot S t b (dledger (lv_engine l')) (disk (lv_engine l'))"
  shows "eg_paused (lv_engine l') = eg_paused (lv_engine l) \<and> eg_paused e2
    \<and> eg_paused (lv_engine (snd (live_loop S xs (init_live e2 dry_run tolerance))))"
proof -
  let ?e = "(lv_engine l)\<lparr>eg_paused := True\<rparr>"
  obtain e' where b: "tick_body S (le_tick x) ?e = (Inr (), e')" using assms(8) by (cases "tick_body S (le_tick x) ?e") auto
  then have t: "tick S (le_tick x) ?e = (Inr (), e')" by (simp add: tick_def)
  have l': "lv_engine l' = lv_engine (post_tick_hook x ((pre_tick_hook x l)\<lparr>lv_engine := e'\<rparr>))"
    using assms(6,7) t by (auto simp: live_tick_eq)
  have "moves S (entry_allowed S (le_tick x) True) ?e e'" using tick_moves [OF assms(1,2), of ?e] assms(3) t by simp
  then have e': "book_wf (book e')" "eg_paused e'"
    using moves_wf [of S _ ?e e'] assms(1,3) by (auto simp: moves_def)
  have d: "disk (lv_engine l') = disk e'" by (simp add: l' post_hook_frame)
  have e2: "eg_paused e2" "book_wf (book e2)"
    using completed_tick_restart [OF e'(1) assms(4,5) b] e'(2) by (simp_all add: assms(10) d)
  moreover have "eg_paused (lv_engine l') = eg_paused (lv_engine l)"
    using assms(6) by (simp add: l' post_hook_frame)
  ultimately show ?thesis
    using live_loop_paused [OF assms(1,9), of "init_live e2 dry_run tolerance"] by (simp add: init_live_def)
qed

section \<open>The operator's reset\<close>

text \<open>\<open>bot_file\<close> is the state file of the user's bot of that slug, when the registry has one.\<close>

datatype reset_error = Invalid_Slug | Unknown_Bot | State_Not_Found | State_Read_Failed

definition bot_slug_match :: "string \<Rightarrow> bool" where
  "bot_slug_match s =
     (let word = (\<lambda>w. w \<noteq> [] \<and> list_all (\<lambda>c. CHR ''A'' \<le> c \<and> c \<le> CHR ''Z'' \<or> CHR ''a'' \<le> c \<and> c \<le> CHR ''z''
                       \<or> CHR ''0'' \<le> c \<and> c \<le> CHR ''9'' \<or> c = CHR ''_'' \<or> c = CHR ''-'') w) in
      word s \<or> s \<noteq> [] \<and> last s = CHR 0x0A \<and> word (butlast s))"

definition cleared_state :: "state_json \<Rightarrow> state_json" where
  "cleared_state j =
     j\<lparr>sj_drawdown_guard := Some \<lparr>ddj_peak = Some None, ddj_triggered = Some False, ddj_reason = Some None\<rparr>,
       sj_paused_by_drawdown := Some False\<rparr>"

definition api_drawdown_reset :: "string \<Rightarrow> string option \<Rightarrow> dir \<Rightarrow> (reset_error + unit) \<times> dir" where
  "api_drawdown_reset slug bot_file fs =
     (if \<not> bot_slug_match slug then (Inl Invalid_Slug, fs)
      else case bot_file of
        None \<Rightarrow> (Inl Unknown_Bot, fs)
      | Some n \<Rightarrow>
          (case map_of fs n of
             None \<Rightarrow> (Inl State_Not_Found, fs)
           | Some Partial \<Rightarrow> (Inl State_Read_Failed, fs)
           | Some (Json j) \<Rightarrow> (Inr (), state_write bot_file (cleared_state j) fs)))"

text \<open>reset while the bot is stopped: the next boot is not paused, its guard has no peak and is armed again,
  and everything else is what the file held.\<close>

theorem drawdown_reset_while_stopped:
  assumes "base \<noteq> []" "st_file S = Some (base @ ''.json'')" "map_of fs (base @ ''.json'') = Some (Json j)" "bot_slug_match slug"
    "api_drawdown_reset slug (st_file S) fs = (r, fs')"
  shows "r = Inr () \<and> eg_paused (boot S t b db fs') = False \<and> eg_dd (boot S t b db fs') = new_dd_guard
    \<and> book (boot S t b db fs') = book (restore_fields (env_now t) j (init_engine S b db fs))"
proof -
  let ?n = "base @ ''.json''"
  have f: "r = Inr ()" "fs' = state_write (Some ?n) (cleared_state j) fs"
    using assms by (auto simp: api_drawdown_reset_def)
  have s: "\<not> suffix ''.tmp'' ?n" by (auto simp: suffix_def append_eq_append_conv2 append_eq_Cons_conv)
  obtain gs where l: "state_load (Some ?n) fs' = (Some (cleared_state j), gs)"
    using state_load_after_write [OF tmp_json_differs [OF assms(1)] s, of "cleared_state j" fs] f(2)
    by (cases "state_load (Some ?n) fs'") simp
  let ?e = "restore_fields (env_now t) (cleared_state j) ((init_engine S b db fs')\<lparr>disk := gs\<rparr>)"
  have "boot S t b db fs' = snd (with_slug S (\<lambda>slug. pseq (on_ledger (env_db_up t)
      (replay_deals_in_transaction (vals (opens ?e) @ closed_deals (book ?e)) slug (cfg_name (st_cfg S)) (st_user S))) pskip) ?e)"
    using l by (simp add: assms(2) boot_def load_state_def init_engine_def Let_def)
  then obtain db' where "boot S t b db fs' = ?e\<lparr>dledger := db'\<rparr>" using slug_call_frame by metis
  then show ?thesis
    using f(1) by (simp add: restore_fields_def cleared_state_def init_engine_def dd_from_dict_def opt_get_def new_dd_guard_def)
qed

text \<open>reset while the bot runs: the file is changed, the bot is not. The next completed tick finds the engine
  still paused, opens nothing unless by hand, and writes the pause back, so that even a restart after it
  comes up paused.\<close>

theorem drawdown_reset_lost_while_running:
  assumes "wiring_ok S" "ticker_ok t" "book_wf (book e)" "st_file S = Some (base @ ''.json'')" "base \<noteq> []"
    "eg_paused e" "\<not> env_manual_present t"
    "tick_body S t (e\<lparr>disk := snd (api_drawdown_reset slug (st_file S) (disk e))\<rparr>) = (Inr (), e')"
  shows "eg_paused e' \<and> set (keys (opens e')) \<subseteq> set (keys (opens e)) \<and> eg_paused (boot S t' b (dledger e') (disk e'))"
proof -
  let ?e = "e\<lparr>disk := snd (api_drawdown_reset slug (st_file S) (disk e))\<rparr>"
  have t: "tick S t ?e = (Inr (), e')" using assms(8) by (simp add: tick_def)
  have m: "moves S (entry_allowed S t True) ?e e'" using tick_moves [OF assms(1,2), of ?e] assms(3,6) t by simp
  have "book_wf (book e')" using moves_wf [OF m assms(1)] assms(3) by simp
  from completed_tick_restart [OF this assms(4,5,8)] m show ?thesis
    using assms(6,7) by (simp add: moves_def entry_allowed_def)
qed

end
