(* ===== verification/Engine_Limits.thy ===== *)
theory Engine_Limits
  imports Engine_Restart
begin

text \<open>
  Two limits of the engine a configuration can run into: a take profit of 100 percent stops every tick
  of a long deal, and the emergency distance of the liquidation guard closes nothing.
\<close>

section \<open>A predicate on the open deals\<close>

text \<open>Everything but the fields \<open>R\<close> looks at may change.\<close>

definition on_opens :: "((string \<times> paper_deal) list \<Rightarrow> bool) \<Rightarrow> engine \<Rightarrow> bool" where
  "on_opens R e = R (opens e)"

lemma keeps_ledger: "keeps (on_opens R) (with_slug S (\<lambda>s. on_ledger up (m s)))"
proof -
  have "book (snd (on_ledger up (m s) e)) = book e" for s and e :: engine by (simp add: snd_on_ledger)
  then have "keeps (on_opens R) (on_ledger up (m s))" for s by (simp add: keeps_def on_opens_def)
  then show ?thesis by (auto simp: with_slug_def intro!: keeps_seq keeps_caught split: option.split)
qed

lemma keeps_notify: "keeps (on_opens R) (notify m)"
  by (simp add: keeps_def on_opens_def)

lemma keeps_charge: "keeps (on_opens R) (charge_fee S fee reason)"
  by (simp add: keeps_def on_opens_def charge_fee_eq pay_def)

lemma keeps_quiet: "(\<And>e. book (snd (m e)) = book e) \<Longrightarrow> keeps (on_opens R) m"
  by (simp add: keeps_def on_opens_def)

lemma fetch_book [simp]: "book (fetch_closes_if_needed S t e) = book e"
proof -
  have "book (fetch_timeframe t tf x) = book x" for tf x
    by (simp add: fetch_timeframe_def stamp_fetch_def Let_def split: option.split sum.split)
  then have "book (fold (fetch_timeframe t) tfs x) = book x" for tfs x by (induction tfs arbitrary: x) simp_all
  then show ?thesis by (simp add: fetch_closes_if_needed_def)
qed

lemma wick_book [simp]: "book (refresh_wick_candle S t e) = book e"
  by (simp add: refresh_wick_candle_def split: sum.split)

lemma keeps_upkeep:
  "keeps (on_opens R) (check_schedule_transition S t b)" "keeps (on_opens R) (pmod (fetch_closes_if_needed S t))"
  "keeps (on_opens R) (pmod (refresh_wick_candle S t))" "keeps (on_opens R) (update_liq_guard price)"
  "keeps (on_opens R) (update_drawdown_guard S price)" "keeps (on_opens R) (write_state S price b)"
  by (rule keeps_quiet; auto simp: check_schedule_transition_def Let_def pseq_def pbind_apply update_liq_guard_def
      plift_bind update_drawdown_guard_def write_state_def split: option.split sum.split prod.split)+

section \<open>The emergency distance closes nothing\<close>

lemma target_override: "tp_ov d' = tp_ov d \<Longrightarrow> tp_pct_of c d' = tp_pct_of c d"
  by (simp add: tp_pct_of_def)

lemma stop_override: "sl_ov d' = sl_ov d \<Longrightarrow> sl_params c d' = sl_params c d"
  by (simp add: sl_params_def)

lemma track_frame [simp]:
  "tp_ov (track p d) = tp_ov d" "sl_ov (track p d) = sl_ov d" "deal_id (track p d) = deal_id d" "side (track p d) = side d"
  by (simp_all add: track_def Let_def)

text \<open>The one open deal, with no take profit and no stop.\<close>

definition unmanaged :: "wiring \<Rightarrow> string \<Rightarrow> (string \<times> paper_deal) list \<Rightarrow> bool" where
  "unmanaged S i os = (\<exists>d. os = [(i, d)] \<and> deal_id d = i \<and> tp_pct_of (tp_cfg_of S) d = None \<and> sl_params (sl_cfg_of S) d = None)"

lemma unmanaged_exits:
  assumes "on_opens (unmanaged S i) e"
  shows "check_tp S t i price e = (Inr (), e)" "check_sl S t i price e = (Inr (), e)"
  using assms by (auto simp: on_opens_def unmanaged_def check_tp_def check_sl_def pskip_apply)

lemma unmanaged_dca: "keeps (on_opens (unmanaged S i)) (check_dca S t i price)"
  unfolding keeps_def
proof (intro allI impI)
  fix e
  assume u: "on_opens (unmanaged S i) e"
  then obtain d where d: "opens e = [(i, d)]" "deal_id d = i" "tp_pct_of (tp_cfg_of S) d = None" "sl_params (sl_cfg_of S) d = None"
    by (auto simp: on_opens_def unmanaged_def)
  define d1 where "d1 = d\<lparr>orders := orders d @ [\<lparr>order_number = int (dca_count d) + 2, order_price = price,
      order_size = dca_size S d, order_timestamp = env_now t, order_type = ''dca''\<rparr>]\<rparr>"
  have ov: "tp_ov d1 = tp_ov d" "sl_ov d1 = sl_ov d" "deal_id d1 = i" using d(2) by (simp_all add: d1_def)
  have put: "on_opens (unmanaged S i) (e\<lparr>book := put_deal d1 (book e)\<rparr>)"
    using d ov(3) target_override [OF ov(1)] stop_override [OF ov(2)] by (simp add: on_opens_def unmanaged_def put_deal_def)
  have rest: "keeps (on_opens (unmanaged S i)) (pseq (charge_fee S fee r) (pseq (db_save_order S t ord did fee)
      (pseq (db_save_deal S t dd) (pbind (plift x) (\<lambda>avg. pseq (notify (m avg)) (pret True))))))" for fee r ord did dd x m
    by (intro keeps_seq keeps_bind keeps_charge keeps_notify keeps_basic)
      (simp_all add: db_save_order_def db_save_deal_def keeps_ledger)
  show "on_opens (unmanaged S i) (snd (check_dca S t i price e))"
    using u keeps_D [OF rest put]
    by (auto simp: check_dca_def d(1) plift_bind Let_def pseq_put d1_def [symmetric] split: sum.split)
qed

lemma unmanaged_monitor: "keeps (on_opens (unmanaged S i)) (monitor_open_deals S t price)"
  unfolding keeps_def
proof (intro allI impI)
  fix e
  assume u: "on_opens (unmanaged S i) e"
  let ?e1 = "e\<lparr>book := (book e)\<lparr>open_deals := map (\<lambda>(i, d). (i, track price d)) (opens e)\<rparr>\<rparr>"
  have u1: "on_opens (unmanaged S i) ?e1"
    using u by (auto simp: on_opens_def unmanaged_def target_override [of "track price _"] stop_override [of "track price _"])
  then have ks: "keys (opens ?e1) = [i]" "still_open i ?e1" by (auto simp: on_opens_def unmanaged_def still_open_def)
  obtain r2 e2 where dca: "check_dca S t i price ?e1 = (r2, e2)" by fastforce
  have "on_opens (unmanaged S i) e2" using keeps_D [OF unmanaged_dca u1, of t price] dca by simp
  then have "on_opens (unmanaged S i) (snd (monitor_one S t price i 0 ?e1))"
    using unmanaged_exits [OF u1] ks(2)
    by (cases r2) (simp_all add: monitor_one_def pseq_def pbind_apply max_dca_per_tick_def dca)
  then show "on_opens (unmanaged S i) (snd (monitor_open_deals S t price e))"
    using ks(1)
    by (cases "monitor_one S t price i 0 ?e1"; cases "fst (monitor_one S t price i 0 ?e1)")
      (simp_all add: monitor_open_deals_def update_deal_wick_trackers_def pseq_def pbind_apply pskip_apply)
qed

lemma unmanaged_entries:
  "keeps (on_opens (unmanaged S i)) (check_manual_trigger S t price)" "keeps (on_opens (unmanaged S i)) (check_entry S t price)"
  by (auto simp: keeps_def on_opens_def unmanaged_def check_manual_trigger_def unlink_sentinel_def pseq_def pbind_apply check_entry_def
      split: option.split)

text \<open>no distance to liquidation closes a deal: a deal without take profit and stop is still open after
  any tick without sentinel files, at any price and any leverage, also inside the emergency distance, where the documentation has
  the engine close it on the next tick.\<close>

theorem emergency_distance_closes_nothing:
  assumes "opens e = [(i, d)]" "deal_id d = i" "tp_pct_of (tp_cfg_of S) d = None" "sl_params (sl_cfg_of S) d = None"
    "env_log_files t = []"
  shows "keys (opens (snd (tick S t e))) = [i]"
proof -
  let ?U = "on_opens (unmanaged S i)"
  have body: "keeps ?U (tick_body S t)"
    unfolding tick_body_def Let_def
  proof (intro keeps_bind keeps_seq keeps_upkeep unmanaged_monitor unmanaged_entries keeps_basic)
    show "keeps ?U (check_deal_sentinels S t (ticker_price v))" for v
      by (simp add: check_deal_sentinels_def assms(5))
    show "keeps ?U (\<lambda>e. if b \<and> \<not> eg_paused e then check_entry S t (ticker_price v) e else pskip e)" for b v
      using unmanaged_entries(2) by (simp add: keeps_def)
  qed (auto intro!: keeps_mod simp: on_opens_def)
  have "?U e" using assms(1-4) by (simp add: on_opens_def unmanaged_def)
  from keeps_D [OF body this] have "?U (snd (tick S t e))"
    by (auto simp: tick_def tick_caught_def on_opens_def split: prod.split sum.split)
  then show ?thesis by (auto simp: on_opens_def unmanaged_def)
qed

section \<open>A target of 100 percent stops the ticks\<close>

text \<open>From \<open>P\<close> the statement raises, in a state with \<open>Q\<close>.\<close>

definition fails :: "('s \<Rightarrow> bool) \<Rightarrow> ('s \<Rightarrow> bool) \<Rightarrow> ('s, 'a) prog \<Rightarrow> bool" where
  "fails P Q m = (\<forall>s. P s \<longrightarrow> (\<exists>err. fst (m s) = Inl err) \<and> Q (snd (m s)))"

lemma fails_first:
  assumes "fails P Q m"
  shows "fails P Q (pseq m n)"
  unfolding fails_def
proof (intro allI impI)
  fix s
  assume "P s"
  then obtain err s' where "m s = (Inl err, s')" "Q s'" using assms unfolding fails_def by (metis prod.collapse)
  then show "(\<exists>err. fst (pseq m n s) = Inl err) \<and> Q (snd (pseq m n s))" by (simp add: pseq_def)
qed

lemma fails_seq:
  assumes "\<And>s. P s \<Longrightarrow> Q s" "keeps P m" "fails P Q n"
  shows "fails P Q (pseq m n)"
  unfolding fails_def
proof (intro allI impI)
  fix s
  assume p: "P s"
  obtain r s' where m: "m s = (r, s')" by fastforce
  have "P s'" using keeps_D [OF assms(2) p] m by simp
  then show "(\<exists>err. fst (pseq m n s) = Inl err) \<and> Q (snd (pseq m n s))"
    using assms(1,3) m by (cases r) (simp_all add: pseq_def fails_def)
qed

lemma fails_lift: "(\<And>s. P s \<Longrightarrow> Q s) \<Longrightarrow> (\<And>v. fails P Q (f v)) \<Longrightarrow> fails P Q (pbind (plift r) f)"
  by (cases r) (auto simp: fails_def plift_bind)

text \<open>Up to the price trackers of the one open deal, nothing has moved.\<close>

definition unmoved :: "engine \<Rightarrow> string \<Rightarrow> paper_deal \<Rightarrow> engine \<Rightarrow> bool" where
  "unmoved e i d e' =
     ((\<exists>d'. book e' = (book e)\<lparr>open_deals := [(i, d')]\<rparr> \<and> same_position d d' \<and> tp_ov d' = tp_ov d \<and> sl_ov d' = sl_ov d) \<and>
      dledger e' = dledger e \<and> disk e' = disk e \<and> eg_dd e' = eg_dd e \<and> eg_liq e' = eg_liq e \<and> eg_fees e' = eg_fees e)"

lemma unmoved_upkeep:
  "keeps (unmoved e i d) (check_schedule_transition S t b)" "keeps (unmoved e i d) (pmod (fetch_closes_if_needed S t))"
  "keeps (unmoved e i d) (pmod (refresh_wick_candle S t))" "keeps (unmoved e i d) (pmod (\<lambda>e. e\<lparr>eg_price := p\<rparr>))"
proof -
  have "unmoved e i d x \<Longrightarrow> unmoved e i d (fetch_timeframe t tf x)" for x tf
    by (simp add: unmoved_def fetch_timeframe_def stamp_fetch_def Let_def split: option.split sum.split)
  then have "unmoved e i d x \<Longrightarrow> unmoved e i d (fold (fetch_timeframe t) tfs x)" for x tfs
    by (induction tfs arbitrary: x) simp_all
  then show "keeps (unmoved e i d) (pmod (fetch_closes_if_needed S t))" by (simp add: keeps_def fetch_closes_if_needed_def)
  show "keeps (unmoved e i d) (check_schedule_transition S t b)"
    unfolding keeps_def
  proof (intro allI impI)
    fix s
    assume u: "unmoved e i d s"
    have "unmoved e i d (s\<lparr>outbox := ms, eg_last_schedule := l\<rparr>)" "unmoved e i d (s\<lparr>eg_last_schedule := l\<rparr>)" for ms l
      using u by (simp_all add: unmoved_def)
    then show "unmoved e i d (snd (check_schedule_transition S t b s))"
      using u by (simp add: check_schedule_transition_def Let_def pseq_def pbind_apply split: option.split sum.split)
  qed
  show "keeps (unmoved e i d) (pmod (refresh_wick_candle S t))"
    by (auto simp: keeps_def unmoved_def refresh_wick_candle_def split: sum.split)
  show "keeps (unmoved e i d) (pmod (\<lambda>e. e\<lparr>eg_price := p\<rparr>))" by (simp add: keeps_def unmoved_def)
qed

lemma full_target_monitor:
  assumes "deal_wf d" "side d = ''long''" "tp_pct_of (tp_cfg_of S) d = Some 100"
  shows "fails (unmoved e i d) (unmoved e i d) (monitor_open_deals S t price)"
  unfolding fails_def
proof (intro allI impI)
  fix s
  assume "unmoved e i d s"
  then obtain d' where d': "book s = (book e)\<lparr>open_deals := [(i, d')]\<rparr>" "same_position d d'" "tp_ov d' = tp_ov d" "sl_ov d' = sl_ov d"
    and rest: "dledger s = dledger e" "disk s = disk e" "eg_dd s = eg_dd e" "eg_liq s = eg_liq e" "eg_fees s = eg_fees e"
    by (auto simp: unmoved_def)
  let ?d = "track price d'" and ?s = "s\<lparr>book := (book e)\<lparr>open_deals := [(i, track price d')]\<rparr>\<rparr>"
  have same: "same_position d ?d" using d'(2) track_same [of d' price] by (simp add: same_position_def)
  have wf: "deal_wf ?d" "side ?d = ''long''" using same_position_wf [OF same] same assms(1,2) by (simp_all add: same_position_def)
  have "tp_pct_of (tp_cfg_of S) ?d = Some 100" using target_override [of ?d d] d'(3) assms(3) by simp
  then have "check_tp S t i price ?s = (Inl ZeroDivisionError, ?s)"
    using wf by (simp add: check_tp_def plift_bind compute_tp_target_price_def valid_side_def)
  then have "monitor_open_deals S t price s = (Inl ZeroDivisionError, ?s)"
    using d'(1) by (simp add: monitor_open_deals_def update_deal_wick_trackers_def pseq_def pbind_apply monitor_one_def)
  moreover have "unmoved e i d ?s" unfolding unmoved_def using same d'(3,4) rest by (auto intro!: exI [of _ ?d])
  ultimately show "(\<exists>err. fst (monitor_open_deals S t price s) = Inl err) \<and> unmoved e i d (snd (monitor_open_deals S t price s))"
    by simp
qed

text \<open>C3: a take profit of 100 percent, which the validator accepts, disables a bot with an open long deal:
  at every price every tick fails before its stop loss, its DCA, the drawdown guard, the liquidation
  guard, the operator's close and the state file are reached.\<close>

theorem full_target_stops_every_tick:
  assumes "opens e = [(i, d)]" "deal_wf d" "side d = ''long''" "tp_ov d = None" "tp_enabled (tp_cfg_of S)"
    "target_pct (tp_cfg_of S) = 100" "e' = snd (tick S t e)"
  shows "(\<exists>d'. opens e' = [(i, d')] \<and> same_position d d') \<and> closed_deals (book e') = closed_deals (book e)
    \<and> balance_btc (book e') = balance_btc (book e) \<and> disk e' = disk e \<and> eg_dd e' = eg_dd e \<and> eg_liq e' = eg_liq e"
proof -
  have tp: "tp_pct_of (tp_cfg_of S) d = Some 100" using assms(4-6) by (simp add: tp_pct_of_def)
  have "fails (unmoved e i d) (unmoved e i d) (tick_body S t)"
    unfolding tick_body_def Let_def
    by (intro fails_lift fails_seq unmoved_upkeep fails_first full_target_monitor [OF assms(2,3) tp])
  moreover have "unmoved e i d e" using assms(1) by (auto simp: unmoved_def intro!: exI [of _ d])
  ultimately obtain err e1 where b: "tick_body S t e = (Inl err, e1)" "unmoved e i d e1"
    unfolding fails_def by (metis prod.collapse)
  have "unmoved e i d e'"
    using b assms(7) by (auto simp: tick_def tick_caught_def unmoved_def split: prod.split)
  then show ?thesis by (auto simp: unmoved_def)
qed

end
