(* ===== verification/Engine_Witnesses.thy ===== *)
theory Engine_Witnesses
  imports Engine_Limits
begin

text \<open>
  A concrete bot and its ticks, at which every property of the engine that has hypotheses is applied.
\<close>

definition plain_wiring :: "bot_config \<Rightarrow> wiring" where
  "plain_wiring cfg =
     \<lparr>st_cfg = cfg, st_slug = Some ''bot'', st_user = 1, st_poll = 10, st_file = Some (''bot.state'' @ ''.json''),
      st_manual = None, st_exchange = ''bitget'', st_fresh_id = (\<lambda>n. ''202604200000-'' @ pad 4 n),
      st_pandas = pandas_doc, st_date_str = (\<lambda>_. ''2026-04-20'')\<rparr>"

definition tick_at :: "real \<Rightarrow> tick_env" where
  "tick_at p =
     \<lparr>env_now = 7, env_clock = 1000000, env_ticker = Inr (Some p, p), env_ohlcv = (\<lambda>_ _. Inr []), env_today = 0,
      env_hhmm = ''12:00'', env_manual_present = False, env_log_files = [], env_db_up = True, env_http_status = None\<rparr>"

definition plain_bot :: bot_config where
  "plain_bot = default_bot ''bot'' PAPER 1 (1 / 1000)"

lemmas plain_defs = plain_wiring_def plain_bot_def default_defs

lemma plain_ok: "wiring_ok (plain_wiring plain_bot)"
proof -
  have "py_round (1 / 1000) 8 = (1 / 1000 :: real)" by code_simp
  moreover have "valid_bot plain_bot" by code_simp
  ultimately show ?thesis by (simp add: wiring_ok_def plain_defs)
qed

lemma tick_at_ok: "0 < p \<Longrightarrow> ticker_ok (tick_at p)"
  by (simp add: ticker_ok_def tick_at_def ticker_price_def)

text \<open>The bot with one open deal, bought at 50000.\<close>

definition held :: paper_deal where
  "held = (seeded_deal (plain_wiring plain_bot) (tick_at 50000) ''202604200000-0001'' 50000 None)\<lparr>peak_price := 50000\<rparr>"

definition holding :: "bot_config \<Rightarrow> engine" where
  "holding cfg = (init_engine (plain_wiring cfg) (1 / 10) empty_ledger [])
     \<lparr>book := (new_paper_state (1 / 10))\<lparr>open_deals := [(''202604200000-0001'', held)]\<rparr>\<rparr>"

lemma held_simps:
  "deal_id held = ''202604200000-0001''" "is_open held" "side held = ''long''" "tp_ov held = None" "sl_ov held = None"
  "peak_price held = 50000" "deal_wf held" "avg_of held = 50000" "leverage held = 1" "total_size held = 1 / 1000"
  by (simp_all add: held_def seeded_deal_def fresh_deal_def plain_defs base_order_def deal_wf_def order_wf_def valid_side_def
      avg_of_def total_value_def total_size_def)

lemma holding_simps:
  "opens (holding cfg) = [(''202604200000-0001'', held)]" "book_wf (book (holding cfg))" "eg_paused (holding cfg) = False"
  "closed_deals (book (holding cfg)) = []"
  using held_simps by (simp_all add: holding_def init_engine_def new_paper_state_def book_wf_def entry_wf_def)

theorem engine_run_invariants_witness:
  "length (opens (snd (engine_start (plain_wiring plain_bot) [tick_at 50000, tick_at 40000]
     (boot (plain_wiring plain_bot) (tick_at 1) (1 / 10) empty_ledger [])))) \<le> 1"
proof -
  have "list_all ticker_ok [tick_at 50000, tick_at 40000]" by (simp add: tick_at_ok)
  from engine_run_invariants [OF plain_ok this _ refl, of "[]" "tick_at 1" "1 / 10" empty_ledger] show ?thesis by simp
qed

theorem no_entry_while_paused_or_closed_witness:
  "opens (snd (tick (plain_wiring plain_bot) (tick_at 50000) ((init_engine (plain_wiring plain_bot) (1 / 10) empty_ledger [])\<lparr>eg_paused := True\<rparr>))) = []"
proof -
  let ?e = "(init_engine (plain_wiring plain_bot) (1 / 10) empty_ledger [])\<lparr>eg_paused := True\<rparr>"
  have "book_wf (book ?e)" "\<not> entry_allowed (plain_wiring plain_bot) (tick_at 50000) (eg_paused ?e)" "opens ?e = []"
    by (simp_all add: init_engine_def book_wf_new entry_allowed_def tick_at_def) (simp add: new_paper_state_def)
  with no_entry_while_paused_or_closed [OF plain_ok tick_at_ok, of 50000 ?e] show ?thesis by simp
qed

theorem failed_ticker_tick_witness:
  "fst (tick (plain_wiring plain_bot) ((tick_at 1)\<lparr>env_ticker := Inl ValueError\<rparr>) (holding plain_bot)) = Inr ()
   \<and> fst (tick (plain_wiring plain_bot) ((tick_at 1)\<lparr>env_ticker := Inl NotImplementedError\<rparr>) (holding plain_bot)) = Inl NotImplementedError"
proof -
  have a: "env_ticker ((tick_at 1)\<lparr>env_ticker := Inl x\<rparr>) = Inl x" for x by simp
  note f = failed_ticker_tick [OF a surjective_pairing, of "plain_wiring plain_bot" _ "holding plain_bot"]
  show ?thesis using f [of ValueError] f [of NotImplementedError] by simp
qed

theorem restart_restores_engine_witness:
  "keys (opens (boot (plain_wiring plain_bot) (tick_at 1) 1 empty_ledger
     (disk (snd (write_state (plain_wiring plain_bot) 51000 True (holding plain_bot)))))) = [''202604200000-0001'']"
proof -
  let ?w = "write_state (plain_wiring plain_bot) 51000 True (holding plain_bot)"
  have f: "st_file (plain_wiring plain_bot) = Some (''bot.state'' @ ''.json'')" by (simp add: plain_wiring_def)
  have db: "dledger (snd ?w) = empty_ledger"
    by (simp add: write_state_def plift_bind holding_def init_engine_def split: sum.split)
  show ?thesis
    using restart_restores_engine [OF holding_simps(2) [of plain_bot] f _ surjective_pairing refl, of 51000 True "tick_at 1" 1]
    by (simp add: db holding_simps)
qed

theorem take_profit_realises_target_witness:
  "snd (check_tp (plain_wiring plain_bot) (tick_at 60000) ''202604200000-0001'' 60000 (holding plain_bot)) = holding plain_bot \<or>
   (\<exists>x. closed_deals (book (snd (check_tp (plain_wiring plain_bot) (tick_at 60000) ''202604200000-0001'' 60000 (holding plain_bot)))) = [x]
      \<and> 3 / 100000 \<le> pnl_btc x)"
proof -
  let ?S = "plain_wiring plain_bot" and ?d = held
  have tgt: "compute_tp_target_price (avg_of ?d) 3 (side ?d) = Inr (50000 / (1 - 3 / 100))"
    by (simp add: held_simps compute_tp_target_price_def valid_side_def)
  have hit: "tp_tick_hit ?d (50000 / (1 - 3 / 100)) 60000" by (simp add: tp_tick_hit_def held_simps)
  have pct: "tp_pct_of (tp_cfg_of ?S) ?d = Some 3" by (simp add: tp_pct_of_def held_simps plain_defs)
  have m: "map_of (opens (holding plain_bot)) ''202604200000-0001'' = Some ?d" by (simp add: holding_simps)
  from take_profit_realises_target [OF holding_simps(2) m pct _ _ _ tgt disjI2 [OF hit] surjective_pairing, of "tick_at 60000"]
  show ?thesis by (simp add: holding_simps held_simps) blast
qed

text \<open>The same deal after a high of 60000, with the price back at 45000.\<close>

definition touched :: paper_deal where
  "touched = held\<lparr>wick_high_since_open := 60000\<rparr>"

theorem stale_wick_books_unavailable_profit_witness:
  "\<exists>x. closed_deals (book (snd (check_tp (plain_wiring plain_bot) (tick_at 45000) ''202604200000-0001'' 45000
      ((holding plain_bot)\<lparr>book := (book (holding plain_bot))\<lparr>open_deals := [(''202604200000-0001'', touched)]\<rparr>\<rparr>)))) = [x]
    \<and> pnl_btc x = 3 / 100000"
proof -
  let ?S = "plain_wiring plain_bot"
  let ?e = "(holding plain_bot)\<lparr>book := (book (holding plain_bot))\<lparr>open_deals := [(''202604200000-0001'', touched)]\<rparr>\<rparr>"
  have d: "deal_id touched = ''202604200000-0001''" "is_open touched" "deal_wf touched" "avg_of touched = 50000" "side touched = ''long''"
    "total_size touched = 1 / 1000" "leverage touched = 1" "tp_ov touched = None" "wick_high_since_open touched = 60000"
    using held_simps by (simp_all add: touched_def deal_wf_def avg_of_def total_value_def total_size_def)
  have wf: "book_wf (book ?e)" using d holding_simps by (simp add: book_wf_def entry_wf_def)
  have m: "map_of (opens ?e) ''202604200000-0001'' = Some touched" by simp
  have pct: "tp_pct_of (tp_cfg_of ?S) touched = Some 3" by (simp add: tp_pct_of_def d plain_defs)
  have free: "below_minimum_tp ?S touched 45000 = Inr False" "confirmation_missing ?S ?e = Inr False"
    by (simp_all add: below_minimum_tp_def confirmation_missing_def plain_defs holding_def init_engine_def closes_for_def)
  have w: "use_wick_simulation (st_cfg ?S)" by (simp add: plain_defs)
  from stale_wick_books_unavailable_profit [OF wf m d(5) pct _ _ w _ _ _ free, of "tick_at 45000"]
  show ?thesis by (auto simp: d holding_simps)
qed

definition trailing_bot :: bot_config where
  "trailing_bot = plain_bot\<lparr>stop_loss_cfg := \<lparr>sl_type = ''trailing'', sl_pct = 5\<rparr>\<rparr>"


theorem one_dca_order_per_tick_witness:
  "order_total (book (snd (monitor_open_deals (plain_wiring plain_bot) (tick_at 30000) 30000 (holding plain_bot)))) \<le> 2"
proof -
  have "order_total (book (holding plain_bot)) = 1" by (simp add: order_total_def holding_simps held_def)
  then show ?thesis
    using one_dca_order_per_tick [OF plain_ok holding_simps(2) [of plain_bot], of 30000 "tick_at 30000"] by simp
qed

definition hands_off_bot :: bot_config where
  "hands_off_bot = plain_bot\<lparr>take_profit_cfg := default_take_profit\<lparr>tp_enabled := False\<rparr>,
     stop_loss_cfg := \<lparr>sl_type = ''none'', sl_pct = 5\<rparr>\<rparr>"

theorem emergency_distance_closes_nothing_witness:
  "keys (opens (snd (tick (plain_wiring hands_off_bot) (tick_at 1000) (holding hands_off_bot)))) = [''202604200000-0001'']"
  by (rule emergency_distance_closes_nothing [OF holding_simps(1)])
    (simp_all add: held_simps tp_pct_of_def sl_params_def plain_wiring_def hands_off_bot_def tick_at_def)

definition all_in_bot :: bot_config where
  "all_in_bot = plain_bot\<lparr>take_profit_cfg := default_take_profit\<lparr>target_pct := 100\<rparr>\<rparr>"

theorem full_target_stops_every_tick_witness:
  "valid_bot all_in_bot \<and>
   closed_deals (book (snd (tick (plain_wiring all_in_bot) (tick_at 100) (holding all_in_bot)))) = []"
proof -
  have "tp_enabled (tp_cfg_of (plain_wiring all_in_bot))" "target_pct (tp_cfg_of (plain_wiring all_in_bot)) = 100"
    by (simp_all add: plain_wiring_def all_in_bot_def default_defs)
  note full_target_stops_every_tick [OF holding_simps(1) held_simps(7,3,4) this refl, of "tick_at 100"]
  moreover have "valid_bot all_in_bot" by code_simp
  ultimately show ?thesis by (simp add: holding_simps)
qed

end
