(* ===== verification/Live_Witnesses.thy ===== *)
theory Live_Witnesses
  imports Pause_Persistence Engine_Witnesses
begin

text \<open>
  A live bot without deals whose clock is a minute off, at which every property of the live engine that has
  hypotheses is applied; and a tick that completes.
\<close>

section \<open>A tick that completes\<close>

definition idle :: "engine \<Rightarrow> bool" where
  "idle e = (opens e = [] \<and> closed_deals (book e) = [] \<and> eg_paused e)"

lemma idle_upkeep:
  "idle e \<Longrightarrow> idle (fetch_closes_if_needed S t e)" "idle e \<Longrightarrow> idle (refresh_wick_candle S t e)"
  using fetch_quiet [of S False e t] wick_quiet [of S False e t] by (auto simp: idle_def moves_def)

lemma idles_parts:
  "succeeds idle (monitor_open_deals S t p)" "succeeds idle (update_liq_guard p)" "succeeds idle (update_drawdown_guard S p)"
  by (auto simp: succeeds_def idle_def monitor_open_deals_def update_deal_wick_trackers_def update_liq_guard_def
      update_drawdown_guard_def pseq_def plift_bind pbind_apply Let_def split: prod.split)

lemma idles_write: "succeeds idle (write_state S p b)"
  by (auto simp: succeeds_def idle_def write_state_def state_snapshot_def plift_bind Let_def)

lemma idle_tick:
  assumes "idle e" "env_ticker t = Inr tk" "env_log_files t = []" "st_manual S = None" "eg_last_schedule e = None"
    "schedule_is_open (st_date_str S) (schedule_cfg (st_cfg S)) (env_today t) (env_hhmm t) = Inr b"
  shows "fst (tick_body S t e) = Inr ()"
proof -
  let ?p = "ticker_price tk"
  have m: "succeeds idle (pseq (pmod (fetch_closes_if_needed S t)) (pseq (pmod (refresh_wick_candle S t)) (pseq (monitor_open_deals S t ?p)
      (pseq (update_liq_guard ?p) (pseq (update_drawdown_guard S ?p) (pseq (check_manual_trigger S t ?p)
      (pseq (check_deal_sentinels S t ?p) (pseq (\<lambda>e. if b \<and> \<not> eg_paused e then check_entry S t ?p e else pskip e)
      (pseq (write_state S ?p b) (pmod (\<lambda>e. e\<lparr>eg_streak := tick_succeeded (eg_streak e)\<rparr>)))))))))))" (is "succeeds idle ?m")
    by (intro succeeds_seq idles_parts succeeds_mod idles_write idle_upkeep)
      (auto simp: succeeds_def idle_def check_manual_trigger_def check_deal_sentinels_def assms(3,4))
  have i: "idle (e\<lparr>eg_price := ?p, eg_last_schedule := Some b\<rparr>)" using assms(1) by (simp add: idle_def)
  obtain u where "fst (?m (e\<lparr>eg_price := ?p, eg_last_schedule := Some b\<rparr>)) = Inr u"
    using succeeds_D(1) [OF m i] by (elim exE)
  moreover have "check_schedule_transition S t b (e\<lparr>eg_price := ?p\<rparr>) = (Inr (), e\<lparr>eg_price := ?p, eg_last_schedule := Some b\<rparr>)"
    using assms(5) by (simp add: check_schedule_transition_def)
  ultimately show ?thesis
    using assms(2,6) by (simp add: tick_body_def plift_bind Let_def pseq_def [of "pmod f" for f]
        pseq_def [of "check_schedule_transition S t x" for x])
qed

section \<open>Witnesses\<close>

definition clock_off :: live_env where
  "clock_off = \<lparr>le_tick = tick_at 50000, le_check_at = 1000, le_probe = Fetched 60000 0, le_reconcile_at = 1000\<rparr>"

definition clock_on :: live_env where
  "clock_on = clock_off\<lparr>le_probe := Fetched 1000 0\<rparr>"

definition idle_live :: live where
  "idle_live = init_live (init_engine (plain_wiring plain_bot) (1 / 10) empty_ledger []) False 5"

lemma clocks:
  "\<not> clock_ok clock_off idle_live" "\<not> clock_ok clock_off (init_live e dry_run 5)"
  "clocks_ok [clock_on, clock_on] (new_clock_monitor 5)"
  by (simp_all add: clock_ok_def clock_off_def clock_on_def idle_live_def init_live_def clock_check_def new_clock_monitor_def Let_def)

lemma live_env_simps:
  "le_tick clock_off = tick_at 50000" "le_tick clock_on = tick_at 50000" "\<not> env_manual_present (tick_at 50000)"
  "ticker_ok (tick_at 50000)"
  by (simp_all add: clock_off_def clock_on_def tick_at_def ticker_ok_def ticker_price_def)

lemma idle_live_simps:
  "book_wf (book (lv_engine idle_live))" "opens (lv_engine idle_live) = []" "eg_paused (lv_engine idle_live) = False"
  by (simp_all add: idle_live_def init_live_def init_engine_def book_wf_new) (simp_all add: new_paper_state_def)

lemma plain_file: "st_file (plain_wiring cfg) = Some (''bot.state'' @ ''.json'')"
  by (simp add: plain_wiring_def)

lemma always_open: "schedule_is_open (st_date_str (plain_wiring plain_bot)) (schedule_cfg (st_cfg (plain_wiring plain_bot)))
    (env_today (tick_at p)) (env_hhmm (tick_at p)) = Inr True"
  by (simp add: plain_defs tick_at_def schedule_is_open_def)

lemma plain_idle_tick:
  assumes "idle e" "eg_last_schedule e = None"
  shows "fst (tick_body (plain_wiring plain_bot) (tick_at 50000) e) = Inr ()"
  by (rule idle_tick [OF assms(1) _ _ _ assms(2) always_open]) (simp_all add: tick_at_def plain_wiring_def)

theorem live_run_invariants_witness:
  "book_wf (book (lv_engine (snd (live_loop (plain_wiring plain_bot) [clock_on, clock_off]
     (init_live (init_engine (plain_wiring plain_bot) (1 / 10) empty_ledger []) False 5)))))"
proof -
  have "engine_ok (plain_wiring plain_bot) (init_engine (plain_wiring plain_bot) (1 / 10) empty_ledger [])"
    by (simp add: engine_ok_def init_engine_def book_wf_new single_mirrored_def dca_capped_def view_of_def)
      (simp add: new_paper_state_def)
  from live_run_invariants [OF plain_ok _ this refl, of "[clock_on, clock_off]" False 5] show ?thesis
    by (simp add: live_env_simps)
qed

theorem live_matches_paper_witness:
  "lv_engine (snd (live_loop (plain_wiring plain_bot) [clock_on, clock_on] (init_live (holding plain_bot) False 5)))
    = snd (tick_loop (plain_wiring plain_bot) [tick_at 50000, tick_at 50000] (holding plain_bot))"
  using live_matches_paper [OF clocks(3), of "plain_wiring plain_bot" "holding plain_bot" False] by (simp add: live_env_simps)

theorem skewed_tick_opens_nothing_witness:
  "opens (lv_engine (snd (live_tick (plain_wiring plain_bot) clock_off idle_live))) = []"
  using skewed_tick_opens_nothing [OF plain_ok _ idle_live_simps(1) clocks(1) _ prod.collapse [symmetric]]
  by (simp add: live_env_simps idle_live_simps)

theorem skewed_tick_still_trades_witness:
  "fst (monitor_open_deals (plain_wiring plain_bot) (tick_at 30000) 30000 (lv_engine (pre_tick_hook clock_off (init_live (holding plain_bot) False 5))))
    = fst (monitor_open_deals (plain_wiring plain_bot) (tick_at 30000) 30000 (holding plain_bot))"
  using skewed_tick_still_trades [OF clocks(2), of "plain_wiring plain_bot" "tick_at 30000" 30000 "holding plain_bot" False]
  by (simp add: init_live_def split: prod.split)

theorem skew_pause_becomes_permanent_witness:
  "eg_paused (lv_engine (snd (live_tick (plain_wiring plain_bot) clock_off idle_live))) = False
   \<and> eg_paused (boot (plain_wiring plain_bot) (tick_at 1) (1 / 10)
       (dledger (lv_engine (snd (live_tick (plain_wiring plain_bot) clock_off idle_live))))
       (disk (lv_engine (snd (live_tick (plain_wiring plain_bot) clock_off idle_live)))))"
proof -
  have "idle ((lv_engine idle_live)\<lparr>eg_paused := True\<rparr>)" "eg_last_schedule ((lv_engine idle_live)\<lparr>eg_paused := True\<rparr>) = None"
    by (simp_all add: idle_def idle_live_def init_live_def init_engine_def new_paper_state_def)
  note t = plain_idle_tick [OF this]
  from skew_pause_becomes_permanent [OF plain_ok _ idle_live_simps(1) plain_file _ clocks(1) prod.collapse [symmetric] _ _ refl,
      of "[]" "tick_at 1" "1 / 10" False 5] t show ?thesis
    by (simp add: live_env_simps idle_live_simps)
qed

theorem drawdown_reset_while_stopped_witness:
  "eg_paused (boot (plain_wiring plain_bot) (tick_at 1) (1 / 10) empty_ledger
     (snd (api_drawdown_reset ''bot'' (st_file (plain_wiring plain_bot))
        [(''bot.state.json'', Json (empty_json\<lparr>sj_paused_by_drawdown := Some True\<rparr>))]))) = False"
proof -
  have s: "bot_slug_match ''bot''" by code_simp
  show ?thesis
    using drawdown_reset_while_stopped [OF _ plain_file _ s prod.collapse [symmetric],
        of "[(''bot.state.json'', Json (empty_json\<lparr>sj_paused_by_drawdown := Some True\<rparr>))]"
           "empty_json\<lparr>sj_paused_by_drawdown := Some True\<rparr>" plain_bot "tick_at 1" "1 / 10" empty_ledger]
    by simp
qed

theorem drawdown_reset_lost_while_running_witness:
  "eg_paused (snd (tick_body (plain_wiring plain_bot) (tick_at 50000)
     ((init_engine (plain_wiring plain_bot) (1 / 10) empty_ledger [])
        \<lparr>eg_paused := True, disk := snd (api_drawdown_reset ''bot'' (st_file (plain_wiring plain_bot)) [])\<rparr>)))"
proof -
  let ?S = "plain_wiring plain_bot" and ?e = "(init_engine (plain_wiring plain_bot) (1 / 10) empty_ledger [])\<lparr>eg_paused := True\<rparr>"
  have e: "book_wf (book ?e)" "eg_paused ?e" "disk ?e = []" by (simp_all add: init_engine_def book_wf_new)
  have "idle (?e\<lparr>disk := snd (api_drawdown_reset ''bot'' (st_file ?S) (disk ?e))\<rparr>)"
    "eg_last_schedule (?e\<lparr>disk := snd (api_drawdown_reset ''bot'' (st_file ?S) (disk ?e))\<rparr>) = None"
    by (simp_all add: idle_def init_engine_def new_paper_state_def)
  note t = plain_idle_tick [OF this]
  obtain r e' where b: "tick_body ?S (tick_at 50000) (?e\<lparr>disk := snd (api_drawdown_reset ''bot'' (st_file ?S) (disk ?e))\<rparr>) = (r, e')"
    by fastforce
  with t have b': "tick_body ?S (tick_at 50000) (?e\<lparr>disk := snd (api_drawdown_reset ''bot'' (st_file ?S) (disk ?e))\<rparr>) = (Inr (), e')"
    by simp
  from drawdown_reset_lost_while_running [OF plain_ok live_env_simps(4) e(1) plain_file _ e(2) live_env_simps(3) b'] have "eg_paused e'"
    by simp
  then show ?thesis using b e(3) by simp
qed

end
