(* ===== verification/Backtest_Engine.thy ===== *)
theory Backtest_Engine
  imports Indicator_Engine Inverse_Perp State_IO
begin

text \<open>
  The backtester (\<open>backtest/backtest_engine.py\<close>): a walk over historical candles with the book of the paper
  engine, its own exits and entries, and fees it always debits.
\<close>

section \<open>Input and state\<close>

record bt_candle =
  bc_ts :: int
  bc_open :: real
  bc_high :: real
  bc_low :: real
  bc_close :: real
  bc_volume :: real

text \<open>\<open>bw_now\<close> is the wall clock, which the walk reads once per candle at most.\<close>

record backtest_input =
  bw_cfg :: bot_config
  bw_candles :: "(string \<times> bt_candle list) list"
  bw_balance :: real
  bw_fresh_id :: "nat \<Rightarrow> string"
  bw_pandas :: pandas
  bw_now :: "nat \<Rightarrow> int"

record backtest =
  bt_book :: paper_state
  bt_pointers :: "(string \<times> nat) list"
  bt_processed :: nat
  bt_fees :: real
  bt_closes :: per_tf
  bt_highs :: per_tf
  bt_lows :: per_tf
  bt_next_id :: nat

abbreviation bt_tf :: "backtest_input \<Rightarrow> string" where
  "bt_tf W \<equiv> timeframe (bw_cfg W)"

abbreviation bt_opens :: "backtest \<Rightarrow> (string \<times> paper_deal) list" where
  "bt_opens b \<equiv> open_deals (bt_book b)"

definition driving_candles :: "backtest_input \<Rightarrow> bt_candle list" where
  "driving_candles W = get_or [] (map_of (bw_candles W) (bt_tf W))"

definition init_backtest :: "backtest_input \<Rightarrow> backtest res" where
  "init_backtest W =
     (if \<not> required_timeframes (bw_cfg W) (bt_tf W) \<subseteq> set (keys (bw_candles W)) then Inl ValueError
      else if bt_tf W \<notin> set (keys (bw_candles W)) then Inl ValueError
      else Inr \<lparr>bt_book = new_paper_state (bw_balance W), bt_pointers = map (\<lambda>(tf, _). (tf, 0)) (bw_candles W),
                bt_processed = 0, bt_fees = 0, bt_closes = [], bt_highs = [], bt_lows = [], bt_next_id = 0\<rparr>)"

section \<open>Windows\<close>

text \<open>The pointer walk of one timeframe.\<close>

function advance_pointer :: "int \<Rightarrow> bt_candle list \<Rightarrow> nat \<Rightarrow> nat" where
  "advance_pointer ts cs p = (if p < length cs \<and> bc_ts (cs ! p) < ts then advance_pointer ts cs (Suc p) else p)"
  by pat_completeness auto
termination by (relation "measure (\<lambda>(_, cs, p). length cs - p)") auto

declare advance_pointer.simps [simp del]

definition advance_all :: "backtest_input \<Rightarrow> int \<Rightarrow> (string \<times> nat) list \<Rightarrow> (string \<times> nat) list" where
  "advance_all W ts ptrs = map (\<lambda>(tf, cs). (tf, advance_pointer ts cs (get_or 0 (map_of ptrs tf)))) (bw_candles W)"

definition window_of :: "backtest_input \<Rightarrow> (string \<times> nat) list \<Rightarrow> (bt_candle \<Rightarrow> real) \<Rightarrow> per_tf" where
  "window_of W ptrs f = map (\<lambda>(tf, cs). (tf, map f (take (get_or 0 (map_of ptrs tf)) cs))) (bw_candles W)"

definition ohlc_up_to :: "backtest_input \<Rightarrow> int \<Rightarrow> (backtest, prices) prog" where
  "ohlc_up_to W ts = (\<lambda>b.
     let ptrs = advance_all W ts (bt_pointers b) in
     (Inr \<lparr>closes_tf = window_of W ptrs bc_close, highs_tf = window_of W ptrs bc_high,
           lows_tf = window_of W ptrs bc_low, opens_tf = window_of W ptrs bc_open\<rparr>,
      b\<lparr>bt_pointers := ptrs\<rparr>))"

section \<open>Fees, closing, opening\<close>

definition bt_calc_fee :: "backtest_input \<Rightarrow> real \<Rightarrow> real" where
  "bt_calc_fee W sz = py_round (sz * taker_fee (dca_cfg (bw_cfg W))) 10"

definition bt_debit :: "real \<Rightarrow> (backtest, unit) prog" where
  "bt_debit fee = pmod (\<lambda>b. b\<lparr>bt_book := (bt_book b)\<lparr>balance_btc := balance_btc (bt_book b) - fee\<rparr>, bt_fees := bt_fees b + fee\<rparr>)"

definition bt_on_book :: "(paper_state, 'a) prog \<Rightarrow> (backtest, 'a) prog" where
  "bt_on_book m = (\<lambda>b. case m (bt_book b) of (r, s) \<Rightarrow> (r, b\<lparr>bt_book := s\<rparr>))"

definition bt_put :: "paper_deal \<Rightarrow> (backtest, unit) prog" where
  "bt_put d = pmod (\<lambda>b. b\<lparr>bt_book := put_deal d (bt_book b)\<rparr>)"

definition bt_close_deal :: "backtest_input \<Rightarrow> string \<Rightarrow> real \<Rightarrow> string \<Rightarrow> trigger \<Rightarrow> (backtest, unit) prog" where
  "bt_close_deal W did price reason trig = (\<lambda>b.
     case map_of (bt_opens b) did of
       None \<Rightarrow> pskip b
     | Some d \<Rightarrow>
         pseq (bt_put (d\<lparr>exit_trigger := Some trig\<rparr>))
         (pseq (bt_on_book (state_close_deal did price reason (bw_now W (bt_processed b))))
         (bt_debit (bt_calc_fee W (total_size d)))) b)"

definition bt_base_order :: "backtest_input \<Rightarrow> real \<Rightarrow> int \<Rightarrow> paper_order" where
  "bt_base_order W price ts =
     \<lparr>order_number = 1, order_price = price, order_size = base_order_size (dca_cfg (bw_cfg W)), order_timestamp = ts,
      order_type = ''base''\<rparr>"

definition bt_fresh_deal :: "backtest_input \<Rightarrow> string \<Rightarrow> real \<Rightarrow> int \<Rightarrow> trigger option \<Rightarrow> paper_deal" where
  "bt_fresh_deal W did price ts trig =
     \<lparr>deal_id = did, bot_name = cfg_name (bw_cfg W), symbol = cfg_pair (bw_cfg W), side = ''long'',
      leverage = lev_size (leverage_cfg (bw_cfg W)), orders = [bt_base_order W price ts], is_open = True,
      opened_at = ts, closed_at = None, close_price = None, close_reason = None, pnl_btc = 0, pnl_pct = 0,
      entry_trigger = trig, exit_trigger = None, peak_price = 0, tp_ov = None, sl_ov = None, deal_dca_enabled = True,
      wick_high_since_open = 0, wick_low_since_open = 0\<rparr>"

definition bt_open_deal :: "backtest_input \<Rightarrow> real \<Rightarrow> int \<Rightarrow> trigger option \<Rightarrow> (backtest, unit) prog" where
  "bt_open_deal W price ts trig =
     pbind (\<lambda>b. (Inr (bw_fresh_id W (bt_next_id b)), b\<lparr>bt_next_id := bt_next_id b + 1\<rparr>)) (\<lambda>did.
     pbind (plift (post_init (bt_fresh_deal W did price ts trig))) (\<lambda>d.
     pseq (pmod (\<lambda>b. b\<lparr>bt_book := state_open_deal d (bt_book b)\<rparr>))
     (bt_debit (bt_calc_fee W (base_order_size (dca_cfg (bw_cfg W)))))))"

section \<open>Exits and DCA\<close>

text \<open>The stop of a deal: its level, the deal as the check leaves it, the tag of the exit.\<close>

definition bt_stop :: "backtest_input \<Rightarrow> bt_candle \<Rightarrow> paper_deal \<Rightarrow> real \<Rightarrow> paper_deal \<times> real res \<times> string" where
  "bt_stop W c d avg =
     (let sl = stop_loss_cfg (bw_cfg W) in
      if sl_type sl = ''trailing''
      then let d1 = d\<lparr>peak_price := max (if peak_price d = 0 then bc_open c else peak_price d) (bc_high c)\<rparr> in
           (d1, compute_sl_target_price (peak_price d1) (sl_pct sl) (side d), ''trailing_sl'')
      else (d, compute_sl_target_price avg (sl_pct sl) (side d), ''price_sl''))"

definition bt_check_sl :: "backtest_input \<Rightarrow> bt_candle \<Rightarrow> paper_deal \<Rightarrow> real \<Rightarrow> (backtest, bool) prog" where
  "bt_check_sl W c d avg =
     (if sl_type (stop_loss_cfg (bw_cfg W)) = ''none'' then pret False
      else case bt_stop W c d avg of
        (d1, stop, tag) \<Rightarrow>
          pseq (bt_put d1)
          (pbind (plift stop) (\<lambda>sl_price.
          if bc_low c \<le> sl_price then pseq (bt_close_deal W (deal_id d) sl_price ''sl'' (Exit_Trigger tag)) (pret True)
          else pret False)))"

definition bt_prices :: "backtest \<Rightarrow> prices" where
  "bt_prices b = \<lparr>closes_tf = bt_closes b, highs_tf = bt_highs b, lows_tf = bt_lows b, opens_tf = []\<rparr>"

definition bt_tp_groups :: "backtest_input \<Rightarrow> backtest \<Rightarrow> bool \<times> trigger option" where
  "bt_tp_groups W b =
     (let tp = take_profit_cfg (bw_cfg W) in
      if tp_enabled tp \<and> tp_groups tp \<noteq> [] \<and> bt_closes b \<noteq> []
      then check_tp_indicator_groups (bw_pandas W) (bw_cfg W) (bt_prices b) (bt_tf W)
      else (False, None))"

text \<open>The deal handed to the check is the object in the book; here it is looked up by its id.\<close>

definition check_tp_sl_intracandle :: "backtest_input \<Rightarrow> bt_candle \<Rightarrow> string \<Rightarrow> (backtest, bool) prog" where
  "check_tp_sl_intracandle W c did = (\<lambda>b.
     case map_of (bt_opens b) did of
       None \<Rightarrow> (Inr False, b)
     | Some d \<Rightarrow>
         let tp = take_profit_cfg (bw_cfg W) in
         pbind (plift (avg_entry_price d)) (\<lambda>avg.
         pbind (plift (compute_tp_target_price avg (target_pct tp) (side d))) (\<lambda>tp_price.
         let price_hit = (tp_enabled tp \<and> price_enabled tp \<and> tp_price \<le> bc_high c); groups = bt_tp_groups W b in
         if price_hit
         then pseq (bt_close_deal W did tp_price ''tp'' (Exit_Trigger ''price_tp'')) (pret True)
         else if fst groups
         then pseq (bt_close_deal W did (bc_close c) ''tp''
                (case snd groups of Some (Entry_Trigger _ g is) \<Rightarrow> Indicator_Exit g is | _ \<Rightarrow> Indicator_Exit '''' []))
              (pret True)
         else bt_check_sl W c d avg)) b)"

definition bt_check_dca :: "backtest_input \<Rightarrow> string \<Rightarrow> real \<Rightarrow> (backtest, unit) prog" where
  "bt_check_dca W did price = (\<lambda>b.
     case map_of (bt_opens b) did of
       None \<Rightarrow> pskip b
     | Some d \<Rightarrow>
         let cfg = dca_cfg (bw_cfg W) in
         if \<not> dca_on cfg \<or> max_orders cfg \<le> 1 \<or> max_orders cfg - 1 \<le> int (dca_count d) then pskip b
         else
           pbind (plift (py_last (orders d))) (\<lambda>last_order.
           if order_price last_order * (1 - order_spacing_pct cfg * step_scale cfg ^ dca_count d / 100) < price then pskip
           else
             let sz = py_round (base_order_size cfg * dca_multiplier cfg ^ dca_count d) 8;
                 ord = \<lparr>order_number = int (dca_count d) + 2, order_price = price, order_size = sz,
                        order_timestamp = bw_now W (bt_processed b), order_type = ''dca''\<rparr> in
             pseq (bt_put (d\<lparr>orders := orders d @ [ord]\<rparr>)) (bt_debit (bt_calc_fee W sz))) b)"

section \<open>The walk\<close>

definition bt_monitor_one :: "backtest_input \<Rightarrow> bt_candle \<Rightarrow> string \<Rightarrow> (backtest, unit) prog" where
  "bt_monitor_one W c did =
     pbind (check_tp_sl_intracandle W c did) (\<lambda>closed.
     if closed then pskip
     else pbind (pget (\<lambda>b. did \<in> set (keys (bt_opens b)))) (\<lambda>still. if still then bt_check_dca W did (bc_close c) else pskip))"

fun bt_monitor :: "backtest_input \<Rightarrow> bt_candle \<Rightarrow> string list \<Rightarrow> (backtest, unit) prog" where
  "bt_monitor W c [] = pskip"
| "bt_monitor W c (did # ds) = pseq (bt_monitor_one W c did) (bt_monitor W c ds)"

text \<open>An entry that raises is logged and the walk goes on.\<close>

definition bt_entry :: "backtest_input \<Rightarrow> bt_candle \<Rightarrow> prices \<Rightarrow> (backtest, unit) prog" where
  "bt_entry W c p =
     pseq (ptry (case check_entry_signal (bw_pandas W) (bw_cfg W) p (bt_tf W) of
                   (True, info) \<Rightarrow> bt_open_deal W (bc_close c) (bc_ts c) info
                 | (False, _) \<Rightarrow> pskip)) pskip"

definition process_candle :: "backtest_input \<Rightarrow> bt_candle \<Rightarrow> prices \<Rightarrow> (backtest, unit) prog" where
  "process_candle W c p =
     pseq (pmod (\<lambda>b. b\<lparr>bt_closes := closes_tf p, bt_highs := highs_tf p, bt_lows := lows_tf p\<rparr>))
     (pbind (pget (\<lambda>b. keys (bt_opens b))) (\<lambda>ids.
     pseq (bt_monitor W c ids)
     (pbind (pget (\<lambda>b. bt_opens b = [])) (\<lambda>flat.
     if flat \<and> closes_for (closes_tf p) (bt_tf W) \<noteq> None then bt_entry W c p else pskip))))"

definition bt_warmup :: nat where
  "bt_warmup = 78"

fun bt_walk :: "backtest_input \<Rightarrow> nat \<Rightarrow> bt_candle list \<Rightarrow> (backtest, unit) prog" where
  "bt_walk W i [] = pskip"
| "bt_walk W i (c # cs) =
     (if i < bt_warmup then bt_walk W (Suc i) cs
      else
        pbind (ohlc_up_to W (bc_ts c)) (\<lambda>p.
        pseq (process_candle W c p)
        (pseq (pmod (\<lambda>b. b\<lparr>bt_processed := bt_processed b + 1\<rparr>))
        (bt_walk W (Suc i) cs))))"

fun bt_close_all :: "backtest_input \<Rightarrow> real \<Rightarrow> string list \<Rightarrow> (backtest, unit) prog" where
  "bt_close_all W price [] = pskip"
| "bt_close_all W price (did # ds) =
     pseq (bt_close_deal W did price ''end_of_data'' (Exit_Trigger ''timeout'')) (bt_close_all W price ds)"

definition backtest_run :: "backtest_input \<Rightarrow> (backtest, unit) prog" where
  "backtest_run W =
     pseq (bt_walk W 0 (driving_candles W))
     (if driving_candles W = [] then pskip
      else pbind (pget (\<lambda>b. keys (bt_opens b))) (bt_close_all W (bc_close (last (driving_candles W)))))"

end
