(* ===== verification/Backtest_Properties.thy ===== *)
theory Backtest_Properties
  imports Backtest_Engine
begin

text \<open>
  What a backtest guarantees: it completes, with every deal closed and every satoshi accounted for; its windows are
  the candles that opened before the current one; and where it departs from the market or from the live bot.
\<close>

section \<open>Accounting\<close>

definition order_fees :: "backtest_input \<Rightarrow> paper_deal \<Rightarrow> real" where
  "order_fees W d = sum_list (map (\<lambda>ord. bt_calc_fee W (order_size ord)) (orders d))"

definition deal_fees :: "backtest_input \<Rightarrow> paper_deal \<Rightarrow> real" where
  "deal_fees W d = order_fees W d + bt_calc_fee W (total_size d)"

definition backtest_ok :: "backtest_input \<Rightarrow> bool" where
  "backtest_ok W =
     (valid_bot (bw_cfg W) \<and> target_pct (take_profit_cfg (bw_cfg W)) < 100 \<and>
      (\<forall>k < 50. 0 < py_round (base_order_size (dca_cfg (bw_cfg W)) * dca_multiplier (dca_cfg (bw_cfg W)) ^ k) 8) \<and>
      list_all (\<lambda>c. 0 < bc_close c) (driving_candles W))"

definition bt_inv :: "backtest_input \<Rightarrow> backtest \<Rightarrow> bool" where
  "bt_inv W b =
     (book_wf (bt_book b) \<and> length (bt_opens b) \<le> 1 \<and>
      list_all (\<lambda>d. side d = ''long'') (vals (bt_opens b) @ closed_deals (bt_book b)) \<and>
      balance_btc (bt_book b) = bw_balance W + total_pnl_btc (bt_book b) - bt_fees b \<and>
      bt_fees b = sum_list (map (deal_fees W) (closed_deals (bt_book b))) + sum_list (map (order_fees W) (vals (bt_opens b))))"

lemma bt_inv_single:
  assumes "bt_inv W b" "map_of (bt_opens b) did = Some d"
  shows "bt_opens b = [(did, d)]" "deal_wf d" "side d = ''long''" "deal_id d = did" "is_open d"
proof -
  show o: "bt_opens b = [(did, d)]"
    using assms by (cases "bt_opens b") (auto simp: bt_inv_def split: if_splits)
  show "deal_wf d" "deal_id d = did" "is_open d"
    using book_wf_lookup [of "bt_book b" did d] assms by (auto simp: bt_inv_def)
  show "side d = ''long''" using assms(1) o by (simp add: bt_inv_def)
qed

lemma bt_prog_simps [simp]:
  "bt_put d b = (Inr (), b\<lparr>bt_book := put_deal d (bt_book b)\<rparr>)"
  "bt_debit fee b = (Inr (), b\<lparr>bt_book := (bt_book b)\<lparr>balance_btc := balance_btc (bt_book b) - fee\<rparr>, bt_fees := bt_fees b + fee\<rparr>)"
  by (simp_all add: bt_put_def bt_debit_def)

lemma put_deal_balance [simp]: "balance_btc (put_deal d s) = balance_btc s"
  by (simp add: put_deal_def)

text \<open>Replacing the open deal by one with further orders, paid for.\<close>

lemma bt_inv_replace:
  assumes "bt_inv W b" "map_of (bt_opens b) did = Some d" "deal_wf d'" "side d' = ''long''" "deal_id d' = did" "is_open d'"
    "order_fees W d' = order_fees W d + f"
  shows "bt_inv W (b\<lparr>bt_book := (put_deal d' (bt_book b))\<lparr>balance_btc := balance_btc (bt_book b) - f\<rparr>, bt_fees := bt_fees b + f\<rparr>)"
  using assms(1) bt_inv_single [OF assms(1,2)] assms(3-)
  by (simp add: bt_inv_def put_deal_def book_wf_def entry_wf_def total_pnl_btc_def)

lemma bt_close_succeeds: "succeeds (bt_inv W) (bt_close_deal W did price reason trig)"
  unfolding succeeds_def
proof (intro allI impI)
  fix b
  assume i: "bt_inv W b"
  show "\<exists>v b'. bt_close_deal W did price reason trig b = (Inr v, b') \<and> bt_inv W b'"
  proof (cases "map_of (bt_opens b) did")
    case None
    then show ?thesis using i by (simp add: bt_close_deal_def)
  next
    case (Some d)
    note s = bt_inv_single [OF i Some]
    let ?d = "d\<lparr>exit_trigger := Some trig\<rparr>" and ?n = "bw_now W (bt_processed b)"
    have wf: "deal_wf ?d" using s(2) by (simp add: deal_wf_def)
    obtain p q where pq: "calculate_pnl ?d price = Inr (p, q)" using pnl_defined [OF wf] by blast
    have m: "map_of (open_deals (put_deal ?d (bt_book b))) did = Some ?d" using s by (simp add: put_deal_def)
    let ?x = "mark_closed price reason ?n ?d\<lparr>pnl_btc := p, pnl_pct := q\<rparr>"
    note c = close_deal_found [OF m pq, of reason ?n]
    have x: "deal_wf ?x" "side ?x = ''long''" "\<not> is_open ?x" "pnl_btc ?x = p" "deal_fees W ?x = order_fees W d + bt_calc_fee W (total_size d)"
      using s(2,3) by (simp_all add: deal_wf_def mark_closed_def deal_fees_def order_fees_def total_size_def)
    have e: "bt_close_deal W did price reason trig b =
        (Inr (), b\<lparr>bt_book := (put_deal ?d (bt_book b))\<lparr>balance_btc := balance_btc (bt_book b) + p - bt_calc_fee W (total_size d),
            open_deals := AList.delete did (open_deals (put_deal ?d (bt_book b))), closed_deals := closed_deals (bt_book b) @ [?x]\<rparr>,
          bt_fees := bt_fees b + bt_calc_fee W (total_size d)\<rparr>)"
      by (simp add: bt_close_deal_def Some pseq_def bt_on_book_def pbind_apply c) (simp add: put_deal_def)
    show ?thesis unfolding e using i s x by (simp add: bt_inv_def put_deal_def book_wf_def total_pnl_btc_def)
  qed
qed

lemma bt_open_succeeds:
  assumes "backtest_ok W" "0 < price" "bt_inv W b" "bt_opens b = []"
  shows "\<exists>b'. bt_open_deal W price ts trig b = (Inr (), b') \<and> bt_inv W b'"
proof -
  let ?f = "bt_fresh_deal W (bw_fresh_id W (bt_next_id b)) price ts trig"
  have v: "0 < base_order_size (dca_cfg (bw_cfg W))" "1 \<le> lev_size (leverage_cfg (bw_cfg W))"
    using assms(1) by (auto simp: backtest_ok_def valid_bot_def valid_dca_def valid_leverage_def)
  have wf: "deal_wf ?f"
    using v assms(2) by (simp add: bt_fresh_deal_def bt_base_order_def deal_wf_def order_wf_def valid_side_def)
  let ?d = "?f\<lparr>wick_high_since_open := avg_of ?f, wick_low_since_open := avg_of ?f\<rparr>"
  have pi: "post_init ?f = Inr ?d" by (rule post_init_wf [OF wf]) (simp_all add: bt_fresh_deal_def)
  have d: "deal_wf ?d" "side ?d = ''long''" "is_open ?d"
    "order_fees W ?d = bt_calc_fee W (base_order_size (dca_cfg (bw_cfg W)))"
    using wf by (simp_all add: deal_wf_def bt_fresh_deal_def order_fees_def bt_base_order_def)
  show ?thesis
    using assms(3,4) d
    by (simp add: bt_open_deal_def pbind_apply pi pseq_def bt_inv_def state_open_deal_def book_wf_def entry_wf_def total_pnl_btc_def)
qed

lemma bt_dca_succeeds:
  assumes "backtest_ok W" "0 < price"
  shows "succeeds (bt_inv W) (bt_check_dca W did price)"
  unfolding succeeds_def
proof (intro allI impI)
  fix b
  assume i: "bt_inv W b"
  show "\<exists>v b'. bt_check_dca W did price b = (Inr v, b') \<and> bt_inv W b'"
  proof (cases "map_of (bt_opens b) did")
    case (Some d)
    note s = bt_inv_single [OF i Some]
    let ?cfg = "dca_cfg (bw_cfg W)"
    let ?sz = "py_round (base_order_size ?cfg * dca_multiplier ?cfg ^ dca_count d) 8"
    let ?ord = "\<lparr>order_number = int (dca_count d) + 2, order_price = price, order_size = ?sz,
        order_timestamp = bw_now W (bt_processed b), order_type = ''dca''\<rparr>"
    let ?d = "d\<lparr>orders := orders d @ [?ord]\<rparr>"
    show ?thesis
    proof (cases "dca_on ?cfg \<and> \<not> max_orders ?cfg \<le> 1 \<and> \<not> max_orders ?cfg - 1 \<le> int (dca_count d)")
      case True
      have "max_orders ?cfg \<le> 50" using assms(1) by (simp add: backtest_ok_def valid_bot_def valid_dca_def)
      then have "dca_count d < 50" using True by auto
      then have "0 < ?sz" using assms(1) by (simp add: backtest_ok_def)
      then have d: "deal_wf ?d" "side ?d = ''long''" "deal_id ?d = did" "is_open ?d"
        "order_fees W ?d = order_fees W d + bt_calc_fee W ?sz"
        using s assms(2) by (simp_all add: deal_wf_def order_wf_def order_fees_def)
      obtain l where "py_last (orders d) = Inr l" using s(2) by (simp add: py_last_def deal_wf_def)
      then show ?thesis
        using i bt_inv_replace [OF i Some d] True
        by (auto simp: bt_check_dca_def Some plift_bind Let_def pseq_def)
    qed (use i in \<open>auto simp: bt_check_dca_def Some Let_def\<close>)
  qed (use i in \<open>simp add: bt_check_dca_def\<close>)
qed

lemma bt_sl_succeeds:
  assumes "backtest_ok W" "bt_inv W b" "map_of (bt_opens b) did = Some d"
  shows "\<exists>v b'. bt_check_sl W c d avg b = (Inr v, b') \<and> bt_inv W b'"
proof (cases "sl_type (stop_loss_cfg (bw_cfg W)) = ''none''")
  case False
  note s = bt_inv_single [OF assms(2,3)]
  obtain d1 stop tag where st: "bt_stop W c d avg = (d1, stop, tag)" by (cases "bt_stop W c d avg")
  have "0 \<le> sl_pct (stop_loss_cfg (bw_cfg W))" using assms(1) by (simp add: backtest_ok_def valid_bot_def valid_stop_loss_def)
  then obtain p where d1: "deal_wf d1" "side d1 = ''long''" "deal_id d1 = did" "is_open d1" "order_fees W d1 = order_fees W d + 0" "stop = Inr p"
    using st s by (auto simp: bt_stop_def Let_def deal_wf_def order_fees_def compute_sl_target_price_def valid_side_def split: if_splits)
  have i: "bt_inv W (b\<lparr>bt_book := put_deal d1 (bt_book b)\<rparr>)"
    using bt_inv_replace [OF assms(2,3) d1(1-5)] by (simp add: put_deal_def)
  have "succeeds (bt_inv W) (if bc_low c \<le> p then pseq (bt_close_deal W (deal_id d) p ''sl'' (Exit_Trigger tag)) (pret True) else pret False)"
    by (auto intro!: succeeds_seq bt_close_succeeds)
  then show ?thesis using i d1(6) False unfolding succeeds_def by (auto simp: bt_check_sl_def st pseq_def [of "bt_put x" for x] plift_bind)
qed (use assms(2) in \<open>auto simp: bt_check_sl_def\<close>)

lemma bt_exit_succeeds:
  assumes "backtest_ok W"
  shows "succeeds (bt_inv W) (check_tp_sl_intracandle W c did)"
  unfolding succeeds_def
proof (intro allI impI)
  fix b
  assume i: "bt_inv W b"
  show "\<exists>v b'. check_tp_sl_intracandle W c did b = (Inr v, b') \<and> bt_inv W b'"
  proof (cases "map_of (bt_opens b) did")
    case (Some d)
    note s = bt_inv_single [OF i Some]
    have "target_pct (take_profit_cfg (bw_cfg W)) < 100" using assms by (simp add: backtest_ok_def)
    then obtain tp where tp: "compute_tp_target_price (avg_of d) (target_pct (take_profit_cfg (bw_cfg W))) (side d) = Inr tp"
      using s(3) by (simp add: compute_tp_target_price_def valid_side_def)
    have c: "\<exists>v b'. pseq (bt_close_deal W did p r t) (pret True) b = (Inr v, b') \<and> bt_inv W b'" for p r t
      using succeeds_seq [OF bt_close_succeeds [of W did p r t] succeeds_basic(2) [of "bt_inv W" True]] i unfolding succeeds_def by blast
    show ?thesis
      using c bt_sl_succeeds [OF assms i Some]
      by (auto simp: check_tp_sl_intracandle_def Some Let_def plift_bind s(2) tp)
  qed (use i in \<open>auto simp: check_tp_sl_intracandle_def\<close>)
qed

lemma bt_process_succeeds:
  assumes "backtest_ok W" "0 < bc_close c"
  shows "succeeds (bt_inv W) (process_candle W c p)"
proof -
  have "succeeds (bt_inv W) (bt_monitor_one W c did)" for did
    unfolding bt_monitor_one_def
    by (intro succeeds_bind bt_exit_succeeds assms) (auto intro!: succeeds_bind bt_dca_succeeds assms)
  then have m: "succeeds (bt_inv W) (bt_monitor W c ids)" for ids
    by (induction ids) (auto intro: succeeds_seq)
  have e: "\<exists>v b'. bt_entry W c p b = (Inr v, b') \<and> bt_inv W b'" if i: "bt_inv W b" and o: "bt_opens b = []" for b :: backtest
  proof -
    obtain hit info where h: "check_entry_signal (bw_pandas W) (bw_cfg W) p (bt_tf W) = (hit, info)" by fastforce
    obtain b' where "bt_open_deal W (bc_close c) (bc_ts c) info b = (Inr (), b')" "bt_inv W b'"
      using bt_open_succeeds [OF assms i o] by blast
    then show ?thesis using i by (cases hit) (simp_all add: bt_entry_def pseq_def pbind_apply ptry_apply h)
  qed
  have h: "succeeds (bt_inv W) (pbind (pget (\<lambda>b. bt_opens b = []))
      (\<lambda>flat. if flat \<and> closes_for (closes_tf p) (bt_tf W) \<noteq> None then bt_entry W c p else pskip))"
    unfolding succeeds_def using e by auto
  have "succeeds (bt_inv W) (pmod (\<lambda>b. b\<lparr>bt_closes := closes_tf p, bt_highs := highs_tf p, bt_lows := lows_tf p\<rparr>))"
    by (rule succeeds_mod) (simp add: bt_inv_def)
  then show ?thesis
    unfolding process_candle_def
    by (rule succeeds_seq) (rule succeeds_bind [OF succeeds_basic(3) succeeds_seq [OF m h]])
qed

lemma bt_walk_succeeds:
  assumes "backtest_ok W"
  shows "list_all (\<lambda>c. 0 < bc_close c) cs \<Longrightarrow> succeeds (bt_inv W) (bt_walk W i cs)"
proof (induction cs arbitrary: i)
  case (Cons c cs)
  have "bt_inv W (b\<lparr>bt_processed := n\<rparr>) = bt_inv W b" for b n by (simp add: bt_inv_def)
  moreover have "succeeds (bt_inv W) (ohlc_up_to W (bc_ts c))" by (simp add: succeeds_def ohlc_up_to_def Let_def bt_inv_def)
  ultimately show ?case
    using Cons bt_process_succeeds [OF assms]
    by (auto intro!: succeeds_bind succeeds_seq succeeds_mod)
qed simp

text \<open>The tally of the walk, and the deals left at its end.\<close>

lemma process_keeps_count: "bt_processed (snd (process_candle W c p b)) = bt_processed b"
proof -
  have close: "keeps (\<lambda>b. bt_processed b = n) (bt_close_deal W did price reason trig)" for n did price reason trig
    by (auto simp: keeps_def bt_close_deal_def pseq_def pbind_apply bt_on_book_def split: option.split sum.split prod.split)
  have dca: "keeps (\<lambda>b. bt_processed b = n) (bt_check_dca W did price)" for n did price
    by (auto simp: keeps_def bt_check_dca_def pseq_def plift_bind Let_def split: option.split sum.split)
  have sl: "keeps (\<lambda>b. bt_processed b = n) (bt_check_sl W c d avg)" for n d avg
    unfolding bt_check_sl_def
    by (auto intro!: keeps_seq keeps_bind close simp: bt_put_def keeps_mod split: prod.split)
  have close': "bt_processed (snd (pseq (bt_close_deal W did price reason trig) (pret True) b)) = bt_processed b"
    "bt_processed (snd (bt_check_sl W c d avg b)) = bt_processed b" for did price reason trig b d avg
    by (rule keeps_D [OF keeps_seq [OF close keeps_basic(2)] refl], rule keeps_D [OF sl refl])
  have "bt_processed (snd (check_tp_sl_intracandle W c did b)) = bt_processed b" for did b
    by (cases "map_of (bt_opens b) did") (simp_all add: check_tp_sl_intracandle_def Let_def plift_bind close' split: sum.split)
  then have ex: "keeps (\<lambda>b. bt_processed b = n) (check_tp_sl_intracandle W c did)" for n did
    by (simp add: keeps_def)
  have one: "keeps (\<lambda>b. bt_processed b = n) (bt_monitor_one W c did)" for n did
    unfolding bt_monitor_one_def by (auto intro!: keeps_bind ex dca)
  have mon: "keeps (\<lambda>b. bt_processed b = n) (bt_monitor W c ids)" for n ids
    by (induction ids) (simp add: keeps_def, simp add: keeps_seq one)
  have open_keeps: "keeps (\<lambda>b. bt_processed b = n) (bt_open_deal W price ts trig)" for n price ts trig
    unfolding bt_open_deal_def bt_debit_def by (intro keeps_bind keeps_seq keeps_mod) (simp_all add: keeps_def)
  have entry: "keeps (\<lambda>b. bt_processed b = n) (bt_entry W c p)" for n
    unfolding bt_entry_def by (intro keeps_seq keeps_caught) (auto intro: open_keeps split: prod.split bool.split)
  have "keeps (\<lambda>b. bt_processed b = n) (process_candle W c p)" for n
    unfolding process_candle_def by (auto intro!: keeps_seq keeps_bind keeps_mod mon entry)
  then show ?thesis by (auto simp: keeps_def)
qed

lemma walk_count:
  "bt_walk W i cs b = (Inr (), b') \<Longrightarrow> bt_processed b' = bt_processed b + (length cs - (bt_warmup - i))"
proof (induction cs arbitrary: i b)
  case (Cons c cs)
  show ?case
  proof (cases "i < bt_warmup")
    case True
    then show ?thesis using Cons.IH [of "Suc i" b] Cons.prems by auto
  next
    case False
    obtain p b1 where o: "ohlc_up_to W (bc_ts c) b = (Inr p, b1)" "bt_processed b1 = bt_processed b"
      by (simp add: ohlc_up_to_def Let_def)
    obtain r b2 where q: "process_candle W c p b1 = (r, b2)" by fastforce
    have "bt_processed b2 = bt_processed b" using process_keeps_count [of W c p b1] q o(2) by simp
    then show ?thesis
      using Cons.IH [of "Suc i" "b2\<lparr>bt_processed := bt_processed b2 + 1\<rparr>"] Cons.prems False o q
      by (cases r) (auto simp: pseq_def pbind_apply)
  qed
qed simp

text \<open>C17: a backtest of a valid configuration whose target lies below 100 percent completes on any candles with positive
  closes. At its end no deal is open, every closed deal is a well-formed long deal, the fees are those of every
  order and every exit, and the final balance is the start balance plus the realised PnL less the fees.\<close>

theorem backtest_accounts_for_everything:
  assumes "backtest_ok W" "init_backtest W = Inr b0" "driving_candles W \<noteq> []"
  shows "\<exists>b. backtest_run W b0 = (Inr (), b) \<and> bt_opens b = []
    \<and> list_all (\<lambda>d. \<not> is_open d \<and> deal_wf d \<and> side d = ''long'') (closed_deals (bt_book b))
    \<and> bt_fees b = sum_list (map (deal_fees W) (closed_deals (bt_book b)))
    \<and> balance_btc (bt_book b) = bw_balance W + total_pnl_btc (bt_book b) - bt_fees b
    \<and> bt_processed b = length (driving_candles W) - 78"
proof -
  let ?cs = "driving_candles W" and ?price = "bc_close (last (driving_candles W))"
  have "bt_inv W b0" and n0: "bt_processed b0 = 0"
    using assms(2) by (auto simp: init_backtest_def bt_inv_def book_wf_new split: if_splits)
      (auto simp: new_paper_state_def total_pnl_btc_def)
  moreover have "list_all (\<lambda>c. 0 < bc_close c) ?cs" using assms(1) by (simp add: backtest_ok_def)
  ultimately obtain b1 where b1: "bt_walk W 0 ?cs b0 = (Inr (), b1)" "bt_inv W b1"
    using bt_walk_succeeds [OF assms(1)] unfolding succeeds_def by (metis (full_types) old.unit.exhaust)
  have n1: "bt_processed b1 = length ?cs - 78" using walk_count [OF b1(1)] n0 by (simp add: bt_warmup_def)
  have "\<exists>b. bt_close_all W ?price (keys (bt_opens b1)) b1 = (Inr (), b) \<and> bt_inv W b \<and> bt_opens b = [] \<and> bt_processed b = bt_processed b1"
  proof (cases "bt_opens b1")
    case Nil
    then show ?thesis using b1(2) by simp
  next
    case (Cons x xs)
    then obtain did d where x: "bt_opens b1 = [(did, d)]" using b1(2) by (cases x) (auto simp: bt_inv_def)
    obtain b where b: "bt_close_deal W did ?price ''end_of_data'' (Exit_Trigger ''timeout'') b1 = (Inr (), b)" "bt_inv W b"
      using bt_close_succeeds b1(2) unfolding succeeds_def by (metis (full_types) old.unit.exhaust)
    have m: "map_of (bt_opens b1) did = Some d" using x by simp
    then have "bt_opens b = [] \<and> bt_processed b = bt_processed b1"
      using bt_inv_single [OF b1(2) m] b(1) x
      by (auto simp: bt_close_deal_def pseq_def pbind_apply bt_on_book_def state_close_deal_def put_deal_def Let_def
          split: sum.splits prod.splits option.splits)
    then show ?thesis using b x by (simp add: pseq_def)
  qed
  then obtain b where b: "bt_close_all W ?price (keys (bt_opens b1)) b1 = (Inr (), b)" "bt_inv W b" "bt_opens b = []"
    "bt_processed b = bt_processed b1" by blast
  have "backtest_run W b0 = (Inr (), b)" using assms(3) b1(1) b(1) by (simp add: backtest_run_def pseq_def)
  then show ?thesis using b(2-) n1 by (auto simp: bt_inv_def book_wf_def list_all_iff)
qed

section \<open>Windows\<close>

lemma advance_pointer_takeWhile:
  "p \<le> length cs \<Longrightarrow> advance_pointer ts cs p = p + length (takeWhile (\<lambda>c. bc_ts c < ts) (drop p cs))"
proof (induction ts cs p rule: advance_pointer.induct)
  case (1 ts cs p)
  show ?case
  proof (cases "p < length cs \<and> bc_ts (cs ! p) < ts")
    case True
    then have "drop p cs = cs ! p # drop (Suc p) cs" by (simp add: Cons_nth_drop_Suc)
    then show ?thesis using 1 True by (simp add: advance_pointer.simps [of ts cs p])
  next
    case False
    then show ?thesis using 1 by (cases "drop p cs") (auto simp: advance_pointer.simps [of ts cs p] nth_via_drop)
  qed
qed

text \<open>For candles in order of time, whatever earlier candle the pointer stands at, the window the walk takes is the
  list of all candles that opened before the time asked for.\<close>

lemma sorted_prefix: "sorted (map bc_ts cs) \<Longrightarrow> take (length (takeWhile (\<lambda>c. bc_ts c < ts) cs)) cs = filter (\<lambda>c. bc_ts c < ts) cs"
  by (induction cs) (auto simp: empty_filter_conv)

text \<open>C25: the pointer walk, which never goes back, gives on candles sorted by time exactly the windows a fresh search
  would give: the candles with a smaller time stamp.\<close>

theorem pointer_windows_reference:
  assumes "sorted (map bc_ts cs)" "s \<le> ts"
  shows "take (advance_pointer ts cs (advance_pointer s cs 0)) cs = filter (\<lambda>c. bc_ts c < ts) cs"
proof -
  let ?p = "length (takeWhile (\<lambda>c. bc_ts c < s) cs)"
  have p: "advance_pointer s cs 0 = ?p" using advance_pointer_takeWhile [of 0 cs s] by simp
  have "\<forall>c \<in> set (take ?p cs). bc_ts c < ts"
    using assms(2) by (metis (no_types, lifting) dual_order.strict_trans1 set_takeWhileD takeWhile_eq_take)
  then have "takeWhile (\<lambda>c. bc_ts c < ts) cs = take ?p cs @ takeWhile (\<lambda>c. bc_ts c < ts) (drop ?p cs)"
    by (metis (mono_tags, lifting) append_take_drop_id takeWhile_append2)
  then have "length (takeWhile (\<lambda>c. bc_ts c < ts) cs) = ?p + length (takeWhile (\<lambda>c. bc_ts c < ts) (drop ?p cs))"
    by (metis length_append length_take length_takeWhile_le min.absorb2)
  then show ?thesis
    using sorted_prefix [OF assms(1), of ts] advance_pointer_takeWhile [of ?p cs ts] by (simp add: p length_takeWhile_le)
qed

text \<open>the windows look ahead: a candle of another timeframe enters them with its final close as soon as it has
  opened, also while, at the time of the decision, it still has most of its life before it.\<close>

theorem window_reads_unclosed_candle:
  assumes "map_of (bw_candles W) tf = Some cs" "sorted (map bc_ts cs)" "c \<in> set cs"
    "bc_ts c < ts" "ts < bc_ts c + duration" "map_of (bt_pointers b) tf = Some 0"
  shows "\<exists>p b' window. ohlc_up_to W ts b = (Inr p, b') \<and> map_of (closes_tf p) tf = Some window \<and> bc_close c \<in> set window"
proof -
  let ?ptrs = "advance_all W ts (bt_pointers b)"
  have "map_of (map (\<lambda>(tf, cs). (tf, f tf cs)) xs) k = map_option (f k) (map_of xs k)" for f xs k by (induction xs) auto
  note m = this [of "\<lambda>tf cs. advance_pointer ts cs (get_or 0 (map_of (bt_pointers b) tf))"]
    this [of "\<lambda>tf cs. map bc_close (take (get_or 0 (map_of ?ptrs tf)) cs)"]
  have "map_of ?ptrs tf = Some (advance_pointer ts cs 0)" using assms(1,6) m(1) by (simp add: advance_all_def)
  then have "map_of (window_of W ?ptrs bc_close) tf = Some (map bc_close (take (advance_pointer ts cs 0) cs))"
    unfolding window_of_def m(2) assms(1) by simp
  moreover have "take (advance_pointer ts cs 0) cs = filter (\<lambda>c. bc_ts c < ts) cs"
    using advance_pointer_takeWhile [of 0 cs ts] sorted_prefix [OF assms(2)] by simp
  ultimately show ?thesis using assms(3,4) by (simp add: ohlc_up_to_def Let_def)
qed

section \<open>Departures\<close>

text \<open>a stop loss is filled at its level even on a candle that opened below it and never came back: the price the
  deal is closed at is above everything that candle traded.\<close>

theorem stop_filled_above_the_candle:
  assumes "backtest_ok W" "bt_inv W b" "map_of (bt_opens b) did = Some d"
    "sl_type (stop_loss_cfg (bw_cfg W)) = ''fixed''" "s = avg_of d / (1 + sl_pct (stop_loss_cfg (bw_cfg W)) / 100)"
    "bc_low c \<le> bc_high c" "bc_high c < s" "0 < target_pct (take_profit_cfg (bw_cfg W))" "\<not> fst (bt_tp_groups W b)"
    "check_tp_sl_intracandle W c did b = (r, b')"
  shows "r = Inr True \<and> (\<exists>x. closed_deals (bt_book b') = closed_deals (bt_book b) @ [x]
    \<and> deal_id x = did \<and> close_price x = Some s \<and> close_reason x = Some ''sl'' \<and> bc_high c < s)"
proof -
  note i = bt_inv_single [OF assms(2,3)]
  let ?t = "target_pct (take_profit_cfg (bw_cfg W))"
  have pos: "0 < avg_of d" using avg_of_pos [OF i(2)] .
  have pct: "0 \<le> sl_pct (stop_loss_cfg (bw_cfg W))" "?t < 100"
    using assms(1) by (simp_all add: backtest_ok_def valid_bot_def valid_stop_loss_def)
  have tp: "compute_tp_target_price (avg_of d) ?t (side d) = Inr (avg_of d / (1 - ?t / 100))"
    using i(3) pct(2) by (simp add: compute_tp_target_price_def valid_side_def)
  have sl: "compute_sl_target_price (avg_of d) (sl_pct (stop_loss_cfg (bw_cfg W))) (side d) = Inr s"
    using i(3) pct(1) assms(5) by (simp add: compute_sl_target_price_def valid_side_def)
  have "s \<le> avg_of d" using pos pct(1) assms(5) by (simp add: divide_le_eq)
  moreover have "avg_of d \<le> avg_of d / (1 - ?t / 100)" using pos pct(2) assms(8) by (simp add: le_divide_eq)
  ultimately have low: "\<not> avg_of d / (1 - ?t / 100) \<le> bc_high c" "bc_low c \<le> s" using assms(6,7) by simp_all
  have same: "put_deal d (bt_book b) = bt_book b" using i by (simp add: put_deal_def)
  have "check_tp_sl_intracandle W c did b
      = pseq (bt_close_deal W did s ''sl'' (Exit_Trigger ''price_sl'')) (pret True) b"
    using low assms(4,9) i(2,4) by (simp add: check_tp_sl_intracandle_def assms(3) Let_def plift_bind tp bt_check_sl_def bt_stop_def sl
        pseq_def [of "bt_put d"] same)
  moreover obtain b1 where c: "bt_close_deal W did s ''sl'' (Exit_Trigger ''price_sl'') b = (Inr (), b1)"
    using bt_close_succeeds assms(2) unfolding succeeds_def by (metis (full_types) old.unit.exhaust)
  ultimately have r: "r = Inr True" "b' = b1" using assms(10) by (auto simp: pseq_def)
  have "\<exists>x. closed_deals (bt_book b1) = closed_deals (bt_book b) @ [x] \<and> deal_id x = did \<and> close_price x = Some s \<and> close_reason x = Some ''sl''"
    using c i by (auto simp: bt_close_deal_def pseq_def pbind_apply bt_on_book_def state_close_deal_def put_deal_def mark_closed_def Let_def
        split: sum.splits prod.splits)
  then show ?thesis using r assms(7) by simp
qed

section \<open>The direction of the bot\<close>

definition turned :: "string \<Rightarrow> backtest_input \<Rightarrow> backtest_input" where
  "turned s W = W\<lparr>bw_cfg := (bw_cfg W)\<lparr>direction := s\<rparr>\<rparr>"

lemma turned_fields [simp]:
  "bw_candles (turned s W) = bw_candles W" "bw_balance (turned s W) = bw_balance W" "bw_fresh_id (turned s W) = bw_fresh_id W"
  "bw_pandas (turned s W) = bw_pandas W" "bw_now (turned s W) = bw_now W" "timeframe (bw_cfg (turned s W)) = bt_tf W"
  "dca_cfg (bw_cfg (turned s W)) = dca_cfg (bw_cfg W)" "leverage_cfg (bw_cfg (turned s W)) = leverage_cfg (bw_cfg W)"
  "take_profit_cfg (bw_cfg (turned s W)) = take_profit_cfg (bw_cfg W)" "stop_loss_cfg (bw_cfg (turned s W)) = stop_loss_cfg (bw_cfg W)"
  "entry_cfg (bw_cfg (turned s W)) = entry_cfg (bw_cfg W)" "cfg_name (bw_cfg (turned s W)) = cfg_name (bw_cfg W)"
  "cfg_pair (bw_cfg (turned s W)) = cfg_pair (bw_cfg W)"
  by (simp_all add: turned_def)

lemma turned_signals [simp]:
  "all_indicators (bw_cfg (turned s W)) = all_indicators (bw_cfg W)"
  "check_entry_signal pd (bw_cfg (turned s W)) = check_entry_signal pd (bw_cfg W)"
  "check_tp_indicator_groups pd (bw_cfg (turned s W)) = check_tp_indicator_groups pd (bw_cfg W)"
  by (simp_all add: fun_eq_iff all_indicators_def check_entry_signal_def check_tp_indicator_groups_def Let_def cong: if_cong)

lemma turned_steps [simp]:
  "driving_candles (turned s W) = driving_candles W" "bt_calc_fee (turned s W) = bt_calc_fee W"
  "ohlc_up_to (turned s W) = ohlc_up_to W" "bt_stop (turned s W) = bt_stop W" "bt_tp_groups (turned s W) = bt_tp_groups W"
  "bt_fresh_deal (turned s W) = bt_fresh_deal W"
  by (simp_all add: fun_eq_iff driving_candles_def bt_calc_fee_def ohlc_up_to_def advance_all_def window_of_def bt_stop_def
      bt_tp_groups_def bt_fresh_deal_def bt_base_order_def Let_def cong: if_cong)

lemma turned_parts [simp]:
  "bt_close_deal (turned s W) = bt_close_deal W" "bt_open_deal (turned s W) = bt_open_deal W"
  "bt_check_dca (turned s W) = bt_check_dca W"
  by (simp_all add: fun_eq_iff bt_close_deal_def bt_open_deal_def bt_check_dca_def Let_def cong: option.case_cong if_cong)

lemma turned_candle [simp]: "process_candle (turned s W) = process_candle W"
proof -
  have "bt_check_sl (turned s W) = bt_check_sl W" by (simp add: fun_eq_iff bt_check_sl_def cong: if_cong prod.case_cong)
  then have "check_tp_sl_intracandle (turned s W) = check_tp_sl_intracandle W"
    by (intro ext) (simp add: check_tp_sl_intracandle_def Let_def cong: option.case_cong if_cong)
  then have "bt_monitor_one (turned s W) = bt_monitor_one W" by (intro ext) (simp add: bt_monitor_one_def cong: if_cong)
  then have "bt_monitor (turned s W) c ids = bt_monitor W c ids" for c ids by (induction ids) simp_all
  then have "bt_monitor (turned s W) = bt_monitor W" by (intro ext) simp
  moreover have "bt_entry (turned s W) c p = bt_entry W c p" for c p
    by (simp add: bt_entry_def cong: prod.case_cong bool.case_cong)
  ultimately show ?thesis by (intro ext) (simp add: process_candle_def cong: if_cong)
qed

text \<open>a backtest does not look at the direction of the bot: a short configuration gets the result of the long one,
  in which every deal is long.\<close>

theorem backtest_ignores_direction:
  "backtest_run (W\<lparr>bw_cfg := (bw_cfg W)\<lparr>direction := ''short''\<rparr>\<rparr>) = backtest_run (W\<lparr>bw_cfg := (bw_cfg W)\<lparr>direction := ''long''\<rparr>\<rparr>)"
proof -
  have "bt_walk (turned s W) i cs = bt_walk W i cs" for s i cs by (induction cs arbitrary: i) simp_all
  moreover have "bt_close_all (turned s W) p ids = bt_close_all W p ids" for s p ids by (induction ids) simp_all
  then have "bt_close_all (turned s W) = bt_close_all W" for s by (simp add: fun_eq_iff)
  ultimately have "backtest_run (turned s W) = backtest_run W" for s by (simp add: backtest_run_def cong: if_cong)
  then show ?thesis by (simp only: turned_def [symmetric])
qed

end
