(* ===== verification/Backtest_Report.thy ===== *)
theory Backtest_Report
  imports Backtest_Properties
begin

text \<open>
  The figures of a finished backtest (\<open>backtest/backtest_report.py\<close>, \<open>BacktestResult\<close>) and what they satisfy.
\<close>

section \<open>The report\<close>

record bt_report =
  br_candles_total :: nat
  br_candles_processed :: nat
  br_initial :: real
  br_final :: real
  br_fees :: real
  br_total_deals :: nat
  br_winning :: nat
  br_losing :: nat
  br_total_pnl :: real
  br_total_pnl_pct :: real
  br_win_rate :: real
  br_avg_pnl :: real
  br_best :: real
  br_worst :: real
  br_max_drawdown :: real
  br_avg_dca :: real
  br_tp :: nat
  br_sl :: nat

text \<open>Balance, peak and largest drawdown after each deal.\<close>

fun drawdown_step :: "real \<Rightarrow> real \<times> real \<times> real \<Rightarrow> real \<times> real \<times> real" where
  "drawdown_step pnl (balance, peak, max_dd) =
     (let balance1 = balance + pnl; peak1 = (if peak < balance1 then balance1 else peak) in
      (balance1, peak1,
       if 0 < peak1 \<and> max_dd < (peak1 - balance1) / peak1 * 100 then (peak1 - balance1) / peak1 * 100 else max_dd))"

definition calc_max_drawdown :: "real \<Rightarrow> real list \<Rightarrow> real" where
  "calc_max_drawdown initial pnls =
     (if pnls = [] then 0 else snd (snd (fold drawdown_step pnls (initial, initial, 0))))"

definition ratio_or_zero :: "real \<Rightarrow> nat \<Rightarrow> real" where
  "ratio_or_zero x n = (if n = 0 then 0 else x / real n)"

definition build_report :: "backtest_input \<Rightarrow> backtest \<Rightarrow> bt_report" where
  "build_report W b =
     (let ds = closed_deals (bt_book b); pnls = map pnl_btc ds; n = length ds; total = sum_list pnls;
          won = length (filter (\<lambda>d. 0 < pnl_btc d) ds) in
      \<lparr>br_candles_total = length (driving_candles W), br_candles_processed = bt_processed b, br_initial = bw_balance W,
       br_final = balance_btc (bt_book b), br_fees = bt_fees b, br_total_deals = n, br_winning = won,
       br_losing = length (filter (\<lambda>d. pnl_btc d \<le> 0) ds), br_total_pnl = total,
       br_total_pnl_pct = (if 0 < bw_balance W then total / bw_balance W * 100 else 0),
       br_win_rate = (if n = 0 then 0 else real won / real n * 100), br_avg_pnl = ratio_or_zero total n,
       br_best = (if pnls = [] then 0 else Max (set pnls)), br_worst = (if pnls = [] then 0 else Min (set pnls)),
       br_max_drawdown = calc_max_drawdown (bw_balance W) pnls,
       br_avg_dca = ratio_or_zero (real (sum_list (map dca_count ds))) n,
       br_tp = length (filter (\<lambda>d. close_reason d = Some ''tp'') ds),
       br_sl = length (filter (\<lambda>d. close_reason d = Some ''sl'') ds)\<rparr>)"

section \<open>Drawdown\<close>

definition balance_after :: "real \<Rightarrow> real list \<Rightarrow> nat \<Rightarrow> real" where
  "balance_after initial pnls k = initial + sum_list (take k pnls)"

definition peak_until :: "real \<Rightarrow> real list \<Rightarrow> nat \<Rightarrow> real" where
  "peak_until initial pnls k = Max (balance_after initial pnls ` {0..k})"

lemma peak_until_Suc: "peak_until i ps (Suc k) = max (balance_after i ps (Suc k)) (peak_until i ps k)"
  by (simp add: peak_until_def atLeast0_atMost_Suc)

lemma peak_at_least: "i \<le> peak_until i ps k"
  unfolding peak_until_def by (rule Max_ge) (auto simp: balance_after_def intro!: image_eqI [of _ _ 0])

lemma balance_after_snoc: "k \<le> length ps \<Longrightarrow> balance_after i (ps @ [p]) k = balance_after i ps k"
  by (simp add: balance_after_def)

lemma peak_until_snoc: "k \<le> length ps \<Longrightarrow> peak_until i (ps @ [p]) k = peak_until i ps k"
proof -
  assume "k \<le> length ps"
  then have "balance_after i (ps @ [p]) ` {0..k} = balance_after i ps ` {0..k}"
    by (intro image_cong) (simp_all add: balance_after_snoc)
  then show ?thesis by (simp add: peak_until_def)
qed

definition drawdown_at :: "real \<Rightarrow> real list \<Rightarrow> nat \<Rightarrow> real" where
  "drawdown_at i ps k = (peak_until i ps k - balance_after i ps k) / peak_until i ps k * 100"

lemma drawdown_fold:
  assumes "0 < i"
  shows "fold drawdown_step ps (i, i, 0)
    = (balance_after i ps (length ps), peak_until i ps (length ps), Max (insert 0 (drawdown_at i ps ` {1..length ps})))"
proof (induction ps rule: rev_induct)
  case Nil
  then show ?case by (simp add: balance_after_def peak_until_def)
next
  case (snoc p ps)
  let ?n = "length ps" and ?qs = "ps @ [p]"
  have b: "balance_after i ps ?n + p = balance_after i ?qs (Suc ?n)" by (simp add: balance_after_def)
  have pk: "(if peak_until i ps ?n < balance_after i ?qs (Suc ?n) then balance_after i ?qs (Suc ?n) else peak_until i ps ?n)
      = peak_until i ?qs (Suc ?n)"
    by (simp add: peak_until_Suc peak_until_snoc max_def)
  have pos: "0 < peak_until i ?qs (Suc ?n)" using peak_at_least [of i ?qs "Suc ?n"] assms by simp
  have "drawdown_at i ?qs ` {1..?n} = drawdown_at i ps ` {1..?n}"
    by (intro image_cong) (simp_all add: drawdown_at_def peak_until_snoc balance_after_snoc)
  then have "insert 0 (drawdown_at i ?qs ` {1..length ?qs})
      = insert (drawdown_at i ?qs (Suc ?n)) (insert 0 (drawdown_at i ps ` {1..?n}))"
    by (simp add: atLeastAtMostSuc_conv insert_commute)
  then have "Max (insert 0 (drawdown_at i ?qs ` {1..length ?qs}))
      = max (drawdown_at i ?qs (Suc ?n)) (Max (insert 0 (drawdown_at i ps ` {1..?n})))"
    by (simp only:) (rule Max_insert, simp_all)
  moreover define M where "M = Max (insert 0 (drawdown_at i ps ` {1..?n}))"
  ultimately have m: "Max (insert 0 (drawdown_at i ?qs ` {1..length ?qs})) = max (drawdown_at i ?qs (Suc ?n)) M" by simp
  have "fold drawdown_step ps (i, i, 0) = (balance_after i ps ?n, peak_until i ps ?n, M)" using snoc.IH by (simp add: M_def)
  then show ?case
    unfolding m using pos by (simp add: b pk Let_def max_def drawdown_at_def)
qed

text \<open>the figures of a report agree with each other: winners and losers add up, the win rate is a percentage, the
  average lies between the worst and the best deal, and the drawdown, a single pass over the deals, is the largest
  fall from a running peak as a share of that peak.\<close>

theorem report_figures_consistent:
  assumes "0 < bw_balance W" "r = build_report W b" "ps = map pnl_btc (closed_deals (bt_book b))"
  shows "br_winning r + br_losing r = br_total_deals r \<and> 0 \<le> br_win_rate r \<and> br_win_rate r \<le> 100
    \<and> br_worst r \<le> br_avg_pnl r \<and> br_avg_pnl r \<le> br_best r \<and> br_tp r + br_sl r \<le> br_total_deals r
    \<and> br_max_drawdown r = Max (insert 0 (drawdown_at (bw_balance W) ps ` {1..length ps}))"
proof -
  let ?ds = "closed_deals (bt_book b)"
  have split: "length (filter (\<lambda>d. 0 < pnl_btc d) ?ds) + length (filter (\<lambda>d. pnl_btc d \<le> 0) ?ds) = length ?ds"
    using sum_length_filter_compl [of "\<lambda>d. 0 < pnl_btc d" ?ds] by (simp add: not_less)
  have tpsl: "length (filter (\<lambda>d. close_reason d = Some ''tp'') ds) + length (filter (\<lambda>d. close_reason d = Some ''sl'') ds) \<le> length ds"
    for ds :: "paper_deal list" by (induction ds) auto
  have avg: "Min (set xs) \<le> sum_list xs / real (length xs) \<and> sum_list xs / real (length xs) \<le> Max (set xs)"
    if "xs \<noteq> []" for xs :: "real list"
  proof -
    have "Min (set xs) * real (length xs) \<le> sum_list xs" "sum_list xs \<le> Max (set xs) * real (length xs)"
      using weighted_bounds [of xs "Min (set xs)" "\<lambda>x. x" "Max (set xs)" "\<lambda>_. 1"] by (simp_all add: sum_list_triv mult.commute)
    then show ?thesis using that by (simp add: field_simps)
  qed
  have dd: "calc_max_drawdown (bw_balance W) ps = Max (insert 0 (drawdown_at (bw_balance W) ps ` {1..length ps}))"
    using drawdown_fold [OF assms(1), of ps] by (simp add: calc_max_drawdown_def)
  show ?thesis
    using split tpsl [of ?ds] avg [of ps] dd
    by (auto simp: assms(2,3) build_report_def Let_def ratio_or_zero_def divide_le_eq)
qed

section \<open>Witnesses\<close>

text \<open>One timeframe of eighty candles at 50000, the last of which dips to 40000.\<close>

definition flat_candle :: "int \<Rightarrow> bt_candle" where
  "flat_candle k = \<lparr>bc_ts = k * 3600000, bc_open = 50000, bc_high = 50000, bc_low = 50000, bc_close = 50000, bc_volume = 1\<rparr>"

definition flat_input :: backtest_input where
  "flat_input =
     \<lparr>bw_cfg = default_bot ''bot'' PAPER 1 (1 / 1000), bw_candles = [(''1h'', map flat_candle [0..79])], bw_balance = 1 / 10,
      bw_fresh_id = (\<lambda>n. ''202604200000-'' @ pad 4 n), bw_pandas = pandas_doc, bw_now = (\<lambda>_. 7)\<rparr>"

lemma flat_driving: "driving_candles flat_input = map flat_candle [0..79]"
  by (simp add: driving_candles_def flat_input_def default_defs)

lemma flat_ok: "backtest_ok flat_input"
proof -
  have "py_round (1 / 1000) 8 = (1 / 1000 :: real)" by code_simp
  moreover have "valid_bot (default_bot ''bot'' PAPER 1 (1 / 1000))" by code_simp
  moreover have "list_all (\<lambda>c. 0 < bc_close c) (driving_candles flat_input)"
    unfolding flat_driving by (simp add: list_all_iff flat_candle_def)
  ultimately show ?thesis by (simp add: backtest_ok_def flat_input_def default_defs)
qed

definition flat_start :: backtest where
  "flat_start = \<lparr>bt_book = new_paper_state (1 / 10), bt_pointers = [(''1h'', 0)], bt_processed = 0, bt_fees = 0, bt_closes = [],
     bt_highs = [], bt_lows = [], bt_next_id = 0\<rparr>"

lemma flat_init: "init_backtest flat_input = Inr flat_start"
  by (simp add: init_backtest_def flat_input_def flat_start_def required_timeframes_def all_indicators_def default_defs)

theorem backtest_accounts_for_everything_witness:
  "\<exists>b. backtest_run flat_input flat_start = (Inr (), b) \<and> bt_opens b = [] \<and> bt_processed b = 2"
  using backtest_accounts_for_everything [OF flat_ok flat_init] by (auto simp: flat_driving)

theorem pointer_windows_reference_witness:
  "take (advance_pointer 7200000 (map flat_candle [0, 1, 2, 3]) (advance_pointer 3600000 (map flat_candle [0, 1, 2, 3]) 0))
     (map flat_candle [0, 1, 2, 3]) = map flat_candle [0, 1]"
  using pointer_windows_reference [of "map flat_candle [0, 1, 2, 3]" 3600000 7200000] by (simp add: flat_candle_def)

theorem window_reads_unclosed_candle_witness:
  "\<exists>p b' window. ohlc_up_to (flat_input\<lparr>bw_candles := [(''1d'', [flat_candle 0])]\<rparr>) 3600000
       (flat_start\<lparr>bt_pointers := [(''1d'', 0)]\<rparr>) = (Inr p, b')
     \<and> map_of (closes_tf p) ''1d'' = Some window \<and> 50000 \<in> set window"
  using window_reads_unclosed_candle [of "flat_input\<lparr>bw_candles := [(''1d'', [flat_candle 0])]\<rparr>" "''1d''" "[flat_candle 0]"
      "flat_candle 0" 3600000 86400000 "flat_start\<lparr>bt_pointers := [(''1d'', 0)]\<rparr>"]
  by (simp add: flat_candle_def)

text \<open>A deal bought at 50000 meets a candle that trades between 30000 and 40000.\<close>

definition bt_held :: paper_deal where
  "bt_held = (bt_fresh_deal flat_input ''d1'' 50000 0 None)\<lparr>wick_high_since_open := 50000, wick_low_since_open := 50000\<rparr>"

definition bt_holding :: backtest where
  "bt_holding = flat_start\<lparr>bt_book := (new_paper_state (1 / 10))
     \<lparr>balance_btc := 1 / 10 - order_fees flat_input bt_held, open_deals := [(''d1'', bt_held)]\<rparr>,
     bt_fees := order_fees flat_input bt_held\<rparr>"

definition gap_candle :: bt_candle where
  "gap_candle = (flat_candle 1)\<lparr>bc_open := 40000, bc_high := 40000, bc_low := 30000, bc_close := 35000\<rparr>"

theorem stop_filled_above_the_candle_witness:
  "\<exists>x. closed_deals (bt_book (snd (check_tp_sl_intracandle flat_input gap_candle ''d1'' bt_holding))) = [x]
     \<and> close_price x = Some (50000 / (1 + 5 / 100)) \<and> 40000 < (50000 / (1 + 5 / 100) :: real)"
proof -
  have d: "deal_wf bt_held" "side bt_held = ''long''" "deal_id bt_held = ''d1''" "is_open bt_held" "avg_of bt_held = 50000"
    by (simp_all add: bt_held_def bt_fresh_deal_def bt_base_order_def flat_input_def default_defs deal_wf_def order_wf_def
        valid_side_def avg_of_def total_value_def total_size_def)
  have i: "bt_inv flat_input bt_holding"
    using d by (simp add: bt_inv_def bt_holding_def flat_start_def new_paper_state_def book_wf_def entry_wf_def total_pnl_btc_def)
      (simp add: flat_input_def)
  have c: "sl_type (stop_loss_cfg (bw_cfg flat_input)) = ''fixed''" "sl_pct (stop_loss_cfg (bw_cfg flat_input)) = 5"
    "target_pct (take_profit_cfg (bw_cfg flat_input)) = 3" "\<not> fst (bt_tp_groups flat_input bt_holding)"
    by (simp_all add: flat_input_def default_defs bt_tp_groups_def)
  have g: "bc_low gap_candle = 30000" "bc_high gap_candle = 40000" by (simp_all add: gap_candle_def)
  have m: "map_of (bt_opens bt_holding) ''d1'' = Some bt_held" "closed_deals (bt_book bt_holding) = []"
    by (simp_all add: bt_holding_def new_paper_state_def)
  from stop_filled_above_the_candle [OF flat_ok i m(1) c(1) refl _ _ _ c(4) prod.collapse [symmetric], of gap_candle]
  show ?thesis by (auto simp: g c d m(2))
qed

theorem report_figures_consistent_witness:
  "br_winning (build_report flat_input flat_start) + br_losing (build_report flat_input flat_start)
    = br_total_deals (build_report flat_input flat_start)"
  using report_figures_consistent [of flat_input _ flat_start, OF _ refl refl] by (simp add: flat_input_def)

end
