(* ===== verification/Secret_Paths.thy ===== *)
theory Secret_Paths
  imports Decimal_Text "HOL-Library.Sublist"
begin

text \<open>
  Names and directories (\<open>core/paths.py\<close>): the check of a path leaf, the names of key, credential and bot files, and the
  removal of everything a bot leaves behind (\<open>purge_bot\<close>). A directory is a list of names with their files; a path is the
  name of its directory and a leaf. A file that resists \<open>unlink\<close> is an input.
\<close>

section \<open>Leaves\<close>

definition safe_leaf_char :: "char \<Rightarrow> bool" where
  "safe_leaf_char c =
     (let n = of_char c :: nat in
      65 \<le> n \<and> n \<le> 90 \<or> 97 \<le> n \<and> n \<le> 122 \<or> is_digit c \<or> c = CHR ''_'' \<or> c = CHR ''-'')"

definition validate_safe_leaf :: "string \<Rightarrow> unit res" where
  "validate_safe_leaf name =
     (if name = [] then Inl ValueError
      else if name = ''..'' then Inl ValueError
      else if CHR ''/'' \<in> set name \<or> CHR 0x5C \<in> set name then Inl ValueError
      else if \<not> list_all safe_leaf_char name then Inl ValueError
      else Inr ())"

definition safe_leaf :: "string \<Rightarrow> bool" where
  "safe_leaf name \<longleftrightarrow> name \<noteq> [] \<and> list_all safe_leaf_char name"

lemma safe_leaf_no_sep:
  assumes "safe_leaf name" shows "CHR ''/'' \<notin> set name" "CHR 0x5C \<notin> set name" "CHR ''.'' \<notin> set name"
proof -
  have "\<not> safe_leaf_char (CHR ''/'')" "\<not> safe_leaf_char (CHR 0x5C)" "\<not> safe_leaf_char (CHR ''.'')" by code_simp+
  then show "CHR ''/'' \<notin> set name" "CHR 0x5C \<notin> set name" "CHR ''.'' \<notin> set name"
    using assms by (auto simp: safe_leaf_def list_all_iff)
qed

lemma validate_safe_leaf_Inr: "validate_safe_leaf name = Inr () \<longleftrightarrow> safe_leaf name"
proof -
  have "name \<noteq> ''..''" if "safe_leaf name" using safe_leaf_no_sep(3) [OF that] by auto
  then show ?thesis using safe_leaf_no_sep [of name] by (auto simp: validate_safe_leaf_def safe_leaf_def)
qed

lemma validate_safe_leaf_cases: "validate_safe_leaf name = (if safe_leaf name then Inr () else Inl ValueError)"
  using validate_safe_leaf_Inr [of name] by (auto simp: validate_safe_leaf_def)

section \<open>Paths\<close>

datatype tree_dir =
    Bots_Dir int | Logs_Dir int | Pid_Dir int | Keys_Dir | Creds_Dir int | Ml_Dir int

type_synonym path = "tree_dir \<times> string"

definition bot_yaml_path :: "int \<Rightarrow> string \<Rightarrow> path res" where
  "bot_yaml_path u slug = res_bind (validate_safe_leaf slug) (\<lambda>_. Inr (Bots_Dir u, slug @ ''.yaml''))"

definition bot_log_path :: "int \<Rightarrow> string \<Rightarrow> path res" where
  "bot_log_path u slug = res_bind (validate_safe_leaf slug) (\<lambda>_. Inr (Logs_Dir u, slug @ ''.log''))"

definition bot_state_path :: "int \<Rightarrow> string \<Rightarrow> path res" where
  "bot_state_path u slug = res_bind (validate_safe_leaf slug) (\<lambda>_. Inr (Logs_Dir u, slug @ ''.state.json''))"

definition bot_state_lock_path :: "int \<Rightarrow> string \<Rightarrow> path res" where
  "bot_state_lock_path u slug = res_bind (validate_safe_leaf slug) (\<lambda>_. Inr (Logs_Dir u, slug @ ''.state.lock''))"

definition bot_pid_path :: "int \<Rightarrow> string \<Rightarrow> path res" where
  "bot_pid_path u slug = res_bind (validate_safe_leaf slug) (\<lambda>_. Inr (Pid_Dir u, slug @ ''.pid''))"

definition bot_manual_trigger_path :: "int \<Rightarrow> string \<Rightarrow> path res" where
  "bot_manual_trigger_path u slug = res_bind (validate_safe_leaf slug) (\<lambda>_. Inr (Logs_Dir u, slug @ ''.manual_trigger''))"

definition user_fernet_key_path :: "int \<Rightarrow> path" where
  "user_fernet_key_path u = (Keys_Dir, show_int u @ ''.key'')"

definition user_ml_results_path :: "int \<Rightarrow> string \<Rightarrow> path res" where
  "user_ml_results_path u slug =
     res_bind (validate_safe_leaf slug) (\<lambda>_. Inr (Ml_Dir u, ''results_'' @ slug @ ''.json''))"

definition uuid_creds_path :: "int \<Rightarrow> string \<Rightarrow> path res" where
  "uuid_creds_path u cu = res_bind (validate_safe_leaf cu) (\<lambda>_. Inr (Creds_Dir u, cu @ ''.enc''))"

lemmas path_defs = bot_yaml_path_def bot_log_path_def bot_state_path_def bot_state_lock_path_def bot_pid_path_def
  bot_manual_trigger_path_def user_ml_results_path_def uuid_creds_path_def

section \<open>Removing a bot\<close>

text \<open>The rows of the ledger that carry a bot: its deals with their orders, its chart annotations and its stored
  backtest runs, each with owner and slug; an order names its deal.\<close>

record bot_tables =
  bt_deals :: "(string \<times> int \<times> string) list"
  bt_orders :: "(string \<times> string) list"
  bt_annotations :: "(int \<times> string) list"
  bt_backtests :: "(int \<times> string) list"

record purge_summary =
  pg_files_removed :: nat
  pg_files_failed :: "path list"
  pg_rows_removed :: "(string \<times> nat) list"
  pg_warnings :: nat

text \<open>One transaction: with the database reachable the four deletes happen together, otherwise none of them does.\<close>

definition purge_rows :: "int \<Rightarrow> string \<Rightarrow> bot_tables \<Rightarrow> (string \<times> nat) list \<times> bot_tables" where
  "purge_rows u slug t =
     (let mine = (\<lambda>(_, v, s). v = u \<and> s = slug);
          dids = map fst (filter mine (bt_deals t));
          own = (\<lambda>x. x = (u, slug)) in
      ([(''orders'', length (filter (\<lambda>(_, d). d \<in> set dids) (bt_orders t))),
        (''deals'', length (filter mine (bt_deals t))),
        (''chart_annotations'', length (filter own (bt_annotations t))),
        (''backtest_runs'', length (filter own (bt_backtests t)))],
       t\<lparr>bt_orders := filter (\<lambda>(_, d). d \<notin> set dids) (bt_orders t),
         bt_deals := filter (\<lambda>x. \<not> mine x) (bt_deals t),
         bt_annotations := filter (\<lambda>x. \<not> own x) (bt_annotations t),
         bt_backtests := filter (\<lambda>x. \<not> own x) (bt_backtests t)\<rparr>))"

text \<open>\<open>Path.glob\<close> with a pattern \<open>p*\<close> lists the names that start with \<open>p\<close>.\<close>

definition glob :: "tree_dir \<Rightarrow> string \<Rightarrow> path list \<Rightarrow> path list" where
  "glob d p files = filter (\<lambda>(e, n). e = d \<and> prefix p n) files"

definition purge_candidates :: "int \<Rightarrow> string \<Rightarrow> path list \<Rightarrow> path list res" where
  "purge_candidates u slug files =
     res_bind (all_ok [bot_state_path u slug, bot_state_lock_path u slug, bot_manual_trigger_path u slug,
                       bot_pid_path u slug, user_ml_results_path u slug])
       (\<lambda>direct. Inr (rev (remdups (rev
          (direct @ glob (Logs_Dir u) (slug @ ''.log'') files
           @ concat (map (\<lambda>action. glob (Logs_Dir u) (slug @ ''.deal_'' @ action @ ''_'') files)
               [''edit'', ''close'', ''cancel'']))))))"

text \<open>The loop over the candidates: a path that exists is unlinked, or noted where \<open>unlink\<close> fails.\<close>

definition purge_file :: "(path \<Rightarrow> bool) \<Rightarrow> path \<Rightarrow> purge_summary \<times> path list \<Rightarrow> purge_summary \<times> path list" where
  "purge_file stuck p s =
     (case s of (m, files) \<Rightarrow>
        if p \<notin> set files then s
        else if stuck p then (m\<lparr>pg_files_failed := pg_files_failed m @ [p]\<rparr>, files)
        else (m\<lparr>pg_files_removed := pg_files_removed m + 1\<rparr>, removeAll p files))"

definition purge_bot :: "bool \<Rightarrow> (path \<Rightarrow> bool) \<Rightarrow> int \<Rightarrow> string \<Rightarrow> path list \<times> bot_tables
    \<Rightarrow> purge_summary res \<times> path list \<times> bot_tables" where
  "purge_bot db_ok stuck u slug s =
     (case s of (files, t) \<Rightarrow>
        (case validate_safe_leaf slug of
           Inl e \<Rightarrow> (Inl e, files, t)
         | Inr _ \<Rightarrow>
             (case (if db_ok then purge_rows u slug t else ([], t)) of (rows, t1) \<Rightarrow>
               (case purge_candidates u slug files of
                  Inl e \<Rightarrow> (Inl e, files, t1)
                | Inr ps \<Rightarrow>
                    (case fold (purge_file stuck) ps
                        (\<lparr>pg_files_removed = 0, pg_files_failed = [], pg_rows_removed = rows,
                          pg_warnings = (if db_ok then 0 else 1)\<rparr>, files) of
                       (m, files1) \<Rightarrow> (Inr m, files1, t1))))))"

end
