(* ===== verification/Credential_Store.thy ===== *)
theory Credential_Store
  imports Secret_Paths
begin

text \<open>
  The encrypted store of exchange keys (\<open>core/credentials.py\<close>), its key rotation, and the recovery script
  (\<open>scripts/recover_fernet.py\<close>). The directories \<open>keys/\<close> and \<open>credentials/<user>/\<close> map names to files with their bytes and
  modification time; an operation is the list of its system calls, so a crash leaves the effect of a prefix of them.
  Fernet is a parameter; what the store needs of it is \<open>fernet_documented\<close>. A plaintext is what \<open>json.loads\<close> makes of it:
  an object with text fields, some other value, or no JSON at all.
\<close>

section \<open>Fernet\<close>

datatype plain =
    JObject "(string \<times> string) list" | JOther | NotJson string

record fernet_lib =
  fn_valid :: "string \<Rightarrow> bool"
  fn_encrypt :: "string \<Rightarrow> nat \<Rightarrow> plain \<Rightarrow> string"
  fn_decrypt :: "string \<Rightarrow> string \<Rightarrow> plain option"

text \<open>Fernet's documentation: a token opens under its key, to the message; under any other key, and when it is not a token
  at all, decryption raises \<open>InvalidToken\<close> (here \<open>None\<close>); an empty key is refused.\<close>

definition fernet_documented :: "fernet_lib \<Rightarrow> bool" where
  "fernet_documented F \<longleftrightarrow>
     (\<forall>k r m. fn_valid F k \<longrightarrow> fn_decrypt F k (fn_encrypt F k r m) = Some m)
     \<and> (\<forall>k k' r m. fn_valid F k \<and> k' \<noteq> k \<longrightarrow> fn_decrypt F k' (fn_encrypt F k r m) = None)
     \<and> (\<forall>k. fn_decrypt F k [] = None) \<and> \<not> fn_valid F []"

lemma fernet_opens: "fernet_documented F \<Longrightarrow> fn_valid F k \<Longrightarrow> fn_decrypt F k (fn_encrypt F k r m) = Some m"
  unfolding fernet_documented_def by blast

lemma fernet_seals: "fernet_documented F \<Longrightarrow> fn_valid F k \<Longrightarrow> k' \<noteq> k \<Longrightarrow> fn_decrypt F k' (fn_encrypt F k r m) = None"
  unfolding fernet_documented_def by blast

section \<open>Files\<close>

record sfile =
  sf_bytes :: string
  sf_mtime :: real

type_synonym sdir = "(string \<times> sfile) list"

record vault =
  va_keys :: sdir
  va_creds :: "int \<Rightarrow> sdir"

text \<open>What one call draws from its surroundings: the time, the next key, the nonces of its tokens, the timestamp of a
  backup, whether another rotation holds the lock, and the names whose \<open>unlink\<close> fails.\<close>

record vault_env =
  ve_now :: real
  ve_new_key :: string
  ve_nonce :: "string \<Rightarrow> nat"
  ve_stamp :: string
  ve_locked :: bool
  ve_stuck :: "string \<Rightarrow> bool"

datatype vault_error =
    File_Not_Found | Bad_Name | Bad_Key | Invalid_Token | Undecryptable string | Already_Running | Os_Error

definition put_key :: "string \<Rightarrow> sfile \<Rightarrow> vault \<Rightarrow> vault" where
  "put_key n f v = v\<lparr>va_keys := AList.update n f (va_keys v)\<rparr>"

definition put_cred :: "int \<Rightarrow> string \<Rightarrow> sfile \<Rightarrow> vault \<Rightarrow> vault" where
  "put_cred u n f v = v\<lparr>va_creds := (va_creds v)(u := AList.update n f (va_creds v u))\<rparr>"

definition move :: "string \<Rightarrow> string \<Rightarrow> sdir \<Rightarrow> sdir" where
  "move a b d = (case map_of d a of None \<Rightarrow> d | Some f \<Rightarrow> AList.delete a (AList.update b f d))"

definition move_key :: "string \<Rightarrow> string \<Rightarrow> vault \<Rightarrow> vault" where
  "move_key a b v = v\<lparr>va_keys := move a b (va_keys v)\<rparr>"

definition move_cred :: "int \<Rightarrow> string \<Rightarrow> string \<Rightarrow> vault \<Rightarrow> vault" where
  "move_cred u a b v = v\<lparr>va_creds := (va_creds v)(u := move a b (va_creds v u))\<rparr>"

definition unlink_key :: "string \<Rightarrow> vault \<Rightarrow> vault" where
  "unlink_key n v = v\<lparr>va_keys := AList.delete n (va_keys v)\<rparr>"

definition unlink_cred :: "int \<Rightarrow> string \<Rightarrow> vault \<Rightarrow> vault" where
  "unlink_cred u n v = v\<lparr>va_creds := (va_creds v)(u := AList.delete n (va_creds v u))\<rparr>"

text \<open>\<open>write_bytes\<close> truncates, then writes.\<close>

definition write_key :: "vault_env \<Rightarrow> string \<Rightarrow> string \<Rightarrow> (vault \<Rightarrow> vault) list" where
  "write_key E n bytes =
     [put_key n \<lparr>sf_bytes = [], sf_mtime = ve_now E\<rparr>, put_key n \<lparr>sf_bytes = bytes, sf_mtime = ve_now E\<rparr>]"

definition write_cred :: "vault_env \<Rightarrow> int \<Rightarrow> string \<Rightarrow> string \<Rightarrow> (vault \<Rightarrow> vault) list" where
  "write_cred E u n bytes =
     [put_cred u n \<lparr>sf_bytes = [], sf_mtime = ve_now E\<rparr>, put_cred u n \<lparr>sf_bytes = bytes, sf_mtime = ve_now E\<rparr>]"

text \<open>\<open>shutil.copy2\<close> copies the bytes and then the metadata, the modification time included.\<close>

definition copy2_key :: "vault_env \<Rightarrow> sfile \<Rightarrow> string \<Rightarrow> (vault \<Rightarrow> vault) list" where
  "copy2_key E f n = write_key E n (sf_bytes f) @ [put_key n f]"

definition run :: "('s \<Rightarrow> 's) list \<Rightarrow> 's \<Rightarrow> 's" where
  "run steps v = fold (\<lambda>f. f) steps v"

section \<open>The key of a user\<close>

definition key_name :: "int \<Rightarrow> string" where
  "key_name u = snd (user_fernet_key_path u)"

definition load_or_create_user_key :: "vault_env \<Rightarrow> int \<Rightarrow> vault \<Rightarrow> string \<times> vault" where
  "load_or_create_user_key E u v =
     (case map_of (va_keys v) (key_name u) of
        Some f \<Rightarrow> (sf_bytes f, v)
      | None \<Rightarrow> (ve_new_key E, run (write_key E (key_name u) (ve_new_key E)) v))"

text \<open>\<open>Fernet(key)\<close> raises \<open>ValueError\<close> on a malformed key.\<close>

definition user_fernet :: "fernet_lib \<Rightarrow> vault_env \<Rightarrow> int \<Rightarrow> vault \<Rightarrow> (vault_error + string) \<times> vault" where
  "user_fernet F E u v =
     (case load_or_create_user_key E u v of (k, v1) \<Rightarrow> (if fn_valid F k then Inr k else Inl Bad_Key, v1))"

section \<open>Credentials of an account\<close>

record api_keys =
  ak_api_key :: string
  ak_api_secret :: string
  ak_passphrase :: string

definition payload_dict :: "api_keys \<Rightarrow> (string \<times> string) list" where
  "payload_dict a =
     [(''api_key'', ak_api_key a), (''api_secret'', ak_api_secret a)]
     @ (if ak_passphrase a \<noteq> [] then [(''passphrase'', ak_passphrase a)] else [])"

definition of_dict :: "(string \<times> string) list \<Rightarrow> api_keys" where
  "of_dict d =
     (let get = (\<lambda>k. case map_of d k of None \<Rightarrow> [] | Some x \<Rightarrow> x) in
      \<lparr>ak_api_key = get ''api_key'', ak_api_secret = get ''api_secret'', ak_passphrase = get ''passphrase''\<rparr>)"

definition blob_name :: "string \<Rightarrow> string" where
  "blob_name cu = cu @ ''.enc''"

definition blob_tmp :: "string \<Rightarrow> string" where
  "blob_tmp cu = blob_name cu @ ''.tmp''"

definition save_steps :: "fernet_lib \<Rightarrow> vault_env \<Rightarrow> int \<Rightarrow> string \<Rightarrow> string \<Rightarrow> api_keys \<Rightarrow> (vault \<Rightarrow> vault) list" where
  "save_steps F E u cu k a =
     write_cred E u (blob_tmp cu) (fn_encrypt F k (ve_nonce E cu) (JObject (payload_dict a)))
     @ [move_cred u (blob_tmp cu) (blob_name cu)]"

definition save_keys_by_uuid :: "fernet_lib \<Rightarrow> vault_env \<Rightarrow> string \<Rightarrow> api_keys \<Rightarrow> int \<Rightarrow> vault
    \<Rightarrow> (vault_error + unit) \<times> vault" where
  "save_keys_by_uuid F E cu a u v =
     (case user_fernet F E u v of
        (Inl e, v1) \<Rightarrow> (Inl e, v1)
      | (Inr k, v1) \<Rightarrow>
          (case uuid_creds_path u cu of
             Inl _ \<Rightarrow> (Inl Bad_Name, v1)
           | Inr _ \<Rightarrow> (Inr (), run (save_steps F E u cu k a) v1)))"

text \<open>\<open>InvalidToken\<close>, a malformed key and undecodable JSON are caught and give \<open>None\<close>; a bad name escapes.\<close>

definition open_blob :: "fernet_lib \<Rightarrow> string \<Rightarrow> string \<Rightarrow> api_keys option" where
  "open_blob F k bytes =
     (case fn_decrypt F k bytes of Some (JObject d) \<Rightarrow> Some (of_dict d) | _ \<Rightarrow> None)"

definition get_keys_by_uuid :: "fernet_lib \<Rightarrow> vault_env \<Rightarrow> string \<Rightarrow> int \<Rightarrow> vault
    \<Rightarrow> (vault_error + api_keys option) \<times> vault" where
  "get_keys_by_uuid F E cu u v =
     (case uuid_creds_path u cu of
        Inl _ \<Rightarrow> (Inl Bad_Name, v)
      | Inr _ \<Rightarrow>
          (case map_of (va_creds v u) (blob_name cu) of
             None \<Rightarrow> (Inr None, v)
           | Some f \<Rightarrow>
               (case user_fernet F E u v of
                  (Inl _, v1) \<Rightarrow> (Inr None, v1)
                | (Inr k, v1) \<Rightarrow> (Inr (open_blob F k (sf_bytes f)), v1))))"

definition delete_keys_by_uuid :: "vault_env \<Rightarrow> string \<Rightarrow> int \<Rightarrow> vault \<Rightarrow> (vault_error + bool) \<times> vault" where
  "delete_keys_by_uuid E cu u v =
     (case uuid_creds_path u cu of
        Inl _ \<Rightarrow> (Inl Bad_Name, v)
      | Inr _ \<Rightarrow>
          if map_of (va_creds v u) (blob_name cu) = None then (Inr False, v)
          else if ve_stuck E (blob_name cu) then (Inr False, v)
          else (Inr True, unlink_cred u (blob_name cu) v))"

section \<open>Texts of a user\<close>

definition encrypt_for_user :: "fernet_lib \<Rightarrow> vault_env \<Rightarrow> int \<Rightarrow> string \<Rightarrow> vault \<Rightarrow> (vault_error + string) \<times> vault" where
  "encrypt_for_user F E u s v =
     (case user_fernet F E u v of
        (Inl e, v1) \<Rightarrow> (Inl e, v1)
      | (Inr k, v1) \<Rightarrow> (Inr (fn_encrypt F k (ve_nonce E s) (NotJson s)), v1))"

text \<open>A seed is base32, so its text is not JSON.\<close>

definition decrypt_for_user :: "fernet_lib \<Rightarrow> vault_env \<Rightarrow> int \<Rightarrow> string \<Rightarrow> vault \<Rightarrow> (vault_error + string) \<times> vault" where
  "decrypt_for_user F E u token v =
     (case user_fernet F E u v of
        (Inl e, v1) \<Rightarrow> (Inl e, v1)
      | (Inr k, v1) \<Rightarrow>
          (case fn_decrypt F k token of Some (NotJson s) \<Rightarrow> (Inr s, v1) | _ \<Rightarrow> (Inl Invalid_Token, v1)))"

section \<open>Rotation\<close>

text \<open>\<open>Path.stem\<close> of the names that end in \<open>.enc\<close>, sorted.\<close>

definition stem_enc :: "string \<Rightarrow> string" where
  "stem_enc n = take (length n - 4) n"

definition list_uuids_with_keys :: "int \<Rightarrow> vault \<Rightarrow> string list" where
  "list_uuids_with_keys u v = sort (map stem_enc (filter (suffix ''.enc'') (keys (va_creds v u))))"

text \<open>The read phase: the first blob that does not open ends it.\<close>

fun read_payloads :: "fernet_lib \<Rightarrow> vault_env \<Rightarrow> int \<Rightarrow> string list \<Rightarrow> vault
    \<Rightarrow> (vault_error + (string \<times> api_keys) list) \<times> vault" where
  "read_payloads F E u [] v = (Inr [], v)"
| "read_payloads F E u (cu # cus) v =
     (case get_keys_by_uuid F E cu u v of
        (Inl e, v1) \<Rightarrow> (Inl e, v1)
      | (Inr None, v1) \<Rightarrow> (Inl (Undecryptable cu), v1)
      | (Inr (Some a), v1) \<Rightarrow>
          (case read_payloads F E u cus v1 of
             (Inl e, v2) \<Rightarrow> (Inl e, v2)
           | (Inr ps, v2) \<Rightarrow> (Inr ((cu, a) # ps), v2)))"

definition backup_name :: "vault_env \<Rightarrow> int \<Rightarrow> string" where
  "backup_name E u = key_name u @ ''.bak.'' @ ve_stamp E"

definition key_tmp :: "int \<Rightarrow> string" where
  "key_tmp u = key_name u @ ''.tmp''"

definition lock_name :: "int \<Rightarrow> string" where
  "lock_name u = key_name u @ ''.lock''"

text \<open>The plaintext of a rotated blob is the dictionary \<open>get_keys_by_uuid\<close> returned, all three fields of it.\<close>

definition full_dict :: "api_keys \<Rightarrow> (string \<times> string) list" where
  "full_dict a = [(''api_key'', ak_api_key a), (''api_secret'', ak_api_secret a), (''passphrase'', ak_passphrase a)]"

definition rotate_prepare :: "fernet_lib \<Rightarrow> vault_env \<Rightarrow> int \<Rightarrow> sfile \<Rightarrow> (string \<times> api_keys) list \<Rightarrow> (vault \<Rightarrow> vault) list" where
  "rotate_prepare F E u f ps =
     copy2_key E f (backup_name E u)
     @ concat (map (\<lambda>(cu, a). write_cred E u (blob_tmp cu)
           (fn_encrypt F (ve_new_key E) (ve_nonce E cu) (JObject (full_dict a)))) ps)
     @ write_key E (key_tmp u) (ve_new_key E)"

definition rotate_commit :: "int \<Rightarrow> (string \<times> api_keys) list \<Rightarrow> (vault \<Rightarrow> vault) list" where
  "rotate_commit u ps = move_key (key_tmp u) (key_name u) # map (\<lambda>(cu, a). move_cred u (blob_tmp cu) (blob_name cu)) ps"

text \<open>Backups older than the retention, by modification time; those that resist are kept.\<close>

definition old_backups :: "vault_env \<Rightarrow> int \<Rightarrow> nat \<Rightarrow> vault \<Rightarrow> string list" where
  "old_backups E u days v =
     map fst (filter (\<lambda>(n, f). prefix (key_name u @ ''.bak.'') n \<and> sf_mtime f < ve_now E - of_nat days * 86400 \<and> \<not> ve_stuck E n)
       (va_keys v))"

definition cleanup_old_backups :: "vault_env \<Rightarrow> int \<Rightarrow> nat \<Rightarrow> vault \<Rightarrow> string list \<times> vault" where
  "cleanup_old_backups E u days v = (let ns = old_backups E u days v in (ns, run (map unlink_key ns) v))"

record rotation_report =
  rr_backup :: string
  rr_rotated :: "string list"
  rr_removed :: "string list"

text \<open>The lock file is created before the lock is asked for and removed on every way out, also by a second caller that
  was refused.\<close>

definition rotate_user_key :: "fernet_lib \<Rightarrow> vault_env \<Rightarrow> int \<Rightarrow> nat \<Rightarrow> vault \<Rightarrow> (vault_error + rotation_report) \<times> vault" where
  "rotate_user_key F E u days v =
     (case map_of (va_keys v) (key_name u) of
        None \<Rightarrow> (Inl File_Not_Found, v)
      | Some f \<Rightarrow>
          (let v0 = put_key (lock_name u) \<lparr>sf_bytes = [], sf_mtime = ve_now E\<rparr> v in
           if ve_locked E then (Inl Already_Running, unlink_key (lock_name u) v0)
           else
             (case read_payloads F E u (list_uuids_with_keys u v0) v0 of
                (Inl e, v1) \<Rightarrow> (Inl e, unlink_key (lock_name u) v1)
              | (Inr ps, v1) \<Rightarrow>
                  (let v2 = run (rotate_prepare F E u f ps @ rotate_commit u ps) v1 in
                   (case cleanup_old_backups E u days v2 of
                      (removed, v3) \<Rightarrow>
                        (Inr \<lparr>rr_backup = backup_name E u, rr_rotated = sort (map fst ps), rr_removed = removed\<rparr>,
                         unlink_key (lock_name u) v3))))))"

section \<open>Recovery\<close>

definition restore_backup :: "vault_env \<Rightarrow> string \<Rightarrow> int \<Rightarrow> vault \<Rightarrow> nat \<times> vault" where
  "restore_backup E backup u v =
     (case map_of (va_keys v) backup of
        None \<Rightarrow> (1, v)
      | Some b \<Rightarrow>
          (let v1 = (case map_of (va_keys v) (key_name u) of
                 None \<Rightarrow> v | Some f \<Rightarrow> run (copy2_key E f (key_name u @ ''.pre-restore'')) v) in
           (0, run (copy2_key E b (key_name u)) v1)))"

end
