(* ===== verification/Credential_Rotation.thy ===== *)
theory Credential_Rotation
  imports Credential_Store
begin

text \<open>
  What the encrypted store promises. Saving and reading is a round trip, tenants are apart, and a rotation keeps every
  payload, also when it is cut short at any system call. It does not keep what else was encrypted under the key: the
  seeds of the second factor stay under the old one, and the backup of an old key does not survive the rotation.
\<close>

section \<open>Looking up after a step\<close>

lemma vault_lookup [simp]:
  "map_of (va_keys (put_key n f v)) m = (if m = n then Some f else map_of (va_keys v) m)"
  "map_of (va_creds (put_cred u n f v) w) m = (if w = u \<and> m = n then Some f else map_of (va_creds v w) m)"
  "map_of (va_keys (unlink_key n v)) m = (if m = n then None else map_of (va_keys v) m)"
  "map_of (va_creds (unlink_cred u n v) w) m = (if w = u \<and> m = n then None else map_of (va_creds v w) m)"
  "va_creds (put_key n f v) = va_creds v" "va_keys (put_cred u n f v) = va_keys v"
  "va_creds (unlink_key n v) = va_creds v" "va_keys (unlink_cred u n v) = va_keys v"
  "va_creds (move_key a b v) = va_creds v" "va_keys (move_cred u a b v) = va_keys v"
  by (auto simp: put_key_def put_cred_def unlink_key_def unlink_cred_def move_key_def move_cred_def update_conv' delete_conv')

lemma map_of_move:
  "map_of (move a b d) x =
     (case map_of d a of None \<Rightarrow> map_of d x | Some f \<Rightarrow> if x = a then None else if x = b then Some f else map_of d x)"
  by (simp add: move_def delete_conv' update_conv' split: option.split)

lemma vault_move [simp]:
  "map_of (va_keys (move_key a b v)) x =
     (case map_of (va_keys v) a of None \<Rightarrow> map_of (va_keys v) x
      | Some f \<Rightarrow> if x = a then None else if x = b then Some f else map_of (va_keys v) x)"
  "map_of (va_creds (move_cred u a b v) w) x =
     (if w \<noteq> u then map_of (va_creds v w) x
      else (case map_of (va_creds v u) a of None \<Rightarrow> map_of (va_creds v u) x
        | Some f \<Rightarrow> if x = a then None else if x = b then Some f else map_of (va_creds v u) x))"
  by (simp_all add: move_key_def move_cred_def map_of_move)

lemma run_simps [simp]: "run [] v = v" "run (f # fs) v = run fs (f v)" "run (fs @ gs) v = run gs (run fs v)"
  by (simp_all add: run_def)

lemma steps_keep: "(\<And>f w. f \<in> set fs \<Longrightarrow> P w \<Longrightarrow> P (f w)) \<Longrightarrow> P v \<Longrightarrow> P (run fs v)"
  by (induction fs arbitrary: v) auto

lemma steps_keep_prefix: "(\<And>f w. f \<in> set fs \<Longrightarrow> P w \<Longrightarrow> P (f w)) \<Longrightarrow> P v \<Longrightarrow> P (run (take n fs) v)"
  by (rule steps_keep) (auto dest: in_set_takeD)

section \<open>Names\<close>

lemma blob_name_inj [simp]: "blob_name a = blob_name b \<longleftrightarrow> a = b"
  by (simp add: blob_name_def)

lemma blob_tmp_inj [simp]: "blob_tmp a = blob_tmp b \<longleftrightarrow> a = b"
  by (simp add: blob_tmp_def)

lemma blob_tmp_name [simp]: "blob_tmp a \<noteq> blob_name b" "blob_name b \<noteq> blob_tmp a"
proof -
  have "last (blob_tmp a) \<noteq> last (blob_name b)" by (simp add: blob_tmp_def blob_name_def)
  then show "blob_tmp a \<noteq> blob_name b" "blob_name b \<noteq> blob_tmp a" by auto
qed

lemma key_names [simp]:
  "backup_name E u \<noteq> key_name u" "key_name u \<noteq> backup_name E u" "key_tmp u \<noteq> key_name u" "key_name u \<noteq> key_tmp u"
  "lock_name u \<noteq> key_name u" "key_name u \<noteq> lock_name u" "backup_name E u \<noteq> key_tmp u" "key_tmp u \<noteq> backup_name E u"
  "backup_name E u \<noteq> lock_name u" "lock_name u \<noteq> backup_name E u" "lock_name u \<noteq> key_tmp u" "key_tmp u \<noteq> lock_name u"
  by (auto simp: backup_name_def key_tmp_def lock_name_def)

lemma stem_blob_name [simp]: "stem_enc (blob_name cu) = cu"
  by (simp add: stem_enc_def blob_name_def)

lemma stem_enc_suffix: "suffix ''.enc'' n \<Longrightarrow> blob_name (stem_enc n) = n"
  by (auto simp: stem_enc_def blob_name_def suffix_def)

lemma stem_image: "cu \<in> stem_enc ` {x \<in> A. suffix ''.enc'' x} \<longleftrightarrow> blob_name cu \<in> A"
proof
  assume "cu \<in> stem_enc ` {x \<in> A. suffix ''.enc'' x}"
  then obtain x where x: "x \<in> A" "suffix ''.enc'' x" "cu = stem_enc x" by blast
  then show "blob_name cu \<in> A" using stem_enc_suffix [OF x(2)] by simp
next
  assume "blob_name cu \<in> A"
  moreover have "suffix ''.enc'' (blob_name cu)" by (simp add: blob_name_def suffix_def)
  ultimately have "stem_enc (blob_name cu) \<in> stem_enc ` {x \<in> A. suffix ''.enc'' x}" by (intro imageI) simp
  then show "cu \<in> stem_enc ` {x \<in> A. suffix ''.enc'' x}" by (simp only: stem_blob_name)
qed

lemma list_uuids_iff: "cu \<in> set (list_uuids_with_keys u v) \<longleftrightarrow> map_of (va_creds v u) (blob_name cu) \<noteq> None"
  using stem_image [of cu "set (keys (va_creds v u))"] by (simp add: list_uuids_with_keys_def map_of_eq_None_iff)

section \<open>Reading a blob\<close>

definition holds :: "fernet_lib \<Rightarrow> int \<Rightarrow> string \<Rightarrow> string \<Rightarrow> api_keys \<Rightarrow> vault \<Rightarrow> bool" where
  "holds F u k n a v \<longleftrightarrow> (\<exists>f. map_of (va_creds v u) n = Some f \<and> open_blob F k (sf_bytes f) = Some a)"

definition user_key :: "int \<Rightarrow> string \<Rightarrow> vault \<Rightarrow> bool" where
  "user_key u k v \<longleftrightarrow> (\<exists>f. map_of (va_keys v) (key_name u) = Some f \<and> sf_bytes f = k)"

lemma load_existing: "user_key u k v \<Longrightarrow> load_or_create_user_key E u v = (k, v)"
  by (auto simp: user_key_def load_or_create_user_key_def)

lemma user_fernet_existing: "user_key u k v \<Longrightarrow> user_fernet F E u v = (if fn_valid F k then Inr k else Inl Bad_Key, v)"
  by (simp add: user_fernet_def load_existing)

lemma uuid_creds_path_cases: "uuid_creds_path u cu = (if safe_leaf cu then Inr (Creds_Dir u, cu @ ''.enc'') else Inl ValueError)"
  by (simp add: uuid_creds_path_def validate_safe_leaf_cases)

lemma get_existing_key:
  assumes "user_key u k v"
  shows "get_keys_by_uuid F E cu u v =
    (if \<not> safe_leaf cu then Inl Bad_Name
     else Inr (case map_of (va_creds v u) (blob_name cu) of
         None \<Rightarrow> None | Some f \<Rightarrow> if fn_valid F k then open_blob F k (sf_bytes f) else None), v)"
  by (simp add: get_keys_by_uuid_def uuid_creds_path_cases user_fernet_existing [OF assms] split: option.split)

lemma get_holds:
  assumes "user_key u k v" "fn_valid F k" "safe_leaf cu"
  shows "get_keys_by_uuid F E cu u v = (Inr (Some a), v) \<longleftrightarrow> holds F u k (blob_name cu) a v"
  using assms by (auto simp: get_existing_key holds_def split: option.split)

lemma of_payload [simp]: "of_dict (payload_dict a) = a" "of_dict (full_dict a) = a"
  by (simp_all add: of_dict_def payload_dict_def full_dict_def)

lemma open_encrypted [simp]:
  assumes "fernet_documented F" "fn_valid F k"
  shows "open_blob F k (fn_encrypt F k r (JObject (full_dict a))) = Some a"
    "open_blob F k (fn_encrypt F k r (JObject (payload_dict a))) = Some a"
  using assms by (simp_all add: open_blob_def fernet_opens)

lemma open_sealed:
  assumes "fernet_documented F" "fn_valid F k" "k' \<noteq> k"
  shows "open_blob F k' (fn_encrypt F k r m) = None"
  using assms by (simp add: open_blob_def fernet_seals)

lemma saved_credentials:
  assumes F: "fernet_documented F" and s: "save_keys_by_uuid F E cu a u v = (Inr (), w)"
  shows "get_keys_by_uuid F E' cu u w = (Inr (Some a), w)"
proof -
  obtain k v1 where k: "user_fernet F E u v = (Inr k, v1)" and c: "safe_leaf cu" and w: "w = run (save_steps F E u cu k a) v1"
    using s by (auto simp: save_keys_by_uuid_def uuid_creds_path_cases split: prod.splits sum.splits if_splits)
  have k1: "user_key u k v1" "fn_valid F k"
    using k by (auto simp: user_fernet_def load_or_create_user_key_def user_key_def write_key_def
        split: prod.splits option.splits if_splits)
  have "user_key u k w" using k1(1) by (simp add: w save_steps_def write_cred_def user_key_def)
  moreover have "holds F u k (blob_name cu) a w"
    using F k1(2) by (simp add: w save_steps_def write_cred_def holds_def)
  ultimately show ?thesis using get_holds k1(2) c by blast
qed

text \<open>saving the keys of an account and reading them back gives what was saved, the missing passphrase as the empty
  one; on a first use the key is made on the way.\<close>

theorem saved_keys_are_read_back:
  assumes "fernet_documented F" "save_keys_by_uuid F E cu a u v = (Inr (), w)"
  shows "get_keys_by_uuid F E' cu u w = (Inr (Some a), w)"
  by (rule saved_credentials [OF assms])

section \<open>The read phase of a rotation\<close>

lemma read_payloads_reads:
  assumes "user_key u k v" "fn_valid F k" "read_payloads F E u cus v = (Inr ps, v1)"
  shows "v1 = v \<and> map fst ps = cus \<and> (\<forall>(cu, a) \<in> set ps. safe_leaf cu \<and> holds F u k (blob_name cu) a v)"
  using assms(3)
proof (induction cus arbitrary: ps v1)
  case (Cons cu cus)
  obtain a v2 where a: "get_keys_by_uuid F E cu u v = (Inr (Some a), v2)"
    using Cons.prems by (auto split: prod.splits sum.splits option.splits)
  have v2: "v2 = v" "safe_leaf cu" "holds F u k (blob_name cu) a v"
    using a assms(1,2) by (auto simp: get_existing_key holds_def split: if_splits option.splits)
  obtain qs v3 where q: "read_payloads F E u cus v = (Inr qs, v3)" "ps = (cu, a) # qs" "v1 = v3"
    using Cons.prems by (auto simp: a v2(1) split: prod.splits sum.splits)
  from Cons.IH [OF q(1)] show ?case using q v2 by auto
qed simp

lemma payloads_functional:
  assumes "\<forall>(cu, a) \<in> set ps. safe_leaf cu \<and> holds F u k (blob_name cu) a v" "(cu, a) \<in> set ps" "(cu, b) \<in> set ps"
  shows "a = b"
proof -
  have "holds F u k (blob_name cu) a v" "holds F u k (blob_name cu) b v" using assms by auto
  then show ?thesis by (auto simp: holds_def)
qed

section \<open>The steps of a rotation\<close>

text \<open>Preparing touches only temporary names; committing moves them into place.\<close>

lemma prepare_frame:
  "f \<in> set (rotate_prepare F E u kf ps) \<Longrightarrow> map_of (va_keys (f w)) (key_name u) = map_of (va_keys w) (key_name u)"
  "f \<in> set (rotate_prepare F E u kf ps) \<Longrightarrow> map_of (va_creds (f w) u) (blob_name cu) = map_of (va_creds w u) (blob_name cu)"
  by (auto simp: rotate_prepare_def copy2_key_def write_key_def write_cred_def)

lemma prepare_keeps:
  "map_of (va_keys (run (take n (rotate_prepare F E u kf ps)) w)) (key_name u) = map_of (va_keys w) (key_name u)"
  "map_of (va_creds (run (take n (rotate_prepare F E u kf ps)) w) u) (blob_name cu) = map_of (va_creds w u) (blob_name cu)"
proof -
  let ?P = "\<lambda>x. map_of (va_keys x) (key_name u) = map_of (va_keys w) (key_name u)"
  show "?P (run (take n (rotate_prepare F E u kf ps)) w)"
    by (rule steps_keep_prefix) (simp_all add: prepare_frame)
  let ?Q = "\<lambda>x. map_of (va_creds x u) (blob_name cu) = map_of (va_creds w u) (blob_name cu)"
  show "?Q (run (take n (rotate_prepare F E u kf ps)) w)"
    by (rule steps_keep_prefix) (simp_all add: prepare_frame)
qed

definition sealed :: "fernet_lib \<Rightarrow> vault_env \<Rightarrow> int \<Rightarrow> string \<Rightarrow> string \<Rightarrow> api_keys \<Rightarrow> vault \<Rightarrow> bool" where
  "sealed F E u n cu a v \<longleftrightarrow>
     map_of (va_creds v u) n
       = Some \<lparr>sf_bytes = fn_encrypt F (ve_new_key E) (ve_nonce E cu) (JObject (full_dict a)), sf_mtime = ve_now E\<rparr>"

abbreviation tmp_writes :: "fernet_lib \<Rightarrow> vault_env \<Rightarrow> int \<Rightarrow> (string \<times> api_keys) list \<Rightarrow> (vault \<Rightarrow> vault) list" where
  "tmp_writes F E u ps \<equiv> concat (map (\<lambda>(cu, a). write_cred E u (blob_tmp cu)
     (fn_encrypt F (ve_new_key E) (ve_nonce E cu) (JObject (full_dict a)))) ps)"

lemma tmp_writes_seal:
  assumes "\<And>x. (cu, x) \<in> set ps \<Longrightarrow> x = a" "sealed F E u (blob_tmp cu) cu a v \<or> (cu, a) \<in> set ps"
  shows "sealed F E u (blob_tmp cu) cu a (run (tmp_writes F E u ps) v)"
  using assms
proof (induction ps arbitrary: v)
  case (Cons p ps)
  obtain d b where p: "p = (d, b)" by (cases p)
  have "b = a" if "d = cu" using Cons.prems(1) [of b] that by (simp add: p)
  then have "sealed F E u (blob_tmp cu) cu a (run (write_cred E u (blob_tmp d)
      (fn_encrypt F (ve_new_key E) (ve_nonce E d) (JObject (full_dict b)))) v) \<or> (cu, a) \<in> set ps"
    using Cons.prems(2) by (auto simp: p sealed_def write_cred_def)
  then have "sealed F E u (blob_tmp cu) cu a (run (tmp_writes F E u ps)
      (run (write_cred E u (blob_tmp d) (fn_encrypt F (ve_new_key E) (ve_nonce E d) (JObject (full_dict b)))) v))"
    using Cons.prems(1) by (intro Cons.IH) auto
  then show ?case by (simp add: p)
qed simp

lemma tmp_writes_keys: "va_keys (run (tmp_writes F E u ps) v) = va_keys v"
proof -
  have "f \<in> set (tmp_writes F E u ps) \<Longrightarrow> va_keys (f w) = va_keys w" for f w by (auto simp: write_cred_def)
  then show ?thesis using steps_keep [of "tmp_writes F E u ps" "\<lambda>w. va_keys w = va_keys v" v] by simp
qed

text \<open>What the disk holds once the key file has been replaced: every payload opens under the new key, in place or in its
  temporary file, and where it is not yet in place the old blob is.\<close>

definition committing :: "fernet_lib \<Rightarrow> vault_env \<Rightarrow> int \<Rightarrow> sfile \<Rightarrow> string \<Rightarrow> api_keys \<Rightarrow> vault \<Rightarrow> bool" where
  "committing F E u kf cu a v \<longleftrightarrow>
     user_key u (ve_new_key E) v \<and> map_of (va_keys v) (backup_name E u) = Some kf
     \<and> (sealed F E u (blob_name cu) cu a v \<and> (map_of (va_creds v u) (blob_tmp cu) = None \<or> sealed F E u (blob_tmp cu) cu a v)
        \<or> holds F u (sf_bytes kf) (blob_name cu) a v \<and> sealed F E u (blob_tmp cu) cu a v)"

lemma prepared:
  assumes "\<forall>(cu, a) \<in> set ps. safe_leaf cu \<and> holds F u (sf_bytes kf) (blob_name cu) a v" "(cu, a) \<in> set ps"
    "map_of (va_keys v) (key_name u) = Some kf"
  shows "committing F E u kf cu a (move_key (key_tmp u) (key_name u) (run (rotate_prepare F E u kf ps) v))"
proof -
  let ?P = "rotate_prepare F E u kf ps"
  let ?w = "run ?P v"
  have w: "?w = run (write_key E (key_tmp u) (ve_new_key E)) (run (tmp_writes F E u ps) (run (copy2_key E kf (backup_name E u)) v))"
    by (simp add: rotate_prepare_def)
  have b: "map_of (va_keys ?w) (backup_name E u) = Some kf"
    by (simp add: w write_key_def copy2_key_def tmp_writes_keys)
  have k: "map_of (va_keys ?w) (key_tmp u) = Some \<lparr>sf_bytes = ve_new_key E, sf_mtime = ve_now E\<rparr>"
    by (simp add: w write_key_def)
  have "sealed F E u (blob_tmp cu) cu a (run (tmp_writes F E u ps) (run (copy2_key E kf (backup_name E u)) v))"
    by (rule tmp_writes_seal) (use payloads_functional [OF assms(1)] assms(2) in auto)
  then have t: "sealed F E u (blob_tmp cu) cu a ?w" by (simp add: w write_key_def sealed_def)
  have "holds F u (sf_bytes kf) (blob_name cu) a v" using assms(1,2) by auto
  then have "holds F u (sf_bytes kf) (blob_name cu) a ?w"
    using prepare_keeps(2) [of "length ?P" F E u kf ps v cu] by (simp add: holds_def)
  with b k t show ?thesis by (simp add: committing_def user_key_def holds_def sealed_def)
qed

lemma move_cred_committing:
  assumes "committing F E u kf cu a w"
  shows "committing F E u kf cu a (move_cred u (blob_tmp d) (blob_name d) w)"
  using assms by (cases "d = cu") (auto simp: committing_def user_key_def holds_def sealed_def split: option.split)

lemma move_cred_seals:
  assumes "committing F E u kf cu a w"
  shows "sealed F E u (blob_name cu) cu a (move_cred u (blob_tmp cu) (blob_name cu) w)"
  using assms by (auto simp: committing_def sealed_def split: option.split)

text \<open>A crash after any system call of a rotation.\<close>

lemma crash_states:
  assumes "\<forall>(cu, a) \<in> set ps. safe_leaf cu \<and> holds F u (sf_bytes kf) (blob_name cu) a v" "(cu, a) \<in> set ps"
    "map_of (va_keys v) (key_name u) = Some kf"
    and w: "w = run (take n (rotate_prepare F E u kf ps @ rotate_commit u ps)) v"
  shows "map_of (va_keys w) (key_name u) = Some kf \<and> holds F u (sf_bytes kf) (blob_name cu) a w
    \<or> committing F E u kf cu a w"
proof (cases "n \<le> length (rotate_prepare F E u kf ps)")
  case True
  then have "w = run (take n (rotate_prepare F E u kf ps)) v" by (simp add: w)
  moreover have "holds F u (sf_bytes kf) (blob_name cu) a v" using assms(1,2) by auto
  ultimately show ?thesis
    using prepare_keeps [of n F E u kf ps v] assms(3) by (simp add: holds_def)
next
  case False
  define m where "m = n - length (rotate_prepare F E u kf ps) - 1"
  have n: "n - length (rotate_prepare F E u kf ps) = Suc m" using False by (simp add: m_def)
  have "w = run (take m (map (\<lambda>(cu, a). move_cred u (blob_tmp cu) (blob_name cu)) ps))
      (move_key (key_tmp u) (key_name u) (run (rotate_prepare F E u kf ps) v))"
    using False by (simp add: w n rotate_commit_def)
  moreover have "committing F E u kf cu a (run (take m (map (\<lambda>(cu, a). move_cred u (blob_tmp cu) (blob_name cu)) ps))
      (move_key (key_tmp u) (key_name u) (run (rotate_prepare F E u kf ps) v)))"
    by (rule steps_keep_prefix) (auto simp: move_cred_committing prepared [OF assms(1-3)])
  ultimately show ?thesis by simp
qed

section \<open>A rotation that returns\<close>

lemma moves_seal:
  assumes "committing F E u kf cu a w" "(cu, a) \<in> set ps"
  shows "sealed F E u (blob_name cu) cu a (run (map (\<lambda>(cu, a). move_cred u (blob_tmp cu) (blob_name cu)) ps) w)"
proof -
  let ?mv = "\<lambda>(cu, a). move_cred u (blob_tmp cu) (blob_name cu)"
  let ?done = "\<lambda>x. committing F E u kf cu a x \<and> sealed F E u (blob_name cu) cu a x"
  obtain qs rs where ps: "ps = qs @ (cu, a) # rs" using assms(2) by (auto dest: split_list)
  have "committing F E u kf cu a (run (map ?mv qs) w)"
    by (rule steps_keep) (auto simp: assms(1) move_cred_committing)
  then have "?done (move_cred u (blob_tmp cu) (blob_name cu) (run (map ?mv qs) w))"
    using move_cred_committing move_cred_seals by blast
  then have "?done (run (map ?mv rs) (move_cred u (blob_tmp cu) (blob_name cu) (run (map ?mv qs) w)))"
  proof (rule steps_keep [rotated])
    fix f x assume "f \<in> set (map ?mv rs)" "?done x"
    then obtain d where f: "f = move_cred u (blob_tmp d) (blob_name d)" and x: "?done x" by auto
    show "?done (f x)"
    proof (cases "d = cu")
      case False
      then show ?thesis using x move_cred_committing by (auto simp: f sealed_def split: option.split)
    qed (use x move_cred_committing move_cred_seals f in blast)
  qed
  then show ?thesis by (simp add: ps)
qed

lemma unlisted_untouched:
  assumes "cu \<notin> fst ` set ps"
  shows "map_of (va_creds (run (rotate_prepare F E u kf ps @ rotate_commit u ps) v) u) (blob_name cu) = map_of (va_creds v u) (blob_name cu)"
proof -
  let ?P = "\<lambda>x. map_of (va_creds x u) (blob_name cu) = map_of (va_creds v u) (blob_name cu)"
  have "?P (run (rotate_commit u ps) (run (rotate_prepare F E u kf ps) v))"
  proof (rule steps_keep)
    show "?P (run (rotate_prepare F E u kf ps) v)"
      using prepare_keeps(2) [of "length (rotate_prepare F E u kf ps)" F E u kf ps v cu] by simp
    show "?P (f x)" if "f \<in> set (rotate_commit u ps)" "?P x" for f x
      using that assms by (auto simp: rotate_commit_def image_iff split: option.split)
  qed
  then show ?thesis by simp
qed

lemma keys_rotated:
  "map_of (va_keys (run (rotate_prepare F E u kf ps @ rotate_commit u ps) v)) n =
     (if n = key_tmp u then None
      else if n = key_name u then Some \<lparr>sf_bytes = ve_new_key E, sf_mtime = ve_now E\<rparr>
      else if n = backup_name E u then Some kf else map_of (va_keys v) n)"
proof -
  have moves: "va_keys (run (map (\<lambda>(cu, a). move_cred u (blob_tmp cu) (blob_name cu)) ps) w) = va_keys w" for w
    by (induction ps arbitrary: w) auto
  show ?thesis
    by (simp add: rotate_prepare_def rotate_commit_def moves write_key_def copy2_key_def tmp_writes_keys split: option.split)
qed

lemma unlinks [simp]:
  "map_of (va_keys (run (map unlink_key ns) v)) n = (if n \<in> set ns then None else map_of (va_keys v) n)"
  "va_creds (run (map unlink_key ns) v) = va_creds v"
  by (induction ns arbitrary: v) auto

lemma key_not_backup: "key_name u \<notin> set (old_backups E u days v)"
  by (auto simp: old_backups_def dest: prefix_length_le)

lemma rotation_result:
  assumes "rotate_user_key F E u days v = (Inr r, w)" "map_of (va_keys v) (key_name u) = Some kf" "fn_valid F (sf_bytes kf)"
  obtains ps v0 v2 where "v0 = put_key (lock_name u) \<lparr>sf_bytes = [], sf_mtime = ve_now E\<rparr> v"
    "read_payloads F E u (list_uuids_with_keys u v0) v0 = (Inr ps, v0)" "map fst ps = list_uuids_with_keys u v"
    "\<forall>(cu, a) \<in> set ps. safe_leaf cu \<and> holds F u (sf_bytes kf) (blob_name cu) a v0"
    "v2 = run (rotate_prepare F E u kf ps @ rotate_commit u ps) v0"
    "w = unlink_key (lock_name u) (run (map unlink_key (old_backups E u days v2)) v2)" "rr_backup r = backup_name E u"
proof -
  let ?v0 = "put_key (lock_name u) \<lparr>sf_bytes = [], sf_mtime = ve_now E\<rparr> v"
  obtain ps v1 where r: "read_payloads F E u (list_uuids_with_keys u ?v0) ?v0 = (Inr ps, v1)"
    and w: "w = unlink_key (lock_name u) (snd (cleanup_old_backups E u days (run (rotate_prepare F E u kf ps @ rotate_commit u ps) v1)))"
    "rr_backup r = backup_name E u"
    using assms(1,2) by (auto simp: rotate_user_key_def Let_def split: if_splits prod.splits sum.splits)
  have k: "user_key u (sf_bytes kf) ?v0" using assms(2) by (simp add: user_key_def)
  have l: "list_uuids_with_keys u ?v0 = list_uuids_with_keys u v" by (simp add: list_uuids_with_keys_def)
  show thesis using that [of ?v0 ps] read_payloads_reads [OF k assms(3) r] r w l by (simp add: cleanup_old_backups_def Let_def)
qed

text \<open>C34: a rotation that returns changes nothing the accounts can see: every read gives what it gave before.\<close>

theorem rotation_is_invisible_to_accounts:
  assumes "fernet_documented F" "fn_valid F (sf_bytes kf)" "fn_valid F (ve_new_key E)"
    "map_of (va_keys v) (key_name u) = Some kf" "rotate_user_key F E u days v = (Inr r, w)"
  shows "fst (get_keys_by_uuid F E' cu u w) = fst (get_keys_by_uuid F E' cu u v)"
proof -
  obtain ps v0 v2
    where v0: "v0 = put_key (lock_name u) \<lparr>sf_bytes = [], sf_mtime = ve_now E\<rparr> v"
      and rd: "read_payloads F E u (list_uuids_with_keys u v0) v0 = (Inr ps, v0)"
      and l: "map fst ps = list_uuids_with_keys u v"
      and h: "\<forall>(cu, a) \<in> set ps. safe_leaf cu \<and> holds F u (sf_bytes kf) (blob_name cu) a v0"
      and v2: "v2 = run (rotate_prepare F E u kf ps @ rotate_commit u ps) v0"
      and w: "w = unlink_key (lock_name u) (run (map unlink_key (old_backups E u days v2)) v2)" "rr_backup r = backup_name E u"
    by (rule rotation_result [OF assms(5,4,2)])
  have k0: "map_of (va_keys v0) (key_name u) = Some kf" using assms(4) by (simp add: v0)
  have kv: "user_key u (sf_bytes kf) v" using assms(4) by (simp add: user_key_def)
  have kw: "user_key u (ve_new_key E) w"
    unfolding user_key_def w(1) v2 using key_not_backup by (simp add: keys_rotated del: run_simps(3))
  have cw: "va_creds w = va_creds v2" by (simp add: w(1))
  show ?thesis
  proof (cases "safe_leaf cu \<and> cu \<in> fst ` set ps")
    case True
    then obtain a where a: "(cu, a) \<in> set ps" "safe_leaf cu" by auto
    have "committing F E u kf cu a (move_key (key_tmp u) (key_name u) (run (rotate_prepare F E u kf ps) v0))"
      by (rule prepared [OF h a(1) k0])
    then have "sealed F E u (blob_name cu) cu a w"
      using moves_seal [OF _ a(1)] by (simp add: sealed_def cw v2 rotate_commit_def)
    then have "holds F u (ve_new_key E) (blob_name cu) a w" using assms(1,3) by (simp add: sealed_def holds_def)
    moreover have "holds F u (sf_bytes kf) (blob_name cu) a v" using h a(1) by (auto simp: v0 holds_def)
    ultimately show ?thesis using get_holds [OF kw assms(3) a(2)] get_holds [OF kv assms(2) a(2)] by (metis fst_conv)
  next
    case False
    have "map_of (va_creds v u) (blob_name cu) = None \<and> map_of (va_creds w u) (blob_name cu) = None" if "safe_leaf cu"
    proof -
      have n: "cu \<notin> fst ` set ps" using False that by simp
      then have "cu \<notin> set (list_uuids_with_keys u v)" by (simp flip: l)
      then have "map_of (va_creds v u) (blob_name cu) = None" by (simp add: list_uuids_iff)
      then show ?thesis using unlisted_untouched [OF n, of F E u kf v0] by (simp add: cw v2 v0 del: run_simps(3))
    qed
    then show ?thesis by (auto simp: get_existing_key [OF kw] get_existing_key [OF kv])
  qed
qed

text \<open>Every system call of a rotation that passes its read phase, in order: the lock file, the preparation, the commit, the
  sweep of old backups and the removal of the lock file.\<close>

definition rotation_calls :: "fernet_lib \<Rightarrow> vault_env \<Rightarrow> int \<Rightarrow> nat \<Rightarrow> sfile \<Rightarrow> (string \<times> api_keys) list \<Rightarrow> vault \<Rightarrow> (vault \<Rightarrow> vault) list" where
  "rotation_calls F E u days f ps v =
     (let lock = put_key (lock_name u) \<lparr>sf_bytes = [], sf_mtime = ve_now E\<rparr>; body = rotate_prepare F E u f ps @ rotate_commit u ps in
      lock # body @ map unlink_key (old_backups E u days (run body (lock v))) @ [unlink_key (lock_name u)])"

text \<open>Once the blobs are in place the calls that follow touch neither a blob nor the key file.\<close>

lemma swept_holds:
  assumes "fernet_documented F" "fn_valid F (ve_new_key E)" "safe_leaf cu" "(cu, a) \<in> set ps"
    "\<forall>(cu, a) \<in> set ps. safe_leaf cu \<and> holds F u (sf_bytes kf) (blob_name cu) a v" "map_of (va_keys v) (key_name u) = Some kf"
    and v2: "v2 = run (rotate_prepare F E u kf ps @ rotate_commit u ps) v"
    and w: "w = run (take n (map unlink_key (old_backups E u days v2) @ [unlink_key (lock_name u)])) v2"
  shows "get_keys_by_uuid F E' cu u w = (Inr (Some a), w)"
proof -
  have "committing F E u kf cu a (move_key (key_tmp u) (key_name u) (run (rotate_prepare F E u kf ps) v))"
    by (rule prepared [OF assms(5,4,6)])
  then have sealed: "sealed F E u (blob_name cu) cu a v2"
    using moves_seal [OF _ assms(4)] by (simp add: v2 rotate_commit_def)
  have key: "map_of (va_keys v2) (key_name u) = Some \<lparr>sf_bytes = ve_new_key E, sf_mtime = ve_now E\<rparr>"
    by (simp add: v2 keys_rotated del: run_simps(3))
  have "va_creds w = va_creds v2 \<and> map_of (va_keys w) (key_name u) = map_of (va_keys v2) (key_name u)"
    unfolding w by (rule steps_keep_prefix) (auto simp: key_not_backup)
  then have "user_key u (ve_new_key E) w" "holds F u (ve_new_key E) (blob_name cu) a w"
    using sealed key assms(1,2) by (auto simp: user_key_def sealed_def holds_def)
  then show ?thesis using get_holds assms(2,3) by blast
qed

text \<open>What a cut between two calls of the preparation or the commit leaves.\<close>

lemma cut_holds:
  assumes "fernet_documented F" "fn_valid F (sf_bytes kf)" "fn_valid F (ve_new_key E)" "safe_leaf cu" "(cu, a) \<in> set ps"
    "\<forall>(cu, a) \<in> set ps. safe_leaf cu \<and> holds F u (sf_bytes kf) (blob_name cu) a v" "map_of (va_keys v) (key_name u) = Some kf"
    "w = run (take n (rotate_prepare F E u kf ps @ rotate_commit u ps)) v"
  shows "fst (get_keys_by_uuid F E' cu u w) = Inr (Some a)
    \<or> map_of (va_keys w) (backup_name E u) = Some kf \<and> fst (get_keys_by_uuid F E' cu u (put_key (key_name u) kf w)) = Inr (Some a)"
  using crash_states [OF assms(6,5,7,8)]
proof
  assume "map_of (va_keys w) (key_name u) = Some kf \<and> holds F u (sf_bytes kf) (blob_name cu) a w"
  then have "user_key u (sf_bytes kf) w" "holds F u (sf_bytes kf) (blob_name cu) a w" by (auto simp: user_key_def)
  then show ?thesis using get_holds [OF _ assms(2,4)] by (metis fst_conv)
next
  assume c: "committing F E u kf cu a w"
  have old: "user_key u (sf_bytes kf) (put_key (key_name u) kf w)" by (simp add: user_key_def)
  show ?thesis
  proof (cases "sealed F E u (blob_name cu) cu a w")
    case True
    then have "holds F u (ve_new_key E) (blob_name cu) a w" using assms(1,3) by (simp add: sealed_def holds_def)
    then show ?thesis using c get_holds [OF _ assms(3,4)] unfolding committing_def by (metis fst_conv)
  next
    case False
    then have "holds F u (sf_bytes kf) (blob_name cu) a (put_key (key_name u) kf w)" "map_of (va_keys w) (backup_name E u) = Some kf"
      using c by (auto simp: committing_def holds_def)
    then show ?thesis using get_holds [OF old assms(2,4)] by (metis fst_conv)
  qed
qed

text \<open>C15: the calls listed are those of a rotation that returns, and when it is cut short after any of them, the lock file, the
  sweep and the unlock included, no payload is lost: for each account, either the files as they are or the files with the backup of
  the old key copied over the key file give the keys it had. Which of the two it is can differ between accounts while the
  blobs are being renamed; before and after they are as they should be for all.\<close>

theorem rotation_survives_a_crash:
  assumes "fernet_documented F" "fn_valid F (sf_bytes kf)" "fn_valid F (ve_new_key E)" "\<not> ve_locked E"
    "map_of (va_keys v) (key_name u) = Some kf" "v0 = put_key (lock_name u) \<lparr>sf_bytes = [], sf_mtime = ve_now E\<rparr> v"
    "read_payloads F E u (list_uuids_with_keys u v0) v0 = (Inr ps, v0)" "calls = rotation_calls F E u days kf ps v"
    "(cu, a) \<in> set ps" "w = run (take n calls) v"
  shows "snd (rotate_user_key F E u days v) = run calls v
    \<and> (fst (get_keys_by_uuid F E' cu u w) = Inr (Some a)
      \<or> map_of (va_keys w) (backup_name E u) = Some kf \<and> fst (get_keys_by_uuid F E' cu u (put_key (key_name u) kf w)) = Inr (Some a))
    \<and> (n \<le> Suc (length (rotate_prepare F E u kf ps)) \<or> length (rotate_prepare F E u kf ps) + length (rotate_commit u ps) < n
      \<longrightarrow> fst (get_keys_by_uuid F E' cu u w) = Inr (Some a))"
proof -
  let ?P = "rotate_prepare F E u kf ps" and ?C = "rotate_commit u ps"
  define v2 where "v2 = run (?P @ ?C) v0"
  define tail where "tail = map unlink_key (old_backups E u days v2) @ [unlink_key (lock_name u)]"
  have calls: "calls = put_key (lock_name u) \<lparr>sf_bytes = [], sf_mtime = ve_now E\<rparr> # (?P @ ?C) @ tail"
    by (simp add: assms(6,8) rotation_calls_def v2_def tail_def Let_def del: run_simps(3))
  have key: "map_of (va_keys v0) (key_name u) = Some kf" using assms(5) by (simp add: assms(6))
  then have k: "user_key u (sf_bytes kf) v0" by (simp add: user_key_def)
  have h: "\<forall>(cu, a) \<in> set ps. safe_leaf cu \<and> holds F u (sf_bytes kf) (blob_name cu) a v0"
    using read_payloads_reads [OF k assms(2,7)] by blast
  then have cu: "safe_leaf cu" "holds F u (sf_bytes kf) (blob_name cu) a v0" using assms(9) by auto
  have start: "fst (get_keys_by_uuid F E' cu u v) = Inr (Some a)"
  proof -
    have "user_key u (sf_bytes kf) v" "holds F u (sf_bytes kf) (blob_name cu) a v"
      using assms(5) cu(2) by (simp_all add: user_key_def holds_def assms(6))
    then show ?thesis using get_holds [OF _ assms(2) cu(1)] by (metis fst_conv)
  qed
  have whole: "snd (rotate_user_key F E u days v) = run calls v"
    using assms(4,5,7) by (simp add: rotate_user_key_def cleanup_old_backups_def Let_def calls v2_def tail_def flip: assms(6))
  note ok = cut_holds [OF assms(1-3) cu(1) assms(9) h key]
  consider (none) "n = 0" | (body) m where "n = Suc m" "m \<le> length (?P @ ?C)" | (swept) m where "n = Suc (length (?P @ ?C) + m)"
    by (metis Suc_le_D le_add_diff_inverse nat_le_linear not0_implies_Suc)
  then show ?thesis
  proof cases
    case none
    then show ?thesis using whole start assms(10) by simp
  next
    case body
    then have w: "w = run (take m (?P @ ?C)) v0" by (simp add: assms(6,10) calls)
    have early: "fst (get_keys_by_uuid F E' cu u w) = Inr (Some a)" if "m \<le> length ?P"
    proof -
      have "w = run (take m ?P) v0" using that by (simp add: w)
      then have "user_key u (sf_bytes kf) w" "holds F u (sf_bytes kf) (blob_name cu) a w"
        using prepare_keeps [of m F E u kf ps v0] key cu(2) by (simp_all add: user_key_def holds_def)
      then show ?thesis using get_holds [OF _ assms(2) cu(1)] by (metis fst_conv)
    qed
    have late: "fst (get_keys_by_uuid F E' cu u w) = Inr (Some a)" if "length (?P @ ?C) \<le> m"
      using swept_holds [OF assms(1,3) cu(1) assms(9) h key v2_def, of w 0] that by (simp add: w v2_def)
    show ?thesis using whole ok [OF w] early late body by auto
  next
    case swept
    then have "w = run (take m tail) v2" by (simp add: assms(6,10) calls v2_def)
    then have "fst (get_keys_by_uuid F E' cu u w) = Inr (Some a)"
      using swept_holds [OF assms(1,3) cu(1) assms(9) h key v2_def, of w m] by (simp add: tail_def)
    then show ?thesis using whole by simp
  qed
qed

section \<open>What a rotation does not keep\<close>

lemma backup_removed:
  assumes "map_of (va_keys v2) (backup_name E u) = Some kf" "sf_mtime kf < ve_now E - of_nat days * 86400" "\<not> ve_stuck E (backup_name E u)"
  shows "backup_name E u \<in> set (old_backups E u days v2)"
  using map_of_SomeD [OF assms(1)] assms(2,3) by (force simp: old_backups_def backup_name_def)

text \<open>C16: a rotation of a key older than the retention deletes the backup it has just made, because the copy keeps the
  key's modification time. What was encrypted under the old key and is not an account's blob, the seed of the second factor
  among it, then opens under no file that is left.\<close>

theorem rotation_loses_the_second_factor:
  assumes "fernet_documented F" "fn_valid F (sf_bytes kf)" "ve_new_key E \<noteq> sf_bytes kf"
    "map_of (va_keys v) (key_name u) = Some kf" "\<forall>n f. map_of (va_keys v) n = Some f \<and> sf_bytes f = sf_bytes kf \<longrightarrow> n = key_name u"
    "encrypt_for_user F E0 u seed v = (Inr token, v)" "rotate_user_key F E u days v = (Inr r, w)"
    "sf_mtime kf < ve_now E - of_nat days * 86400" "\<not> ve_stuck E (backup_name E u)"
  shows "map_of (va_keys w) (rr_backup r) = None \<and> (\<forall>n f. map_of (va_keys w) n = Some f \<longrightarrow> fn_decrypt F (sf_bytes f) token = None)"
proof -
  obtain ps v0 v2
    where v0: "v0 = put_key (lock_name u) \<lparr>sf_bytes = [], sf_mtime = ve_now E\<rparr> v"
      and rd: "read_payloads F E u (list_uuids_with_keys u v0) v0 = (Inr ps, v0)"
      and l: "map fst ps = list_uuids_with_keys u v"
      and h: "\<forall>(cu, a) \<in> set ps. safe_leaf cu \<and> holds F u (sf_bytes kf) (blob_name cu) a v0"
      and v2: "v2 = run (rotate_prepare F E u kf ps @ rotate_commit u ps) v0"
      and w: "w = unlink_key (lock_name u) (run (map unlink_key (old_backups E u days v2)) v2)" "rr_backup r = backup_name E u"
    by (rule rotation_result [OF assms(7,4,2)])
  have k2: "map_of (va_keys v2) n = (if n = key_tmp u then None
      else if n = key_name u then Some \<lparr>sf_bytes = ve_new_key E, sf_mtime = ve_now E\<rparr>
      else if n = backup_name E u then Some kf else map_of (va_keys v0) n)" for n
    unfolding v2 by (rule keys_rotated)
  have b: "backup_name E u \<in> set (old_backups E u days v2)"
    by (rule backup_removed [OF _ assms(8,9)]) (simp add: k2)
  have t: "token = fn_encrypt F (sf_bytes kf) (ve_nonce E0 seed) (NotJson seed)"
    using assms(6) user_fernet_existing [of u "sf_bytes kf" v F E0] assms(2,4) by (auto simp: encrypt_for_user_def user_key_def)
  have ne: "sf_bytes f \<noteq> sf_bytes kf" if f: "map_of (va_keys w) n = Some f" for n f
  proof -
    have "n \<noteq> lock_name u" "n \<noteq> backup_name E u" "map_of (va_keys v2) n = Some f"
      using f b by (auto simp: w(1) split: if_splits)
    then consider "n = key_name u" "sf_bytes f = ve_new_key E" | "n \<noteq> key_name u" "map_of (va_keys v) n = Some f"
      by (auto simp: k2 v0 split: if_splits)
    then show ?thesis using assms(3,5) by cases metis+
  qed
  have "fn_decrypt F (sf_bytes f) token = None" if f: "map_of (va_keys w) n = Some f" for n f
    unfolding t by (rule fernet_seals [OF assms(1,2) ne [OF f]])
  moreover have "map_of (va_keys w) (backup_name E u) = None" using b by (simp add: w(1))
  ultimately show ?thesis using w(2) by auto
qed

text \<open>a crash between two of the renames leaves two accounts under two keys: no single key file opens both, so
  restoring the backup costs the accounts already renamed.\<close>

theorem partial_commit_splits_the_keys:
  assumes "fernet_documented F" "fn_valid F (sf_bytes kf)" "fn_valid F (ve_new_key E)" "ve_new_key E \<noteq> sf_bytes kf"
    "map_of (va_keys v) (key_name u) = Some kf" "\<exists>r. map_of (va_creds v u) (blob_name c2) = Some r \<and> (\<exists>i m. sf_bytes r = fn_encrypt F (sf_bytes kf) i m)"
    "ps = (c1, a1) # (c2, a2) # qs" "read_payloads F E u (list_uuids_with_keys u v) v = (Inr ps, v)" "c1 \<noteq> c2"
    "w = run (take (length (rotate_prepare F E u kf ps) + 2) (rotate_prepare F E u kf ps @ rotate_commit u ps)) v"
  shows "\<not> (\<exists>k. fst (get_keys_by_uuid F E' c1 u (put_key (key_name u) k w)) = Inr (Some a1)
      \<and> fst (get_keys_by_uuid F E' c2 u (put_key (key_name u) k w)) = Inr (Some a2))"
proof
  assume "\<exists>k. fst (get_keys_by_uuid F E' c1 u (put_key (key_name u) k w)) = Inr (Some a1)
      \<and> fst (get_keys_by_uuid F E' c2 u (put_key (key_name u) k w)) = Inr (Some a2)"
  then obtain k where g: "fst (get_keys_by_uuid F E' c1 u (put_key (key_name u) k w)) = Inr (Some a1)"
      "fst (get_keys_by_uuid F E' c2 u (put_key (key_name u) k w)) = Inr (Some a2)" by blast
  have kv: "user_key u (sf_bytes kf) v" using assms(5) by (simp add: user_key_def)
  have h: "\<forall>(cu, a) \<in> set ps. safe_leaf cu \<and> holds F u (sf_bytes kf) (blob_name cu) a v"
    using read_payloads_reads [OF kv assms(2,8)] by blast
  have w: "w = move_cred u (blob_tmp c1) (blob_name c1) (move_key (key_tmp u) (key_name u) (run (rotate_prepare F E u kf ps) v))"
    using assms(7) by (simp add: assms(10) rotate_commit_def)
  have c1: "(c1, a1) \<in> set ps" using assms(7) by simp
  have s1: "sealed F E u (blob_name c1) c1 a1 w"
    unfolding w by (rule move_cred_seals [OF prepared [OF h c1 assms(5)]])
  have "map_of (va_creds w u) (blob_name c2) = map_of (va_creds v u) (blob_name c2)"
    using prepare_keeps(2) [of "length (rotate_prepare F E u kf ps)" F E u kf ps v c2] assms(9)
    by (simp add: w split: option.split)
  then obtain r i m where r: "map_of (va_creds w u) (blob_name c2) = Some r" "sf_bytes r = fn_encrypt F (sf_bytes kf) i m"
    using assms(6) by auto
  have uk: "user_key u (sf_bytes k) (put_key (key_name u) k w)" by (simp add: user_key_def)
  have "sf_bytes k = ve_new_key E"
    using g(1) s1 open_sealed [OF assms(1,3)] by (fastforce simp: get_existing_key [OF uk] sealed_def split: if_splits option.splits)
  moreover have "sf_bytes k = sf_bytes kf"
    using g(2) r open_sealed [OF assms(1,2)] by (fastforce simp: get_existing_key [OF uk] split: if_splits option.splits)
  ultimately show False using assms(4) by simp
qed

text \<open>one blob in the directory that does not open stops every rotation, whether or not an account names it.\<close>

theorem orphan_blob_stops_rotation:
  assumes "map_of (va_keys v) (key_name u) = Some kf" "fn_valid F (sf_bytes kf)"
    "map_of (va_creds v u) (blob_name cu) = Some b" "open_blob F (sf_bytes kf) (sf_bytes b) = None"
  shows "\<exists>e. fst (rotate_user_key F E u days v) = Inl e"
proof (rule ccontr)
  assume "\<not> ?thesis"
  then obtain r w where "rotate_user_key F E u days v = (Inr r, w)"
    by (metis prod.collapse sum.exhaust)
  then obtain ps v0 where "map fst ps = list_uuids_with_keys u v"
      "v0 = put_key (lock_name u) \<lparr>sf_bytes = [], sf_mtime = ve_now E\<rparr> v"
      "\<forall>(cu, a) \<in> set ps. safe_leaf cu \<and> holds F u (sf_bytes kf) (blob_name cu) a v0"
    using rotation_result [OF _ assms(1,2)] by (smt (verit))
  moreover have "cu \<in> set (list_uuids_with_keys u v)" using assms(3) by (simp add: list_uuids_iff)
  then have "cu \<in> set (map fst ps)" using \<open>map fst ps = _\<close> by simp
  then obtain a where "(cu, a) \<in> set ps" by auto
  ultimately have "holds F u (sf_bytes kf) (blob_name cu) a v0" by fast
  then show False using assms(3,4) \<open>v0 = _\<close> by (auto simp: holds_def)
qed

section \<open>Tenants\<close>

datatype vault_call =
    Save_Keys string api_keys | Get_Keys string | Delete_Keys string | Encrypt_Text string | Decrypt_Text string | Rotate_Key nat

definition vault_op :: "fernet_lib \<Rightarrow> int \<Rightarrow> vault_env \<times> vault_call \<Rightarrow> vault \<Rightarrow> vault" where
  "vault_op F u call v =
     (case call of (E, c) \<Rightarrow>
        (case c of
           Save_Keys cu a \<Rightarrow> snd (save_keys_by_uuid F E cu a u v)
         | Get_Keys cu \<Rightarrow> snd (get_keys_by_uuid F E cu u v)
         | Delete_Keys cu \<Rightarrow> snd (delete_keys_by_uuid E cu u v)
         | Encrypt_Text s \<Rightarrow> snd (encrypt_for_user F E u s v)
         | Decrypt_Text s \<Rightarrow> snd (decrypt_for_user F E u s v)
         | Rotate_Key days \<Rightarrow> snd (rotate_user_key F E u days v)))"

text \<open>What a tenant has: the files that start with the name of the key, and a directory of blobs.\<close>

definition tenant_view :: "int \<Rightarrow> vault \<Rightarrow> (string \<Rightarrow> sfile option) \<times> (string \<Rightarrow> sfile option)" where
  "tenant_view u v = ((\<lambda>n. if prefix (key_name u) n then map_of (va_keys v) n else None), map_of (va_creds v u))"

lemma key_name_text: "key_name u = show_int u @ ''.key''"
  by (simp add: key_name_def user_fernet_key_path_def)

lemma show_int_no_dot: "CHR ''.'' \<notin> set (show_int i)"
proof -
  have "\<not> is_digit (CHR ''.'')" by code_simp
  then have "CHR ''.'' \<notin> set (dec n)" for n using dec_digits [of n] by (auto simp: list_all_iff)
  then show ?thesis by (auto simp: show_int_def)
qed

lemma dotted_prefix:
  assumes "prefix (a @ CHR ''.'' # x) n" "prefix (b @ CHR ''.'' # y) n" "CHR ''.'' \<notin> set a" "CHR ''.'' \<notin> set b"
  shows "a = b"
proof -
  have tw: "takeWhile (\<lambda>c. c \<noteq> CHR ''.'') (z @ CHR ''.'' # zs) = z" if "CHR ''.'' \<notin> set z" for z zs
    using that by (induction z) auto
  obtain p q where "n = (a @ CHR ''.'' # x) @ p" "n = (b @ CHR ''.'' # y) @ q" using assms(1,2) unfolding prefix_def by blast
  then have "n = a @ CHR ''.'' # x @ p" "n = b @ CHR ''.'' # y @ q" by simp_all
  then show ?thesis using tw [OF assms(3)] tw [OF assms(4)] by metis
qed

lemma key_files_apart: "prefix (key_name u) n \<Longrightarrow> prefix (key_name w) n \<Longrightarrow> u = w"
  using dotted_prefix [of "show_int u" "''key''" n "show_int w" "''key''"] show_int_no_dot show_int_inj
  by (simp add: key_name_text)

lemma own_key_names [simp]:
  "prefix (key_name u) (key_name u)" "prefix (key_name u) (backup_name E u)" "prefix (key_name u) (key_tmp u)"
  "prefix (key_name u) (lock_name u)"
  by (simp_all add: backup_name_def key_tmp_def lock_name_def)

lemma view_steps:
  assumes "u \<noteq> w"
  shows "prefix (key_name u) n \<Longrightarrow> tenant_view w (put_key n f v) = tenant_view w v"
    "prefix (key_name u) n \<Longrightarrow> tenant_view w (unlink_key n v) = tenant_view w v"
    "prefix (key_name u) n \<Longrightarrow> prefix (key_name u) m \<Longrightarrow> tenant_view w (move_key n m v) = tenant_view w v"
    "tenant_view w (put_cred u n f v) = tenant_view w v"
    "tenant_view w (unlink_cred u n v) = tenant_view w v"
    "tenant_view w (move_cred u n m v) = tenant_view w v"
  using key_files_apart [of u _ w] assms
  by (auto simp: tenant_view_def fun_eq_iff split: option.split)

lemma view_run: "(\<And>f x. f \<in> set fs \<Longrightarrow> tenant_view w (f x) = tenant_view w x) \<Longrightarrow> tenant_view w (run fs v) = tenant_view w v"
  by (induction fs arbitrary: v) auto

lemma view_fernet: "u \<noteq> w \<Longrightarrow> tenant_view w (snd (user_fernet F E u v)) = tenant_view w v"
  by (simp add: user_fernet_def load_or_create_user_key_def write_key_def view_steps split: option.split)

lemma view_get: "u \<noteq> w \<Longrightarrow> tenant_view w (snd (get_keys_by_uuid F E cu u v)) = tenant_view w v"
  using view_fernet [of u w F E v]
  by (auto simp: get_keys_by_uuid_def split: sum.split option.split prod.split)

lemma view_read: "u \<noteq> w \<Longrightarrow> tenant_view w (snd (read_payloads F E u cus v)) = tenant_view w v"
proof (induction cus arbitrary: v)
  case (Cons cu cus)
  obtain g v1 where g: "get_keys_by_uuid F E cu u v = (g, v1)" by (cases "get_keys_by_uuid F E cu u v")
  obtain p v2 where p: "read_payloads F E u cus v1 = (p, v2)" by (cases "read_payloads F E u cus v1")
  show ?case using Cons.IH [of v1] view_get [OF Cons.prems, of F E cu v] Cons.prems
    by (auto simp: g p split: sum.split option.split)
qed simp

lemma view_rotate_steps:
  assumes "u \<noteq> w" "f \<in> set (rotate_prepare F E u kf ps) \<or> f \<in> set (rotate_commit u ps) \<or> f \<in> set (map unlink_key (old_backups E u days x))"
  shows "tenant_view w (f v) = tenant_view w v"
proof -
  have "prefix (key_name u) n" if "n \<in> set (old_backups E u days x)" for n
    using that append_prefixD by (auto simp: old_backups_def)
  then show ?thesis
    using assms by (auto simp: rotate_prepare_def rotate_commit_def copy2_key_def write_key_def write_cred_def view_steps)
qed

lemma view_rotate:
  assumes "u \<noteq> w"
  shows "tenant_view w (snd (rotate_user_key F E u days v)) = tenant_view w v"
proof (cases "map_of (va_keys v) (key_name u)")
  case (Some kf)
  let ?v0 = "put_key (lock_name u) \<lparr>sf_bytes = [], sf_mtime = ve_now E\<rparr> v"
  obtain p v1 where p: "read_payloads F E u (list_uuids_with_keys u ?v0) ?v0 = (p, v1)"
    by (cases "read_payloads F E u (list_uuids_with_keys u ?v0) ?v0")
  have v1: "tenant_view w v1 = tenant_view w v"
    using view_read [OF assms, of F E "list_uuids_with_keys u ?v0" ?v0] view_steps [OF assms] by (simp add: p)
  show ?thesis
  proof (cases p)
    case (Inr ps)
    let ?v2 = "run (rotate_prepare F E u kf ps @ rotate_commit u ps) v1"
    have v2: "tenant_view w ?v2 = tenant_view w v1" by (rule view_run, rule view_rotate_steps [OF assms]) auto
    have "tenant_view w (run (map unlink_key (old_backups E u days ?v2)) ?v2) = tenant_view w ?v2"
      by (rule view_run) (use view_rotate_steps [OF assms] in blast)
    then show ?thesis
      using v1 v2 view_steps [OF assms] by (simp add: rotate_user_key_def Some Let_def p Inr cleanup_old_backups_def)
  qed (use v1 view_steps [OF assms] in \<open>simp add: rotate_user_key_def Some Let_def p\<close>)
qed (simp add: rotate_user_key_def)

interpretation vault_tenants: tenant_store "vault_op F" tenant_view
proof
  fix u w :: int and a :: "vault_env \<times> vault_call" and v :: vault assume n: "u \<noteq> w"
  obtain E c where a: "a = (E, c)" by (cases a)
  have "tenant_view w (snd (save_keys_by_uuid F E cu x u v)) = tenant_view w v" for cu x
  proof -
    have "tenant_view w (run (save_steps F E u cu k x) y) = tenant_view w y" for k y
      by (rule view_run) (auto simp: save_steps_def write_cred_def view_steps [OF n])
    then show ?thesis using view_fernet [OF n, of F E v]
      by (auto simp: save_keys_by_uuid_def split: prod.split sum.split)
  qed
  moreover have "tenant_view w (snd (delete_keys_by_uuid E cu u v)) = tenant_view w v" for cu
    by (simp add: delete_keys_by_uuid_def view_steps [OF n] split: sum.split)
  moreover have "tenant_view w (snd (encrypt_for_user F E u s v)) = tenant_view w v"
      "tenant_view w (snd (decrypt_for_user F E u s v)) = tenant_view w v" for s
    using view_fernet [OF n, of F E v]
    by (auto simp: encrypt_for_user_def decrypt_for_user_def split: prod.split sum.split option.split plain.split)
  ultimately show "tenant_view w (vault_op F u a v) = tenant_view w v"
    by (auto simp: vault_op_def a view_get [OF n] view_rotate [OF n] split: vault_call.split)
qed

text \<open>whatever the other tenants save, read, delete, encrypt or rotate, what a user reads stays the same.\<close>

theorem vault_tenants_are_apart:
  assumes "\<forall>(w, a) \<in> set calls. w \<noteq> u"
  shows "fst (get_keys_by_uuid F E cu u (fold (\<lambda>(w, a). vault_op F w a) calls v)) = fst (get_keys_by_uuid F E cu u v)"
proof -
  let ?v = "fold (\<lambda>(w, a). vault_op F w a) calls v"
  have t: "tenant_view u ?v = tenant_view u v" by (rule vault_tenants.run_isolated [OF assms])
  then have "map_of (va_creds ?v u) = map_of (va_creds v u)"
    "(\<lambda>n. if prefix (key_name u) n then map_of (va_keys ?v) n else None) = (\<lambda>n. if prefix (key_name u) n then map_of (va_keys v) n else None)"
    by (simp_all add: tenant_view_def)
  then have "map_of (va_creds ?v u) = map_of (va_creds v u)" "map_of (va_keys ?v) (key_name u) = map_of (va_keys v) (key_name u)"
    using fun_cong [of _ _ "key_name u"] by fastforce+
  then show ?thesis
    by (simp add: get_keys_by_uuid_def user_fernet_def load_or_create_user_key_def split: sum.split option.split)
qed

text \<open>a blob moved into the directory of another tenant, whose key is another one, reads as no credentials.\<close>

theorem foreign_blob_is_unreadable:
  assumes "fernet_documented F" "save_keys_by_uuid F E cu a u v = (Inr (), w)" "map_of (va_creds w u) (blob_name cu) = Some b"
    "map_of (va_keys w) (key_name u) = Some ku" "map_of (va_keys w) (key_name o') = Some ko" "sf_bytes ko \<noteq> sf_bytes ku"
  shows "fst (get_keys_by_uuid F E' cu o' (put_cred o' (blob_name cu) b w)) = Inr None"
proof -
  obtain k v1 where k: "user_fernet F E u v = (Inr k, v1)" and c: "safe_leaf cu" and w: "w = run (save_steps F E u cu k a) v1"
    using assms(2) by (auto simp: save_keys_by_uuid_def uuid_creds_path_cases split: prod.splits sum.splits if_splits)
  have "user_key u k v1" "fn_valid F k"
    using k by (auto simp: user_fernet_def load_or_create_user_key_def user_key_def write_key_def
        split: prod.splits option.splits if_splits)
  then have kk: "sf_bytes ku = k" "fn_valid F k" using assms(4) by (auto simp: user_key_def w save_steps_def write_cred_def)
  have b: "sf_bytes b = fn_encrypt F k (ve_nonce E cu) (JObject (payload_dict a))"
    using assms(3) by (auto simp: w save_steps_def write_cred_def)
  have uk: "user_key o' (sf_bytes ko) (put_cred o' (blob_name cu) b w)" using assms(5) by (simp add: user_key_def)
  show ?thesis using open_sealed [OF assms(1) kk(2)] assms(6) c by (simp add: get_existing_key [OF uk] b kk(1))
qed

end
