(* ===== verification/Rotation_Lock.thy ===== *)
theory Rotation_Lock
  imports Credential_Store
begin

text \<open>
  The lock around a rotation (\<open>_rotation_lock\<close> in \<open>core/credentials.py\<close>) between processes. A lock belongs to the inode
  a process has open, not to the name: whoever leaves the block, a refused caller included, unlinks the name, and the next
  one to open it makes a new inode. Each step is one system call of one process.
\<close>

datatype lock_pc = Outside | Opened nat | Holding nat | Leaving

record lock_world =
  lw_file :: "nat option"
  lw_next :: nat
  lw_pc :: "nat \<Rightarrow> lock_pc"

definition held :: "nat \<Rightarrow> lock_world \<Rightarrow> bool" where
  "held i s \<longleftrightarrow> (\<exists>p. lw_pc s p = Holding i)"

text \<open>A step of process \<open>p\<close>.\<close>

inductive lstep :: "nat \<Rightarrow> lock_world \<Rightarrow> lock_world \<Rightarrow> bool" where
  open_existing: "lw_pc s p = Outside \<Longrightarrow> lw_file s = Some i \<Longrightarrow> lstep p s (s\<lparr>lw_pc := (lw_pc s)(p := Opened i)\<rparr>)"
| open_new: "lw_pc s p = Outside \<Longrightarrow> lw_file s = None \<Longrightarrow>
    lstep p s (s\<lparr>lw_file := Some (lw_next s), lw_next := Suc (lw_next s), lw_pc := (lw_pc s)(p := Opened (lw_next s))\<rparr>)"
| flock_granted: "lw_pc s p = Opened i \<Longrightarrow> \<not> held i s \<Longrightarrow> lstep p s (s\<lparr>lw_pc := (lw_pc s)(p := Holding i)\<rparr>)"
| flock_refused: "lw_pc s p = Opened i \<Longrightarrow> held i s \<Longrightarrow> lstep p s (s\<lparr>lw_pc := (lw_pc s)(p := Leaving)\<rparr>)"
| unlock: "lw_pc s p = Holding i \<Longrightarrow> lstep p s (s\<lparr>lw_pc := (lw_pc s)(p := Leaving)\<rparr>)"
| unlink: "lw_pc s p = Leaving \<Longrightarrow> lstep p s (s\<lparr>lw_file := None, lw_pc := (lw_pc s)(p := Outside)\<rparr>)"

inductive_cases lstep_cases: "lstep p s t"

definition no_lock :: lock_world where
  "no_lock = \<lparr>lw_file = None, lw_next = 0, lw_pc = (\<lambda>_. Outside)\<rparr>"

text \<open>The steps of a group of processes.\<close>

definition steps_of :: "nat set \<Rightarrow> lock_world \<Rightarrow> lock_world \<Rightarrow> bool" where
  "steps_of A s t \<longleftrightarrow> (\<exists>p \<in> A. lstep p s t)"

text \<open>What \<open>flock\<close> does guarantee: one holder for each inode.\<close>

definition one_holder_per_inode :: "lock_world \<Rightarrow> bool" where
  "one_holder_per_inode s \<longleftrightarrow> (\<forall>p q i. lw_pc s p = Holding i \<and> lw_pc s q = Holding i \<longrightarrow> p = q)"

lemma one_holder_step: "lstep p s t \<Longrightarrow> one_holder_per_inode s \<Longrightarrow> one_holder_per_inode t"
  by (erule lstep.cases; auto simp: one_holder_per_inode_def held_def split: if_splits)

interpretation rotation_lock: step_invariant "steps_of A" one_holder_per_inode for A :: "nat set"
  by unfold_locales (auto simp: steps_of_def dest: one_holder_step)

text \<open>With nobody leaving, the name stays, and all rotations are excluded: an inode that is held and is still the one the
  name leads to lets nobody else in.\<close>

inductive stays :: "lock_world \<Rightarrow> lock_world \<Rightarrow> bool" where
  "lstep p s t \<Longrightarrow> lw_file t = lw_file s \<or> lw_file s = None \<Longrightarrow> lw_file t \<noteq> None \<Longrightarrow> stays s t"

definition one_name :: "lock_world \<Rightarrow> bool" where
  "one_name s \<longleftrightarrow> (\<forall>p i. lw_pc s p = Holding i \<longrightarrow> lw_file s = Some i) \<and> (\<forall>p i. lw_pc s p = Opened i \<longrightarrow> lw_file s = Some i)
     \<and> one_holder_per_inode s"

lemma one_name_step:
  assumes "lstep r s t" "lw_file t = lw_file s \<or> lw_file s = None" "lw_file t \<noteq> None" "one_name s"
  shows "one_name t"
proof -
  have h: "lw_pc s p = Holding i \<Longrightarrow> lw_file s = Some i" and op: "lw_pc s p = Opened i \<Longrightarrow> lw_file s = Some i" for p i
    using assms(4) by (simp_all add: one_name_def)
  have u: "one_holder_per_inode t"
    using one_holder_step [OF assms(1)] assms(4) by (simp add: one_name_def)
  have "lw_file t = Some i" if "lw_pc t p = Holding i" for p i
    using assms(1,2,3) that by cases (auto dest: h op split: if_splits)
  moreover have "lw_file t = Some i" if "lw_pc t p = Opened i" for p i
    using assms(1,2,3) that by cases (auto dest: h op split: if_splits)
  ultimately show ?thesis using u by (simp add: one_name_def)
qed

interpretation undisturbed_lock: step_invariant stays one_name
  by unfold_locales (erule stays.cases, simp add: one_name_step)

lemma undisturbed_rotations_exclude:
  assumes "stays\<^sup>*\<^sup>* no_lock s" "lw_pc s p = Holding i" "lw_pc s q = Holding j"
  shows "p = q"
proof -
  have "one_name s"
    by (rule undisturbed_lock.run_keeps [OF assms(1)]) (simp add: one_name_def one_holder_per_inode_def no_lock_def)
  then show ?thesis using assms(2,3) unfolding one_name_def one_holder_per_inode_def by (metis option.inject)
qed

text \<open>C36: while process 0 holds the lock and takes no step, the calls of process 1 alone, which is refused, remove the lock file,
  after which process 2 alone gets a lock of its own: two rotations run at once.\<close>

theorem refused_rotation_breaks_the_lock:
  "\<exists>s0 s1 s2. (steps_of {0})\<^sup>*\<^sup>* no_lock s0 \<and> lw_pc s0 0 = Holding 0
    \<and> (steps_of {1})\<^sup>*\<^sup>* s0 s1 \<and> lw_file s1 = None \<and> lw_pc s1 1 = Outside
    \<and> (steps_of {2})\<^sup>*\<^sup>* s1 s2 \<and> lw_pc s2 0 = Holding 0 \<and> lw_pc s2 2 = Holding 1"
proof -
  define w where "w f n pc = \<lparr>lw_file = f, lw_next = n, lw_pc = pc\<rparr>" for f n pc
  note d = w_def no_lock_def held_def steps_of_def
  let ?p0 = "\<lambda>_ :: nat. Outside"
  let ?s0 = "w (Some 0) 1 (?p0(0 := Holding 0))"
  let ?s1 = "w None 1 (?p0(0 := Holding 0, 1 := Outside))"
  let ?s2 = "w (Some 1) 2 (?p0(0 := Holding 0, 1 := Outside, 2 := Holding 1))"
  have "steps_of {0} no_lock (w (Some 0) 1 (?p0(0 := Opened 0)))"
    using open_new [of no_lock 0] by (simp add: d)
  moreover have "steps_of {0} (w (Some 0) 1 (?p0(0 := Opened 0))) ?s0"
    using flock_granted [of "w (Some 0) 1 (?p0(0 := Opened 0))" 0 0] by (simp add: d)
  ultimately have r0: "(steps_of {0})\<^sup>*\<^sup>* no_lock ?s0" by (meson converse_rtranclp_into_rtranclp rtranclp.rtrancl_refl)
  have "steps_of {1} ?s0 (w (Some 0) 1 (?p0(0 := Holding 0, 1 := Opened 0)))"
    using open_existing [of ?s0 1 0] by (simp add: d)
  moreover have "steps_of {1} (w (Some 0) 1 (?p0(0 := Holding 0, 1 := Opened 0))) (w (Some 0) 1 (?p0(0 := Holding 0, 1 := Leaving)))"
    using flock_refused [of "w (Some 0) 1 (?p0(0 := Holding 0, 1 := Opened 0))" 1 0] by (auto simp: d intro!: exI [of _ "0 :: nat"])
  moreover have "steps_of {1} (w (Some 0) 1 (?p0(0 := Holding 0, 1 := Leaving))) ?s1"
    using lstep.unlink [of "w (Some 0) 1 (?p0(0 := Holding 0, 1 := Leaving))" 1] by (simp add: d)
  ultimately have r1: "(steps_of {1})\<^sup>*\<^sup>* ?s0 ?s1" by (meson converse_rtranclp_into_rtranclp rtranclp.rtrancl_refl)
  have "steps_of {2} ?s1 (w (Some 1) 2 (?p0(0 := Holding 0, 1 := Outside, 2 := Opened 1)))"
    using open_new [of ?s1 2] by (simp add: d numeral_2_eq_2)
  moreover have "steps_of {2} (w (Some 1) 2 (?p0(0 := Holding 0, 1 := Outside, 2 := Opened 1))) ?s2"
    using flock_granted [of "w (Some 1) 2 (?p0(0 := Holding 0, 1 := Outside, 2 := Opened 1))" 2 1] by (simp add: d)
  ultimately have r2: "(steps_of {2})\<^sup>*\<^sup>* ?s1 ?s2" by (meson converse_rtranclp_into_rtranclp rtranclp.rtrancl_refl)
  show ?thesis
    by (intro exI [of _ ?s0] exI [of _ ?s1] exI [of _ ?s2]) (use r0 r1 r2 in \<open>simp add: w_def\<close>)
qed

end
