(* ===== verification/User_Store.thy ===== *)
theory User_Store
  imports Decimal_Text
begin

text \<open>
  The \<open>users\<close> table as the portal reads and writes it (\<open>core/user.py\<close>, \<open>core/user_store.py\<close>) and the
  shape check of a one-time code (\<open>core/totp.py\<close>).  bcrypt, pyotp and the credential provider are
  parameters; the wall clock is an argument.  The failed-login counter and the in-memory counter of the login
  route promise the same thing, stated once as the locale \<open>throttle\<close>.
\<close>

section \<open>Rows and users\<close>

text \<open>A stored ISO time: absent, not readable as a time, or an instant (without an offset it is read as UTC).\<close>

datatype stamp = No_Stamp | Bad_Stamp | Stamp real

fun parse_iso_dt :: "stamp \<Rightarrow> real option" where
  "parse_iso_dt (Stamp t) = Some t"
| "parse_iso_dt _ = None"

record user_row =
  usr_name :: string
  usr_active :: bool
  usr_role :: string
  usr_epoch :: int
  usr_hash :: "string option"
  usr_seed :: "string option"
  usr_fails :: int
  usr_last_fail :: stamp

type_synonym users = "(int \<times> user_row) list"

record user =
  user_id :: int
  user_name :: string
  user_active :: bool
  user_role :: string
  user_epoch :: int
  user_seed :: "string option"

definition totp_enabled :: "user \<Rightarrow> bool" where
  "totp_enabled u = (user_seed u \<noteq> None)"

definition row_to_user :: "int \<Rightarrow> user_row \<Rightarrow> user" where
  "row_to_user i r = \<lparr>user_id = i, user_name = usr_name r, user_active = usr_active r, user_role = usr_role r,
     user_epoch = usr_epoch r, user_seed = usr_seed r\<rparr>"

definition get_user_by_id :: "users \<Rightarrow> int \<Rightarrow> user option" where
  "get_user_by_id us i = map_option (row_to_user i) (map_of us i)"

definition get_user_by_username :: "users \<Rightarrow> string \<Rightarrow> user option" where
  "get_user_by_username us n = map_option (\<lambda>(i, r). row_to_user i r) (find (\<lambda>(i, r). usr_name r = n) us)"

definition get_active_user_ids :: "users \<Rightarrow> int list" where
  "get_active_user_ids us = map fst (filter (\<lambda>(i, r). usr_active r) us)"

definition get_admin_user_ids :: "users \<Rightarrow> int list" where
  "get_admin_user_ids us = map fst (filter (\<lambda>(i, r). usr_active r \<and> usr_role r = ''admin'') us)"

text \<open>The constraints of the table: a positive primary key and a unique name; epochs only count up from zero.\<close>

definition users_wf :: "users \<Rightarrow> bool" where
  "users_wf us = (distinct (keys us) \<and> distinct (map usr_name (vals us))
     \<and> list_all (\<lambda>(i, r). 0 < i \<and> 0 \<le> usr_epoch r \<and> 0 \<le> usr_fails r) us)"

section \<open>User names\<close>

definition username_char :: "char \<Rightarrow> bool" where
  "username_char c = (c \<in> set ''ABCDEFGHIJKLMNOPQRSTUVWXYZabcdefghijklmnopqrstuvwxyz0123456789_-.'')"

definition validate_username :: "string \<Rightarrow> unit res" where
  "validate_username n = (if n \<noteq> [] \<and> length n \<le> 64 \<and> list_all username_char n then Inr () else Inl ValueError)"

section \<open>Passwords\<close>

text \<open>bcrypt as a parameter: \<open>checkpw\<close> and \<open>hashpw\<close> (its salt drawn), both of which raise, and the hash
  the module draws at import time for the unknown-user path.\<close>

record bcrypt_lib =
  checkpw :: "string \<Rightarrow> string \<Rightarrow> bool res"
  hashpw :: "string \<Rightarrow> string res"
  dummy_hash :: string

text \<open>Characters are code points below 256; the length counts the bytes of their UTF-8 encoding.\<close>

definition utf8_len :: "string \<Rightarrow> nat" where
  "utf8_len s = sum_list (map (\<lambda>c. if of_char c < (128::nat) then 1 else 2) s)"

text \<open>What bcrypt 5 documents: a password of more than 72 bytes raises, a hash verifies the password it was made
  from; and nobody holds a password for the dummy hash.\<close>

definition bcrypt_documented :: "bcrypt_lib \<Rightarrow> bool" where
  "bcrypt_documented B \<longleftrightarrow> (\<forall>p h. 72 < utf8_len p \<longrightarrow> checkpw B p h = Inl ValueError \<and> hashpw B p = Inl ValueError)
     \<and> (\<forall>p h. utf8_len p \<le> 72 \<longrightarrow> hashpw B p = Inr h \<longrightarrow> checkpw B p h = Inr True)
     \<and> (\<forall>p. utf8_len p \<le> 72 \<longrightarrow> checkpw B p (dummy_hash B) = Inr False)"

definition password_min_length :: nat where
  "password_min_length = 12"

text \<open>The result together with the hashes handed to bcrypt, each of which costs one slow round.  The dummy rounds
  stand outside the \<open>try\<close>, so what bcrypt raises there escapes.\<close>

definition dummy_round :: "bcrypt_lib \<Rightarrow> string \<Rightarrow> user option res" where
  "dummy_round B pw = res_bind (checkpw B pw (dummy_hash B)) (\<lambda>_. Inr None)"

definition verify_password :: "bcrypt_lib \<Rightarrow> users \<Rightarrow> string \<Rightarrow> string \<Rightarrow> string list \<times> user option res" where
  "verify_password B us name pw =
     (case get_user_by_username us name of
        None \<Rightarrow> ([dummy_hash B], dummy_round B pw)
      | Some u \<Rightarrow>
          if \<not> user_active u then ([dummy_hash B], dummy_round B pw)
          else (case map_of us (user_id u) of
              None \<Rightarrow> ([dummy_hash B], dummy_round B pw)
            | Some r \<Rightarrow> (case usr_hash r of
                  None \<Rightarrow> ([dummy_hash B], dummy_round B pw)
                | Some h \<Rightarrow>
                    if h = [] then ([dummy_hash B], dummy_round B pw)
                    else ([h], (case checkpw B pw h of
                        Inl ValueError \<Rightarrow> Inr None
                      | Inl e \<Rightarrow> Inl e
                      | Inr ok \<Rightarrow> Inr (if ok then Some u else None))))))"

definition update_row :: "int \<Rightarrow> (user_row \<Rightarrow> user_row) \<Rightarrow> users \<Rightarrow> users" where
  "update_row i f us = map (\<lambda>(j, r). if j = i then (j, f r) else (j, r)) us"

definition set_password :: "bcrypt_lib \<Rightarrow> int \<Rightarrow> string \<Rightarrow> users \<Rightarrow> bool res \<times> users" where
  "set_password B i pw us =
     (if get_user_by_id us i = None then (Inr False, us)
      else (case hashpw B pw of
          Inl e \<Rightarrow> (Inl e, us)
        | Inr h \<Rightarrow> (Inr True, update_row i (\<lambda>r. r\<lparr>usr_hash := Some h\<rparr>) us)))"

definition update_user_totp_seed :: "int \<Rightarrow> string option \<Rightarrow> users \<Rightarrow> bool \<times> users" where
  "update_user_totp_seed i seed us =
     (if get_user_by_id us i = None then (False, us) else (True, update_row i (\<lambda>r. r\<lparr>usr_seed := seed\<rparr>) us))"

section \<open>Session epochs\<close>

definition get_session_epoch :: "users \<Rightarrow> int \<Rightarrow> int" where
  "get_session_epoch us i = (case map_of us i of None \<Rightarrow> 0 | Some r \<Rightarrow> usr_epoch r)"

definition bump_session_epoch :: "int \<Rightarrow> users \<Rightarrow> int \<times> users" where
  "bump_session_epoch i us =
     (let us' = update_row i (\<lambda>r. r\<lparr>usr_epoch := usr_epoch r + 1\<rparr>) us in
      (case map_of us' i of None \<Rightarrow> 0 | Some r \<Rightarrow> usr_epoch r, us'))"

section \<open>Failed logins\<close>

definition failed_login_window :: real where
  "failed_login_window = 900"

definition per_account_fail_limit :: int where
  "per_account_fail_limit = 10"

text \<open>One more failure on a row: a fresh streak when the last one is older than the window.\<close>

definition count_failure :: "real \<Rightarrow> user_row \<Rightarrow> user_row" where
  "count_failure now r =
     (let is_stale = (case parse_iso_dt (usr_last_fail r) of None \<Rightarrow> True | Some t \<Rightarrow> now - t > failed_login_window) in
      r\<lparr>usr_fails := (if is_stale then 1 else usr_fails r + 1), usr_last_fail := Stamp now\<rparr>)"

definition increment_failed_login :: "real \<Rightarrow> int \<Rightarrow> users \<Rightarrow> int \<times> users" where
  "increment_failed_login now i us =
     (case map_of us i of
        None \<Rightarrow> (0, us)
      | Some r \<Rightarrow> (usr_fails (count_failure now r), update_row i (count_failure now) us))"

definition reset_failed_login :: "int \<Rightarrow> users \<Rightarrow> bool \<times> users" where
  "reset_failed_login i us =
     (map_of us i \<noteq> None, update_row i (\<lambda>r. r\<lparr>usr_fails := 0, usr_last_fail := No_Stamp\<rparr>) us)"

definition get_failed_login_state :: "users \<Rightarrow> int \<Rightarrow> int \<times> real option" where
  "get_failed_login_state us i =
     (case map_of us i of None \<Rightarrow> (0, None) | Some r \<Rightarrow> (usr_fails r, parse_iso_dt (usr_last_fail r)))"

text \<open>\<open>Some n\<close>: limited, retry after \<open>n\<close> whole seconds (\<open>int\<close> cuts the fraction off).\<close>

definition check_login_rate_limit :: "real \<Rightarrow> users \<Rightarrow> int \<Rightarrow> int option" where
  "check_login_rate_limit now us i =
     (case get_failed_login_state us i of (raw_count, last_at) \<Rightarrow>
        if raw_count < per_account_fail_limit then None
        else (case last_at of
            None \<Rightarrow> None
          | Some t \<Rightarrow>
              if now - t \<ge> failed_login_window then None else Some \<lfloor>failed_login_window - (now - t)\<rfloor>))"

section \<open>One-time codes\<close>

text \<open>pyotp's \<open>TOTP(secret, digits=6, interval=30).verify(code, valid_window=w)\<close> at an instant is a parameter,
  and so are the cipher calls of the credential provider: \<open>None\<close> where decryption fails.\<close>

record totp_lib =
  otp_verify :: "string \<Rightarrow> string \<Rightarrow> nat \<Rightarrow> real \<Rightarrow> bool"
  encrypt_for :: "int \<Rightarrow> string \<Rightarrow> string"
  decrypt_for :: "int \<Rightarrow> string \<Rightarrow> string option"

definition totp_digits :: nat where
  "totp_digits = 6"

definition skew_tolerance_windows :: nat where
  "skew_tolerance_windows = 1"

text \<open>\<open>str.isdigit\<close> also accepts the three superscript digits of Latin-1.\<close>

definition py_isdigit :: "char \<Rightarrow> bool" where
  "py_isdigit c = (is_digit c \<or> of_char c \<in> {178 :: nat, 179, 185})"

definition verify_code :: "totp_lib \<Rightarrow> string \<Rightarrow> string \<Rightarrow> real \<Rightarrow> bool" where
  "verify_code T secret code now =
     (secret \<noteq> [] \<and> code \<noteq> [] \<and> list_all py_isdigit code \<and> length code = totp_digits
      \<and> otp_verify T secret code skew_tolerance_windows now)"

section \<open>The throttle\<close>

text \<open>
  What a counter of failures has to promise so that guessing is bounded: a failure is stamped and continues the
  streak unless the last one is older than the window, and the gate is open only below the limit or when the
  window has passed.  Then, whatever the times of the attempts, no window sees more failures than the limit.
\<close>

locale throttle =
  fixes fails :: "'s \<Rightarrow> int"
    and last_fail :: "'s \<Rightarrow> real option"
    and limited :: "real \<Rightarrow> 's \<Rightarrow> bool"
    and fail :: "real \<Rightarrow> 's \<Rightarrow> 's"
    and window :: real
    and limit :: int
  assumes fresh: "last_fail s = None \<or> (\<exists>l. last_fail s = Some l \<and> window < t - l) \<Longrightarrow> fails (fail t s) = 1"
    and streak: "last_fail s = Some l \<Longrightarrow> t - l \<le> window \<Longrightarrow> fails (fail t s) = fails s + 1"
    and stamped: "last_fail (fail t s) = Some t"
    and gate: "\<not> limited t s \<Longrightarrow> last_fail s = Some l \<Longrightarrow> t - l < window \<Longrightarrow> fails s < limit"
    and sensible: "0 < window" "1 \<le> limit"
begin

text \<open>A history in which the gate lets failures through at the given times, among steps that touch neither the
  counter nor its stamp.\<close>

inductive trail :: "'s \<Rightarrow> real list \<Rightarrow> 's \<Rightarrow> bool" for s0 where
  Begin: "trail s0 [] s0"
| Idle: "trail s0 ts s \<Longrightarrow> fails s' = fails s \<Longrightarrow> last_fail s' = last_fail s \<Longrightarrow> trail s0 ts s'"
| Fail: "trail s0 ts s \<Longrightarrow> \<not> limited t s \<Longrightarrow> \<forall>l. last_fail s = Some l \<longrightarrow> l \<le> t \<Longrightarrow>
    fails s' = fails (fail t s) \<Longrightarrow> last_fail s' = last_fail (fail t s) \<Longrightarrow> trail s0 (ts @ [t]) s'"

definition seen :: "real list \<Rightarrow> 's \<Rightarrow> bool" where
  "seen ts s \<longleftrightarrow> 0 \<le> fails s \<and> (\<forall>t \<in> set ts. \<exists>l. last_fail s = Some l \<and> t \<le> l)
     \<and> (\<forall>l. last_fail s = Some l \<longrightarrow> int (length (filter (\<lambda>t. l - window < t) ts)) \<le> fails s)
     \<and> (\<forall>a. int (length (filter (\<lambda>t. a \<le> t \<and> t < a + window) ts)) \<le> limit)"

lemma filter_length_mono: "(\<And>x. x \<in> set xs \<Longrightarrow> P x \<Longrightarrow> Q x) \<Longrightarrow> length (filter P xs) \<le> length (filter Q xs)"
  by (induction xs) (auto simp: le_Suc_eq)

lemma seen_counted:
  assumes "seen ts s" "\<forall>l. last_fail s = Some l \<longrightarrow> l \<le> t"
  shows "int (length (filter (\<lambda>x. t - window < x) (ts @ [t]))) \<le> fails (fail t s)"
proof (cases "last_fail s")
  case None
  then have "ts = []" using assms(1) by (cases ts) (auto simp: seen_def)
  then show ?thesis using fresh [of s t] None sensible by simp
next
  case (Some l)
  show ?thesis
  proof (cases "window < t - l")
    case True
    then have "filter (\<lambda>x. t - window < x) ts = []" using assms(1) Some by (force simp: seen_def filter_empty_conv)
    then show ?thesis using fresh [of s t] Some True sensible by simp
  next
    case False
    have "length (filter (\<lambda>x. t - window < x) ts) \<le> length (filter (\<lambda>x. l - window < x) ts)"
      using assms(2) Some by (intro filter_length_mono) auto
    moreover have "int (length (filter (\<lambda>x. l - window < x) ts)) \<le> fails s" using assms(1) Some by (simp add: seen_def)
    ultimately show ?thesis using streak [OF Some, of t] False sensible by simp
  qed
qed

lemma seen_bounded:
  assumes "seen ts s" "\<forall>l. last_fail s = Some l \<longrightarrow> l \<le> t" "\<not> limited t s"
  shows "int (length (filter (\<lambda>x. a \<le> x \<and> x < a + window) (ts @ [t]))) \<le> limit"
proof (cases "a \<le> t \<and> t < a + window \<and> filter (\<lambda>x. a \<le> x \<and> x < a + window) ts \<noteq> []")
  case True
  then obtain x where "x \<in> set ts" "a \<le> x" by (auto simp: filter_empty_conv)
  then obtain l where l: "last_fail s = Some l" "a \<le> l" using assms(1) by (force simp: seen_def)
  then have "fails s < limit" using gate [OF assms(3) l(1)] True by simp
  moreover have "length (filter (\<lambda>x. a \<le> x \<and> x < a + window) ts) \<le> length (filter (\<lambda>x. l - window < x) ts)"
    using assms(2) l True by (intro filter_length_mono) auto
  moreover have "int (length (filter (\<lambda>x. l - window < x) ts)) \<le> fails s" using assms(1) l by (simp add: seen_def)
  ultimately show ?thesis using True by simp
next
  case False
  then show ?thesis using assms(1) sensible by (auto simp: seen_def)
qed

lemma trail_seen: "trail s0 ts s \<Longrightarrow> 0 \<le> fails s0 \<Longrightarrow> seen ts s"
proof (induction rule: trail.induct)
  case Begin
  then show ?case using sensible by (simp add: seen_def)
next
  case (Idle ts s s')
  then show ?case by (simp add: seen_def)
next
  case (Fail ts s t s')
  then have i: "seen ts s" by simp
  have "0 \<le> fails s'" using seen_counted [OF i Fail.hyps(3)] Fail.hyps(4) by simp
  moreover have "\<forall>x \<in> set (ts @ [t]). x \<le> t" using i Fail.hyps(3) by (force simp: seen_def)
  ultimately show ?case
    using seen_counted [OF i Fail.hyps(3)] seen_bounded [OF i Fail.hyps(3,2)] Fail.hyps(4,5) by (simp add: seen_def stamped)
qed

lemma trail_bounded: "trail s0 ts s \<Longrightarrow> 0 \<le> fails s0 \<Longrightarrow> int (length (filter (\<lambda>t. a \<le> t \<and> t < a + window) ts)) \<le> limit"
  using trail_seen unfolding seen_def by blast

end

section \<open>The table keeps its shape\<close>

lemma keys_update_row [simp]: "keys (update_row i f us) = keys us"
  by (induction us) (auto simp: update_row_def)

lemma map_of_update_row: "map_of (update_row i f us) j = (if j = i then map_option f (map_of us j) else map_of us j)"
  by (induction us) (auto simp: update_row_def)

lemma update_row_missing: "map_of us i = None \<Longrightarrow> update_row i f us = us"
  by (force simp: update_row_def map_of_eq_None_iff intro!: map_idI)

lemma names_update_row: "(\<And>r. usr_name (f r) = usr_name r) \<Longrightarrow> map usr_name (vals (update_row i f us)) = map usr_name (vals us)"
  by (induction us) (auto simp: update_row_def)

lemma users_wf_update [wf_intros]:
  assumes "users_wf us" "\<And>r. usr_name (f r) = usr_name r"
    "\<And>r. 0 \<le> usr_epoch r \<Longrightarrow> 0 \<le> usr_fails r \<Longrightarrow> 0 \<le> usr_epoch (f r) \<and> 0 \<le> usr_fails (f r)"
  shows "users_wf (update_row i f us)"
  using assms(1) names_update_row [OF assms(2), of i us] assms(3)
  by (auto simp: users_wf_def) (fastforce simp: update_row_def list_all_iff split: if_splits)

lemma user_lookup:
  "get_user_by_id us i = Some u \<longleftrightarrow> (\<exists>r. map_of us i = Some r \<and> u = row_to_user i r)"
  by (auto simp: get_user_by_id_def)

lemma username_lookup:
  "get_user_by_username us n = Some u \<Longrightarrow> users_wf us \<Longrightarrow> user_name u = n \<and> get_user_by_id us (user_id u) = Some u"
  by (auto simp: get_user_by_username_def find_Some_iff users_wf_def get_user_by_id_def row_to_user_def)
    (metis map_of_is_SomeI nth_mem option.simps(9))

lemma row_to_user_simps [simp]:
  "user_id (row_to_user i r) = i" "user_name (row_to_user i r) = usr_name r" "user_active (row_to_user i r) = usr_active r"
  "user_epoch (row_to_user i r) = usr_epoch r" "user_seed (row_to_user i r) = usr_seed r" "user_role (row_to_user i r) = usr_role r"
  by (simp_all add: row_to_user_def)

section \<open>Password checks\<close>

text \<open>Exactly the active user of that name whose stored hash the password matches gets through, and every way to
  fail costs one bcrypt round.\<close>

lemma verify_password_iff:
  "snd (verify_password B us n pw) = Inr (Some u) \<longleftrightarrow> get_user_by_username us n = Some u \<and> user_active u
    \<and> (\<exists>r h. map_of us (user_id u) = Some r \<and> usr_hash r = Some h \<and> h \<noteq> [] \<and> checkpw B pw h = Inr True)"
  by (auto simp: verify_password_def dummy_round_def res_bind_def split: option.splits sum.splits py_error.splits if_splits)

lemma verify_password_cost: "length (fst (verify_password B us n pw)) = 1"
  by (auto simp: verify_password_def split: option.split)

text \<open>A password that fits bcrypt never raises; a longer one raises exactly where the dummy hash stands in.\<close>

lemma verify_password_raises:
  assumes "bcrypt_documented B" "72 < utf8_len pw"
  shows "snd (verify_password B us n pw) = Inr None \<or> snd (verify_password B us n pw) = Inl ValueError"
    "get_user_by_username us n = None \<Longrightarrow> snd (verify_password B us n pw) = Inl ValueError"
  using assms by (auto simp: verify_password_def dummy_round_def bcrypt_documented_def split: option.split)

section \<open>The counter of a row is a throttle\<close>

definition row_limited :: "real \<Rightarrow> user_row \<Rightarrow> bool" where
  "row_limited now r = (check_login_rate_limit now [(1, r)] 1 \<noteq> None)"

lemma limited_row: "map_of us i = Some r \<Longrightarrow> check_login_rate_limit now us i \<noteq> None \<longleftrightarrow> row_limited now r"
  by (simp add: row_limited_def check_login_rate_limit_def get_failed_login_state_def)

interpretation rows: throttle usr_fails "\<lambda>r. parse_iso_dt (usr_last_fail r)" row_limited count_failure
    failed_login_window per_account_fail_limit
  by unfold_locales
    (auto simp: count_failure_def row_limited_def check_login_rate_limit_def get_failed_login_state_def
      failed_login_window_def per_account_fail_limit_def Let_def split: if_splits)

end
