(* ===== verification/Sessions.thy ===== *)
theory Sessions
  imports User_Store Bot_Config
begin

text \<open>
  Requests, responses and the signed cookies of the portal (\<open>web/app.py\<close>): the session cookie with its per-user
  epoch, the two short-lived cookies of the one-time-code flows, and the resolution of a request to its caller.
  itsdangerous is a parameter: what it signed is written down as a list, and \<open>genuine\<close> says that only what was
  signed loads again.
\<close>

section \<open>Payloads\<close>

datatype json_value = J_Int int | J_Bool bool | J_Str string | J_Other

type_synonym fields = "(string \<times> json_value) list"

datatype payload = J_Obj fields | J_Non_Obj

text \<open>\<open>isinstance(v, int)\<close>, which a bool passes, and \<open>int(v)\<close>, which also reads texts.\<close>

fun as_int :: "json_value \<Rightarrow> int option" where
  "as_int (J_Int n) = Some n"
| "as_int (J_Bool b) = Some (of_bool b)"
| "as_int _ = None"

definition digits_value :: "string \<Rightarrow> int" where
  "digits_value s = fold (\<lambda>c n. 10 * n + (of_char c - 48)) s 0"

fun grouped :: "string \<Rightarrow> bool" where
  "grouped [] = False"
| "grouped [c] = is_digit c"
| "grouped (c # d # s) = (is_digit c \<and> (if d = CHR ''_'' then grouped s else grouped (d # s)))"

definition py_int_text :: "string \<Rightarrow> int option" where
  "py_int_text s =
     (let t = py_strip s;
          neg = (t \<noteq> [] \<and> hd t = CHR ''-'');
          ds = (if t \<noteq> [] \<and> hd t \<in> {CHR ''-'', CHR ''+''} then tl t else t) in
      if grouped ds then Some ((if neg then -1 else 1) * digits_value (filter is_digit ds)) else None)"

fun py_int :: "json_value \<Rightarrow> int option" where
  "py_int (J_Str s) = py_int_text s"
| "py_int v = as_int v"

section \<open>Signing\<close>

record signer =
  dumps :: "string \<Rightarrow> payload \<Rightarrow> real \<Rightarrow> string"
  loads :: "string \<Rightarrow> string \<Rightarrow> int \<Rightarrow> real \<Rightarrow> payload option"

text \<open>The documented behaviour: a token loads under its own salt until its age passes the limit; and, against a
  list of what was signed when, only what was signed under a salt loads under it.\<close>

type_synonym signed_log = "(string \<times> payload \<times> real) list"

definition signer_documented :: "signer \<Rightarrow> bool" where
  "signer_documented K \<longleftrightarrow>
     (\<forall>s p t m now. t \<le> now \<longrightarrow> now \<le> t + of_int m \<longrightarrow> loads K s (dumps K s p t) m now = Some p)"

definition genuine :: "signer \<Rightarrow> signed_log \<Rightarrow> real \<Rightarrow> string \<Rightarrow> bool" where
  "genuine K entries now tok \<longleftrightarrow>
     (\<forall>s m p. loads K s tok m now = Some p \<longrightarrow> (\<exists>t. (s, p, t) \<in> set entries \<and> now - t < of_int m + 1))"

section \<open>Requests and responses\<close>

record request =
  rq_time :: real
  rq_method :: string
  rq_path :: string
  rq_cookies :: "(string \<times> string) list"
  rq_api_key :: "string option"
  rq_csrf :: "string option"
  rq_accept :: string
  rq_client :: "string option"
  rq_forwarded :: "string option"
  rq_admitted :: bool
  rq_epoch_write :: bool

datatype set_cookie = Signed string payload int | Plain string int | Deleted

record response =
  rs_status :: int
  rs_detail :: string
  rs_cookies :: "(string \<times> set_cookie) list"
  rs_retry_after :: "int option"
  rs_delay :: real
  rs_hashed :: "string list"

definition reply :: "int \<Rightarrow> string \<Rightarrow> response" where
  "reply s d = \<lparr>rs_status = s, rs_detail = d, rs_cookies = [], rs_retry_after = None, rs_delay = 0, rs_hashed = []\<rparr>"

text \<open>What the portal signed in a response, with the time of the response.\<close>

definition signed_in :: "real \<Rightarrow> response \<Rightarrow> signed_log" where
  "signed_in now rs = concat (map (\<lambda>(n, c). case c of Signed s p m \<Rightarrow> [(s, p, now)] | _ \<Rightarrow> []) (rs_cookies rs))"

record portal_env =
  pe_bcrypt :: bcrypt_lib
  pe_totp :: totp_lib
  pe_signer :: signer
  pe_api_key :: string
  pe_key_hint :: "string \<Rightarrow> string"
  pe_csrf_token :: "real \<Rightarrow> string"

section \<open>The session cookie\<close>

definition session_cookie :: string where "session_cookie = ''reverto_session''"
definition session_ttl :: int where "session_ttl = 86400"
definition session_salt :: string where "session_salt = ''reverto.session.v1''"

definition session_data :: "real \<Rightarrow> users \<Rightarrow> int \<Rightarrow> fields" where
  "session_data now us i = [(''uid'', J_Int i), (''iat'', J_Int \<lfloor>now\<rfloor>), (''ep'', J_Int (get_session_epoch us i))]"

definition create_session_cookie :: "real \<Rightarrow> users \<Rightarrow> user \<Rightarrow> set_cookie" where
  "create_session_cookie now us u = Signed session_salt (J_Obj (session_data now us (user_id u))) session_ttl"

text \<open>\<open>data.get\<close> comes before the \<open>isinstance\<close> test, so a signed payload that is no object raises.\<close>

definition attribute_error :: py_error where
  "attribute_error = ExternalError [''AttributeError'']"

definition session_fields :: "users \<Rightarrow> fields \<Rightarrow> fields option" where
  "session_fields us d =
     (case map_of d ''uid'' of
        None \<Rightarrow> None
      | Some v \<Rightarrow> (case as_int v of
          None \<Rightarrow> None
        | Some uid \<Rightarrow>
            if uid \<le> 0 then None
            else (case py_int (case map_of d ''ep'' of None \<Rightarrow> J_Int 0 | Some e \<Rightarrow> e) of
                None \<Rightarrow> None
              | Some ep \<Rightarrow> if ep \<noteq> get_session_epoch us uid then None else Some d)))"

definition verify_session_cookie :: "signer \<Rightarrow> users \<Rightarrow> real \<Rightarrow> string option \<Rightarrow> fields option res" where
  "verify_session_cookie K us now tok =
     (case tok of
        None \<Rightarrow> Inr None
      | Some t \<Rightarrow>
          if t = [] then Inr None
          else (case loads K session_salt t session_ttl now of
              None \<Rightarrow> Inr None
            | Some J_Non_Obj \<Rightarrow> Inl attribute_error
            | Some (J_Obj d) \<Rightarrow> Inr (session_fields us d)))"

definition request_session :: "portal_env \<Rightarrow> users \<Rightarrow> request \<Rightarrow> fields option res" where
  "request_session E us rq = verify_session_cookie (pe_signer E) us (rq_time rq) (map_of (rq_cookies rq) session_cookie)"

text \<open>The \<open>uid\<close> of a payload, where it is a positive int.\<close>

definition fields_uid :: "fields \<Rightarrow> int option" where
  "fields_uid d = (case map_of d ''uid'' of None \<Rightarrow> None
     | Some v \<Rightarrow> (case as_int v of None \<Rightarrow> None | Some i \<Rightarrow> if i > 0 then Some i else None))"

section \<open>The pending cookies\<close>

definition pending_totp_cookie :: string where "pending_totp_cookie = ''reverto_totp_pending''"
definition pending_totp_ttl :: int where "pending_totp_ttl = 600"
definition pending_totp_salt :: string where "pending_totp_salt = ''reverto.totp_pending.v1''"

definition set_pending_totp_cookie :: "real \<Rightarrow> string \<Rightarrow> int \<Rightarrow> string \<times> set_cookie" where
  "set_pending_totp_cookie now secret i =
     (pending_totp_cookie,
      Signed pending_totp_salt (J_Obj [(''secret'', J_Str secret), (''uid'', J_Int i), (''iat'', J_Int \<lfloor>now\<rfloor>)]) pending_totp_ttl)"

definition read_pending_totp_cookie :: "signer \<Rightarrow> request \<Rightarrow> int \<Rightarrow> string option" where
  "read_pending_totp_cookie K rq expected =
     (case map_of (rq_cookies rq) pending_totp_cookie of
        None \<Rightarrow> None
      | Some raw \<Rightarrow>
          if raw = [] then None
          else (case loads K pending_totp_salt raw pending_totp_ttl (rq_time rq) of
              Some (J_Obj d) \<Rightarrow>
                (case map_of d ''uid'' of
                   None \<Rightarrow> None
                 | Some v \<Rightarrow>
                     if as_int v \<noteq> Some expected then None
                     else (case map_of d ''secret'' of
                         Some (J_Str s) \<Rightarrow> if s = [] then None else Some s
                       | _ \<Rightarrow> None))
            | _ \<Rightarrow> None))"

definition pending_login_cookie :: string where "pending_login_cookie = ''reverto_login_totp_pending''"
definition pending_login_ttl :: int where "pending_login_ttl = 120"
definition pending_login_salt :: string where "pending_login_salt = ''reverto.login_totp_pending.v1''"

definition set_pending_login_cookie :: "real \<Rightarrow> int \<Rightarrow> string \<times> set_cookie" where
  "set_pending_login_cookie now i =
     (pending_login_cookie, Signed pending_login_salt (J_Obj [(''uid'', J_Int i), (''iat'', J_Int \<lfloor>now\<rfloor>)]) pending_login_ttl)"

definition read_pending_login_cookie :: "signer \<Rightarrow> request \<Rightarrow> int option" where
  "read_pending_login_cookie K rq =
     (case map_of (rq_cookies rq) pending_login_cookie of
        None \<Rightarrow> None
      | Some raw \<Rightarrow>
          if raw = [] then None
          else (case loads K pending_login_salt raw pending_login_ttl (rq_time rq) of
              Some (J_Obj d) \<Rightarrow> fields_uid d
            | _ \<Rightarrow> None))"

section \<open>The caller of a request\<close>

definition is_api_key :: "portal_env \<Rightarrow> request \<Rightarrow> bool" where
  "is_api_key E rq = (case rq_api_key rq of None \<Rightarrow> False | Some k \<Rightarrow> k \<noteq> [] \<and> k = pe_api_key E)"

definition request_actor :: "portal_env \<Rightarrow> users \<Rightarrow> request \<Rightarrow> string res" where
  "request_actor E us rq =
     res_bind (request_session E us rq) (\<lambda>s.
       let by_key = (if is_api_key E rq then ''apikey:'' @ pe_key_hint E (pe_api_key E) else ''-'') in
       Inr (case s of
          None \<Rightarrow> by_key
        | Some d \<Rightarrow> (case fields_uid d of
            None \<Rightarrow> by_key
          | Some i \<Rightarrow> (case get_user_by_id us i of None \<Rightarrow> by_key | Some u \<Rightarrow> ''session:'' @ user_name u))))"

definition request_user :: "portal_env \<Rightarrow> users \<Rightarrow> request \<Rightarrow> response + user" where
  "request_user E us rq =
     (case request_session E us rq of
        Inl _ \<Rightarrow> Inl (reply 500 ''Internal Server Error'')
      | Inr None \<Rightarrow>
          if is_api_key E rq
          then (case get_user_by_id us 1 of
              None \<Rightarrow> Inl (reply 401 ''Not authenticated'')
            | Some u \<Rightarrow> if user_active u then Inr u else Inl (reply 401 ''Not authenticated''))
          else Inl (reply 401 ''Not authenticated'')
      | Inr (Some d) \<Rightarrow> (case fields_uid d of
            None \<Rightarrow> Inl (reply 401 ''Invalid session'')
          | Some i \<Rightarrow> (case get_user_by_id us i of
                None \<Rightarrow> Inl (reply 401 ''User not found'')
              | Some u \<Rightarrow> if user_active u then Inr u else Inl (reply 401 ''User not found''))))"

definition ws_extract_user_id :: "portal_env \<Rightarrow> users \<Rightarrow> request \<Rightarrow> int option res" where
  "ws_extract_user_id E us rq =
     res_bind (request_session E us rq) (\<lambda>s. Inr (case s of
        None \<Rightarrow> None
      | Some d \<Rightarrow> (case fields_uid d of
          None \<Rightarrow> None
        | Some i \<Rightarrow> (case get_user_by_id us i of
              None \<Rightarrow> None
            | Some u \<Rightarrow> if user_active u then Some i else None))))"

text \<open>The address a request is attributed to, and the bucket its rate limit is charged to.\<close>

definition get_remote_address :: "request \<Rightarrow> string" where
  "get_remote_address rq = (case rq_client rq of None \<Rightarrow> ''127.0.0.1'' | Some h \<Rightarrow> h)"

definition extract_client_ip :: "request \<Rightarrow> string" where
  "extract_client_ip rq =
     (case rq_forwarded rq of
        None \<Rightarrow> get_remote_address rq
      | Some xff \<Rightarrow>
          let first = py_strip (takeWhile (\<lambda>c. c \<noteq> CHR '','') xff) in
          if first \<noteq> [] then first else get_remote_address rq)"

definition rate_limit_key :: "portal_env \<Rightarrow> users \<Rightarrow> request \<Rightarrow> string res" where
  "rate_limit_key E us rq =
     res_bind (request_session E us rq) (\<lambda>s. Inr (
       case (case s of None \<Rightarrow> None | Some d \<Rightarrow> fields_uid d) of
         Some i \<Rightarrow> ''user:'' @ show_int i
       | None \<Rightarrow> if extract_client_ip rq \<noteq> [] then extract_client_ip rq else get_remote_address rq))"

definition logout_rate_limit_key :: "portal_env \<Rightarrow> users \<Rightarrow> request \<Rightarrow> string res" where
  "logout_rate_limit_key E us rq =
     res_bind (request_session E us rq) (\<lambda>s. Inr (
       case (case s of None \<Rightarrow> None | Some d \<Rightarrow> fields_uid d) of
         Some i \<Rightarrow> ''logout:uid:'' @ show_int i
       | None \<Rightarrow> ''logout:ip:'' @ (case rq_client rq of None \<Rightarrow> ''-'' | Some h \<Rightarrow> h)))"

end
