(* ===== verification/Auth_Routes.thy ===== *)
theory Auth_Routes
  imports Sessions
begin

text \<open>
  The handlers of \<open>web/routes/auth.py\<close>: login with backoff, throttle and audit trail, the second login step with
  a one-time code, logout, status, password change and the enrolment and removal of the second factor. Each is a
  function from the portal's state to the response and the state after it. The decision of the request limiter
  (\<open>rq_admitted\<close>), the breach lookup and fresh secrets are inputs; a request is one atomic step.
\<close>

section \<open>State\<close>

type_synonym audit_line = "string \<times> string \<times> string \<times> int option \<times> string"

record portal =
  pt_users :: users
  pt_unknown :: "(string \<times> int \<times> real) list"
  pt_audit :: "audit_line list"

definition audit :: "string \<Rightarrow> string \<Rightarrow> string \<Rightarrow> int option \<Rightarrow> string \<Rightarrow> portal \<Rightarrow> portal" where
  "audit action slug hint uid result st = st\<lparr>pt_audit := pt_audit st @ [(action, slug, hint, uid, result)]\<rparr>"

section \<open>Failures against unknown names\<close>

definition unknown_user_ip_cap :: nat where
  "unknown_user_ip_cap = 10000"

definition unknown_user_fail_get :: "real \<Rightarrow> string \<Rightarrow> (string \<times> int \<times> real) list \<Rightarrow> int" where
  "unknown_user_fail_get now ip d =
     (case map_of d ip of
        None \<Rightarrow> 0
      | Some (count, last_ts) \<Rightarrow> if now - last_ts > failed_login_window then 0 else count)"

text \<open>\<open>min\<close> over the dict takes the first of the oldest entries in insertion order.\<close>

definition evict_oldest :: "(string \<times> int \<times> real) list \<Rightarrow> (string \<times> int \<times> real) list" where
  "evict_oldest d =
     (if length d \<ge> unknown_user_ip_cap then AList.delete (fst (arg_min_list (\<lambda>(_, _, t). t) d)) d else d)"

definition unknown_user_fail_bump :: "real \<Rightarrow> string \<Rightarrow> (string \<times> int \<times> real) list \<Rightarrow> int \<times> (string \<times> int \<times> real) list" where
  "unknown_user_fail_bump now ip d =
     (let new_count = (case map_of d ip of
            None \<Rightarrow> 1
          | Some (count, last_ts) \<Rightarrow> if now - last_ts > failed_login_window then 1 else count + 1) in
      (new_count, AList.update ip (new_count, now) (evict_oldest d)))"

section \<open>Backoff and messages\<close>

definition effective_count :: "real \<Rightarrow> int \<times> real option \<Rightarrow> int" where
  "effective_count now s =
     (case s of (count, last_at) \<Rightarrow>
        (case last_at of None \<Rightarrow> 0 | Some t \<Rightarrow> if now - t > failed_login_window then 0 else count))"

definition compute_backoff_s :: "int \<Rightarrow> real" where
  "compute_backoff_s pre_count = min (1 / 10 * 2 ^ nat (min pre_count 20)) 30"

definition round_retry_after_to_minute :: "int \<Rightarrow> int" where
  "round_retry_after_to_minute s = (if s \<le> 0 then 0 else (s + 59) div 60 * 60)"

definition rate_limit_detail :: "int \<Rightarrow> string" where
  "rate_limit_detail s =
     (let minutes = s div 60; seconds = s mod 60;
          wait = (if minutes \<noteq> 0 \<and> seconds \<noteq> 0 then show_int minutes @ '' minutes and '' @ show_int seconds @ '' seconds''
                  else if minutes \<noteq> 0 then show_int minutes @ '' minutes''
                  else show_int seconds @ '' seconds'') in
      ''Too many failed login attempts. Please try again in '' @ wait @ ''.'')"

text \<open>The replies the limiter and the validation of a body give before a handler runs.\<close>

definition too_many_requests :: response where "too_many_requests = reply 429 ''Too many requests''"
definition unprocessable :: response where "unprocessable = reply 422 ''''"

definition login_body_ok :: "string \<Rightarrow> string \<Rightarrow> bool" where
  "login_body_ok n pw = (1 \<le> length n \<and> length n \<le> 64 \<and> list_all username_char n \<and> 1 \<le> length pw \<and> length pw \<le> 72)"

definition code_body_ok :: "string \<Rightarrow> bool" where
  "code_body_ok code = (length code = 6 \<and> list_all is_digit code)"

section \<open>Login\<close>

definition csrf_cookie :: string where "csrf_cookie = ''reverto_csrf''"

definition mint_session_response :: "portal_env \<Rightarrow> request \<Rightarrow> user \<Rightarrow> string \<Rightarrow> portal \<Rightarrow> response \<times> portal" where
  "mint_session_response E rq u action st =
     ((reply 200 ''ok'')\<lparr>rs_cookies := [(session_cookie, create_session_cookie (rq_time rq) (pt_users st) u),
         (csrf_cookie, Plain (pe_csrf_token E (rq_time rq)) session_ttl)]\<rparr>,
      audit action (user_name u) ''-'' (Some (user_id u)) ''ok'' st)"

definition record_failed_login :: "request \<Rightarrow> user option \<Rightarrow> portal \<Rightarrow> int \<times> portal" where
  "record_failed_login rq ur st =
     (case ur of
        Some u \<Rightarrow> (case increment_failed_login (rq_time rq) (user_id u) (pt_users st) of (n, us) \<Rightarrow> (n, st\<lparr>pt_users := us\<rparr>))
      | None \<Rightarrow> (case unknown_user_fail_bump (rq_time rq) (get_remote_address rq) (pt_unknown st) of
          (n, d) \<Rightarrow> (n, st\<lparr>pt_unknown := d\<rparr>)))"

definition refuse_login :: "request \<Rightarrow> string \<Rightarrow> user option \<Rightarrow> int \<Rightarrow> string list \<Rightarrow> portal \<Rightarrow> response \<times> portal" where
  "refuse_login rq n ur pre_count hashed st =
     (case record_failed_login rq ur st of (new_count, st1) \<Rightarrow>
        ((reply 401 ''Invalid credentials'')\<lparr>rs_delay := compute_backoff_s pre_count, rs_hashed := hashed\<rparr>,
         if new_count > 0 \<and> new_count mod 5 = 0
         then audit ''suspicious_login_pattern'' n (''count='' @ show_int new_count) (map_option user_id ur) ''denied'' st1
         else st1))"

definition auth_login :: "portal_env \<Rightarrow> string \<Rightarrow> string \<Rightarrow> request \<Rightarrow> portal \<Rightarrow> response \<times> portal" where
  "auth_login E n pw rq st =
     (if \<not> login_body_ok n pw then (unprocessable, st)
      else if \<not> rq_admitted rq then (too_many_requests, st)
      else
        let now = rq_time rq; us = pt_users st; ur = get_user_by_username us n;
            pre_count = (case ur of
                Some u \<Rightarrow> effective_count now (get_failed_login_state us (user_id u))
              | None \<Rightarrow> unknown_user_fail_get now (get_remote_address rq) (pt_unknown st)) in
        (case (case ur of Some u \<Rightarrow> check_login_rate_limit now us (user_id u) | None \<Rightarrow> None) of
           Some retry_after \<Rightarrow>
             (let rounded = round_retry_after_to_minute retry_after in
              ((reply 429 (rate_limit_detail rounded))\<lparr>rs_retry_after := Some rounded\<rparr>,
               audit ''login_rate_limit_hit'' n ''-'' (map_option user_id ur) ''denied'' st))
         | None \<Rightarrow>
             if ur = None \<and> pre_count \<ge> per_account_fail_limit
             then (reply 429 (rate_limit_detail (round_retry_after_to_minute 900)), st)
             else (case verify_password (pe_bcrypt E) us n pw of (hashed, r) \<Rightarrow>
               (case r of
                  Inl _ \<Rightarrow> ((reply 500 ''Internal Server Error'')\<lparr>rs_hashed := hashed\<rparr>, st)
                | Inr None \<Rightarrow> refuse_login rq n ur pre_count hashed st
                | Inr (Some u) \<Rightarrow>
                    if totp_enabled u
                    then ((reply 200 ''requires_totp'')\<lparr>rs_cookies := [set_pending_login_cookie now (user_id u)], rs_hashed := hashed\<rparr>,
                          audit ''login_password_ok_totp_required'' (user_name u) ''-'' (Some (user_id u)) ''ok'' st)
                    else (case mint_session_response E rq u ''auth_login''
                            (st\<lparr>pt_users := snd (reset_failed_login (user_id u) us)\<rparr>) of
                        (rs, st2) \<Rightarrow> (rs\<lparr>rs_hashed := hashed\<rparr>, st2))))))"

definition clearing :: "string \<Rightarrow> response \<Rightarrow> response" where
  "clearing name rs = rs\<lparr>rs_cookies := rs_cookies rs @ [(name, Deleted)]\<rparr>"

definition auth_login_totp :: "portal_env \<Rightarrow> string \<Rightarrow> request \<Rightarrow> portal \<Rightarrow> response \<times> portal" where
  "auth_login_totp E code rq st =
     (if \<not> code_body_ok code then (unprocessable, st)
      else if \<not> rq_admitted rq then (too_many_requests, st)
      else
        let now = rq_time rq; us = pt_users st in
        (case read_pending_login_cookie (pe_signer E) rq of
           None \<Rightarrow> (reply 400 ''No login in progress.'', st)
         | Some i \<Rightarrow>
             (case get_user_by_id us i of
                None \<Rightarrow> (clearing pending_login_cookie (reply 401 ''User not found''),
                  audit ''login_totp_user_inactive'' ''?'' ''-'' (Some i) ''denied'' st)
              | Some u \<Rightarrow>
                  if \<not> user_active u
                  then (clearing pending_login_cookie (reply 401 ''User not found''),
                    audit ''login_totp_user_inactive'' (user_name u) ''-'' (Some i) ''denied'' st)
                  else (case user_seed u of
                      None \<Rightarrow> (clearing pending_login_cookie (reply 400 ''TOTP is no longer enabled for this account.''),
                        audit ''login_totp_disabled_mid_flow'' (user_name u) ''-'' (Some i) ''denied'' st)
                    | Some encrypted \<Rightarrow>
                        (case check_login_rate_limit now us i of
                           Some retry_after \<Rightarrow>
                             (let rounded = round_retry_after_to_minute retry_after in
                              (clearing pending_login_cookie
                                 ((reply 429 (rate_limit_detail rounded))\<lparr>rs_retry_after := Some rounded\<rparr>),
                               audit ''login_totp_rate_limit_hit'' (user_name u) ''-'' (Some i) ''denied'' st))
                         | None \<Rightarrow>
                             (case decrypt_for (pe_totp E) i encrypted of
                                None \<Rightarrow> (reply 500 ''TOTP verification temporarily unavailable.'',
                                  audit ''login_totp_decrypt_failed'' (user_name u) ''-'' (Some i) ''error'' st)
                              | Some secret \<Rightarrow>
                                  if \<not> verify_code (pe_totp E) secret code now
                                  then (reply 401 ''Invalid TOTP code'',
                                    audit ''login_totp_failed'' (user_name u) ''-'' (Some i) ''denied''
                                      (st\<lparr>pt_users := snd (increment_failed_login now i us)\<rparr>))
                                  else (case mint_session_response E rq u ''login_success_totp''
                                          (st\<lparr>pt_users := snd (reset_failed_login i us)\<rparr>) of
                                      (rs, st1) \<Rightarrow> (clearing pending_login_cookie rs, st1))))))))"

section \<open>Logout and status\<close>

text \<open>The write of the new epoch may raise (\<open>rq_epoch_write\<close> false); the handler logs that and goes on.\<close>

definition auth_logout :: "portal_env \<Rightarrow> request \<Rightarrow> portal \<Rightarrow> response \<times> portal" where
  "auth_logout E rq st =
     (if \<not> rq_admitted rq then (too_many_requests, st)
      else (case request_session E (pt_users st) rq of
          Inl _ \<Rightarrow> (reply 500 ''Internal Server Error'', st)
        | Inr s \<Rightarrow>
            (clearing session_cookie (reply 200 ''ok''),
             (case (case s of None \<Rightarrow> None | Some d \<Rightarrow> fields_uid d) of
                None \<Rightarrow> st
              | Some i \<Rightarrow>
                  (let us = (if rq_epoch_write rq then snd (bump_session_epoch i (pt_users st)) else pt_users st) in
                   audit ''logout'' (case get_user_by_id us i of None \<Rightarrow> ''-'' | Some u \<Rightarrow> user_name u) ''-'' (Some i) ''ok''
                     (st\<lparr>pt_users := us\<rparr>))))))"

record status_body =
  sb_authenticated :: bool
  sb_username :: "string option"
  sb_user_id :: "int option"
  sb_totp_enabled :: bool

definition auth_status :: "portal_env \<Rightarrow> request \<Rightarrow> portal \<Rightarrow> status_body res" where
  "auth_status E rq st =
     res_bind (request_session E (pt_users st) rq) (\<lambda>s. Inr (case s of
        None \<Rightarrow> \<lparr>sb_authenticated = False, sb_username = None, sb_user_id = None, sb_totp_enabled = False\<rparr>
      | Some d \<Rightarrow>
          (let u = Option.bind (fields_uid d) (get_user_by_id (pt_users st)) in
           \<lparr>sb_authenticated = True, sb_username = map_option user_name u,
             sb_user_id = Option.bind (map_of d ''uid'') as_int,
             sb_totp_enabled = (case u of None \<Rightarrow> False | Some u \<Rightarrow> totp_enabled u)\<rparr>)))"

section \<open>Handlers behind the session\<close>

text \<open>The dependencies resolve the caller before the body is validated and the limiter asked.\<close>

definition with_caller :: "portal_env \<Rightarrow> bool \<Rightarrow> request \<Rightarrow> (user \<Rightarrow> string \<Rightarrow> portal \<Rightarrow> response \<times> portal) \<Rightarrow> portal \<Rightarrow> response \<times> portal" where
  "with_caller E body_ok rq f st =
     (case request_user E (pt_users st) rq of
        Inl rs \<Rightarrow> (rs, st)
      | Inr u \<Rightarrow>
          (case request_actor E (pt_users st) rq of
             Inl _ \<Rightarrow> (reply 500 ''Internal Server Error'', st)
           | Inr actor \<Rightarrow>
               if \<not> body_ok then (unprocessable, st)
               else if \<not> rq_admitted rq then (too_many_requests, st)
               else f u actor st))"

definition auth_change_password :: "portal_env \<Rightarrow> string \<Rightarrow> string \<Rightarrow> bool \<Rightarrow> request \<Rightarrow> portal \<Rightarrow> response \<times> portal" where
  "auth_change_password E current new pwned rq =
     with_caller E (1 \<le> length current \<and> length current \<le> 72 \<and> 1 \<le> length new \<and> length new \<le> 72) rq (\<lambda>u _ st.
       if length new < password_min_length then (reply 400 ''Password must be at least 12 characters'', st)
       else if new = current then (reply 400 ''password_unchanged'', st)
       else (case verify_password (pe_bcrypt E) (pt_users st) (user_name u) current of (hashed, r) \<Rightarrow>
         (case r of
            Inl _ \<Rightarrow> (reply 500 ''Internal Server Error'', st)
          | Inr None \<Rightarrow> ((reply 401 ''Current password is incorrect'')\<lparr>rs_delay := 1 / 10, rs_hashed := hashed\<rparr>, st)
          | Inr (Some _) \<Rightarrow>
              if pwned then ((reply 400 ''This password has been found in data breaches'')\<lparr>rs_hashed := hashed\<rparr>, st)
              else (case set_password (pe_bcrypt E) (user_id u) new (pt_users st) of
                  (Inl _, us) \<Rightarrow> (reply 500 ''Internal Server Error'', st\<lparr>pt_users := us\<rparr>)
                | (Inr False, us) \<Rightarrow> (reply 500 ''Failed to update password'', st\<lparr>pt_users := us\<rparr>)
                | (Inr True, us) \<Rightarrow>
                    ((reply 200 ''ok'')\<lparr>rs_hashed := hashed\<rparr>,
                     audit ''auth_change_password'' (user_name u) ''-'' (Some (user_id u)) ''ok''
                       (st\<lparr>pt_users := snd (bump_session_epoch (user_id u) us)\<rparr>))))))"

definition auth_totp_setup :: "portal_env \<Rightarrow> string \<Rightarrow> request \<Rightarrow> portal \<Rightarrow> response \<times> portal" where
  "auth_totp_setup E fresh_secret rq =
     with_caller E True rq (\<lambda>u actor st.
       if totp_enabled u then (reply 400 ''TOTP already enabled.'', st)
       else ((reply 200 fresh_secret)\<lparr>rs_cookies := [set_pending_totp_cookie (rq_time rq) fresh_secret (user_id u)]\<rparr>,
             audit ''totp_setup_initiated'' (user_name u) actor (Some (user_id u)) ''ok'' st))"

definition auth_totp_verify :: "portal_env \<Rightarrow> string \<Rightarrow> request \<Rightarrow> portal \<Rightarrow> response \<times> portal" where
  "auth_totp_verify E code rq =
     with_caller E (code_body_ok code) rq (\<lambda>u actor st.
       (case read_pending_totp_cookie (pe_signer E) rq (user_id u) of
          None \<Rightarrow> (reply 400 ''No TOTP enrolment in progress.'', st)
        | Some secret \<Rightarrow>
            if totp_enabled u then (reply 409 ''totp_already_enabled'', st)
            else if \<not> verify_code (pe_totp E) secret code (rq_time rq)
            then (reply 401 ''Invalid TOTP code'', audit ''totp_verify_failed'' (user_name u) actor (Some (user_id u)) ''denied'' st)
            else (case update_user_totp_seed (user_id u) (Some (encrypt_for (pe_totp E) (user_id u) secret)) (pt_users st) of
                (False, us) \<Rightarrow> (reply 401 ''User row no longer exists'',
                  audit ''totp_enable_failed_user_missing'' (user_name u) actor (Some (user_id u)) ''error'' st)
              | (True, us) \<Rightarrow> (clearing pending_totp_cookie (reply 200 ''ok''),
                  audit ''totp_enabled'' (user_name u) actor (Some (user_id u)) ''ok''
                    (st\<lparr>pt_users := snd (bump_session_epoch (user_id u) us)\<rparr>)))))"

definition auth_totp_disable :: "portal_env \<Rightarrow> string \<Rightarrow> string \<Rightarrow> request \<Rightarrow> portal \<Rightarrow> response \<times> portal" where
  "auth_totp_disable E current code rq =
     with_caller E (1 \<le> length current \<and> length current \<le> 72 \<and> code_body_ok code) rq (\<lambda>u actor st.
       (case user_seed u of
          None \<Rightarrow> (reply 400 ''TOTP is not enabled for this account.'', st)
        | Some encrypted \<Rightarrow>
            (case verify_password (pe_bcrypt E) (pt_users st) (user_name u) current of (hashed, r) \<Rightarrow>
              (case r of
                 Inl _ \<Rightarrow> (reply 500 ''Internal Server Error'', st)
               | Inr None \<Rightarrow>
                   ((reply 401 ''Invalid credentials'')\<lparr>rs_delay := 1 / 10, rs_hashed := hashed\<rparr>,
                    audit ''totp_disable_failed_password'' (user_name u) actor (Some (user_id u)) ''denied''
                      (st\<lparr>pt_users := snd (increment_failed_login (rq_time rq) (user_id u) (pt_users st))\<rparr>))
               | Inr (Some _) \<Rightarrow>
                   (case decrypt_for (pe_totp E) (user_id u) encrypted of
                      None \<Rightarrow> (reply 500 ''Could not decrypt stored TOTP seed.'',
                        audit ''totp_disable_failed_decrypt'' (user_name u) actor (Some (user_id u)) ''error'' st)
                    | Some secret \<Rightarrow>
                        if \<not> verify_code (pe_totp E) secret code (rq_time rq)
                        then ((reply 401 ''Invalid TOTP code'')\<lparr>rs_hashed := hashed\<rparr>,
                          audit ''totp_disable_failed_code'' (user_name u) actor (Some (user_id u)) ''denied''
                            (st\<lparr>pt_users := snd (increment_failed_login (rq_time rq) (user_id u) (pt_users st))\<rparr>))
                        else ((reply 200 ''ok'')\<lparr>rs_hashed := hashed\<rparr>,
                          audit ''totp_disabled'' (user_name u) actor (Some (user_id u)) ''ok''
                            (st\<lparr>pt_users := snd (bump_session_epoch (user_id u)
                              (snd (update_user_totp_seed (user_id u) None (pt_users st))))\<rparr>)))))))"

section \<open>A portal at work\<close>

datatype call =
    Login string string
  | Login_Totp string
  | Logout
  | Status
  | Change_Password string string bool
  | Totp_Setup string
  | Totp_Verify string
  | Totp_Disable string string

fun handle :: "portal_env \<Rightarrow> call \<Rightarrow> request \<Rightarrow> portal \<Rightarrow> response \<times> portal" where
  "handle E (Login n pw) rq st = auth_login E n pw rq st"
| "handle E (Login_Totp code) rq st = auth_login_totp E code rq st"
| "handle E Logout rq st = auth_logout E rq st"
| "handle E Status rq st =
     (if \<not> rq_admitted rq then too_many_requests
      else case auth_status E rq st of Inl _ \<Rightarrow> reply 500 ''Internal Server Error'' | Inr _ \<Rightarrow> reply 200 ''ok'', st)"
| "handle E (Change_Password cur new pwned) rq st = auth_change_password E cur new pwned rq st"
| "handle E (Totp_Setup secret) rq st = auth_totp_setup E secret rq st"
| "handle E (Totp_Verify code) rq st = auth_totp_verify E code rq st"
| "handle E (Totp_Disable cur code) rq st = auth_totp_disable E cur code rq st"

end
