(* ===== verification/Auth_Steps.thy ===== *)
theory Auth_Steps
  imports Auth_Routes
begin

text \<open>
  What one request to the handlers of \<open>Auth_Routes\<close> does: which rows it may change and how, and which cookies it
  signs for whom.  The properties of whole runs rest on these facts.
\<close>

section \<open>Rows only grow\<close>

text \<open>Name, activity and role of a row stay, its epoch never falls.\<close>

definition row_grows :: "user_row \<Rightarrow> user_row \<Rightarrow> bool" where
  "row_grows r r' \<longleftrightarrow> usr_name r' = usr_name r \<and> usr_active r' = usr_active r \<and> usr_role r' = usr_role r
     \<and> usr_epoch r \<le> usr_epoch r' \<and> (0 \<le> usr_fails r \<longrightarrow> 0 \<le> usr_fails r')"

definition entry_grows :: "int \<times> user_row \<Rightarrow> int \<times> user_row \<Rightarrow> bool" where
  "entry_grows p q \<longleftrightarrow> fst p = fst q \<and> row_grows (snd p) (snd q)"

definition users_grow :: "users \<Rightarrow> users \<Rightarrow> bool" where
  "users_grow us us' \<longleftrightarrow> list_all2 entry_grows us us'"

lemma row_grows_refl [simp]: "row_grows r r"
  by (simp add: row_grows_def)

lemma users_grow_refl [simp]: "users_grow us us"
  by (simp add: users_grow_def list.rel_refl entry_grows_def)

lemma entry_grows_trans: "entry_grows p q \<Longrightarrow> entry_grows q r \<Longrightarrow> entry_grows p r"
  by (auto simp: entry_grows_def row_grows_def)

lemma users_grow_trans: "users_grow us vs \<Longrightarrow> users_grow vs ws \<Longrightarrow> users_grow us ws"
  unfolding users_grow_def by (rule list_all2_trans [OF entry_grows_trans])

lemma users_grow_update: "(\<And>r. row_grows r (f r)) \<Longrightarrow> users_grow us (update_row i f us)"
  by (induction us) (auto simp: users_grow_def update_row_def entry_grows_def)

lemma users_grow_lookup:
  "users_grow us vs \<Longrightarrow> (case map_of us i of None \<Rightarrow> map_of vs i = None | Some r \<Rightarrow> \<exists>r'. map_of vs i = Some r' \<and> row_grows r r')"
  unfolding users_grow_def by (induction rule: list_all2_induct) (auto simp: entry_grows_def split: option.splits)

lemma users_grow_keys: "users_grow us vs \<Longrightarrow> keys vs = keys us"
  unfolding users_grow_def by (induction rule: list_all2_induct) (auto simp: entry_grows_def)

lemma users_grow_epoch: "users_grow us vs \<Longrightarrow> get_session_epoch us i \<le> get_session_epoch vs i"
  using users_grow_lookup [of us vs i] by (auto simp: get_session_epoch_def row_grows_def split: option.splits)

lemma users_grow_wf:
  assumes "users_grow us vs" "users_wf us"
  shows "users_wf vs"
proof -
  have "map usr_name (vals vs) = map usr_name (vals us)"
    using assms(1) unfolding users_grow_def by (induction rule: list_all2_induct) (auto simp: entry_grows_def row_grows_def)
  moreover have "list_all (\<lambda>(i, r). 0 < i \<and> 0 \<le> usr_epoch r \<and> 0 \<le> usr_fails r) vs"
    if "list_all (\<lambda>(i, r). 0 < i \<and> 0 \<le> usr_epoch r \<and> 0 \<le> usr_fails r) us"
    using assms(1) that unfolding users_grow_def by (induction rule: list_all2_induct) (auto simp: entry_grows_def row_grows_def)
  ultimately show ?thesis using assms(2) users_grow_keys [OF assms(1)] by (simp add: users_wf_def)
qed

lemma users_grow_ops [simp]:
  "users_grow us (snd (increment_failed_login now i us))"
  "users_grow us (snd (reset_failed_login i us))"
  "users_grow us (snd (bump_session_epoch i us))"
  "users_grow us (snd (update_user_totp_seed i seed us))"
  "users_grow us (snd (set_password B i pw us))"
  by (auto simp: increment_failed_login_def reset_failed_login_def bump_session_epoch_def update_user_totp_seed_def
      set_password_def count_failure_def row_grows_def Let_def split: option.split sum.split intro!: users_grow_update)

lemma audit_frame [simp]:
  "pt_users (audit a s h i r st) = pt_users st" "pt_unknown (audit a s h i r st) = pt_unknown st"
  by (simp_all add: audit_def)

lemma clearing_simps [simp]:
  "rs_status (clearing n rs) = rs_status rs" "rs_detail (clearing n rs) = rs_detail rs"
  "rs_cookies (clearing n rs) = rs_cookies rs @ [(n, Deleted)]" "rs_retry_after (clearing n rs) = rs_retry_after rs"
  by (simp_all add: clearing_def)

lemma reply_simps [simp]:
  "rs_status (reply s d) = s" "rs_detail (reply s d) = d" "rs_cookies (reply s d) = []" "rs_retry_after (reply s d) = None"
  "rs_delay (reply s d) = 0" "rs_hashed (reply s d) = []"
  by (simp_all add: reply_def)

lemma refuse_grows: "users_grow (pt_users st) (pt_users (snd (refuse_login rq n ur pre hashed st)))"
  by (auto simp: refuse_login_def record_failed_login_def split_beta split: option.split)

lemma login_grows: "users_grow (pt_users st) (pt_users (snd (auth_login E n pw rq st)))"
  using refuse_grows
  by (auto simp: auth_login_def Let_def mint_session_response_def split_beta split: option.split sum.split)

lemma login_totp_grows: "users_grow (pt_users st) (pt_users (snd (auth_login_totp E code rq st)))"
  by (auto simp: auth_login_totp_def Let_def mint_session_response_def split_beta split: option.split)

lemma with_caller_grows:
  "(\<And>u a. users_grow (pt_users st) (pt_users (snd (f u a st)))) \<Longrightarrow> users_grow (pt_users st) (pt_users (snd (with_caller E ok rq f st)))"
  by (auto simp: with_caller_def split: sum.split)

lemmas grow_bump = users_grow_trans [OF _ users_grow_ops(3)]

lemma change_password_grows: "users_grow (pt_users st) (pt_users (snd (auth_change_password E c n p rq st)))"
  unfolding auth_change_password_def
  by (rule with_caller_grows) (auto simp: split_beta split: option.split sum.split bool.split intro: grow_bump)

lemma totp_verify_grows: "users_grow (pt_users st) (pt_users (snd (auth_totp_verify E code rq st)))"
  unfolding auth_totp_verify_def
  by (rule with_caller_grows) (auto simp: split_beta split: option.split bool.split intro: grow_bump)

lemma totp_disable_grows: "users_grow (pt_users st) (pt_users (snd (auth_totp_disable E c code rq st)))"
  unfolding auth_totp_disable_def
  by (rule with_caller_grows) (auto simp: split_beta split: option.split sum.split intro: grow_bump)

lemma totp_setup_users: "pt_users (snd (auth_totp_setup E s rq st)) = pt_users st"
  by (simp add: auth_totp_setup_def with_caller_def split: sum.split)

lemma logout_grows: "users_grow (pt_users st) (pt_users (snd (auth_logout E rq st)))"
  by (auto simp: auth_logout_def Let_def split: option.split sum.split)

lemma handle_grows: "users_grow (pt_users st) (pt_users (snd (handle E c rq st)))"
  by (cases c) (simp_all add: login_grows login_totp_grows logout_grows change_password_grows totp_setup_users
      totp_verify_grows totp_disable_grows)

section \<open>What is signed\<close>

lemma reset_epoch [simp]: "get_session_epoch (snd (reset_failed_login i us)) j = get_session_epoch us j"
  by (simp add: reset_failed_login_def get_session_epoch_def map_of_update_row split: option.split)

lemma session_data_reset [simp]: "session_data now (snd (reset_failed_login i us)) j = session_data now us j"
  by (simp add: session_data_def)

lemma signed_in_simps [simp]:
  "signed_in now (reply s d) = []"
  "signed_in now (clearing n rs) = signed_in now rs"
  "signed_in now (rs\<lparr>rs_hashed := h\<rparr>) = signed_in now rs"
  "signed_in now (rs\<lparr>rs_delay := x\<rparr>) = signed_in now rs"
  "signed_in now (rs\<lparr>rs_retry_after := r\<rparr>) = signed_in now rs"
  "signed_in now too_many_requests = []" "signed_in now unprocessable = []"
  by (simp_all add: signed_in_def too_many_requests_def unprocessable_def)

lemma signed_in_cookies:
  "signed_in now (rs\<lparr>rs_cookies := []\<rparr>) = []"
  "signed_in now (rs\<lparr>rs_cookies := (n, Signed s p m) # cs\<rparr>) = (s, p, now) # signed_in now (rs\<lparr>rs_cookies := cs\<rparr>)"
  "signed_in now (rs\<lparr>rs_cookies := (n, Plain x m) # cs\<rparr>) = signed_in now (rs\<lparr>rs_cookies := cs\<rparr>)"
  by (simp_all add: signed_in_def)

lemma signed_by_mint:
  "signed_in now (fst (mint_session_response E rq u a st)) = [(session_salt, J_Obj (session_data (rq_time rq) (pt_users st) (user_id u)), now)]"
  by (simp add: mint_session_response_def signed_in_cookies create_session_cookie_def)

definition pending_data :: "real \<Rightarrow> int \<Rightarrow> fields" where
  "pending_data now i = [(''uid'', J_Int i), (''iat'', J_Int \<lfloor>now\<rfloor>)]"

definition enrol_data :: "real \<Rightarrow> string \<Rightarrow> int \<Rightarrow> fields" where
  "enrol_data now secret i = [(''secret'', J_Str secret), (''uid'', J_Int i), (''iat'', J_Int \<lfloor>now\<rfloor>)]"

lemma signed_pending:
  "signed_in now (rs\<lparr>rs_cookies := [set_pending_login_cookie x i]\<rparr>) = [(pending_login_salt, J_Obj (pending_data x i), now)]"
  "signed_in now (rs\<lparr>rs_cookies := [set_pending_totp_cookie x sec i]\<rparr>) = [(pending_totp_salt, J_Obj (enrol_data x sec i), now)]"
  by (simp_all add: set_pending_login_cookie_def set_pending_totp_cookie_def signed_in_cookies pending_data_def enrol_data_def)

lemma salts_differ [simp]:
  "session_salt \<noteq> pending_login_salt" "session_salt \<noteq> pending_totp_salt" "pending_login_salt \<noteq> pending_totp_salt"
  "pending_login_salt \<noteq> session_salt" "pending_totp_salt \<noteq> session_salt" "pending_totp_salt \<noteq> pending_login_salt"
  by (simp_all add: session_salt_def pending_login_salt_def pending_totp_salt_def)

text \<open>A caller has proved a password when the check of \<open>verify_password\<close> lets him through, and a one-time code
  when it fits the seed stored for him.\<close>

definition password_proved :: "portal_env \<Rightarrow> users \<Rightarrow> call \<Rightarrow> user \<Rightarrow> bool" where
  "password_proved E us c u = (case c of Login n pw \<Rightarrow> snd (verify_password (pe_bcrypt E) us n pw) = Inr (Some u) | _ \<Rightarrow> False)"

definition code_proved :: "portal_env \<Rightarrow> users \<Rightarrow> call \<Rightarrow> request \<Rightarrow> user \<Rightarrow> bool" where
  "code_proved E us c rq u = (case c of Login_Totp code \<Rightarrow>
       get_user_by_id us (user_id u) = Some u \<and> user_active u
       \<and> (case user_seed u of None \<Rightarrow> False | Some enc \<Rightarrow>
            (case decrypt_for (pe_totp E) (user_id u) enc of None \<Rightarrow> False
             | Some secret \<Rightarrow> verify_code (pe_totp E) secret code (rq_time rq)))
     | _ \<Rightarrow> False)"

lemma login_signs:
  assumes "(s, p, t) \<in> set (signed_in now (fst (auth_login E n pw rq st)))"
  shows "t = now \<and> (\<exists>u. snd (verify_password (pe_bcrypt E) (pt_users st) n pw) = Inr (Some u)
    \<and> (totp_enabled u \<and> s = pending_login_salt \<and> p = J_Obj (pending_data (rq_time rq) (user_id u))
      \<or> \<not> totp_enabled u \<and> s = session_salt \<and> p = J_Obj (session_data (rq_time rq) (pt_users st) (user_id u))))"
  using assms
  by (auto simp: auth_login_def Let_def refuse_login_def signed_by_mint signed_pending split_beta
      split: option.splits sum.splits if_splits)

lemma login_totp_signs:
  assumes "(s, p, t) \<in> set (signed_in now (fst (auth_login_totp E code rq st)))"
  shows "t = now \<and> (\<exists>u. code_proved E (pt_users st) (Login_Totp code) rq u
    \<and> read_pending_login_cookie (pe_signer E) rq = Some (user_id u)
    \<and> s = session_salt \<and> p = J_Obj (session_data (rq_time rq) (pt_users st) (user_id u)))"
proof -
  obtain i r enc sec where f: "read_pending_login_cookie (pe_signer E) rq = Some i" "map_of (pt_users st) i = Some r"
    "usr_active r" "usr_seed r = Some enc" "decrypt_for (pe_totp E) i enc = Some sec" "verify_code (pe_totp E) sec code (rq_time rq)"
    "t = now" "s = session_salt" "p = J_Obj (session_data (rq_time rq) (pt_users st) i)"
    using assms by (auto simp: auth_login_totp_def Let_def signed_by_mint split_beta user_lookup split: option.splits if_splits)
  then have "code_proved E (pt_users st) (Login_Totp code) rq (row_to_user i r)" by (simp add: code_proved_def get_user_by_id_def)
  with f show ?thesis by (intro conjI exI [of _ "row_to_user i r"]) simp_all
qed

lemma with_caller_signs:
  "(s, p, t) \<in> set (signed_in now (fst (with_caller E ok rq f st))) \<Longrightarrow>
    (\<And>rs. request_user E (pt_users st) rq = Inl rs \<Longrightarrow> signed_in now rs = []) \<Longrightarrow>
    \<exists>u a. request_user E (pt_users st) rq = Inr u \<and> (s, p, t) \<in> set (signed_in now (fst (f u a st)))"
  by (auto simp: with_caller_def split: sum.splits if_splits)

lemma request_user_signs: "request_user E us rq = Inl rs \<Longrightarrow> signed_in now rs = []"
  by (auto simp: request_user_def split: sum.splits option.splits if_splits)

text \<open>The handlers behind the session sign nothing but the cookie of an enrolment, for their caller.\<close>

lemma caller_signs:
  assumes "(s, p, t) \<in> set (signed_in now (fst (handle E c rq st)))"
    "\<forall>n pw. c \<noteq> Login n pw" "\<forall>code. c \<noteq> Login_Totp code"
  shows "t = now \<and> (\<exists>u secret. c = Totp_Setup secret \<and> request_user E (pt_users st) rq = Inr u \<and> \<not> totp_enabled u
    \<and> s = pending_totp_salt \<and> p = J_Obj (enrol_data (rq_time rq) secret (user_id u)))"
proof (cases c)
  case Logout
  then show ?thesis using assms(1) by (auto simp: auth_logout_def split: sum.splits if_splits)
next
  case Status
  then show ?thesis using assms(1) by (auto split: sum.splits if_splits)
next
  case (Change_Password a b d)
  then show ?thesis using assms(1) request_user_signs
    by (auto simp: auth_change_password_def split_beta dest!: with_caller_signs split: sum.splits option.splits if_splits bool.splits)
next
  case (Totp_Setup x)
  then show ?thesis using assms(1) request_user_signs
    by (auto simp: auth_totp_setup_def signed_pending dest!: with_caller_signs split: if_splits)
next
  case (Totp_Verify x)
  then show ?thesis using assms(1) request_user_signs
    by (auto simp: auth_totp_verify_def split_beta dest!: with_caller_signs split: option.splits if_splits bool.splits)
next
  case (Totp_Disable a b)
  then show ?thesis using assms(1) request_user_signs
    by (auto simp: auth_totp_disable_def split_beta dest!: with_caller_signs split: sum.splits option.splits if_splits)
qed (use assms in auto)

text \<open>Session and pending-login cookies come from the two login steps only.\<close>

lemma handle_signs_session:
  assumes "(session_salt, p, t) \<in> set (signed_in now (fst (handle E c rq st)))"
  shows "t = now \<and> (\<exists>u. p = J_Obj (session_data (rq_time rq) (pt_users st) (user_id u))
      \<and> (password_proved E (pt_users st) c u \<and> \<not> totp_enabled u
        \<or> code_proved E (pt_users st) c rq u \<and> read_pending_login_cookie (pe_signer E) rq = Some (user_id u)))"
proof (cases c)
  case (Login n pw)
  then show ?thesis using login_signs [of session_salt p t now E n pw rq st] assms by (auto simp: password_proved_def)
next
  case (Login_Totp code)
  then show ?thesis using login_totp_signs [of session_salt p t now E code rq st] assms by auto
qed (use caller_signs [OF assms] in auto)

lemma handle_signs_pending:
  assumes "(pending_login_salt, p, t) \<in> set (signed_in now (fst (handle E c rq st)))"
  shows "t = now \<and> (\<exists>u. p = J_Obj (pending_data (rq_time rq) (user_id u)) \<and> password_proved E (pt_users st) c u \<and> totp_enabled u)"
proof (cases c)
  case (Login n pw)
  then show ?thesis using login_signs [of pending_login_salt p t now E n pw rq st] assms by (auto simp: password_proved_def)
next
  case (Login_Totp code)
  then show ?thesis using login_totp_signs [of pending_login_salt p t now E code rq st] assms by auto
qed (use caller_signs [OF assms] in auto)

lemma handle_signs_enrolment:
  assumes "(pending_totp_salt, p, t) \<in> set (signed_in now (fst (handle E c rq st)))"
  shows "t = now \<and> (\<exists>u secret. c = Totp_Setup secret \<and> request_user E (pt_users st) rq = Inr u
    \<and> \<not> totp_enabled u \<and> p = J_Obj (enrol_data (rq_time rq) secret (user_id u)))"
proof (cases c)
  case (Login n pw)
  then show ?thesis using login_signs [of pending_totp_salt p t now E n pw rq st] assms by auto
next
  case (Login_Totp code)
  then show ?thesis using login_totp_signs [of pending_totp_salt p t now E code rq st] assms by auto
qed (use caller_signs [OF assms] in auto)

end
