(* ===== verification/Auth_Properties.thy ===== *)
theory Auth_Properties
  imports Auth_Steps
begin

text \<open>
  Runs of the portal: requests served one after the other, in order of time, whose cookies load only if the portal
  signed them earlier in the run.  Over all of them a session needs the credentials of its user, a revocation ends
  every earlier session of that user and of no other, and guessing is bounded.
\<close>

section \<open>Runs\<close>

record entry =
  en_call :: call
  en_request :: request
  en_before :: portal
  en_response :: response

abbreviation entry_time :: "entry \<Rightarrow> real" where
  "entry_time x \<equiv> rq_time (en_request x)"

abbreviation entry_users :: "entry \<Rightarrow> users" where
  "entry_users x \<equiv> pt_users (en_before x)"

definition signed_by :: "entry \<Rightarrow> signed_log" where
  "signed_by x = signed_in (entry_time x) (en_response x)"

definition signed_log_of :: "entry list \<Rightarrow> signed_log" where
  "signed_log_of h = concat (map signed_by h)"

definition cookies_genuine :: "portal_env \<Rightarrow> entry list \<Rightarrow> request \<Rightarrow> bool" where
  "cookies_genuine E h rq \<longleftrightarrow> (\<forall>(n, tok) \<in> set (rq_cookies rq). genuine (pe_signer E) (signed_log_of h) (rq_time rq) tok)"

definition served :: "portal_env \<Rightarrow> call \<Rightarrow> request \<Rightarrow> portal \<Rightarrow> entry" where
  "served E c rq st = \<lparr>en_call = c, en_request = rq, en_before = st, en_response = fst (handle E c rq st)\<rparr>"

inductive serves :: "portal_env \<Rightarrow> portal \<Rightarrow> entry list \<Rightarrow> portal \<Rightarrow> bool" for E st0 where
  Boot: "serves E st0 [] st0"
| Serve: "serves E st0 h st \<Longrightarrow> cookies_genuine E h rq \<Longrightarrow> \<forall>x \<in> set h. entry_time x \<le> rq_time rq \<Longrightarrow>
    serves E st0 (h @ [served E c rq st]) (snd (handle E c rq st))"

lemma signed_log_snoc [simp]: "signed_log_of (h @ xs) = signed_log_of h @ signed_log_of xs"
  by (simp add: signed_log_of_def)

lemma signed_log_member: "e \<in> set (signed_log_of h) \<longleftrightarrow> (\<exists>x \<in> set h. e \<in> set (signed_by x))"
  by (simp add: signed_log_of_def)

lemma signed_by_served: "signed_by (served E c rq st) = signed_in (rq_time rq) (fst (handle E c rq st))"
  by (simp add: signed_by_def served_def)

lemma served_simps [simp]:
  "en_call (served E c rq st) = c" "en_request (served E c rq st) = rq" "en_before (served E c rq st) = st"
  "en_response (served E c rq st) = fst (handle E c rq st)"
  by (simp_all add: served_def)

lemma serves_entry:
  "serves E st0 h st \<Longrightarrow> x \<in> set h \<Longrightarrow> x = served E (en_call x) (en_request x) (en_before x)"
  by (induction rule: serves.induct) (auto simp: served_def)

lemma serves_grow: "serves E st0 h st \<Longrightarrow> users_grow (pt_users st0) (pt_users st)"
  by (induction rule: serves.induct) (auto intro: users_grow_trans [OF _ handle_grows])

text \<open>A run can be cut at any entry.\<close>

lemma serves_split:
  "serves E st0 h st \<Longrightarrow> h = h1 @ x # h2 \<Longrightarrow>
    serves E st0 h1 (en_before x) \<and> cookies_genuine E h1 (en_request x)
    \<and> serves E st0 (h1 @ [x]) (snd (handle E (en_call x) (en_request x) (en_before x)))
    \<and> users_grow (pt_users (snd (handle E (en_call x) (en_request x) (en_before x)))) (pt_users st)"
proof (induction arbitrary: h2 rule: serves.induct)
  case (Serve h st rq c)
  show ?case
  proof (cases h2 rule: rev_cases)
    case Nil
    then have "h1 = h" "x = served E c rq st" using Serve.prems by simp_all
    then show ?thesis using Serve.hyps serves.Serve [OF Serve.hyps] by simp
  next
    case (snoc ys y)
    then have "h = h1 @ x # ys" using Serve.prems by simp
    from Serve.IH [OF this] show ?thesis by (auto intro: users_grow_trans [OF _ handle_grows])
  qed
qed simp

section \<open>Sessions need credentials\<close>

lemma pending_read_genuine:
  assumes "cookies_genuine E h rq" "read_pending_login_cookie (pe_signer E) rq = Some i"
  shows "\<exists>d t. (pending_login_salt, J_Obj d, t) \<in> set (signed_log_of h) \<and> rq_time rq - t < 121 \<and> fields_uid d = Some i"
proof -
  obtain raw d where r: "map_of (rq_cookies rq) pending_login_cookie = Some raw"
    "loads (pe_signer E) pending_login_salt raw pending_login_ttl (rq_time rq) = Some (J_Obj d)" "fields_uid d = Some i"
    using assms(2) by (auto simp: read_pending_login_cookie_def split: option.splits payload.splits if_splits)
  then have "genuine (pe_signer E) (signed_log_of h) (rq_time rq) raw"
    using assms(1) by (fastforce simp: cookies_genuine_def dest: map_of_SomeD)
  with r show ?thesis by (fastforce simp: genuine_def pending_login_ttl_def)
qed

lemma pending_uid: "fields_uid (pending_data t i) = Some j \<Longrightarrow> i = j"
  by (auto simp: fields_uid_def pending_data_def split: if_splits)

text \<open>C11: a session cookie is issued only to a user who has given his password in the same request and has no second
  factor, or who gives a valid one-time code and whose password was given, in this run, at most two minutes before.\<close>

theorem sessions_need_credentials:
  assumes "serves E st0 h st" "x \<in> set h" "(session_salt, p, t) \<in> set (signed_by x)"
  shows "\<exists>u. p = J_Obj (session_data (entry_time x) (entry_users x) (user_id u))
    \<and> (password_proved E (entry_users x) (en_call x) u \<and> \<not> totp_enabled u
      \<or> code_proved E (entry_users x) (en_call x) (en_request x) u
        \<and> (\<exists>y \<in> set h. \<exists>v. password_proved E (entry_users y) (en_call y) v \<and> totp_enabled v \<and> user_id v = user_id u
          \<and> entry_time x < entry_time y + 121))"
proof -
  obtain h1 h2 where h: "h = h1 @ x # h2" using assms(2) by (meson split_list)
  note run = serves_split [OF assms(1) h]
  have "x = served E (en_call x) (en_request x) (en_before x)" by (rule serves_entry [OF assms(1,2)])
  then have "(session_salt, p, t) \<in> set (signed_in (entry_time x) (fst (handle E (en_call x) (en_request x) (en_before x))))"
    using assms(3) signed_by_served by metis
  then obtain u where u: "p = J_Obj (session_data (entry_time x) (entry_users x) (user_id u))"
    "password_proved E (entry_users x) (en_call x) u \<and> \<not> totp_enabled u
      \<or> code_proved E (entry_users x) (en_call x) (en_request x) u
        \<and> read_pending_login_cookie (pe_signer E) (en_request x) = Some (user_id u)"
    using handle_signs_session by blast
  have "\<exists>y \<in> set h. \<exists>v. password_proved E (entry_users y) (en_call y) v \<and> totp_enabled v \<and> user_id v = user_id u
      \<and> entry_time x < entry_time y + 121"
    if pend: "read_pending_login_cookie (pe_signer E) (en_request x) = Some (user_id u)"
  proof -
    obtain d t' y where y: "y \<in> set h1" "(pending_login_salt, J_Obj d, t') \<in> set (signed_by y)"
      "entry_time x - t' < 121" "fields_uid d = Some (user_id u)"
      using pending_read_genuine [OF _ pend] run unfolding signed_log_member by blast
    have yh: "y \<in> set h" using y(1) h by simp
    have "y = served E (en_call y) (en_request y) (en_before y)" by (rule serves_entry [OF assms(1) yh])
    then have "(pending_login_salt, J_Obj d, t') \<in> set (signed_in (entry_time y) (fst (handle E (en_call y) (en_request y) (en_before y))))"
      using y(2) signed_by_served by metis
    from handle_signs_pending [OF this] obtain v where "t' = entry_time y" "d = pending_data (entry_time y) (user_id v)"
      "password_proved E (entry_users y) (en_call y) v" "totp_enabled v" by auto
    then show ?thesis using y yh pending_uid [of "entry_time y" "user_id v" "user_id u"] by force
  qed
  with u show ?thesis by blast
qed

section \<open>Revocation\<close>

lemma proved_user_exists:
  "password_proved E us c u \<Longrightarrow> user_id u \<in> set (keys us)" "code_proved E us c rq u \<Longrightarrow> user_id u \<in> set (keys us)"
  unfolding password_proved_def code_proved_def verify_password_iff user_lookup
  by (auto split: call.splits dest!: map_of_mem_keys)

text \<open>Every session ever issued names a user of the table and an epoch he has had.\<close>

lemma issued_sessions:
  assumes "serves E st0 h st" "(session_salt, p, t) \<in> set (signed_log_of h)"
  shows "\<exists>i us. p = J_Obj (session_data t us i) \<and> i \<in> set (keys (pt_users st)) \<and> get_session_epoch us i \<le> get_session_epoch (pt_users st) i"
  using assms
proof (induction rule: serves.induct)
  case (Serve h st rq c)
  note g = handle_grows [of st E c rq]
  consider "(session_salt, p, t) \<in> set (signed_log_of h)"
    | "(session_salt, p, t) \<in> set (signed_in (rq_time rq) (fst (handle E c rq st)))"
    using Serve.prems by (auto simp: signed_log_of_def signed_by_served)
  then show ?case
  proof cases
    case 1
    then show ?thesis using Serve.IH users_grow_epoch [OF g] users_grow_keys [OF g] by (metis order_trans)
  next
    case 2
    from handle_signs_session [OF this] show ?thesis
      using proved_user_exists users_grow_epoch [OF g] users_grow_keys [OF g] by metis
  qed
qed (simp add: signed_log_of_def)

text \<open>The requests that end the sessions of a user: his logout, when the write of the epoch does not raise, and his
  successful change of password or second factor.\<close>

definition revokes :: "portal_env \<Rightarrow> entry \<Rightarrow> int \<Rightarrow> bool" where
  "revokes E x i =
     (let caller = (case request_user E (entry_users x) (en_request x) of Inl _ \<Rightarrow> None | Inr u \<Rightarrow> Some (user_id u));
          done_by = (rs_status (en_response x) = 200 \<and> caller = Some i) in
      (case en_call x of
         Logout \<Rightarrow> rq_admitted (en_request x) \<and> rq_epoch_write (en_request x)
           \<and> (case request_session E (entry_users x) (en_request x) of Inr (Some d) \<Rightarrow> fields_uid d = Some i | _ \<Rightarrow> False)
       | Change_Password _ _ _ \<Rightarrow> done_by
       | Totp_Verify _ \<Rightarrow> done_by
       | Totp_Disable _ _ \<Rightarrow> done_by
       | _ \<Rightarrow> False))"

lemma bump_epoch:
  "get_session_epoch (snd (bump_session_epoch i us)) j = get_session_epoch us j + (if j = i \<and> i \<in> set (keys us) then 1 else 0)"
  by (auto simp: get_session_epoch_def bump_session_epoch_def Let_def map_of_update_row split: option.split
      dest: map_of_mem_keys simp: map_of_eq_None_iff)

lemma epoch_kept [simp]:
  "get_session_epoch (snd (set_password B i pw us)) j = get_session_epoch us j" "keys (snd (set_password B i pw us)) = keys us"
  "get_session_epoch (snd (update_user_totp_seed i s us)) j = get_session_epoch us j" "keys (snd (update_user_totp_seed i s us)) = keys us"
  by (auto simp: get_session_epoch_def set_password_def update_user_totp_seed_def map_of_update_row split: option.split sum.split)

lemma revoking_step:
  assumes "revokes E (served E c rq st) i"
  shows "get_session_epoch (pt_users (snd (handle E c rq st))) j
      = get_session_epoch (pt_users st) j + (if j = i \<and> i \<in> set (keys (pt_users st)) then 1 else 0)
    \<and> signed_in (rq_time rq) (fst (handle E c rq st)) = []"
proof (cases c)
  case Logout
  then show ?thesis using assms
    by (auto simp: revokes_def Let_def auth_logout_def bump_epoch split: sum.splits option.splits)
next
  case (Change_Password a b d)
  then obtain u where u: "request_user E (pt_users st) rq = Inr u" "user_id u = i"
    "rs_status (fst (auth_change_password E a b d rq st)) = 200"
    using assms by (auto simp: revokes_def Let_def split: sum.splits)
  then show ?thesis using Change_Password
    by (auto simp: auth_change_password_def with_caller_def split_beta bump_epoch unprocessable_def too_many_requests_def
        split: sum.splits option.splits if_splits bool.splits)
next
  case (Totp_Verify a)
  then obtain u where u: "request_user E (pt_users st) rq = Inr u" "user_id u = i"
    "rs_status (fst (auth_totp_verify E a rq st)) = 200"
    using assms by (auto simp: revokes_def Let_def split: sum.splits)
  then show ?thesis using Totp_Verify
    by (auto simp: auth_totp_verify_def with_caller_def split_beta bump_epoch unprocessable_def too_many_requests_def
        split: sum.splits option.splits if_splits bool.splits)
next
  case (Totp_Disable a b)
  then obtain u where u: "request_user E (pt_users st) rq = Inr u" "user_id u = i"
    "rs_status (fst (auth_totp_disable E a b rq st)) = 200"
    using assms by (auto simp: revokes_def Let_def split: sum.splits)
  then show ?thesis using Totp_Disable
    by (auto simp: auth_totp_disable_def with_caller_def split_beta bump_epoch unprocessable_def too_many_requests_def
        split: sum.splits option.splits if_splits)
qed (use assms in \<open>simp_all add: revokes_def\<close>)

lemma session_data_uid: "fields_uid (session_data t us i) = Some j \<Longrightarrow> i = j"
  by (auto simp: fields_uid_def session_data_def split: if_splits)

lemma session_data_valid:
  "session_fields vs (session_data t us i) = Some d \<Longrightarrow> get_session_epoch us i = get_session_epoch vs i"
  by (auto simp: session_fields_def session_data_def split: if_splits)

text \<open>C12: a logout whose write of the epoch does not raise, a password change, the enrolment and the removal of a second
  factor end every session their user was ever issued, for the rest of the run, and leave the epochs of all other users alone.\<close>

theorem revocation_is_final:
  assumes "serves E st0 (h1 @ x # h2) st" "revokes E x i"
    "(session_salt, J_Obj d, t) \<in> set (signed_log_of (h1 @ [x]))" "fields_uid d = Some i"
  shows "session_fields (pt_users st) d = None
    \<and> (\<forall>j. j \<noteq> i \<longrightarrow> get_session_epoch (pt_users (snd (handle E (en_call x) (en_request x) (en_before x)))) j = get_session_epoch (entry_users x) j)"
proof -
  let ?st1 = "snd (handle E (en_call x) (en_request x) (en_before x))"
  note run = serves_split [OF assms(1) refl]
  have x: "x = served E (en_call x) (en_request x) (en_before x)" by (rule serves_entry [OF assms(1)]) simp
  note step = revoking_step [of E "en_call x" "en_request x" "en_before x" i]
  have step: "get_session_epoch (pt_users ?st1) j = get_session_epoch (entry_users x) j + (if j = i \<and> i \<in> set (keys (entry_users x)) then 1 else 0)"
    "signed_by x = []" for j
    using step [of j] assms(2) x signed_by_served by metis+
  then have "(session_salt, J_Obj d, t) \<in> set (signed_log_of h1)" using assms(3) by (simp add: signed_log_of_def)
  then obtain k us where k: "d = session_data t us k" "k \<in> set (keys (entry_users x))" "get_session_epoch us k \<le> get_session_epoch (entry_users x) k"
    using issued_sessions run by blast
  have "k = i" using k(1) assms(4) session_data_uid by simp
  then have "get_session_epoch us i < get_session_epoch (pt_users ?st1) i" using k step(1) by simp
  also have "\<dots> \<le> get_session_epoch (pt_users st) i" using run users_grow_epoch by blast
  finally have "session_fields (pt_users st) d = None" using k(1) \<open>k = i\<close> session_data_valid by fastforce
  then show ?thesis using step(1) by simp
qed

text \<open>A logout whose write raises gets the same answer and the same audit line as one that worked, and ends nothing.\<close>

theorem failed_logout_looks_done:
  assumes "\<not> rq_epoch_write rq"
  shows "fst (auth_logout E rq st) = fst (auth_logout E (rq\<lparr>rq_epoch_write := True\<rparr>) st)
    \<and> pt_audit (snd (auth_logout E rq st)) = pt_audit (snd (auth_logout E (rq\<lparr>rq_epoch_write := True\<rparr>) st))
    \<and> pt_users (snd (auth_logout E rq st)) = pt_users st"
proof -
  have s: "request_session E us (rq\<lparr>rq_epoch_write := True\<rparr>) = request_session E us rq" for us
    by (simp add: request_session_def)
  have u: "map_option user_name (get_user_by_id (snd (bump_session_epoch i us)) i) = map_option user_name (get_user_by_id us i)" for i us
    by (cases "map_of us i") (simp_all add: bump_session_epoch_def get_user_by_id_def Let_def map_of_update_row)
  then have "(case get_user_by_id (snd (bump_session_epoch i us)) i of None \<Rightarrow> ''-'' | Some v \<Rightarrow> user_name v)
      = (case get_user_by_id us i of None \<Rightarrow> ''-'' | Some v \<Rightarrow> user_name v)" for i us
    using u [of i us] by (cases "get_user_by_id (snd (bump_session_epoch i us)) i"; cases "get_user_by_id us i") simp_all
  then show ?thesis
    using assms by (auto simp: auth_logout_def s Let_def audit_def split: sum.split option.split)
qed

end
