(* ===== verification/Auth_Throttle.thy ===== *)
theory Auth_Throttle
  imports Auth_Properties
begin

text \<open>
  Bounds on guessing: the counter of an account over whole runs of the portal, and the dictionary of addresses that
  tried unknown names.  Both counters are interpretations of the locale \<open>throttle\<close>.
\<close>

section \<open>One account\<close>

definition streak_of :: "user_row \<Rightarrow> int \<times> real option" where
  "streak_of r = (usr_fails r, parse_iso_dt (usr_last_fail r))"

text \<open>A failed guess at the password or at the one-time code of account \<open>i\<close>.\<close>

definition failed_guess :: "portal_env \<Rightarrow> int \<Rightarrow> entry \<Rightarrow> bool" where
  "failed_guess E i x = (rs_status (en_response x) = 401 \<and> (case en_call x of
       Login n _ \<Rightarrow> (case get_user_by_username (entry_users x) n of None \<Rightarrow> False | Some u \<Rightarrow> user_id u = i)
     | Login_Totp _ \<Rightarrow> rs_detail (en_response x) = ''Invalid TOTP code'' \<and> read_pending_login_cookie (pe_signer E) (en_request x) = Some i
     | _ \<Rightarrow> False))"

text \<open>What clears the counter, a full login, and the one handler that counts failures without asking the gate.\<close>

definition logs_in :: "int \<Rightarrow> entry \<Rightarrow> bool" where
  "logs_in i x = list_ex (\<lambda>(s, p, t). s = session_salt \<and> (case p of J_Obj d \<Rightarrow> fields_uid d = Some i | J_Non_Obj \<Rightarrow> False)) (signed_by x)"

definition removes_factor :: "portal_env \<Rightarrow> int \<Rightarrow> entry \<Rightarrow> bool" where
  "removes_factor E i x = (case en_call x of
       Totp_Disable _ _ \<Rightarrow> (case request_user E (entry_users x) (en_request x) of Inl _ \<Rightarrow> False | Inr u \<Rightarrow> user_id u = i)
     | _ \<Rightarrow> False)"

lemma streak_updates:
  "map_of us i = Some r \<Longrightarrow> \<exists>r'. map_of (snd (bump_session_epoch j us)) i = Some r' \<and> streak_of r' = streak_of r"
  "map_of us i = Some r \<Longrightarrow> \<exists>r'. map_of (snd (set_password B j pw us)) i = Some r' \<and> streak_of r' = streak_of r"
  "map_of us i = Some r \<Longrightarrow> \<exists>r'. map_of (snd (update_user_totp_seed j seed us)) i = Some r' \<and> streak_of r' = streak_of r"
  by (auto simp: bump_session_epoch_def set_password_def update_user_totp_seed_def map_of_update_row streak_of_def
      split: sum.split)

lemma streak_bump: "\<exists>r'. map_of us i = Some r' \<and> streak_of r' = q \<Longrightarrow> \<exists>r'. map_of (snd (bump_session_epoch j us)) i = Some r' \<and> streak_of r' = q"
  using streak_updates(1) by metis

lemma row_increment:
  "map_of us i = Some r \<Longrightarrow> map_of (snd (increment_failed_login now j us)) i = Some (if j = i then count_failure now r else r)"
  by (cases "map_of us j") (auto simp: increment_failed_login_def map_of_update_row)

lemma row_reset: "map_of us i = Some r \<Longrightarrow> j \<noteq> i \<Longrightarrow> map_of (snd (reset_failed_login j us)) i = Some r"
  by (simp add: reset_failed_login_def map_of_update_row)

lemma uid_of_session: "0 < i \<Longrightarrow> fields_uid (session_data t us i) = Some i"
  by (simp add: fields_uid_def session_data_def)

lemma mint_simps [simp]:
  "rs_status (fst (mint_session_response E rq u a st)) = 200"
  "pt_users (snd (mint_session_response E rq u a st)) = pt_users st" "pt_unknown (snd (mint_session_response E rq u a st)) = pt_unknown st"
  by (simp_all add: mint_session_response_def)

lemma refuse_simps:
  "rs_status (fst (refuse_login rq n ur k hs st)) = 401"
  "pt_users (snd (refuse_login rq n ur k hs st)) = (case ur of None \<Rightarrow> pt_users st
     | Some u \<Rightarrow> snd (increment_failed_login (rq_time rq) (user_id u) (pt_users st)))"
  "pt_unknown (snd (refuse_login rq n ur k hs st)) = (case ur of Some _ \<Rightarrow> pt_unknown st
     | None \<Rightarrow> snd (unknown_user_fail_bump (rq_time rq) (get_remote_address rq) (pt_unknown st)))"
  by (auto simp: refuse_login_def record_failed_login_def split_beta split: option.split)

text \<open>The outcomes of a login: nothing counted, a refusal that is counted, a full login.\<close>

lemma auth_login_cases:
  fixes E n pw rq st
  defines "rs \<equiv> fst (auth_login E n pw rq st)" and "st' \<equiv> snd (auth_login E n pw rq st)" and "us \<equiv> pt_users st"
  shows "rs_status rs \<noteq> 401 \<and> pt_users st' = us \<and> pt_unknown st' = pt_unknown st
    \<or> (\<exists>k hs. auth_login E n pw rq st = refuse_login rq n (get_user_by_username us n) k hs st
      \<and> (\<forall>u. get_user_by_username us n = Some u \<longrightarrow> check_login_rate_limit (rq_time rq) us (user_id u) = None))
    \<or> (\<exists>u. get_user_by_username us n = Some u \<and> rs_status rs = 200 \<and> pt_users st' = snd (reset_failed_login (user_id u) us)
      \<and> pt_unknown st' = pt_unknown st
      \<and> signed_in (rq_time rq) rs = [(session_salt, J_Obj (session_data (rq_time rq) us (user_id u)), rq_time rq)])"
proof -
  obtain hs r where v: "verify_password (pe_bcrypt E) us n pw = (hs, r)" by fastforce
  have ok: "get_user_by_username us n = Some u" if "r = Inr (Some u)" for u
    using verify_password_iff [of "pe_bcrypt E" us n pw u] that v by simp
  show ?thesis
  proof (cases "\<exists>u. r = Inr (Some u)")
    case True
    then obtain u where u: "r = Inr (Some u)" "get_user_by_username us n = Some u" using ok by blast
    show ?thesis using v u unfolding rs_def st'_def us_def auth_login_def Let_def
      by (auto simp: signed_by_mint split_beta too_many_requests_def unprocessable_def split: option.split)
  next
    case False
    let ?ur = "get_user_by_username us n"
    let ?pre = "case ?ur of Some u \<Rightarrow> effective_count (rq_time rq) (get_failed_login_state us (user_id u))
      | None \<Rightarrow> unknown_user_fail_get (rq_time rq) (get_remote_address rq) (pt_unknown st)"
    let ?gate = "case ?ur of Some u \<Rightarrow> check_login_rate_limit (rq_time rq) us (user_id u) | None \<Rightarrow> None"
    let ?open = "login_body_ok n pw \<and> rq_admitted rq \<and> ?gate = None \<and> \<not> (?ur = None \<and> ?pre \<ge> per_account_fail_limit)"
    show ?thesis
    proof (cases "?open \<and> r = Inr None")
      case True
      then have "auth_login E n pw rq st = refuse_login rq n ?ur ?pre hs st"
        using v unfolding auth_login_def Let_def us_def by (cases "get_user_by_username (pt_users st) n") auto
      moreover have "\<forall>u. ?ur = Some u \<longrightarrow> check_login_rate_limit (rq_time rq) us (user_id u) = None" using True by auto
      ultimately show ?thesis by blast
    next
      case closed: False
      have "(\<exists>e. r = Inl e) \<or> r = Inr None" using False by (metis obj_sumE option.exhaust)
      then have "rs_status rs \<noteq> 401 \<and> pt_users st' = us \<and> pt_unknown st' = pt_unknown st"
        using v closed unfolding rs_def st'_def us_def auth_login_def Let_def
        by (auto simp: too_many_requests_def unprocessable_def split: option.split)
      then show ?thesis by blast
    qed
  qed
qed

lemma auth_totp_cases:
  fixes E code rq st
  defines "rs \<equiv> fst (auth_login_totp E code rq st)" and "st' \<equiv> snd (auth_login_totp E code rq st)" and "us \<equiv> pt_users st"
  shows "pt_unknown st' = pt_unknown st \<and>
    (\<not> (rs_status rs = 401 \<and> rs_detail rs = ''Invalid TOTP code'') \<and> pt_users st' = us
    \<or> (\<exists>j. rs_status rs = 401 \<and> rs_detail rs = ''Invalid TOTP code'' \<and> read_pending_login_cookie (pe_signer E) rq = Some j
      \<and> check_login_rate_limit (rq_time rq) us j = None \<and> pt_users st' = snd (increment_failed_login (rq_time rq) j us))
    \<or> (\<exists>j. rs_status rs = 200 \<and> read_pending_login_cookie (pe_signer E) rq = Some j \<and> pt_users st' = snd (reset_failed_login j us)
      \<and> signed_in (rq_time rq) rs = [(session_salt, J_Obj (session_data (rq_time rq) us j), rq_time rq)]))"
  unfolding rs_def st'_def us_def auth_login_totp_def Let_def
  by (cases "read_pending_login_cookie (pe_signer E) rq")
    (auto simp: split_beta too_many_requests_def unprocessable_def signed_by_mint user_lookup split: option.split)

text \<open>What a login does to the row of an account, given that it does not succeed for it.\<close>

lemma login_row:
  assumes "map_of (pt_users st) i = Some r" "users_wf (pt_users st)" "\<not> logs_in i (served E (Login n pw) rq st)"
  shows "\<exists>r'. map_of (pt_users (snd (auth_login E n pw rq st))) i = Some r'
    \<and> (if failed_guess E i (served E (Login n pw) rq st)
       then \<not> row_limited (rq_time rq) r \<and> streak_of r' = streak_of (count_failure (rq_time rq) r)
       else streak_of r' = streak_of r)"
proof -
  let ?rs = "fst (auth_login E n pw rq st)" and ?us = "pt_users st" and ?now = "rq_time rq"
  have pos: "0 < user_id u" if "get_user_by_username ?us n = Some u" for u
    using username_lookup [OF that assms(2)] assms(2) by (fastforce simp: user_lookup users_wf_def list_all_iff dest: map_of_SomeD)
  have guess: "failed_guess E i (served E (Login n pw) rq st) \<longleftrightarrow>
      rs_status ?rs = 401 \<and> (\<exists>u. get_user_by_username ?us n = Some u \<and> user_id u = i)"
    by (auto simp: failed_guess_def split: option.splits)
  consider (quiet) "rs_status ?rs \<noteq> 401" "pt_users (snd (auth_login E n pw rq st)) = ?us"
    | (refused) k hs where "auth_login E n pw rq st = refuse_login rq n (get_user_by_username ?us n) k hs st"
        "\<forall>u. get_user_by_username ?us n = Some u \<longrightarrow> check_login_rate_limit ?now ?us (user_id u) = None"
    | (success) u where "get_user_by_username ?us n = Some u" "rs_status ?rs = 200"
        "pt_users (snd (auth_login E n pw rq st)) = snd (reset_failed_login (user_id u) ?us)"
        "signed_in ?now ?rs = [(session_salt, J_Obj (session_data ?now ?us (user_id u)), ?now)]"
    using auth_login_cases [of E n pw rq st] by blast
  then show ?thesis
  proof cases
    case quiet
    then have "\<not> failed_guess E i (served E (Login n pw) rq st)" using guess by blast
    then show ?thesis using quiet(2) assms(1) by simp
  next
    case refused
    have "\<not> row_limited ?now r" if "get_user_by_username ?us n = Some u" "user_id u = i" for u
      using refused(2) that limited_row [OF assms(1), of ?now] by simp
    then show ?thesis using guess row_increment [OF assms(1), of ?now] assms(1)
      unfolding refused(1) refuse_simps by (cases "get_user_by_username ?us n") auto
  next
    case success
    then have "user_id u \<noteq> i" using assms(3) uid_of_session [OF pos [OF success(1)], of ?now ?us]
      by (auto simp: logs_in_def signed_by_served)
    then show ?thesis using success(2,3) guess row_reset [OF assms(1)] by simp
  qed
qed

lemma login_totp_row:
  assumes "map_of (pt_users st) i = Some r" "\<not> logs_in i (served E (Login_Totp code) rq st)"
  shows "\<exists>r'. map_of (pt_users (snd (auth_login_totp E code rq st))) i = Some r'
    \<and> (if failed_guess E i (served E (Login_Totp code) rq st)
       then \<not> row_limited (rq_time rq) r \<and> streak_of r' = streak_of (count_failure (rq_time rq) r)
       else streak_of r' = streak_of r)"
proof -
  let ?rs = "fst (auth_login_totp E code rq st)" and ?us = "pt_users st" and ?now = "rq_time rq"
  let ?invalid = "rs_status ?rs = 401 \<and> rs_detail ?rs = ''Invalid TOTP code''"
  have guess: "failed_guess E i (served E (Login_Totp code) rq st) \<longleftrightarrow> ?invalid \<and> read_pending_login_cookie (pe_signer E) rq = Some i"
    by (auto simp: failed_guess_def)
  consider (quiet) "\<not> ?invalid" "pt_users (snd (auth_login_totp E code rq st)) = ?us"
    | (wrong) j where "?invalid" "read_pending_login_cookie (pe_signer E) rq = Some j" "check_login_rate_limit ?now ?us j = None"
        "pt_users (snd (auth_login_totp E code rq st)) = snd (increment_failed_login ?now j ?us)"
    | (success) j where "rs_status ?rs = 200" "read_pending_login_cookie (pe_signer E) rq = Some j"
        "pt_users (snd (auth_login_totp E code rq st)) = snd (reset_failed_login j ?us)"
        "signed_in ?now ?rs = [(session_salt, J_Obj (session_data ?now ?us j), ?now)]"
    using auth_totp_cases [of E code rq st] by blast
  then show ?thesis
  proof cases
    case quiet
    then have "\<not> failed_guess E i (served E (Login_Totp code) rq st)" using guess by blast
    then show ?thesis using quiet(2) assms(1) by simp
  next
    case wrong
    then show ?thesis using guess row_increment [OF assms(1), of ?now] limited_row [OF assms(1), of ?now] by auto
  next
    case success
    have "0 < j" using success(2) by (auto simp: read_pending_login_cookie_def fields_uid_def split: option.splits payload.splits if_splits)
    then have "j \<noteq> i" using assms(2) uid_of_session [of j ?now ?us] success(4) by (auto simp: logs_in_def signed_by_served)
    then show ?thesis using success guess row_reset [OF assms(1)] by simp
  qed
qed

lemma caller_row:
  assumes "map_of (pt_users st) i = Some r" "\<not> removes_factor E i (served E c rq st)"
    "\<forall>n pw. c \<noteq> Login n pw" "\<forall>code. c \<noteq> Login_Totp code"
  shows "\<exists>r'. map_of (pt_users (snd (handle E c rq st))) i = Some r' \<and> streak_of r' = streak_of r"
proof (cases c)
  case Logout
  then show ?thesis using assms(1) streak_updates(1)
    by (auto simp: auth_logout_def Let_def split: option.splits sum.splits)
next
  case (Change_Password a b d)
  then show ?thesis using assms(1) streak_updates(2) [OF assms(1)]
    by (auto simp: auth_change_password_def with_caller_def split_beta intro!: streak_bump split: option.splits sum.splits bool.splits)
next
  case (Totp_Verify a)
  then show ?thesis using assms(1) streak_updates(3) [OF assms(1)]
    by (auto simp: auth_totp_verify_def with_caller_def split_beta intro!: streak_bump split: option.splits sum.splits bool.splits)
next
  case (Totp_Setup a)
  then show ?thesis using assms(1) by (simp add: totp_setup_users)
next
  case (Totp_Disable a b)
  then have "user_id u \<noteq> i" if "request_user E (pt_users st) rq = Inr u" for u
    using assms(2) that by (auto simp: removes_factor_def)
  then show ?thesis using Totp_Disable assms(1) streak_updates(3) [OF assms(1)] row_increment [OF assms(1)]
    by (auto simp: auth_totp_disable_def with_caller_def split_beta intro!: streak_bump split: option.splits sum.splits)
qed (use assms in auto)

text \<open>Every request either is a failed guess at an account, which the gate has let through and the counter has
  seen, or leaves the counter of the account alone.\<close>

lemma handle_row:
  assumes "map_of (pt_users st) i = Some r" "users_wf (pt_users st)" "\<not> logs_in i (served E c rq st)"
    "\<not> removes_factor E i (served E c rq st)"
  shows "\<exists>r'. map_of (pt_users (snd (handle E c rq st))) i = Some r'
    \<and> (if failed_guess E i (served E c rq st)
       then \<not> row_limited (rq_time rq) r \<and> streak_of r' = streak_of (count_failure (rq_time rq) r)
       else streak_of r' = streak_of r)"
proof (cases "(\<exists>n pw. c = Login n pw) \<or> (\<exists>code. c = Login_Totp code)")
  case True
  then show ?thesis using login_row [OF assms(1,2)] login_totp_row [OF assms(1)] assms(3) by fastforce
next
  case False
  then have "\<not> failed_guess E i (served E c rq st)" by (cases c) (auto simp: failed_guess_def)
  then show ?thesis using caller_row [OF assms(1,4)] False by auto
qed

definition stamped_before :: "int \<Rightarrow> users \<Rightarrow> real \<Rightarrow> bool" where
  "stamped_before i us t = (case map_of us i of None \<Rightarrow> True
     | Some r \<Rightarrow> (case parse_iso_dt (usr_last_fail r) of None \<Rightarrow> True | Some l \<Rightarrow> l \<le> t))"

lemma run_trail:
  assumes "serves E st0 h st" "users_wf (pt_users st0)" "map_of (pt_users st0) i = Some r0"
    "\<forall>x \<in> set h. stamped_before i (pt_users st0) (entry_time x) \<and> \<not> logs_in i x \<and> \<not> removes_factor E i x"
  shows "\<exists>r. map_of (pt_users st) i = Some r \<and> rows.trail r0 (map entry_time (filter (failed_guess E i) h)) r
    \<and> (\<forall>l. parse_iso_dt (usr_last_fail r) = Some l \<longrightarrow> parse_iso_dt (usr_last_fail r0) = Some l \<or> (\<exists>x \<in> set h. l = entry_time x))"
  using assms
proof (induction rule: serves.induct)
  case Boot
  then show ?case using rows.trail.Begin by simp
next
  case (Serve h st rq c)
  let ?x = "served E c rq st"
  obtain r where r: "map_of (pt_users st) i = Some r" "rows.trail r0 (map entry_time (filter (failed_guess E i) h)) r"
    "\<forall>l. parse_iso_dt (usr_last_fail r) = Some l \<longrightarrow> parse_iso_dt (usr_last_fail r0) = Some l \<or> (\<exists>x \<in> set h. l = entry_time x)"
    using Serve.IH Serve.prems by auto
  have wf: "users_wf (pt_users st)" using users_grow_wf [OF serves_grow [OF Serve.hyps(1)] Serve.prems(1)] .
  obtain r' where r': "map_of (pt_users (snd (handle E c rq st))) i = Some r'"
    "if failed_guess E i ?x then \<not> row_limited (rq_time rq) r \<and> streak_of r' = streak_of (count_failure (rq_time rq) r)
       else streak_of r' = streak_of r"
    using handle_row [OF r(1) wf, of E c rq] Serve.prems by auto
  have late: "\<forall>l. parse_iso_dt (usr_last_fail r) = Some l \<longrightarrow> l \<le> rq_time rq"
    using r(3) Serve.hyps(3) Serve.prems(2,3) by (fastforce simp: stamped_before_def)
  show ?case
  proof (cases "failed_guess E i ?x")
    case True
    then have "rows.trail r0 (map entry_time (filter (failed_guess E i) h) @ [rq_time rq]) r'"
      using rows.trail.Fail [OF r(2) _ late] r'(2) by (simp add: streak_of_def)
    moreover have "parse_iso_dt (usr_last_fail r') = Some (rq_time rq)" using r'(2) True by (simp add: streak_of_def rows.stamped)
    ultimately show ?thesis using r'(1) True by auto
  next
    case False
    then have "rows.trail r0 (map entry_time (filter (failed_guess E i) h)) r'"
      using rows.trail.Idle [OF r(2)] r'(2) by (simp add: streak_of_def)
    then show ?thesis using r' r(3) False by (auto simp: streak_of_def)
  qed
qed

text \<open>C13: whatever requests come in, from any number of clients and for any other accounts, no span of 900 seconds
  sees more than ten failed guesses, through the two login steps, at the password or the one-time code of one account,
  as long as nobody completes a login to it and its owner's session is not used against the removal of the second
  factor, which counts without being gated.\<close>

theorem guesses_are_bounded:
  assumes "serves E st0 h st" "users_wf (pt_users st0)" "map_of (pt_users st0) i = Some r0"
    "\<forall>x \<in> set h. stamped_before i (pt_users st0) (entry_time x) \<and> \<not> logs_in i x \<and> \<not> removes_factor E i x"
  shows "length (filter (\<lambda>x. failed_guess E i x \<and> a \<le> entry_time x \<and> entry_time x < a + 900) h) \<le> 10"
proof -
  obtain r where trail: "rows.trail r0 (map entry_time (filter (failed_guess E i) h)) r"
    using run_trail [OF assms] by blast
  moreover have pos: "0 \<le> usr_fails r0" using assms(2,3) by (auto simp: users_wf_def list_all_iff dest!: map_of_SomeD)
  ultimately have "length (filter (\<lambda>t. a \<le> t \<and> t < a + 900) (map entry_time (filter (failed_guess E i) h))) \<le> 10"
    using rows.trail_bounded [OF trail pos, of a] unfolding failed_login_window_def per_account_fail_limit_def by linarith
  moreover have "length (filter P (map f (filter Q h))) = length (filter (\<lambda>x. Q x \<and> P (f x)) h)" for P Q and f :: "entry \<Rightarrow> real"
    by (simp add: filter_map comp_def)
  ultimately show ?thesis by simp
qed

section \<open>Addresses that tried unknown names\<close>

definition address_fails :: "string \<Rightarrow> (string \<times> int \<times> real) list \<Rightarrow> int" where
  "address_fails ip d = (case map_of d ip of None \<Rightarrow> 0 | Some (count, _) \<Rightarrow> count)"

definition address_limited :: "string \<Rightarrow> real \<Rightarrow> (string \<times> int \<times> real) list \<Rightarrow> bool" where
  "address_limited ip now d = (per_account_fail_limit \<le> unknown_user_fail_get now ip d)"

lemma bump_lookup [simp]:
  "map_of (snd (unknown_user_fail_bump now ip d)) ip = Some (fst (unknown_user_fail_bump now ip d), now)"
  by (simp add: unknown_user_fail_bump_def Let_def update_conv')

interpretation address: throttle "address_fails ip" "\<lambda>d. map_option snd (map_of d ip)" "address_limited ip"
    "\<lambda>now d. snd (unknown_user_fail_bump now ip d)" failed_login_window per_account_fail_limit for ip :: string
  by unfold_locales
    (auto simp: address_fails_def address_limited_def unknown_user_fail_get_def unknown_user_fail_bump_def Let_def update_conv'
      failed_login_window_def per_account_fail_limit_def split: if_splits option.splits)

definition dict_ok :: "(string \<times> int \<times> real) list \<Rightarrow> bool" where
  "dict_ok d = (distinct (keys d) \<and> length d \<le> unknown_user_ip_cap \<and> list_all (\<lambda>(ip, n, t). 1 \<le> n) d)"

lemma arg_min_member: "d \<noteq> [] \<Longrightarrow> arg_min_list f d \<in> set d"
  by (rule arg_min_list_in)

lemma bump_keeps:
  assumes "dict_ok d"
  shows "dict_ok (snd (unknown_user_fail_bump now ip d))"
proof -
  let ?e = "evict_oldest d"
  have e: "distinct (keys ?e)" "set ?e \<subseteq> set d" using assms by (auto simp: evict_oldest_def dict_ok_def set_delete_eq)
  have "length ?e < unknown_user_ip_cap"
  proof (cases "length d \<ge> unknown_user_ip_cap")
    case True
    then have "d \<noteq> []" by (auto simp: unknown_user_ip_cap_def)
    then have k: "fst (arg_min_list (\<lambda>(_, _, t). t) d) \<in> set (keys d)" using arg_min_member by force
    have "distinct (keys d)" using assms by (simp add: dict_ok_def)
    then have "Suc (length (AList.delete (fst (arg_min_list (\<lambda>(_, _, t). t) d)) d)) = length d"
      using k by (rule length_delete_mem)
    then show ?thesis using True assms by (simp add: evict_oldest_def dict_ok_def)
  qed (simp add: evict_oldest_def)
  then have "length (snd (unknown_user_fail_bump now ip d)) \<le> unknown_user_ip_cap"
    by (simp add: unknown_user_fail_bump_def Let_def length_update_alist)
  moreover have "1 \<le> n" if "(k, n, t) \<in> set (snd (unknown_user_fail_bump now ip d))" for k n t
    using that e(2) assms set_update_subset [of ip _ ?e]
    by (fastforce simp: unknown_user_fail_bump_def Let_def dict_ok_def list_all_iff split: option.splits if_splits dest: map_of_SomeD)
  ultimately show ?thesis using e(1) by (auto simp: dict_ok_def list_all_iff unknown_user_fail_bump_def Let_def)
qed

lemma other_calls_keep_addresses: "\<forall>n pw. c \<noteq> Login n pw \<Longrightarrow> pt_unknown (snd (handle E c rq st)) = pt_unknown st"
proof (cases c)
  case (Login_Totp code)
  then show ?thesis using auth_totp_cases [of E code rq st] by simp
qed (auto simp: auth_logout_def auth_change_password_def auth_totp_setup_def auth_totp_verify_def auth_totp_disable_def
    with_caller_def split_beta Let_def split: sum.split option.split bool.split)

text \<open>the dictionary of addresses never holds more than its 10000 entries, whoever sprays whatever names, each
  address once and each with at least one failure.\<close>

theorem address_dictionary_bounded:
  assumes "serves E st0 h st" "pt_unknown st0 = []"
  shows "length (pt_unknown st) \<le> 10000 \<and> distinct (keys (pt_unknown st)) \<and> list_all (\<lambda>(ip, n, t). 1 \<le> n) (pt_unknown st)"
proof -
  have "dict_ok (pt_unknown st)"
    using assms
  proof (induction rule: serves.induct)
    case (Serve h st rq c)
    then have d: "dict_ok (pt_unknown st)" by simp
    show ?case
    proof (cases c)
      case (Login n pw)
      then show ?thesis using auth_login_cases [of E n pw rq st] d bump_keeps by (auto simp: refuse_simps split: option.split)
    qed (use other_calls_keep_addresses [of c E rq st] d in auto)
  qed (simp add: dict_ok_def unknown_user_ip_cap_def)
  then show ?thesis by (simp add: dict_ok_def unknown_user_ip_cap_def)
qed

end
