(* ===== verification/Auth_Refusals.thy ===== *)
theory Auth_Refusals
  imports Auth_Throttle
begin

text \<open>
  What refusals tell and what they leave alone: a wrong password against an account and a login under an unknown
  name look alike, except for passwords bcrypt does not take and for throttled names; without a caller no request
  changes more than counters; and a second factor is only ever the one issued to its user.
\<close>

section \<open>Unknown names and wrong passwords\<close>

text \<open>The failures a login under a name is charged with, before the attempt.\<close>

definition prior_failures :: "request \<Rightarrow> portal \<Rightarrow> string \<Rightarrow> int" where
  "prior_failures rq st n = (case get_user_by_username (pt_users st) n of
       Some u \<Rightarrow> effective_count (rq_time rq) (get_failed_login_state (pt_users st) (user_id u))
     | None \<Rightarrow> unknown_user_fail_get (rq_time rq) (get_remote_address rq) (pt_unknown st))"

definition reaches_check :: "request \<Rightarrow> portal \<Rightarrow> string \<Rightarrow> string \<Rightarrow> bool" where
  "reaches_check rq st n pw = (login_body_ok n pw \<and> rq_admitted rq \<and> (case get_user_by_username (pt_users st) n of
       Some u \<Rightarrow> check_login_rate_limit (rq_time rq) (pt_users st) (user_id u) = None
     | None \<Rightarrow> prior_failures rq st n < per_account_fail_limit))"

definition provisioned :: "users \<Rightarrow> string \<Rightarrow> string \<Rightarrow> bool" where
  "provisioned us n h = (case get_user_by_username us n of
       None \<Rightarrow> False
     | Some u \<Rightarrow> user_active u \<and> (case map_of us (user_id u) of None \<Rightarrow> False | Some r \<Rightarrow> usr_hash r = Some h \<and> h \<noteq> []))"

lemma verify_provisioned:
  "provisioned us n h \<Longrightarrow> verify_password B us n pw = ([h], case checkpw B pw h of Inl ValueError \<Rightarrow> Inr None | Inl e \<Rightarrow> Inl e
     | Inr ok \<Rightarrow> Inr (if ok then get_user_by_username us n else None))"
  by (auto simp: provisioned_def verify_password_def split: option.splits sum.split py_error.split)

lemma verify_unknown: "get_user_by_username us n = None \<Longrightarrow> verify_password B us n pw = ([dummy_hash B], dummy_round B pw)"
  by (simp add: verify_password_def)

lemma login_checked:
  assumes "reaches_check rq st n pw" "verify_password (pe_bcrypt E) (pt_users st) n pw = (hs, Inr None)"
  shows "auth_login E n pw rq st = refuse_login rq n (get_user_by_username (pt_users st) n) (prior_failures rq st n) hs st"
  using assms by (auto simp: auth_login_def reaches_check_def prior_failures_def Let_def split: option.splits)

text \<open>to a client, a wrong password for an existing account and a login under a name nobody has are the same reply
  after the same delay, and cost one bcrypt round each, when the failures counted before are as many.\<close>

theorem wrong_password_looks_unknown:
  assumes "bcrypt_documented (pe_bcrypt E)" "utf8_len pw \<le> 72"
    "provisioned (pt_users st) n h" "checkpw (pe_bcrypt E) pw h = Inr False" "get_user_by_username (pt_users st) m = None"
    "reaches_check rq st n pw" "reaches_check rq st m pw" "prior_failures rq st n = prior_failures rq st m"
  shows "(fst (auth_login E n pw rq st))\<lparr>rs_hashed := []\<rparr> = (fst (auth_login E m pw rq st))\<lparr>rs_hashed := []\<rparr>
    \<and> length (rs_hashed (fst (auth_login E n pw rq st))) = 1 \<and> length (rs_hashed (fst (auth_login E m pw rq st))) = 1
    \<and> rs_status (fst (auth_login E n pw rq st)) = 401"
proof -
  have n: "verify_password (pe_bcrypt E) (pt_users st) n pw = ([h], Inr None)"
    using verify_provisioned [OF assms(3)] assms(4) by simp
  have m: "verify_password (pe_bcrypt E) (pt_users st) m pw = ([dummy_hash (pe_bcrypt E)], Inr None)"
    using verify_unknown [OF assms(5)] assms(1,2) by (simp add: dummy_round_def bcrypt_documented_def)
  show ?thesis
    unfolding login_checked [OF assms(6) n] login_checked [OF assms(7) m] using assms(8) by (simp add: refuse_login_def split_beta)
qed

text \<open>with a password that the form admits but bcrypt does not take, at most 72 characters but more than 72 bytes,
  the name decides: an existing account answers 401 and counts the attempt, an unknown name fails with 500 and is
  counted nowhere.\<close>

theorem long_password_tells_names_apart:
  assumes "bcrypt_documented (pe_bcrypt E)" "72 < utf8_len pw"
    "provisioned (pt_users st) n h" "get_user_by_username (pt_users st) m = None"
    "reaches_check rq st n pw" "reaches_check rq st m pw"
  shows "rs_status (fst (auth_login E n pw rq st)) = 401 \<and> rs_status (fst (auth_login E m pw rq st)) = 500
    \<and> snd (auth_login E m pw rq st) = st"
proof -
  have n: "verify_password (pe_bcrypt E) (pt_users st) n pw = ([h], Inr None)"
    using verify_provisioned [OF assms(3)] assms(1,2) by (simp add: bcrypt_documented_def)
  have m: "verify_password (pe_bcrypt E) (pt_users st) m pw = ([dummy_hash (pe_bcrypt E)], Inl ValueError)"
    using verify_unknown [OF assms(4)] assms(1,2) by (simp add: dummy_round_def bcrypt_documented_def)
  have "auth_login E m pw rq st = ((reply 500 ''Internal Server Error'')\<lparr>rs_hashed := [dummy_hash (pe_bcrypt E)]\<rparr>, st)"
    using assms(4,6) m by (simp add: auth_login_def reaches_check_def prior_failures_def Let_def)
  then show ?thesis unfolding login_checked [OF assms(5) n] by (simp add: refuse_simps)
qed

text \<open>once throttled, the name shows as well: a throttled account answers with a Retry-After header, a throttled
  address that tries an unknown name without one; and in the last second of the pause the header says zero.\<close>

theorem throttled_replies_differ:
  assumes "login_body_ok n pw" "login_body_ok m pw" "rq_admitted rq"
    "get_user_by_username (pt_users st) n = Some u" "check_login_rate_limit (rq_time rq) (pt_users st) (user_id u) = Some s"
    "get_user_by_username (pt_users st) m = None" "per_account_fail_limit \<le> prior_failures rq st m"
  shows "rs_status (fst (auth_login E n pw rq st)) = 429 \<and> rs_status (fst (auth_login E m pw rq st)) = 429
    \<and> rs_retry_after (fst (auth_login E m pw rq st)) = None
    \<and> rs_retry_after (fst (auth_login E n pw rq st)) = Some (round_retry_after_to_minute s)
    \<and> (s = 0 \<longrightarrow> rs_retry_after (fst (auth_login E n pw rq st)) = Some 0)"
  using assms by (auto simp: auth_login_def prior_failures_def Let_def round_retry_after_to_minute_def)

text \<open>The rounding is up to the minute, and never below what is left.\<close>

lemma round_retry_after_bounds:
  "0 < s \<Longrightarrow> s \<le> round_retry_after_to_minute s \<and> round_retry_after_to_minute s < s + 60 \<and> 60 dvd round_retry_after_to_minute s"
  by (simp add: round_retry_after_to_minute_def) presburger

lemma rate_limit_left:
  "check_login_rate_limit now us i = Some s \<Longrightarrow> \<exists>t. snd (get_failed_login_state us i) = Some t \<and> of_int s \<le> 900 - (now - t) \<and> 900 - (now - t) < of_int s + 1 \<and> 0 \<le> s"
  by (auto simp: check_login_rate_limit_def failed_login_window_def split: prod.splits option.splits if_splits) linarith+

text \<open>The backoff starts at a tenth of a second, never shrinks with more failures, and is capped.\<close>

lemma backoff_bounds: "1 / 10 \<le> compute_backoff_s n \<and> compute_backoff_s n \<le> 30"
  by (simp add: compute_backoff_s_def)

lemma backoff_mono: "m \<le> n \<Longrightarrow> compute_backoff_s m \<le> compute_backoff_s n"
  unfolding compute_backoff_s_def
  by (intro min.mono order_refl mult_left_mono power_increasing nat_mono) auto

section \<open>Without a caller\<close>

definition anonymous :: "portal_env \<Rightarrow> portal \<Rightarrow> request \<Rightarrow> bool" where
  "anonymous E st rq = (request_session E (pt_users st) rq = Inr None \<and> \<not> is_api_key E rq)"

text \<open>Everything of a row but its failure counter.\<close>

definition settled :: "user_row \<Rightarrow> string \<times> bool \<times> string \<times> int \<times> string option \<times> string option" where
  "settled r = (usr_name r, usr_active r, usr_role r, usr_epoch r, usr_hash r, usr_seed r)"

lemma settled_updates:
  "map (\<lambda>(i, r). (i, settled r)) (snd (increment_failed_login now j us)) = map (\<lambda>(i, r). (i, settled r)) us"
  "map (\<lambda>(i, r). (i, settled r)) (snd (reset_failed_login j us)) = map (\<lambda>(i, r). (i, settled r)) us"
  by (auto simp: increment_failed_login_def reset_failed_login_def update_row_def settled_def count_failure_def Let_def
      split: option.split)

lemma settled_login: "map (\<lambda>(i, r). (i, settled r)) (pt_users (snd (auth_login E n pw rq st))) = map (\<lambda>(i, r). (i, settled r)) (pt_users st)"
  using auth_login_cases [of E n pw rq st] settled_updates by (auto simp: refuse_simps split: option.split)

lemma settled_login_totp: "map (\<lambda>(i, r). (i, settled r)) (pt_users (snd (auth_login_totp E code rq st))) = map (\<lambda>(i, r). (i, settled r)) (pt_users st)"
  using auth_totp_cases [of E code rq st] settled_updates by fastforce

text \<open>C27: a request that carries no valid session and no API key changes, whatever it asks for, no name, role, state,
  epoch, password or second factor of any user.\<close>

theorem strangers_only_count:
  assumes "anonymous E st rq"
  shows "map (\<lambda>(i, r). (i, settled r)) (pt_users (snd (handle E c rq st))) = map (\<lambda>(i, r). (i, settled r)) (pt_users st)"
proof (cases c)
  case (Login n pw)
  then show ?thesis by (simp add: settled_login)
next
  case (Login_Totp code)
  then show ?thesis by (simp add: settled_login_totp)
next
  case Logout
  then show ?thesis using assms by (simp add: anonymous_def auth_logout_def)
qed (use assms in \<open>simp_all add: anonymous_def auth_change_password_def auth_totp_setup_def auth_totp_verify_def auth_totp_disable_def
    with_caller_def request_user_def\<close>)

section \<open>Second factors\<close>

lemma seeds_kept:
  "map_of us i = Some r \<Longrightarrow> map_of (snd (increment_failed_login now j us)) i = Some r' \<Longrightarrow> usr_seed r' = usr_seed r"
  "map_of us i = Some r \<Longrightarrow> map_of (snd (reset_failed_login j us)) i = Some r' \<Longrightarrow> usr_seed r' = usr_seed r"
  "map_of us i = Some r \<Longrightarrow> map_of (snd (bump_session_epoch j us)) i = Some r' \<Longrightarrow> usr_seed r' = usr_seed r"
  "map_of us i = Some r \<Longrightarrow> map_of (snd (bump_session_epoch j (snd (set_password B k pw us)))) i = Some r' \<Longrightarrow> usr_seed r' = usr_seed r"
  "map_of us i = Some r \<Longrightarrow> map_of (snd (set_password B k pw us)) i = Some r' \<Longrightarrow> usr_seed r' = usr_seed r"
  by (auto simp: increment_failed_login_def reset_failed_login_def bump_session_epoch_def set_password_def map_of_update_row
      count_failure_def Let_def split: option.splits sum.splits if_splits)

lemma seed_written:
  "map_of us i = Some r \<Longrightarrow> map_of (snd (bump_session_epoch j (snd (update_user_totp_seed j seed us)))) i = Some r' \<Longrightarrow>
    usr_seed r' = (if j = i then seed else usr_seed r)"
  by (auto simp: bump_session_epoch_def update_user_totp_seed_def user_lookup get_user_by_id_def map_of_update_row split: if_splits)

lemma seed_lookup_settled:
  "map (\<lambda>(i, r). (i, settled r)) vs = map (\<lambda>(i, r). (i, settled r)) us \<Longrightarrow> map_of us i = Some r \<Longrightarrow> map_of vs i = Some r' \<Longrightarrow> usr_seed r' = usr_seed r"
  by (induction us arbitrary: vs) (auto simp: settled_def map_eq_Cons_conv split: if_splits)

text \<open>A seed changes in two ways only: enrolment and removal.\<close>

lemma seed_step:
  assumes "map_of (pt_users st) i = Some r" "map_of (pt_users (snd (handle E c rq st))) i = Some r'" "usr_seed r' \<noteq> usr_seed r"
  shows "(\<exists>u. request_user E (pt_users st) rq = Inr u \<and> user_id u = i \<and>
    ((\<exists>code secret. c = Totp_Verify code \<and> read_pending_totp_cookie (pe_signer E) rq i = Some secret \<and> \<not> totp_enabled u
       \<and> verify_code (pe_totp E) secret code (rq_time rq) \<and> usr_seed r' = Some (encrypt_for (pe_totp E) i secret))
     \<or> (\<exists>pw code enc secret. c = Totp_Disable pw code \<and> usr_seed r' = None \<and> user_seed u = Some enc
       \<and> decrypt_for (pe_totp E) i enc = Some secret \<and> verify_code (pe_totp E) secret code (rq_time rq)
       \<and> (\<exists>v. snd (verify_password (pe_bcrypt E) (pt_users st) (user_name u) pw) = Inr (Some v)))))"
proof (cases c)
  case (Login n pw)
  then show ?thesis using assms seed_lookup_settled [OF settled_login] by simp
next
  case (Login_Totp code)
  then show ?thesis using assms seed_lookup_settled [OF settled_login_totp] by simp
next
  case Logout
  then show ?thesis using assms seeds_kept(3) [OF assms(1)]
    by (auto simp: auth_logout_def Let_def split: sum.splits option.splits if_splits)
next
  case (Change_Password a b d)
  then show ?thesis using assms seeds_kept(4,5) [OF assms(1)]
    by (auto simp: auth_change_password_def with_caller_def split_beta split: sum.splits option.splits if_splits bool.splits)
next
  case (Totp_Setup a)
  then show ?thesis using assms by (simp add: totp_setup_users)
next
  case (Totp_Verify code)
  then show ?thesis using assms seed_written [OF assms(1)]
    by (auto simp: auth_totp_verify_def with_caller_def split_beta split: sum.splits option.splits if_splits bool.splits)
next
  case (Totp_Disable pw code)
  then show ?thesis using assms seed_written [OF assms(1)] seeds_kept(1) [OF assms(1)]
    by (auto simp: auth_totp_disable_def with_caller_def split_beta split: sum.splits option.splits if_splits)
qed (use assms in simp)

lemma enrol_read_genuine:
  assumes "cookies_genuine E h rq" "read_pending_totp_cookie (pe_signer E) rq i = Some secret"
  shows "\<exists>d t. (pending_totp_salt, J_Obj d, t) \<in> set (signed_log_of h) \<and> rq_time rq - t < 601
    \<and> (\<exists>v. map_of d ''uid'' = Some v \<and> as_int v = Some i) \<and> map_of d ''secret'' = Some (J_Str secret)"
proof -
  obtain raw d where r: "map_of (rq_cookies rq) pending_totp_cookie = Some raw"
    "loads (pe_signer E) pending_totp_salt raw pending_totp_ttl (rq_time rq) = Some (J_Obj d)"
    "\<exists>v. map_of d ''uid'' = Some v \<and> as_int v = Some i" "map_of d ''secret'' = Some (J_Str secret)"
    using assms(2) by (auto simp: read_pending_totp_cookie_def split: option.splits payload.splits json_value.splits if_splits)
  then have "genuine (pe_signer E) (signed_log_of h) (rq_time rq) raw"
    using assms(1) by (fastforce simp: cookies_genuine_def dest: map_of_SomeD)
  with r show ?thesis by (fastforce simp: genuine_def pending_totp_ttl_def)
qed

text \<open>C14: the second factor of a user is only ever set to a secret that this portal issued to the same user within the
  last ten minutes and whose code he has just shown, and only removed for his password and a code of the old one.\<close>

theorem second_factor_changes_are_proved:
  assumes "serves E st0 h st" "x \<in> set h" "map_of (entry_users x) i = Some r"
    "map_of (pt_users (snd (handle E (en_call x) (en_request x) (en_before x)))) i = Some r'" "usr_seed r' \<noteq> usr_seed r"
  shows "\<exists>u. request_user E (entry_users x) (en_request x) = Inr u \<and> user_id u = i \<and>
    ((\<exists>code secret. en_call x = Totp_Verify code \<and> usr_seed r' = Some (encrypt_for (pe_totp E) i secret)
       \<and> verify_code (pe_totp E) secret code (entry_time x)
       \<and> (\<exists>y \<in> set h. \<exists>v. en_call y = Totp_Setup secret \<and> request_user E (entry_users y) (en_request y) = Inr v \<and> user_id v = i
         \<and> entry_time x < entry_time y + 601))
     \<or> (\<exists>pw code enc secret. en_call x = Totp_Disable pw code \<and> usr_seed r' = None \<and> user_seed u = Some enc
       \<and> decrypt_for (pe_totp E) i enc = Some secret \<and> verify_code (pe_totp E) secret code (entry_time x)
       \<and> (\<exists>v. snd (verify_password (pe_bcrypt E) (entry_users x) (user_name u) pw) = Inr (Some v))))"
proof -
  obtain h1 h2 where h: "h = h1 @ x # h2" using assms(2) by (meson split_list)
  have gen: "cookies_genuine E h1 (en_request x)" using serves_split [OF assms(1) h] by blast
  have issued: "\<exists>y \<in> set h. \<exists>v. en_call y = Totp_Setup secret \<and> request_user E (entry_users y) (en_request y) = Inr v \<and> user_id v = i
      \<and> entry_time x < entry_time y + 601"
    if read: "read_pending_totp_cookie (pe_signer E) (en_request x) i = Some secret" for secret
  proof -
    obtain d t w where d: "(pending_totp_salt, J_Obj d, t) \<in> set (signed_log_of h1)" "entry_time x - t < 601"
      "map_of d ''uid'' = Some w" "as_int w = Some i" "map_of d ''secret'' = Some (J_Str secret)"
      using enrol_read_genuine [OF gen read] by blast
    then obtain y where y: "y \<in> set h1" "(pending_totp_salt, J_Obj d, t) \<in> set (signed_by y)" using signed_log_member by blast
    have yh: "y \<in> set h" using y(1) h by simp
    have "y = served E (en_call y) (en_request y) (en_before y)" by (rule serves_entry [OF assms(1) yh])
    then have "(pending_totp_salt, J_Obj d, t) \<in> set (signed_in (entry_time y) (fst (handle E (en_call y) (en_request y) (en_before y))))"
      using y(2) signed_by_served by metis
    from handle_signs_enrolment [OF this] obtain v s where v: "t = entry_time y" "en_call y = Totp_Setup s"
      "request_user E (entry_users y) (en_request y) = Inr v" "d = enrol_data (entry_time y) s (user_id v)" by auto
    then have "s = secret" "user_id v = i" using d(3-5) by (auto simp: enrol_data_def)
    then show ?thesis using v d(2) yh by (intro bexI [of _ y] exI [of _ v]) auto
  qed
  show ?thesis using seed_step [OF assms(3-5)] issued by metis
qed

end
