(* ===== verification/Portal_Gate.thy ===== *)
theory Portal_Gate
  imports Auth_Refusals
begin

text \<open>
  The middleware every request passes (\<open>web/app.py\<close>), outermost first: the request id, the cap on the body, the
  double-submit check against cross-site requests and the session gate, around an endpoint given as a function. An endpoint
  that reads the body does so through \<open>receive_body\<close> and may let the exception of the cap escape. The static security headers
  are left out.
\<close>

section \<open>Requests on the wire\<close>

record http_request = request +
  hr_content_length :: "string option"
  hr_chunks :: "nat list"
  hr_request_id :: "string option"
  hr_receive_cap :: "int option"

record http_response =
  hs_body :: response
  hs_location :: "string option"
  hs_request_id :: "string option"

definition plain :: "response \<Rightarrow> http_response" where
  "plain rs = \<lparr>hs_body = rs, hs_location = None, hs_request_id = None\<rparr>"

text \<open>An endpoint answers, or lets \<open>_RequestBodyTooLarge\<close> escape with the count observed; either way it leaves a state.\<close>

datatype outcome = Body_Too_Large int | Answer http_response

type_synonym 's endpoint = "http_request \<Rightarrow> 's \<Rightarrow> outcome \<times> 's"

definition answer_with :: "response \<Rightarrow> outcome" where
  "answer_with rs = Answer (plain rs)"

text \<open>What follows the inner call on its normal way out; an exception passes.\<close>

definition on_answer :: "(http_response \<Rightarrow> http_response) \<Rightarrow> outcome \<times> 's \<Rightarrow> outcome \<times> 's" where
  "on_answer f = (\<lambda>(o1, st). (case o1 of Answer rs \<Rightarrow> Answer (f rs) | Body_Too_Large n \<Rightarrow> Body_Too_Large n, st))"

section \<open>The session gate\<close>

definition public_paths :: "string list" where
  "public_paths = [''/'', ''/favicon.ico'', ''/health'', ''/healthz'', ''/readyz'', ''/metrics'', ''/auth/status'', ''/auth/login'',
     ''/auth/login/totp'', ''/auth/logout'']"

text \<open>Whether a text occurs in another (\<open>in\<close> on strings).\<close>

fun contains :: "string \<Rightarrow> string \<Rightarrow> bool" where
  "contains x [] = (x = [])"
| "contains x (c # s) = (take (length x) (c # s) = x \<or> contains x s)"

definition starts_with :: "string \<Rightarrow> string \<Rightarrow> bool" where
  "starts_with x s = (take (length x) s = x)"

definition is_public :: "string \<Rightarrow> bool" where
  "is_public path = (path \<in> set public_paths \<or> starts_with ''/static/'' path \<or> starts_with ''/api/telegram/webhook/'' path)"

definition auth_middleware :: "portal_env \<Rightarrow> ('s \<Rightarrow> users) \<Rightarrow> 's endpoint \<Rightarrow> 's endpoint" where
  "auth_middleware E us call_next rq st =
     (let r = request.truncate rq in
      if is_public (rq_path rq) then call_next rq st
      else (case request_session E (us st) r of
          Inl _ \<Rightarrow> (answer_with (reply 500 ''Internal Server Error''), st)
        | Inr (Some _) \<Rightarrow> call_next rq st
        | Inr None \<Rightarrow>
            if is_api_key E r then call_next rq st
            else if starts_with ''/api/'' (rq_path rq) \<or> starts_with ''/ws'' (rq_path rq) \<or> contains ''application/json'' (rq_accept rq)
            then (answer_with (reply 401 ''Authentication required''), st)
            else (Answer ((plain (reply 303 ''''))\<lparr>hs_location := Some ''/''\<rparr>), st)))"

section \<open>The cross-site check\<close>

definition csrf_exempt_paths :: "string list" where
  "csrf_exempt_paths = [''/auth/login'', ''/auth/login/totp'']"

definition csrf_mutating_methods :: "string list" where
  "csrf_mutating_methods = [''POST'', ''PUT'', ''PATCH'', ''DELETE'']"

definition has_cookie :: "http_request \<Rightarrow> string \<Rightarrow> bool" where
  "has_cookie rq n = (case map_of (rq_cookies rq) n of None \<Rightarrow> False | Some v \<Rightarrow> v \<noteq> [])"

definition set_csrf_cookie :: "string \<Rightarrow> http_response \<Rightarrow> http_response" where
  "set_csrf_cookie tok rs =
     rs\<lparr>hs_body := (hs_body rs)\<lparr>rs_cookies := rs_cookies (hs_body rs) @ [(csrf_cookie, Plain tok session_ttl)]\<rparr>\<rparr>"

definition csrf_middleware :: "portal_env \<Rightarrow> 's endpoint \<Rightarrow> 's endpoint" where
  "csrf_middleware E call_next rq st =
     (let authenticated = has_cookie rq session_cookie; has_csrf = has_cookie rq csrf_cookie in
      if authenticated \<and> \<not> has_csrf
      then on_answer (set_csrf_cookie (pe_csrf_token E (rq_time rq))) (call_next rq st)
      else if rq_method rq \<notin> set csrf_mutating_methods then call_next rq st
      else if rq_path rq \<in> set csrf_exempt_paths then call_next rq st
      else if \<not> authenticated then call_next rq st
      else (case (map_of (rq_cookies rq) csrf_cookie, rq_csrf rq) of
          (Some c, Some h) \<Rightarrow>
            if c = [] \<or> h = [] then (answer_with (reply 403 ''CSRF token required''), st)
            else if c \<noteq> h then (answer_with (reply 403 ''CSRF token mismatch''), st)
            else call_next rq st
        | _ \<Rightarrow> (answer_with (reply 403 ''CSRF token required''), st)))"

section \<open>The cap on the body\<close>

definition default_max_request_body_bytes :: int where
  "default_max_request_body_bytes = 1048576"

definition max_request_body_bytes :: "string option \<Rightarrow> int" where
  "max_request_body_bytes raw =
     (case raw of
        None \<Rightarrow> default_max_request_body_bytes
      | Some s \<Rightarrow> (case py_int_text s of
          None \<Rightarrow> default_max_request_body_bytes
        | Some v \<Rightarrow> if v \<le> 0 then default_max_request_body_bytes else v))"

text \<open>Receiving the chunks of a body without a declared length: the bytes received, or the count at which the
  cap is crossed and the receive call raises.\<close>

fun capped_receive :: "int \<Rightarrow> int \<Rightarrow> nat list \<Rightarrow> int + int" where
  "capped_receive cap acc [] = Inr acc"
| "capped_receive cap acc (n # ns) = (if acc + int n > cap then Inl (acc + int n) else capped_receive cap (acc + int n) ns)"

text \<open>Reading the body to the end: capped when the receive call has been wrapped.\<close>

definition receive_body :: "http_request \<Rightarrow> int + int" where
  "receive_body rq =
     (case hr_receive_cap rq of
        None \<Rightarrow> Inr (int (sum_list (hr_chunks rq)))
      | Some cap \<Rightarrow> capped_receive cap 0 (hr_chunks rq))"

text \<open>Without a declared length only the receive call is wrapped: an endpoint that reads no body runs.\<close>

definition body_limit_middleware :: "string option \<Rightarrow> 's endpoint \<Rightarrow> 's endpoint" where
  "body_limit_middleware env call_next rq st =
     (let cap = max_request_body_bytes env in
      if rq_method rq \<in> {''GET'', ''HEAD'', ''OPTIONS'', ''DELETE''} then call_next rq st
      else (case hr_content_length rq of
          Some cl \<Rightarrow> (case py_int_text cl of
              None \<Rightarrow> (answer_with (reply 400 ''Invalid Content-Length''), st)
            | Some n \<Rightarrow> if n > cap then (answer_with (reply 413 ''Request body too large''), st) else call_next rq st)
        | None \<Rightarrow> (case call_next (rq\<lparr>hr_receive_cap := Some cap\<rparr>) st of
              (Body_Too_Large _, st') \<Rightarrow> (answer_with (reply 413 ''Request body too large''), st')
            | (Answer rs, st') \<Rightarrow> (Answer rs, st'))))"

section \<open>The request id\<close>

definition request_id_char :: "char \<Rightarrow> bool" where
  "request_id_char c = (c \<in> set ''ABCDEFGHIJKLMNOPQRSTUVWXYZabcdefghijklmnopqrstuvwxyz0123456789_-'')"

definition request_id_of :: "string \<Rightarrow> string option \<Rightarrow> string" where
  "request_id_of fresh raw =
     (case raw of
        None \<Rightarrow> take 12 fresh
      | Some s \<Rightarrow> if s \<noteq> [] \<and> length s \<le> 64 \<and> list_all request_id_char s then s else take 12 fresh)"

definition request_id_middleware :: "string \<Rightarrow> 's endpoint \<Rightarrow> 's endpoint" where
  "request_id_middleware fresh call_next rq st =
     on_answer (\<lambda>rs. rs\<lparr>hs_request_id := Some (request_id_of fresh (hr_request_id rq))\<rparr>) (call_next rq st)"

section \<open>The stack\<close>

definition portal_stack :: "portal_env \<Rightarrow> string option \<Rightarrow> string \<Rightarrow> ('s \<Rightarrow> users) \<Rightarrow> 's endpoint \<Rightarrow> 's endpoint" where
  "portal_stack E body_env fresh us endpoint =
     request_id_middleware fresh (body_limit_middleware body_env (csrf_middleware E (auth_middleware E us endpoint)))"

section \<open>Layers\<close>

text \<open>What every layer promises: it stops a request, with the same answer for every endpoint and nothing changed, or hands it
  on, tuned, and the state after it is what the wrapped endpoint makes of the tuned request. Layers compose.\<close>

locale layer =
  fixes wrap :: "'s endpoint \<Rightarrow> 's endpoint" and stops :: "http_request \<Rightarrow> 's \<Rightarrow> bool" and tune :: "http_request \<Rightarrow> http_request"
  assumes stopped: "stops rq st \<Longrightarrow> wrap f rq st = wrap g rq st \<and> snd (wrap f rq st) = st"
    and passed: "\<not> stops rq st \<Longrightarrow> snd (wrap f rq st) = snd (f (tune rq) st)"
    and local: "f (tune rq) st = g (tune rq) st \<Longrightarrow> wrap f rq st = wrap g rq st"
begin

text \<open>Two endpoints that do the same to the tuned request, and nothing to the state, are answered alike.\<close>

lemma idle:
  "f (tune rq) st = g (tune rq) st \<Longrightarrow> snd (f (tune rq) st) = st \<Longrightarrow> wrap f rq st = wrap g rq st \<and> snd (wrap f rq st) = st"
  using stopped passed local by metis

end

locale two_layers = outer: layer wrap stops tune + inner: layer wrap' stops' tune'
  for wrap :: "'s endpoint \<Rightarrow> 's endpoint" and stops and tune and wrap' :: "'s endpoint \<Rightarrow> 's endpoint" and stops' and tune'
begin

sublocale both: layer "\<lambda>f. wrap (wrap' f)" "\<lambda>rq st. stops rq st \<or> stops' (tune rq) st" "\<lambda>rq. tune' (tune rq)"
proof
  fix rq st and f g :: "'s endpoint"
  show "wrap (wrap' f) rq st = wrap (wrap' g) rq st \<and> snd (wrap (wrap' f) rq st) = st" if "stops rq st \<or> stops' (tune rq) st"
    using that outer.stopped outer.idle inner.stopped by metis
  show "snd (wrap (wrap' f) rq st) = snd (f (tune' (tune rq)) st)" if "\<not> (stops rq st \<or> stops' (tune rq) st)"
    using that outer.passed inner.passed by metis
  show "wrap (wrap' f) rq st = wrap (wrap' g) rq st" if "f (tune' (tune rq)) st = g (tune' (tune rq)) st"
    using that outer.local inner.local by metis
qed

end

lemma snd_on_answer [simp]: "snd (on_answer f x) = snd x"
  by (simp add: on_answer_def split: prod.split)

definition auth_stops :: "portal_env \<Rightarrow> ('s \<Rightarrow> users) \<Rightarrow> http_request \<Rightarrow> 's \<Rightarrow> bool" where
  "auth_stops E us rq st \<longleftrightarrow> \<not> is_public (rq_path rq) \<and> (case request_session E (us st) (request.truncate rq) of
       Inl _ \<Rightarrow> True | Inr (Some _) \<Rightarrow> False | Inr None \<Rightarrow> \<not> is_api_key E (request.truncate rq))"

interpretation auth: layer "auth_middleware E us" "auth_stops E us" "\<lambda>rq. rq" for E :: portal_env and us :: "'s \<Rightarrow> users"
  by unfold_locales (auto simp: auth_middleware_def auth_stops_def Let_def split: sum.splits option.splits)

definition csrf_stops :: "http_request \<Rightarrow> bool" where
  "csrf_stops rq \<longleftrightarrow> has_cookie rq session_cookie \<and> has_cookie rq csrf_cookie
     \<and> rq_method rq \<in> set csrf_mutating_methods \<and> rq_path rq \<notin> set csrf_exempt_paths
     \<and> rq_csrf rq \<noteq> map_of (rq_cookies rq) csrf_cookie"

interpretation csrf: layer "csrf_middleware E :: 's endpoint \<Rightarrow> 's endpoint" "\<lambda>rq st. csrf_stops rq" "\<lambda>rq. rq" for E :: portal_env
  by unfold_locales
    (auto simp: csrf_middleware_def csrf_stops_def has_cookie_def Let_def split: option.splits)

text \<open>The body layer refuses by the declared length alone; a body without one gets the capped receive call.\<close>

definition has_body :: "http_request \<Rightarrow> bool" where
  "has_body rq \<longleftrightarrow> rq_method rq \<notin> {''GET'', ''HEAD'', ''OPTIONS'', ''DELETE''}"

definition declared_oversized :: "string option \<Rightarrow> http_request \<Rightarrow> bool" where
  "declared_oversized env rq \<longleftrightarrow> has_body rq \<and>
     (case hr_content_length rq of None \<Rightarrow> False
      | Some cl \<Rightarrow> (case py_int_text cl of None \<Rightarrow> True | Some n \<Rightarrow> max_request_body_bytes env < n))"

definition capped :: "string option \<Rightarrow> http_request \<Rightarrow> http_request" where
  "capped env rq = rq\<lparr>hr_receive_cap :=
     (if has_body rq \<and> hr_content_length rq = None then Some (max_request_body_bytes env) else hr_receive_cap rq)\<rparr>"

lemma truncate_cap [simp]: "request.truncate (rq\<lparr>hr_receive_cap := c\<rparr>) = request.truncate rq"
  by (simp add: request.defs)

lemma capped_simps [simp]:
  "rq_path (capped env rq) = rq_path rq" "rq_method (capped env rq) = rq_method rq" "rq_cookies (capped env rq) = rq_cookies rq"
  "rq_csrf (capped env rq) = rq_csrf rq" "request.truncate (capped env rq) = request.truncate rq"
  "has_cookie (capped env rq) n = has_cookie rq n" "csrf_stops (capped env rq) = csrf_stops rq"
  "auth_stops E us (capped env rq) st = auth_stops E us rq st"
  by (simp_all only: capped_def has_cookie_def csrf_stops_def auth_stops_def truncate_cap) simp_all

interpretation body: layer "body_limit_middleware env :: 's endpoint \<Rightarrow> 's endpoint" "\<lambda>rq st. declared_oversized env rq" "capped env"
    for env :: "string option"
proof
  fix rq st and f g :: "'s endpoint"
  have c: "capped env rq = (if has_body rq \<and> hr_content_length rq = None then rq\<lparr>hr_receive_cap := Some (max_request_body_bytes env)\<rparr> else rq)"
    by (simp add: capped_def)
  show "body_limit_middleware env f rq st = body_limit_middleware env g rq st \<and> snd (body_limit_middleware env f rq st) = st"
    if "declared_oversized env rq"
    using that by (auto simp: body_limit_middleware_def declared_oversized_def has_body_def Let_def split: option.splits)
  show "snd (body_limit_middleware env f rq st) = snd (f (capped env rq) st)" if "\<not> declared_oversized env rq"
    using that by (auto simp: body_limit_middleware_def declared_oversized_def has_body_def c Let_def split: option.splits outcome.split prod.split)
  show "body_limit_middleware env f rq st = body_limit_middleware env g rq st" if "f (capped env rq) st = g (capped env rq) st"
    using that by (auto simp: body_limit_middleware_def has_body_def c Let_def split: option.split if_splits)
qed

interpretation ids: layer "request_id_middleware fresh :: 's endpoint \<Rightarrow> 's endpoint" "\<lambda>rq st. False" "\<lambda>rq. rq" for fresh :: string
  by unfold_locales (simp_all add: request_id_middleware_def)

interpretation inner: two_layers "csrf_middleware E" "\<lambda>rq st. csrf_stops rq" "\<lambda>rq. rq" "auth_middleware E us" "auth_stops E us" "\<lambda>rq. rq"
    for E :: portal_env and us :: "'s \<Rightarrow> users"
  by unfold_locales

interpretation middle: two_layers "body_limit_middleware env" "\<lambda>rq st. declared_oversized env rq" "capped env"
    "\<lambda>f. csrf_middleware E (auth_middleware E us f)" "\<lambda>rq st. csrf_stops rq \<or> auth_stops E us rq st" "\<lambda>rq. rq"
    for env :: "string option" and E :: portal_env and us :: "'s \<Rightarrow> users"
  by unfold_locales

interpretation stack: two_layers "request_id_middleware fresh" "\<lambda>rq st. False" "\<lambda>rq. rq"
    "\<lambda>f. body_limit_middleware env (csrf_middleware E (auth_middleware E us f))"
    "\<lambda>rq st. declared_oversized env rq \<or> csrf_stops (capped env rq) \<or> auth_stops E us (capped env rq) st" "capped env"
    for fresh :: string and env :: "string option" and E :: portal_env and us :: "'s \<Rightarrow> users"
  by unfold_locales

section \<open>What the stack lets through\<close>

text \<open>An endpoint that reads its body before anything else.\<close>

definition after_reading :: "'s endpoint \<Rightarrow> 's endpoint" where
  "after_reading f rq st = (case receive_body rq of Inl n \<Rightarrow> (Body_Too_Large n, st) | Inr _ \<Rightarrow> f rq st)"

lemma capped_receive_over:
  "cap < acc + int (sum_list ns) \<Longrightarrow> acc \<le> cap \<Longrightarrow> \<exists>n. capped_receive cap acc ns = Inl n"
proof (induction ns arbitrary: acc)
  case (Cons n ns)
  then show ?case using Cons.IH [of "acc + int n"] by (auto simp: algebra_simps)
qed simp

lemma cap_pos: "0 < max_request_body_bytes env"
  by (auto simp: max_request_body_bytes_def default_max_request_body_bytes_def split: option.split)

lemma over_cap_read:
  assumes "has_body rq" "hr_content_length rq = None" "max_request_body_bytes env < int (sum_list (hr_chunks rq))"
  shows "\<exists>n. after_reading f (capped env rq) st = (Body_Too_Large n, st) \<and> after_reading g (capped env rq) st = (Body_Too_Large n, st)"
  using capped_receive_over [of "max_request_body_bytes env" 0 "hr_chunks rq"] assms cap_pos [of env]
  by (auto simp: after_reading_def receive_body_def capped_def)


text \<open>a request with a session cookie and no CSRF cookie skips the cross-site check, mutating or not, whatever its
  header says and however often it is repeated: with a valid session the endpoint runs.\<close>

theorem csrf_check_needs_its_cookie:
  assumes "has_cookie rq session_cookie" "\<not> has_cookie rq csrf_cookie" "\<not> declared_oversized env rq"
    "request_session E (us st) (request.truncate rq) = Inr (Some d)"
  shows "snd (portal_stack E env fresh us endpoint rq st) = snd (endpoint (capped env rq) st)"
proof -
  have "\<not> (declared_oversized env rq \<or> csrf_stops rq \<or> auth_stops E us rq st)" using assms by (simp add: csrf_stops_def auth_stops_def)
  then show ?thesis using stack.both.passed [of env rq E us st fresh endpoint] unfolding portal_stack_def by simp
qed

text \<open>the session of a user whose row is gone still passes the gate when its epoch is zero, the epoch every
  account starts with, because an unknown user reads as epoch zero; no endpoint that resolves the caller takes it.\<close>

theorem deleted_user_passes_the_gate:
  assumes "map_of us i = None" "0 < i" "d = [(''uid'', J_Int i), (''iat'', J_Int t), (''ep'', J_Int 0)]"
    "request_session E us rq = Inr (session_fields us d)"
  shows "request_session E us rq = Inr (Some d) \<and> request_user E us rq = Inl (reply 401 ''User not found'')
    \<and> session_fields (snd (bump_session_epoch i us)) d = Some d"
  using assms
  by (simp add: session_fields_def get_session_epoch_def request_user_def fields_uid_def get_user_by_id_def
      bump_session_epoch_def update_row_missing)

end
