(* ===== verification/Auth_Witnesses.thy ===== *)
theory Auth_Witnesses
  imports Portal_Gate
begin

text \<open>
  Concrete runs of the portal at which the hypotheses of the authentication properties hold: one administrator, a
  toy bcrypt and pyotp with the documented behaviour, and a signer that knows two tokens.
\<close>

definition toy_bcrypt :: bcrypt_lib where
  "toy_bcrypt = \<lparr>checkpw = (\<lambda>p h. if 72 < utf8_len p then Inl ValueError else Inr (h = CHR ''h'' # p)),
     hashpw = (\<lambda>p. if 72 < utf8_len p then Inl ValueError else Inr (CHR ''h'' # p)), dummy_hash = ''dummy''\<rparr>"

definition toy_totp :: totp_lib where
  "toy_totp = \<lparr>otp_verify = (\<lambda>s c w t. c = ''123456''), encrypt_for = (\<lambda>i s. CHR ''e'' # s),
     decrypt_for = (\<lambda>i s. case s of [] \<Rightarrow> None | c # r \<Rightarrow> Some r)\<rparr>"

definition toy_session :: fields where
  "toy_session = [(''uid'', J_Int 1), (''iat'', J_Int 0), (''ep'', J_Int 0)]"

definition toy_enrolment :: fields where
  "toy_enrolment = [(''secret'', J_Str ''SEED''), (''uid'', J_Int 1), (''iat'', J_Int 0)]"

definition toy_signer :: signer where
  "toy_signer = \<lparr>dumps = (\<lambda>s p t. if s = session_salt then ''session'' else ''enrolment''),
     loads = (\<lambda>s tok m now. if now \<noteq> 0 \<or> m < 0 then None
       else if s = session_salt \<and> tok = ''session'' then Some (J_Obj toy_session)
       else if s = pending_totp_salt \<and> tok = ''enrolment'' then Some (J_Obj toy_enrolment) else None)\<rparr>"

definition toy_env :: portal_env where
  "toy_env = \<lparr>pe_bcrypt = toy_bcrypt, pe_totp = toy_totp, pe_signer = toy_signer, pe_api_key = ''key'',
     pe_key_hint = (\<lambda>k. ''hint''), pe_csrf_token = (\<lambda>t. ''csrf'')\<rparr>"

definition admin_row :: user_row where
  "admin_row = \<lparr>usr_name = ''admin'', usr_active = True, usr_role = ''admin'', usr_epoch = 0, usr_hash = Some ''hpassword'',
     usr_seed = None, usr_fails = 0, usr_last_fail = No_Stamp\<rparr>"

definition toy_portal :: portal where
  "toy_portal = \<lparr>pt_users = [(1, admin_row)], pt_unknown = [], pt_audit = []\<rparr>"

definition toy_request :: "(string \<times> string) list \<Rightarrow> request" where
  "toy_request cs = \<lparr>rq_time = 0, rq_method = ''POST'', rq_path = ''/'', rq_cookies = cs, rq_api_key = None, rq_csrf = None,
     rq_accept = '''', rq_client = Some ''10.0.0.1'', rq_forwarded = None, rq_admitted = True, rq_epoch_write = True\<rparr>"

definition session_only :: "(string \<times> string) list" where
  "session_only = [(session_cookie, ''session'')]"

definition both_cookies :: "(string \<times> string) list" where
  "both_cookies = [(session_cookie, ''session''), (pending_totp_cookie, ''enrolment'')]"

lemmas toy_defs = toy_bcrypt_def toy_totp_def toy_signer_def toy_env_def admin_row_def toy_portal_def toy_request_def
  toy_session_def toy_enrolment_def session_only_def both_cookies_def

lemma toy_users_wf: "users_wf (pt_users toy_portal)"
  by (simp add: toy_defs users_wf_def)

lemma toy_documented: "bcrypt_documented toy_bcrypt"
  by (simp add: toy_bcrypt_def bcrypt_documented_def)

section \<open>The run: login, enrolment, logout\<close>

definition login_call :: call where "login_call = Login ''admin'' ''password''"
definition setup_call :: call where "setup_call = Totp_Setup ''SEED''"
definition verify_call :: call where "verify_call = Totp_Verify ''123456''"

definition logged_in :: portal where
  "logged_in = toy_portal\<lparr>pt_audit := [(''auth_login'', ''admin'', ''-'', Some 1, ''ok'')]\<rparr>"

definition enrolling :: portal where
  "enrolling = logged_in\<lparr>pt_audit := pt_audit logged_in @ [(''totp_setup_initiated'', ''admin'', ''session:admin'', Some 1, ''ok'')]\<rparr>"

lemma login_step:
  "snd (handle toy_env login_call (toy_request []) toy_portal) = logged_in"
  "signed_in 0 (fst (handle toy_env login_call (toy_request []) toy_portal)) = [(session_salt, J_Obj toy_session, 0)]"
  by code_simp+

lemma setup_step:
  "snd (handle toy_env setup_call (toy_request session_only) logged_in) = enrolling"
  "signed_in 0 (fst (handle toy_env setup_call (toy_request session_only) logged_in)) = [(pending_totp_salt, J_Obj toy_enrolment, 0)]"
  by code_simp+

lemma verify_step:
  "map_of (pt_users (snd (handle toy_env verify_call (toy_request both_cookies) enrolling))) 1
    = Some (admin_row\<lparr>usr_seed := Some ''eSEED'', usr_epoch := 1\<rparr>)"
  by code_simp

lemma toy_time [simp]: "rq_time (toy_request cs) = 0" "rq_cookies (toy_request cs) = cs"
  by (simp_all add: toy_request_def)

lemma toy_genuine:
  "(session_salt, J_Obj toy_session, 0) \<in> set entries \<Longrightarrow> genuine toy_signer entries 0 ''session''"
  "(pending_totp_salt, J_Obj toy_enrolment, 0) \<in> set entries \<Longrightarrow> genuine toy_signer entries 0 ''enrolment''"
  by (auto simp: genuine_def toy_signer_def session_salt_def pending_totp_salt_def split: if_splits)

definition login_entry :: entry where "login_entry = served toy_env login_call (toy_request []) toy_portal"
definition setup_entry :: entry where "setup_entry = served toy_env setup_call (toy_request session_only) logged_in"
definition verify_entry :: entry where "verify_entry = served toy_env verify_call (toy_request both_cookies) enrolling"
definition logout_entry :: entry where "logout_entry = served toy_env Logout (toy_request session_only) logged_in"

lemma signed_entries:
  "signed_by login_entry = [(session_salt, J_Obj toy_session, 0)]" "signed_by setup_entry = [(pending_totp_salt, J_Obj toy_enrolment, 0)]"
  by (simp_all add: login_entry_def setup_entry_def signed_by_served login_step setup_step)

lemma toy_entries [simp]:
  "en_call login_entry = login_call" "en_call setup_entry = setup_call" "en_call verify_entry = verify_call" "en_call logout_entry = Logout"
  "entry_time login_entry = 0" "entry_time setup_entry = 0" "entry_time verify_entry = 0" "entry_time logout_entry = 0"
  "en_before login_entry = toy_portal" "en_before verify_entry = enrolling" "en_before logout_entry = logged_in"
  "en_request verify_entry = toy_request both_cookies" "en_request logout_entry = toy_request session_only" "en_request login_entry = toy_request []"
  by (simp_all add: login_entry_def setup_entry_def verify_entry_def logout_entry_def)

lemma toy_signer_env [simp]: "pe_signer toy_env = toy_signer" "pe_bcrypt toy_env = toy_bcrypt"
  by (simp_all add: toy_env_def)

lemma after_login: "serves toy_env toy_portal [login_entry] logged_in"
  using serves.Serve [OF serves.Boot [of toy_env toy_portal], of "toy_request []" login_call]
  by (simp add: cookies_genuine_def login_step login_entry_def)

lemma after_setup: "serves toy_env toy_portal [login_entry, setup_entry] enrolling"
proof -
  have "cookies_genuine toy_env [login_entry] (toy_request session_only)"
    by (simp add: cookies_genuine_def session_only_def toy_genuine signed_log_of_def signed_entries)
  from serves.Serve [OF after_login this, of setup_call] show ?thesis by (simp add: setup_step setup_entry_def)
qed

lemma after_verify: "serves toy_env toy_portal [login_entry, setup_entry, verify_entry] (snd (handle toy_env verify_call (toy_request both_cookies) enrolling))"
proof -
  have "cookies_genuine toy_env [login_entry, setup_entry] (toy_request both_cookies)"
    by (simp add: cookies_genuine_def both_cookies_def toy_genuine signed_log_of_def signed_entries)
  from serves.Serve [OF after_setup this, of verify_call] show ?thesis by (simp add: verify_entry_def)
qed

lemma after_logout: "serves toy_env toy_portal [login_entry, logout_entry] (snd (handle toy_env Logout (toy_request session_only) logged_in))"
proof -
  have "cookies_genuine toy_env [login_entry] (toy_request session_only)"
    by (simp add: cookies_genuine_def session_only_def toy_genuine signed_log_of_def signed_entries)
  from serves.Serve [OF after_login this, of Logout] show ?thesis by (simp add: logout_entry_def)
qed

theorem sessions_need_credentials_witness:
  "\<exists>u. J_Obj toy_session = J_Obj (session_data 0 [(1, admin_row)] (user_id u)) \<and> password_proved toy_env [(1, admin_row)] login_call u"
proof -
  have x: "login_entry \<in> set [login_entry]" "(session_salt, J_Obj toy_session, 0) \<in> set (signed_by login_entry)"
    by (simp_all add: signed_entries)
  show ?thesis using sessions_need_credentials [OF after_login x] by (auto simp: code_proved_def login_call_def toy_portal_def)
qed

theorem revocation_is_final_witness:
  "session_fields (pt_users (snd (handle toy_env Logout (toy_request session_only) logged_in))) toy_session = None"
proof -
  have r: "serves toy_env toy_portal ([login_entry] @ logout_entry # []) (snd (handle toy_env Logout (toy_request session_only) logged_in))"
    using after_logout by simp
  have "request_session toy_env (pt_users logged_in) (toy_request session_only) = Inr (Some toy_session)" by code_simp
  moreover have u: "fields_uid toy_session = Some 1" by code_simp
  ultimately have v: "revokes toy_env logout_entry 1" by (simp add: revokes_def Let_def toy_request_def)
  have "(session_salt, J_Obj toy_session, 0) \<in> set (signed_log_of ([login_entry] @ [logout_entry]))"
    by (simp add: signed_log_of_def signed_entries)
  from conjunct1 [OF revocation_is_final [OF r v this u]] show ?thesis .
qed

theorem second_factor_changes_are_proved_witness:
  "\<exists>u. request_user toy_env (pt_users enrolling) (toy_request both_cookies) = Inr u \<and> user_id u = 1"
proof -
  have x: "verify_entry \<in> set [login_entry, setup_entry, verify_entry]" by simp
  have r: "map_of (entry_users verify_entry) 1 = Some admin_row" by (simp add: enrolling_def logged_in_def toy_portal_def)
  have r': "map_of (pt_users (snd (handle toy_env (en_call verify_entry) (en_request verify_entry) (en_before verify_entry)))) 1
      = Some (admin_row\<lparr>usr_seed := Some ''eSEED'', usr_epoch := 1\<rparr>)" by (simp add: verify_step)
  have "usr_seed (admin_row\<lparr>usr_seed := Some ''eSEED'', usr_epoch := 1\<rparr>) \<noteq> usr_seed admin_row" by (simp add: admin_row_def)
  from second_factor_changes_are_proved [OF after_verify x r r' this] show ?thesis by auto
qed

section \<open>Guessing\<close>

definition wrong_entry :: entry where
  "wrong_entry = served toy_env (Login ''admin'' ''guess'') (toy_request []) toy_portal"

lemma after_guess: "serves toy_env toy_portal [wrong_entry] (snd (handle toy_env (Login ''admin'' ''guess'') (toy_request []) toy_portal))"
  using serves.Serve [OF serves.Boot [of toy_env toy_portal], of "toy_request []" "Login ''admin'' ''guess''"]
  by (simp add: cookies_genuine_def wrong_entry_def)

theorem guesses_are_bounded_witness:
  "failed_guess toy_env 1 wrong_entry \<and> length (filter (\<lambda>x. failed_guess toy_env 1 x \<and> 0 \<le> entry_time x \<and> entry_time x < 0 + 900) [wrong_entry]) \<le> 10"
proof -
  have r: "map_of (pt_users toy_portal) 1 = Some admin_row" by (simp add: toy_portal_def)
  have "failed_guess toy_env 1 wrong_entry" by code_simp
  moreover have "signed_by wrong_entry = []" by code_simp
  then have "\<forall>x \<in> set [wrong_entry]. stamped_before 1 (pt_users toy_portal) (entry_time x) \<and> \<not> logs_in 1 x \<and> \<not> removes_factor toy_env 1 x"
    by (simp add: logs_in_def removes_factor_def wrong_entry_def stamped_before_def toy_portal_def admin_row_def)
  ultimately show ?thesis using guesses_are_bounded [OF after_guess toy_users_wf r] by blast
qed

theorem address_dictionary_bounded_witness:
  "length (pt_unknown (snd (handle toy_env (Login ''admin'' ''guess'') (toy_request []) toy_portal))) \<le> 10000"
  using address_dictionary_bounded [OF after_guess] by (simp add: toy_portal_def)

lemma toy_names:
  "provisioned (pt_users toy_portal) ''admin'' ''hpassword''" "get_user_by_username (pt_users toy_portal) ''ghost'' = None"
  "reaches_check (toy_request []) toy_portal ''admin'' ''guess''" "reaches_check (toy_request []) toy_portal ''ghost'' ''guess''"
  "prior_failures (toy_request []) toy_portal ''admin'' = 0" "prior_failures (toy_request []) toy_portal ''ghost'' = 0"
  by code_simp+

theorem wrong_password_looks_unknown_witness:
  "rs_status (fst (auth_login toy_env ''admin'' ''guess'' (toy_request []) toy_portal)) = 401"
proof -
  have d: "bcrypt_documented (pe_bcrypt toy_env)" by (simp add: toy_documented)
  have l: "utf8_len ''guess'' \<le> 72" by code_simp
  have w: "checkpw (pe_bcrypt toy_env) ''guess'' ''hpassword'' = Inr False" by code_simp
  have "prior_failures (toy_request []) toy_portal ''admin'' = prior_failures (toy_request []) toy_portal ''ghost''" by (simp add: toy_names)
  from wrong_password_looks_unknown [OF d l toy_names(1) w toy_names(2-4) this] show ?thesis by blast
qed

definition long_password :: string where
  "long_password = replicate 40 (CHR 0xE9)"

theorem long_password_tells_names_apart_witness:
  "rs_status (fst (auth_login toy_env ''admin'' long_password (toy_request []) toy_portal)) = 401
    \<and> rs_status (fst (auth_login toy_env ''ghost'' long_password (toy_request []) toy_portal)) = 500"
proof -
  have d: "bcrypt_documented (pe_bcrypt toy_env)" by (simp add: toy_documented)
  have l: "72 < utf8_len long_password" by code_simp
  have r: "reaches_check (toy_request []) toy_portal ''admin'' long_password" "reaches_check (toy_request []) toy_portal ''ghost'' long_password"
    by code_simp+
  from long_password_tells_names_apart [OF d l toy_names(1,2) r] show ?thesis by blast
qed

definition throttled_portal :: portal where
  "throttled_portal = \<lparr>pt_users = [(1, admin_row\<lparr>usr_fails := 10, usr_last_fail := Stamp (- 1799 / 2)\<rparr>)],
     pt_unknown = [(''10.0.0.1'', 10, - 10)], pt_audit = []\<rparr>"

theorem throttled_replies_differ_witness:
  "rs_retry_after (fst (auth_login toy_env ''admin'' ''guess'' (toy_request []) throttled_portal)) = Some 0
    \<and> rs_retry_after (fst (auth_login toy_env ''ghost'' ''guess'' (toy_request []) throttled_portal)) = None"
proof -
  let ?u = "row_to_user 1 (admin_row\<lparr>usr_fails := 10, usr_last_fail := Stamp (- 1799 / 2)\<rparr>)"
  have b: "login_body_ok ''admin'' ''guess''" "login_body_ok ''ghost'' ''guess''" "rq_admitted (toy_request [])" by code_simp+
  have u: "get_user_by_username (pt_users throttled_portal) ''admin'' = Some ?u" by (simp add: throttled_portal_def get_user_by_username_def admin_row_def)
  have s: "check_login_rate_limit (rq_time (toy_request [])) (pt_users throttled_portal) (user_id ?u) = Some 0"
    by (simp add: throttled_portal_def check_login_rate_limit_def get_failed_login_state_def admin_row_def per_account_fail_limit_def
        failed_login_window_def)
  have g: "get_user_by_username (pt_users throttled_portal) ''ghost'' = None" by (simp add: throttled_portal_def get_user_by_username_def admin_row_def)
  have "per_account_fail_limit \<le> prior_failures (toy_request []) throttled_portal ''ghost''"
    by code_simp
  from throttled_replies_differ [OF b u s g this, of toy_env] show ?thesis by blast
qed

theorem strangers_only_count_witness:
  "map (\<lambda>(i, r). (i, settled r)) (pt_users (snd (handle toy_env verify_call (toy_request []) toy_portal))) = [(1, settled admin_row)]"
proof -
  have "anonymous toy_env toy_portal (toy_request [])" by (simp add: anonymous_def) code_simp
  from strangers_only_count [OF this, of verify_call] show ?thesis by (simp add: toy_portal_def)
qed

section \<open>The gate\<close>

definition on_wire :: "string \<Rightarrow> (string \<times> string) list \<Rightarrow> http_request" where
  "on_wire path cs = request.extend ((toy_request cs)\<lparr>rq_path := path\<rparr>) \<lparr>hr_content_length = Some ''0'', hr_chunks = [], hr_request_id = None, hr_receive_cap = None\<rparr>"

definition grant_all :: "http_request \<Rightarrow> portal \<Rightarrow> outcome \<times> portal" where
  "grant_all rq st = (answer_with (reply 200 ''ok''), st)"

definition wipe_all :: "http_request \<Rightarrow> portal \<Rightarrow> outcome \<times> portal" where
  "wipe_all rq st = (answer_with (reply 200 ''gone''), st\<lparr>pt_users := []\<rparr>)"


theorem csrf_check_needs_its_cookie_witness:
  "snd (portal_stack toy_env None ''f'' pt_users wipe_all (on_wire ''/api/bots'' session_only) toy_portal) = snd (wipe_all (capped None (on_wire ''/api/bots'' session_only)) toy_portal)"
proof -
  have "has_cookie (on_wire ''/api/bots'' session_only) session_cookie" "\<not> has_cookie (on_wire ''/api/bots'' session_only) csrf_cookie"
    "\<not> declared_oversized None (on_wire ''/api/bots'' session_only)"
    "request_session toy_env (pt_users toy_portal) (request.truncate (on_wire ''/api/bots'' session_only)) = Inr (Some toy_session)" by code_simp+
  then show ?thesis by (rule csrf_check_needs_its_cookie)
qed

theorem deleted_user_passes_the_gate_witness:
  "request_session toy_env [] (toy_request session_only) = Inr (Some toy_session)"
proof -
  have "map_of ([] :: users) 1 = None" "0 < (1::int)" "toy_session = [(''uid'', J_Int 1), (''iat'', J_Int 0), (''ep'', J_Int 0)]"
    "request_session toy_env [] (toy_request session_only) = Inr (session_fields [] toy_session)"
    by (simp, simp, code_simp, code_simp)
  from deleted_user_passes_the_gate [OF this] show ?thesis by blast
qed

end
