(* ===== verification/Vault_Login.thy ===== *)
theory Vault_Login
  imports Credential_Rotation Rotation_Lock Auth_Witnesses
begin

text \<open>
  The credential store behind the second factor: \<open>core/totp.py\<close> hands a seed to the same key that a rotation replaces. The
  portal's cipher calls are instantiated with the store, and a concrete Fernet, whose tokens carry their key, shows that
  the hypotheses about it can hold.
\<close>

section \<open>The portal over the store\<close>

definition vault_totp :: "fernet_lib \<Rightarrow> vault_env \<Rightarrow> vault \<Rightarrow> (string \<Rightarrow> string \<Rightarrow> nat \<Rightarrow> real \<Rightarrow> bool) \<Rightarrow> totp_lib" where
  "vault_totp F E v verify =
     \<lparr>otp_verify = verify,
      encrypt_for = (\<lambda>u s. case fst (encrypt_for_user F E u s v) of Inr t \<Rightarrow> t | Inl _ \<Rightarrow> []),
      decrypt_for = (\<lambda>u t. case fst (decrypt_for_user F E u t v) of Inr s \<Rightarrow> Some s | Inl _ \<Rightarrow> None)\<rparr>"

lemma seed_after_rotation:
  assumes "fernet_documented F" "fn_valid F (sf_bytes kf)" "ve_new_key E \<noteq> sf_bytes kf"
    "map_of (va_keys v) (key_name u) = Some kf" "encrypt_for_user F E0 u seed v = (Inr token, v)"
    "rotate_user_key F E u days v = (Inr r, w)"
  shows "fst (decrypt_for_user F E' u token w) \<noteq> Inr s"
proof -
  obtain ps v0 v2
    where v0: "v0 = put_key (lock_name u) \<lparr>sf_bytes = [], sf_mtime = ve_now E\<rparr> v"
      and rd: "read_payloads F E u (list_uuids_with_keys u v0) v0 = (Inr ps, v0)"
      and l: "map fst ps = list_uuids_with_keys u v"
      and h: "\<forall>(cu, a) \<in> set ps. safe_leaf cu \<and> holds F u (sf_bytes kf) (blob_name cu) a v0"
      and v2: "v2 = run (rotate_prepare F E u kf ps @ rotate_commit u ps) v0"
      and w: "w = unlink_key (lock_name u) (run (map unlink_key (old_backups E u days v2)) v2)" "rr_backup r = backup_name E u"
    by (rule rotation_result [OF assms(6,4,2)])
  have kw: "user_key u (ve_new_key E) w"
    unfolding user_key_def w(1) v2 using key_not_backup by (simp add: keys_rotated del: run_simps(3))
  have "token = fn_encrypt F (sf_bytes kf) (ve_nonce E0 seed) (NotJson seed)"
    using assms(5) user_fernet_existing [of u "sf_bytes kf" v F E0] assms(2,4) by (auto simp: encrypt_for_user_def user_key_def)
  then have "fn_decrypt F (ve_new_key E) token = None" using fernet_seals [OF assms(1,2,3)] by simp
  then show ?thesis by (simp add: decrypt_for_user_def user_fernet_existing [OF kw])
qed

text \<open>after a rotation the second step of a login fails for a user who was enrolled before it, whatever code is given,
  the right one included: the stored seed no longer decrypts and the answer is a server error.\<close>

theorem rotation_locks_users_out:
  assumes "fernet_documented F" "fn_valid F (sf_bytes kf)" "ve_new_key E \<noteq> sf_bytes kf"
    "map_of (va_keys v) (key_name u) = Some kf" "encrypt_for_user F E0 u seed v = (Inr token, v)"
    "rotate_user_key F E u days v = (Inr r, w)" "pe_totp P = vault_totp F E' w verify"
    "get_user_by_id (pt_users st) u = Some usr" "user_active usr" "user_seed usr = Some token"
    "rq_admitted rq" "code_body_ok code" "read_pending_login_cookie (pe_signer P) rq = Some u"
    "check_login_rate_limit (rq_time rq) (pt_users st) u = None"
  shows "fst (auth_login_totp P code rq st) = reply 500 ''TOTP verification temporarily unavailable.''
    \<and> pt_users (snd (auth_login_totp P code rq st)) = pt_users st"
proof -
  have "fst (decrypt_for_user F E' u token w) \<noteq> Inr s" for s
    by (rule seed_after_rotation [OF assms(1-6)])
  then have "decrypt_for (pe_totp P) u token = None"
    by (simp add: assms(7) vault_totp_def split: sum.split)
  then show ?thesis using assms(8-14)
    by (simp add: auth_login_totp_def audit_def Let_def)
qed

section \<open>A Fernet\<close>

text \<open>Texts are framed by their length in unary, so a token can be taken apart again.\<close>

definition put_text :: "string \<Rightarrow> string" where
  "put_text s = replicate (length s) (CHR ''x'') @ CHR ''.'' # s"

definition get_text :: "string \<Rightarrow> string \<times> string" where
  "get_text t = (let n = length (takeWhile (\<lambda>c. c = CHR ''x'') t); r = drop (Suc n) t in (take n r, drop n r))"

lemma get_put_text [simp]: "get_text (put_text s @ r) = (s, r)"
proof -
  have "takeWhile (\<lambda>c. c = CHR ''x'') (replicate n (CHR ''x'') @ CHR ''.'' # z) = replicate n (CHR ''x'')" for n z
    by (induction n) auto
  then show ?thesis by (simp add: put_text_def get_text_def Let_def)
qed

fun put_dict :: "(string \<times> string) list \<Rightarrow> string" where
  "put_dict [] = ''.''"
| "put_dict ((a, b) # d) = CHR ''x'' # put_text a @ put_text b @ put_dict d"

fun get_dict :: "nat \<Rightarrow> string \<Rightarrow> (string \<times> string) list" where
  "get_dict (Suc n) (c # t) =
     (if c \<noteq> CHR ''x'' then []
      else (case get_text t of (a, t1) \<Rightarrow> (case get_text t1 of (b, t2) \<Rightarrow> (a, b) # get_dict n t2)))"
| "get_dict _ _ = []"

lemma get_put_dict: "length d < n \<Longrightarrow> get_dict n (put_dict d) = d"
proof (induction d arbitrary: n)
  case Nil
  then show ?case by (cases n) auto
next
  case (Cons p d)
  then show ?case by (cases n; cases p) (auto simp: Cons.IH)
qed

lemma put_dict_length: "length d < length (put_dict d)"
proof (induction d)
  case (Cons p d)
  then show ?case by (cases p) auto
qed simp

fun put_plain :: "plain \<Rightarrow> string" where
  "put_plain (JObject d) = CHR ''o'' # put_dict d"
| "put_plain JOther = ''j''"
| "put_plain (NotJson s) = CHR ''n'' # s"

fun get_plain :: "string \<Rightarrow> plain" where
  "get_plain [] = JOther"
| "get_plain (c # t) = (if c = CHR ''o'' then JObject (get_dict (length t) t) else if c = CHR ''n'' then NotJson t else JOther)"

lemma get_put_plain [simp]: "get_plain (put_plain m) = m"
  by (cases m) (simp_all add: get_put_dict put_dict_length)

definition toy_fernet :: fernet_lib where
  "toy_fernet =
     \<lparr>fn_valid = (\<lambda>k. k \<noteq> []),
      fn_encrypt = (\<lambda>k r m. put_text k @ put_plain m),
      fn_decrypt = (\<lambda>k t. if k \<noteq> [] \<and> fst (get_text t) = k then Some (get_plain (snd (get_text t))) else None)\<rparr>"

lemma get_no_text [simp]: "get_text [] = ([], [])"
  by (simp add: get_text_def)

lemma toy_fernet_documented: "fernet_documented toy_fernet"
  by (auto simp: fernet_documented_def toy_fernet_def)

section \<open>A rotation\<close>

text \<open>The key of user 1 is thirty days old; two accounts are stored; the rotation keeps backups for seven days.\<close>

definition toy_venv :: vault_env where
  "toy_venv = \<lparr>ve_now = 30 * 86400, ve_new_key = ''new'', ve_nonce = (\<lambda>_. 0), ve_stamp = ''20260101'', ve_locked = False,
     ve_stuck = (\<lambda>_. False)\<rparr>"

definition old_key :: sfile where "old_key = \<lparr>sf_bytes = ''old'', sf_mtime = 0\<rparr>"

definition main_keys :: api_keys where "main_keys = \<lparr>ak_api_key = ''k'', ak_api_secret = ''s'', ak_passphrase = ''p''\<rparr>"
definition test_keys :: api_keys where "test_keys = \<lparr>ak_api_key = ''K'', ak_api_secret = ''S'', ak_passphrase = []\<rparr>"

definition old_blob :: "api_keys \<Rightarrow> sfile" where
  "old_blob a = \<lparr>sf_bytes = fn_encrypt toy_fernet ''old'' 0 (JObject (payload_dict a)), sf_mtime = 0\<rparr>"

definition toy_vault :: vault where
  "toy_vault = \<lparr>va_keys = [(''1.key'', old_key)],
     va_creds = (\<lambda>u. if u = 1 then [(''a.enc'', old_blob main_keys), (''b.enc'', old_blob test_keys)] else [])\<rparr>"

definition toy_payloads :: "(string \<times> api_keys) list" where
  "toy_payloads = [(''a'', main_keys), (''b'', test_keys)]"

lemma toy_key: "key_name 1 = ''1.key''" by code_simp

lemma toy_vault_key: "map_of (va_keys toy_vault) (key_name 1) = Some old_key"
  by (simp add: toy_key toy_vault_def)

lemma toy_key_valid: "fn_valid toy_fernet (sf_bytes old_key)" "fn_valid toy_fernet (ve_new_key toy_venv)" "ve_new_key toy_venv \<noteq> sf_bytes old_key"
  by (simp_all add: toy_fernet_def old_key_def toy_venv_def)

definition toy_locked :: vault where
  "toy_locked = put_key (lock_name 1) \<lparr>sf_bytes = [], sf_mtime = ve_now toy_venv\<rparr> toy_vault"

lemma toy_read:
  "read_payloads toy_fernet toy_venv 1 (list_uuids_with_keys 1 toy_vault) toy_vault = (Inr toy_payloads, toy_vault)"
  "read_payloads toy_fernet toy_venv 1 (list_uuids_with_keys 1 toy_locked) toy_locked = (Inr toy_payloads, toy_locked)"
proof -
  have "user_key 1 ''old'' toy_vault" "user_key 1 ''old'' toy_locked" "fn_valid toy_fernet ''old''"
    by (simp_all add: user_key_def toy_locked_def toy_vault_key old_key_def toy_fernet_def)
  moreover have "fst (read_payloads toy_fernet toy_venv 1 (list_uuids_with_keys 1 toy_vault) toy_vault) = Inr toy_payloads"
    "fst (read_payloads toy_fernet toy_venv 1 (list_uuids_with_keys 1 toy_locked) toy_locked) = Inr toy_payloads" by code_simp+
  ultimately show "read_payloads toy_fernet toy_venv 1 (list_uuids_with_keys 1 toy_vault) toy_vault = (Inr toy_payloads, toy_vault)"
    "read_payloads toy_fernet toy_venv 1 (list_uuids_with_keys 1 toy_locked) toy_locked = (Inr toy_payloads, toy_locked)"
    using read_payloads_reads by (metis prod.collapse)+
qed

lemma toy_rotation: obtains r where "rotate_user_key toy_fernet toy_venv 1 7 toy_vault = (Inr r, snd (rotate_user_key toy_fernet toy_venv 1 7 toy_vault))"
proof -
  have "\<not> ve_locked toy_venv" by (simp add: toy_venv_def)
  then have "\<exists>r. fst (rotate_user_key toy_fernet toy_venv 1 7 toy_vault) = Inr r"
    using toy_read(2) unfolding toy_locked_def by (auto simp: rotate_user_key_def toy_vault_key Let_def split: prod.split)
  then show thesis using that by (metis prod.collapse)
qed

text \<open>the same key, the token of a seed and the user who was enrolled with it.\<close>

definition toy_token :: string where
  "toy_token = fn_encrypt toy_fernet ''old'' 0 (NotJson ''SEED'')"

lemma toy_encrypts: "encrypt_for_user toy_fernet toy_venv 1 ''SEED'' toy_vault = (Inr toy_token, toy_vault)"
proof -
  have "user_key 1 ''old'' toy_vault" by (simp add: user_key_def toy_vault_key old_key_def)
  then show ?thesis
    by (simp add: encrypt_for_user_def user_fernet_existing toy_token_def toy_fernet_def toy_venv_def)
qed

definition rotated :: vault where
  "rotated = snd (rotate_user_key toy_fernet toy_venv 1 7 toy_vault)"

definition rotated_env :: portal_env where
  "rotated_env = toy_env\<lparr>pe_totp := vault_totp toy_fernet toy_venv rotated (\<lambda>s c w t. c = ''123456''),
     pe_signer := toy_signer\<lparr>loads := (\<lambda>s tok age now. Some (J_Obj toy_session))\<rparr>\<rparr>"

definition enrolled_portal :: portal where
  "enrolled_portal = toy_portal\<lparr>pt_users := [(1, admin_row\<lparr>usr_seed := Some toy_token\<rparr>)]\<rparr>"

section \<open>The theorems applied\<close>

theorem saved_keys_are_read_back_witness:
  "fst (get_keys_by_uuid toy_fernet toy_venv ''c'' 1 (snd (save_keys_by_uuid toy_fernet toy_venv ''c'' test_keys 1 toy_vault))) = Inr (Some test_keys)"
proof -
  have "fst (save_keys_by_uuid toy_fernet toy_venv ''c'' test_keys 1 toy_vault) = Inr ()" by code_simp
  then have "save_keys_by_uuid toy_fernet toy_venv ''c'' test_keys 1 toy_vault = (Inr (), snd (save_keys_by_uuid toy_fernet toy_venv ''c'' test_keys 1 toy_vault))"
    by (metis prod.collapse)
  then show ?thesis using saved_keys_are_read_back [OF toy_fernet_documented] by (metis fst_conv)
qed

definition cut_vault :: vault where
  "cut_vault = run (take (length (rotate_prepare toy_fernet toy_venv 1 old_key toy_payloads) + 2)
     (rotate_prepare toy_fernet toy_venv 1 old_key toy_payloads @ rotate_commit 1 toy_payloads)) toy_vault"

definition toy_calls :: "(vault \<Rightarrow> vault) list" where
  "toy_calls = rotation_calls toy_fernet toy_venv 1 7 old_key toy_payloads toy_vault"

theorem rotation_survives_a_crash_witness:
  "fst (get_keys_by_uuid toy_fernet toy_venv ''b'' 1 (run (take 9 toy_calls) toy_vault)) = Inr (Some test_keys)
    \<or> map_of (va_keys (run (take 9 toy_calls) toy_vault)) (backup_name toy_venv 1) = Some old_key
      \<and> fst (get_keys_by_uuid toy_fernet toy_venv ''b'' 1 (put_key (key_name 1) old_key (run (take 9 toy_calls) toy_vault))) = Inr (Some test_keys)"
proof -
  have "\<not> ve_locked toy_venv" "(''b'', test_keys) \<in> set toy_payloads" by (simp_all add: toy_venv_def toy_payloads_def)
  then show ?thesis
    using rotation_survives_a_crash [OF toy_fernet_documented toy_key_valid(1,2) _ toy_vault_key toy_locked_def toy_read(2) toy_calls_def _ refl] by blast
qed

theorem rotation_is_invisible_to_accounts_witness:
  "fst (get_keys_by_uuid toy_fernet toy_venv ''a'' 1 rotated) = fst (get_keys_by_uuid toy_fernet toy_venv ''a'' 1 toy_vault)"
proof -
  obtain r where "rotate_user_key toy_fernet toy_venv 1 7 toy_vault = (Inr r, rotated)"
    using toy_rotation unfolding rotated_def by blast
  then show ?thesis
    by (rule rotation_is_invisible_to_accounts [OF toy_fernet_documented toy_key_valid(1,2) toy_vault_key])
qed

theorem rotation_loses_the_second_factor_witness:
  "\<not> (\<exists>n f. map_of (va_keys rotated) n = Some f \<and> fn_decrypt toy_fernet (sf_bytes f) toy_token \<noteq> None)"
proof -
  obtain r where r: "rotate_user_key toy_fernet toy_venv 1 7 toy_vault = (Inr r, rotated)"
    using toy_rotation unfolding rotated_def by blast
  have "\<forall>n f. map_of (va_keys toy_vault) n = Some f \<and> sf_bytes f = sf_bytes old_key \<longrightarrow> n = key_name 1"
    "sf_mtime old_key < ve_now toy_venv - of_nat 7 * 86400" "\<not> ve_stuck toy_venv (backup_name toy_venv 1)"
    by (simp_all add: toy_vault_def toy_key old_key_def toy_venv_def)
  then have "\<forall>n f. map_of (va_keys rotated) n = Some f \<longrightarrow> fn_decrypt toy_fernet (sf_bytes f) toy_token = None"
    using rotation_loses_the_second_factor [OF toy_fernet_documented toy_key_valid(1,3) toy_vault_key _ toy_encrypts r] by blast
  then show ?thesis by auto
qed

theorem partial_commit_splits_the_keys_witness:
  "\<not> (\<exists>k. fst (get_keys_by_uuid toy_fernet toy_venv ''a'' 1 (put_key (key_name 1) k cut_vault)) = Inr (Some main_keys)
    \<and> fst (get_keys_by_uuid toy_fernet toy_venv ''b'' 1 (put_key (key_name 1) k cut_vault)) = Inr (Some test_keys))"
proof -
  have "\<exists>r. map_of (va_creds toy_vault 1) (blob_name ''b'') = Some r \<and> (\<exists>i m. sf_bytes r = fn_encrypt toy_fernet (sf_bytes old_key) i m)"
    by (auto simp: toy_vault_def blob_name_def old_blob_def old_key_def)
  then show ?thesis
    by (rule partial_commit_splits_the_keys [OF toy_fernet_documented toy_key_valid toy_vault_key _ toy_payloads_def toy_read(1) _ cut_vault_def]) simp
qed

theorem orphan_blob_stops_rotation_witness:
  "\<exists>e. fst (rotate_user_key toy_fernet toy_venv 1 7 (put_cred 1 ''z.enc'' \<lparr>sf_bytes = [], sf_mtime = 0\<rparr> toy_vault)) = Inl e"
  by (rule orphan_blob_stops_rotation [of _ 1 old_key toy_fernet "''z''" "\<lparr>sf_bytes = [], sf_mtime = 0\<rparr>"])
    (simp_all add: toy_vault_key toy_key_valid blob_name_def open_blob_def toy_fernet_def old_key_def)

theorem vault_tenants_are_apart_witness:
  "fst (get_keys_by_uuid toy_fernet toy_venv ''a'' 1
      (fold (\<lambda>(w, a). vault_op toy_fernet w a) [(11, toy_venv, Save_Keys ''a'' test_keys), (11, toy_venv, Rotate_Key 0), (2, toy_venv, Delete_Keys ''a'')] toy_vault))
    = fst (get_keys_by_uuid toy_fernet toy_venv ''a'' 1 toy_vault)"
  by (rule vault_tenants_are_apart) simp

theorem rotation_locks_users_out_witness:
  "fst (auth_login_totp rotated_env ''123456'' (toy_request [(pending_login_cookie, ''pending'')]) enrolled_portal)
    = reply 500 ''TOTP verification temporarily unavailable.''"
proof -
  obtain r where r: "rotate_user_key toy_fernet toy_venv 1 7 toy_vault = (Inr r, rotated)"
    using toy_rotation unfolding rotated_def by blast
  have p: "pe_totp rotated_env = vault_totp toy_fernet toy_venv rotated (\<lambda>s c w t. c = ''123456'')" by (simp add: rotated_env_def)
  obtain usr where u: "get_user_by_id (pt_users enrolled_portal) 1 = Some usr" "user_active usr" "user_seed usr = Some toy_token"
    by (simp add: enrolled_portal_def get_user_by_id_def row_to_user_def admin_row_def)
  have q: "rq_admitted (toy_request [(pending_login_cookie, ''pending'')])" "code_body_ok ''123456''"
    "read_pending_login_cookie (pe_signer rotated_env) (toy_request [(pending_login_cookie, ''pending'')]) = Some 1"
    by (code_simp, code_simp) (simp add: rotated_env_def read_pending_login_cookie_def toy_session_def fields_uid_def)
  have l: "check_login_rate_limit (rq_time (toy_request [(pending_login_cookie, ''pending'')])) (pt_users enrolled_portal) 1 = None"
    by (simp add: enrolled_portal_def check_login_rate_limit_def get_failed_login_state_def admin_row_def per_account_fail_limit_def)
  show ?thesis
    using rotation_locks_users_out [OF toy_fernet_documented toy_key_valid(1,3) toy_vault_key toy_encrypts r p u q l] by blast
qed

end
