(* ===== verification/Exchange_Accounts.thy ===== *)
theory Exchange_Accounts
  imports Credential_Rotation
begin

text \<open>
  The accounts of the exchanges: the registry of markets (\<open>core/markets.py\<close>), the table that names the encrypted blobs
  (\<open>core/exchange_account_store.py\<close>) and the routes over it (\<open>web/routes/exchanges.py\<close>). A transaction is one atomic
  update of the table; what other requests do between the lookup and the insertion of \<open>create_account\<close> is an argument.
\<close>

section \<open>Markets\<close>

record market =
  mk_ccxt_client :: string
  mk_ccxt_options :: "(string \<times> string) list"
  mk_ccxt_params :: "(string \<times> string) list"
  mk_balance_currency :: string
  mk_display_label :: string

definition spot_market :: "string \<Rightarrow> (string \<times> string) list \<Rightarrow> string \<Rightarrow> market" where
  "spot_market client options currency =
     \<lparr>mk_ccxt_client = client, mk_ccxt_options = options, mk_ccxt_params = [], mk_balance_currency = currency,
      mk_display_label = ''Spot''\<rparr>"

definition bitget_swap :: "string \<Rightarrow> string \<Rightarrow> string \<Rightarrow> string \<Rightarrow> market" where
  "bitget_swap sub product currency label =
     \<lparr>mk_ccxt_client = ''bitget'', mk_ccxt_options = [(''defaultType'', ''swap''), (''defaultSubType'', sub)],
      mk_ccxt_params = [(''productType'', product)], mk_balance_currency = currency, mk_display_label = label\<rparr>"

definition markets :: "(string \<times> (string \<times> market) list) list" where
  "markets =
     [(''bitget'',
        [(''spot'', spot_market ''bitget'' [(''defaultType'', ''spot'')] ''USDT''),
         (''coin_m'', bitget_swap ''inverse'' ''COIN-FUTURES'' ''BTC'' ''Coin-M Perpetual''),
         (''usdt_m'', bitget_swap ''linear'' ''USDT-FUTURES'' ''USDT'' ''USDT-M Perpetual''),
         (''usdc_m'', bitget_swap ''linear'' ''USDC-FUTURES'' ''USDC'' ''USDC-M Perpetual'')]),
      (''kraken'',
        [(''spot'', spot_market ''kraken'' [] ''USD''),
         (''futures'', \<lparr>mk_ccxt_client = ''krakenfutures'', mk_ccxt_options = [], mk_ccxt_params = [],
            mk_balance_currency = ''BTC'', mk_display_label = ''Futures''\<rparr>)])]"

definition contract_type_to_markets :: "(string \<times> (string \<times> string) list) list" where
  "contract_type_to_markets = [(''inverse_perpetual'', [(''bitget'', ''coin_m''), (''kraken'', ''futures'')])]"

definition allowed_markets :: "string \<Rightarrow> string list" where
  "allowed_markets ex = (case map_of markets ex of None \<Rightarrow> [] | Some m \<Rightarrow> map fst m)"

definition get_market_config :: "string \<Rightarrow> string \<Rightarrow> market res" where
  "get_market_config ex mt =
     (case map_of markets ex of
        None \<Rightarrow> Inl ValueError
      | Some [] \<Rightarrow> Inl ValueError
      | Some m \<Rightarrow> (case map_of m mt of None \<Rightarrow> Inl ValueError | Some c \<Rightarrow> Inr c))"

definition validate_combo :: "string \<Rightarrow> string \<Rightarrow> unit res" where
  "validate_combo ex mt =
     (case map_of markets ex of
        None \<Rightarrow> Inl ValueError
      | Some m \<Rightarrow> if mt \<notin> set (map fst m) then Inl ValueError else Inr ())"

definition validate_contract_type :: "string \<Rightarrow> string \<Rightarrow> string \<Rightarrow> unit res" where
  "validate_contract_type ct ex mt =
     (case map_of contract_type_to_markets ct of
        None \<Rightarrow> Inr ()
      | Some allowed \<Rightarrow> if (ex, mt) \<notin> set allowed then Inl ValueError else Inr ())"

definition supported_exchanges_payload :: "(string \<times> (string \<times> string) list) list" where
  "supported_exchanges_payload = map (\<lambda>(ex, ms). (ex, map (\<lambda>(k, m). (k, mk_display_label m)) ms)) markets"

section \<open>The table\<close>

record account =
  xa_id :: int
  xa_user :: int
  xa_exchange :: string
  xa_market :: string
  xa_alias :: string
  xa_uuid :: string
  xa_created_at :: string
  xa_last_tested :: "string option"
  xa_default :: bool

record account_db =
  ad_rows :: "account list"
  ad_next :: int
  ad_vault :: vault

datatype account_error = Account_Validation | Vault_Failed vault_error

definition max_alias_len :: nat where "max_alias_len = 64"
definition max_api_key_len :: nat where "max_api_key_len = 512"
definition max_api_secret_len :: nat where "max_api_secret_len = 512"
definition max_passphrase_len :: nat where "max_passphrase_len = 64"
definition max_market_type_len :: nat where "max_market_type_len = 32"

definition alias_ok :: "string \<Rightarrow> bool" where
  "alias_ok alias \<longleftrightarrow> alias \<noteq> [] \<and> length alias \<le> max_alias_len"

definition validate_inputs :: "string \<Rightarrow> string \<Rightarrow> string \<Rightarrow> api_keys \<Rightarrow> bool" where
  "validate_inputs ex mt alias a \<longleftrightarrow>
     validate_combo ex mt = Inr () \<and> alias_ok alias
     \<and> ak_api_key a \<noteq> [] \<and> length (ak_api_key a) \<le> max_api_key_len
     \<and> ak_api_secret a \<noteq> [] \<and> length (ak_api_secret a) \<le> max_api_secret_len
     \<and> length (ak_passphrase a) \<le> max_passphrase_len"

text \<open>The UNIQUE constraint of the table.\<close>

definition account_key :: "account \<Rightarrow> int \<times> string \<times> string \<times> string" where
  "account_key r = (xa_user r, xa_exchange r, xa_market r, xa_alias r)"

definition unset_defaults :: "int \<Rightarrow> string \<Rightarrow> int \<Rightarrow> account list \<Rightarrow> account list" where
  "unset_defaults u ex i rows =
     map (\<lambda>r. if xa_user r = u \<and> xa_exchange r = ex \<and> xa_id r \<noteq> i then r\<lparr>xa_default := False\<rparr> else r) rows"

definition insert_account :: "account \<Rightarrow> account_db \<Rightarrow> (unit + int) \<times> account_db" where
  "insert_account r db =
     (if account_key r \<in> set (map account_key (ad_rows db)) then (Inl (), db)
      else
        (let i = ad_next db; rows = ad_rows db @ [r\<lparr>xa_id := i\<rparr>];
             rows1 = (if xa_default r then unset_defaults (xa_user r) (xa_exchange r) i rows else rows) in
         (Inr i, db\<lparr>ad_rows := rows1, ad_next := i + 1\<rparr>)))"

text \<open>What one creation draws: a fresh uuid, the time, and what happens in between.\<close>

record create_env =
  ce_vault :: vault_env
  ce_uuid :: string
  ce_created :: string
  ce_meanwhile :: "account_db \<Rightarrow> account_db"

definition create_account :: "fernet_lib \<Rightarrow> create_env \<Rightarrow> int \<Rightarrow> string \<Rightarrow> string \<Rightarrow> string \<Rightarrow> api_keys \<Rightarrow> bool \<Rightarrow> account_db
    \<Rightarrow> (account_error + int) \<times> account_db" where
  "create_account F E u ex mt alias a dflt db =
     (if \<not> validate_inputs ex mt alias a then (Inl Account_Validation, db)
      else
        (let r = \<lparr>xa_id = 0, xa_user = u, xa_exchange = ex, xa_market = mt, xa_alias = alias, xa_uuid = ce_uuid E,
                  xa_created_at = ce_created E, xa_last_tested = None, xa_default = dflt\<rparr> in
         if account_key r \<in> set (map account_key (ad_rows db)) then (Inl Account_Validation, db)
         else (case save_keys_by_uuid F (ce_vault E) (ce_uuid E) a u (ad_vault db) of
             (Inl e, v) \<Rightarrow> (Inl (Vault_Failed e), db\<lparr>ad_vault := v\<rparr>)
           | (Inr _, v) \<Rightarrow>
               (case insert_account r (ce_meanwhile E (db\<lparr>ad_vault := v\<rparr>)) of
                  (Inr i, db1) \<Rightarrow> (Inr i, db1)
                | (Inl _, db1) \<Rightarrow>
                    (Inl Account_Validation,
                     db1\<lparr>ad_vault := snd (delete_keys_by_uuid (ce_vault E) (ce_uuid E) u (ad_vault db1))\<rparr>)))))"

definition get_account :: "int \<Rightarrow> account_db \<Rightarrow> account option" where
  "get_account i db = find (\<lambda>r. xa_id r = i) (ad_rows db)"

definition get_account_credentials :: "fernet_lib \<Rightarrow> vault_env \<Rightarrow> int \<Rightarrow> account_db
    \<Rightarrow> (vault_error + api_keys option) \<times> account_db" where
  "get_account_credentials F E i db =
     (case get_account i db of
        None \<Rightarrow> (Inr None, db)
      | Some r \<Rightarrow> (case get_keys_by_uuid F E (xa_uuid r) (xa_user r) (ad_vault db) of (k, v) \<Rightarrow> (k, db\<lparr>ad_vault := v\<rparr>)))"

text \<open>\<open>ORDER BY exchange_type, alias\<close>.\<close>

definition list_accounts :: "int \<Rightarrow> account_db \<Rightarrow> account list" where
  "list_accounts u db =
     sort_key xa_exchange (sort_key xa_alias (filter (\<lambda>r. xa_user r = u) (ad_rows db)))"

definition update_account :: "int \<Rightarrow> string option \<Rightarrow> bool option \<Rightarrow> string option \<Rightarrow> account_db
    \<Rightarrow> (account_error + bool) \<times> account_db" where
  "update_account i alias dflt tested db =
     (case get_account i db of
        None \<Rightarrow> (Inr False, db)
      | Some r0 \<Rightarrow>
          if (case alias of None \<Rightarrow> False | Some a \<Rightarrow> \<not> alias_ok a) then (Inl Account_Validation, db)
          else if alias = None \<and> tested = None \<and> dflt = None then (Inr False, db)
          else
            (let new = (\<lambda>r. r\<lparr>xa_alias := (case alias of None \<Rightarrow> xa_alias r | Some a \<Rightarrow> a),
                              xa_last_tested := (case tested of None \<Rightarrow> xa_last_tested r | Some t \<Rightarrow> Some t)\<rparr>);
                 clash = (\<exists>r \<in> set (ad_rows db). xa_id r \<noteq> i \<and> account_key r = account_key (new r0));
                 rows1 = map (\<lambda>r. if xa_id r = i then new r else r) (ad_rows db) in
             if clash then (Inl Account_Validation, db)
             else (Inr True, db\<lparr>ad_rows := (case dflt of
                 None \<Rightarrow> rows1
               | Some True \<Rightarrow> map (\<lambda>r. if xa_id r = i then r\<lparr>xa_default := True\<rparr> else r)
                   (unset_defaults (xa_user r0) (xa_exchange r0) i rows1)
               | Some False \<Rightarrow> map (\<lambda>r. if xa_id r = i then r\<lparr>xa_default := False\<rparr> else r) rows1)\<rparr>)))"

definition delete_account :: "vault_env \<Rightarrow> int \<Rightarrow> account_db \<Rightarrow> bool \<times> account_db" where
  "delete_account E i db =
     (case get_account i db of
        None \<Rightarrow> (False, db)
      | Some r \<Rightarrow>
          (True, db\<lparr>ad_rows := filter (\<lambda>r. xa_id r \<noteq> i) (ad_rows db),
                    ad_vault := snd (delete_keys_by_uuid E (xa_uuid r) (xa_user r) (ad_vault db))\<rparr>))"

definition set_default :: "int \<Rightarrow> account_db \<Rightarrow> (account_error + bool) \<times> account_db" where
  "set_default i db = update_account i None (Some True) None db"

definition get_default_account :: "int \<Rightarrow> string \<Rightarrow> account_db \<Rightarrow> account option" where
  "get_default_account u ex db = find (\<lambda>r. xa_user r = u \<and> xa_exchange r = ex \<and> xa_default r) (ad_rows db)"

definition account_belongs_to_user :: "int \<Rightarrow> int \<Rightarrow> account_db \<Rightarrow> bool" where
  "account_belongs_to_user i u db = (\<exists>r \<in> set (ad_rows db). xa_id r = i \<and> xa_user r = u)"

end
