(* ===== verification/Exchange_Routes.thy ===== *)
theory Exchange_Routes
  imports Exchange_Accounts Bot_Config
begin

text \<open>
  The routes over the exchange accounts (\<open>web/routes/exchanges.py\<close>) and the construction of an authenticated client
  (\<open>core/exchange_clients.py\<close>). The caller has been resolved to a user; each handler is a function from the world (table,
  vault, bot files, audit trail) to a reply and the world after it. What the exchange answers is an argument.
\<close>

section \<open>The world of a request\<close>

datatype bot_yaml = Broken_Yaml | No_Bot_Block | Bot_Block "int option"

record xa_world =
  xw_db :: account_db
  xw_bots :: "int \<Rightarrow> (string \<times> bot_yaml) list"
  xw_audit :: "(string \<times> string \<times> int) list"

text \<open>\<open>_row_to_dict\<close>: what leaves the store, without the name of the blob.\<close>

record account_view =
  av_id :: int
  av_user :: int
  av_exchange :: string
  av_market :: string
  av_alias :: string
  av_created_at :: string
  av_last_tested :: "string option"
  av_default :: bool

definition row_to_dict :: "account \<Rightarrow> account_view" where
  "row_to_dict r = \<lparr>av_id = xa_id r, av_user = xa_user r, av_exchange = xa_exchange r, av_market = xa_market r, av_alias = xa_alias r,
     av_created_at = xa_created_at r, av_last_tested = xa_last_tested r, av_default = xa_default r\<rparr>"

datatype xa_reply =
    Http_Error int string | In_Use "string list" | Accounts "account_view list" | An_Account "account_view option"
  | Created "account_view option" | Removed int | Test_Failed string | Tested real string string string string
  | Supported "(string \<times> (string \<times> string) list) list"

definition xa_audit :: "string \<Rightarrow> string \<Rightarrow> int \<Rightarrow> xa_world \<Rightarrow> xa_world" where
  "xa_audit action what u w = w\<lparr>xw_audit := xw_audit w @ [(action, what, u)]\<rparr>"

section \<open>Helpers\<close>

definition require_user_account :: "int \<Rightarrow> int \<Rightarrow> account_db \<Rightarrow> xa_reply + account" where
  "require_user_account i u db =
     (if \<not> account_belongs_to_user i u db then Inl (Http_Error 404 ''Account not found'')
      else (case get_account i db of
          None \<Rightarrow> Inl (Http_Error 404 ''Account not found'')
        | Some r \<Rightarrow> Inr r))"

definition bots_referencing_account :: "int \<Rightarrow> int \<Rightarrow> xa_world \<Rightarrow> string list" where
  "bots_referencing_account u i w = map fst (sort_key fst (filter (\<lambda>(_, y). y = Bot_Block (Some i)) (xw_bots w u)))"

definition line_break :: "char \<Rightarrow> bool" where
  "line_break c = (of_char c \<in> {10 :: nat, 11, 12, 13, 28, 29, 30, 133})"

text \<open>The first line of the message, 200 characters at most, or the name of the exception's type.\<close>

definition safe_error_message :: "string \<Rightarrow> string \<Rightarrow> string" where
  "safe_error_message type_name text =
     (let s = py_strip text; msg = (if s \<noteq> [] then takeWhile (\<lambda>c. \<not> line_break c) s else []) in
      if take 200 msg \<noteq> [] \<and> msg \<noteq> [] then take 200 msg else type_name)"

section \<open>The client of an account\<close>

text \<open>What building a client and asking for its balance gives: the name and text of the exception, or the balance and the
  currency of the client.\<close>

type_synonym connector = "string \<Rightarrow> string \<Rightarrow> api_keys \<Rightarrow> (string \<times> string) + (real option \<times> string)"

definition build_authenticated_exchange :: "connector \<Rightarrow> string \<Rightarrow> string \<Rightarrow> api_keys
    \<Rightarrow> (string \<times> string) + (real option \<times> string)" where
  "build_authenticated_exchange connect ex mt a =
     (if ex = ''bitget'' then
        (if ak_passphrase a = [] then Inl (''ExchangeClientError'', ''Bitget account is missing a stored passphrase'')
         else connect ex mt a)
      else if ex = ''kraken'' then connect ex mt a
      else Inl (''ExchangeClientError'', ''Unsupported exchange_type''))"

definition build_client_for_account :: "fernet_lib \<Rightarrow> vault_env \<Rightarrow> connector \<Rightarrow> int \<Rightarrow> account_db
    \<Rightarrow> ((string \<times> string) + (real option \<times> string)) \<times> account_db" where
  "build_client_for_account F E connect i db =
     (case get_account i db of
        None \<Rightarrow> (Inl (''ExchangeClientError'', ''Exchange account not found''), db)
      | Some r \<Rightarrow>
          (case get_account_credentials F E i db of
             (Inl _, db1) \<Rightarrow> (Inl (''ValueError'', ''credentials_uuid''), db1)
           | (Inr None, db1) \<Rightarrow> (Inl (''ExchangeClientError'', ''Stored credentials are unreadable''), db1)
           | (Inr (Some a), db1) \<Rightarrow> (build_authenticated_exchange connect (xa_exchange r) (xa_market r) a, db1)))"

section \<open>The routes\<close>

record create_body =
  cb_exchange :: string
  cb_market :: string
  cb_alias :: string
  cb_api_key :: string
  cb_api_secret :: string
  cb_passphrase :: "string option"
  cb_default :: bool

definition field_ok :: "nat \<Rightarrow> string \<Rightarrow> bool" where
  "field_ok n s \<longleftrightarrow> s \<noteq> [] \<and> length s \<le> n"

definition create_body_ok :: "create_body \<Rightarrow> bool" where
  "create_body_ok b \<longleftrightarrow> field_ok 32 (cb_exchange b) \<and> field_ok max_market_type_len (cb_market b) \<and> field_ok max_alias_len (cb_alias b)
     \<and> field_ok max_api_key_len (cb_api_key b) \<and> field_ok max_api_secret_len (cb_api_secret b)
     \<and> (case cb_passphrase b of None \<Rightarrow> True | Some p \<Rightarrow> field_ok max_passphrase_len p)"

definition body_keys :: "create_body \<Rightarrow> api_keys" where
  "body_keys b = \<lparr>ak_api_key = cb_api_key b, ak_api_secret = cb_api_secret b,
     ak_passphrase = (case cb_passphrase b of None \<Rightarrow> [] | Some p \<Rightarrow> p)\<rparr>"

definition list_user_accounts :: "int \<Rightarrow> xa_world \<Rightarrow> xa_reply" where
  "list_user_accounts u w = Accounts (map row_to_dict (list_accounts u (xw_db w)))"

definition create_user_account :: "fernet_lib \<Rightarrow> create_env \<Rightarrow> int \<Rightarrow> create_body \<Rightarrow> xa_world \<Rightarrow> xa_reply \<times> xa_world" where
  "create_user_account F E u b w =
     (if \<not> create_body_ok b then (Http_Error 422 [], w)
      else if cb_exchange b \<notin> set (map fst markets) then (Http_Error 400 ''Unknown exchange_type'', w)
      else if cb_exchange b = ''bitget'' \<and> cb_passphrase b = None
      then (Http_Error 400 ''Bitget accounts require a passphrase'', w)
      else (case create_account F E u (cb_exchange b) (cb_market b) (cb_alias b) (body_keys b) (cb_default b) (xw_db w) of
          (Inl Account_Validation, db) \<Rightarrow> (Http_Error 400 ''invalid account'', w\<lparr>xw_db := db\<rparr>)
        | (Inl (Vault_Failed _), db) \<Rightarrow> (Http_Error 500 ''Internal Server Error'', w\<lparr>xw_db := db\<rparr>)
        | (Inr i, db) \<Rightarrow>
            (Created (map_option row_to_dict (get_account i db)),
             xa_audit ''exchange_account_create'' (cb_exchange b @ '':'' @ cb_alias b) u (w\<lparr>xw_db := db\<rparr>))))"

definition get_user_account :: "int \<Rightarrow> int \<Rightarrow> xa_world \<Rightarrow> xa_reply" where
  "get_user_account u i w = (case require_user_account i u (xw_db w) of Inl e \<Rightarrow> e | Inr r \<Rightarrow> An_Account (Some (row_to_dict r)))"

definition update_user_account :: "int \<Rightarrow> int \<Rightarrow> string option \<Rightarrow> bool option \<Rightarrow> xa_world \<Rightarrow> xa_reply \<times> xa_world" where
  "update_user_account u i alias dflt w =
     (if (case alias of None \<Rightarrow> False | Some a \<Rightarrow> \<not> field_ok max_alias_len a) then (Http_Error 422 [], w)
      else (case require_user_account i u (xw_db w) of
          Inl e \<Rightarrow> (e, w)
        | Inr _ \<Rightarrow>
            (case update_account i alias dflt None (xw_db w) of
               (Inl _, db) \<Rightarrow> (Http_Error 400 ''invalid account'', w\<lparr>xw_db := db\<rparr>)
             | (Inr changed, db) \<Rightarrow>
                 (An_Account (map_option row_to_dict (get_account i db)),
                  (let w1 = w\<lparr>xw_db := db\<rparr> in
                   if \<not> changed then w1
                   else (let w2 = xa_audit ''exchange_account_update'' (show_int i) u w1 in
                         if dflt = Some True then xa_audit ''exchange_account_set_default'' (show_int i) u w2 else w2))))))"

definition delete_user_account :: "vault_env \<Rightarrow> int \<Rightarrow> int \<Rightarrow> xa_world \<Rightarrow> xa_reply \<times> xa_world" where
  "delete_user_account E u i w =
     (case require_user_account i u (xw_db w) of
        Inl e \<Rightarrow> (e, w)
      | Inr _ \<Rightarrow>
          (let blocking = bots_referencing_account u i w in
           if blocking \<noteq> [] then (In_Use blocking, w)
           else (case delete_account E i (xw_db w) of
               (False, db) \<Rightarrow> (Http_Error 404 ''Account not found'', w\<lparr>xw_db := db\<rparr>)
             | (True, db) \<Rightarrow> (Removed i, xa_audit ''exchange_account_delete'' (show_int i) u (w\<lparr>xw_db := db\<rparr>)))))"

definition test_account_connection :: "fernet_lib \<Rightarrow> vault_env \<Rightarrow> connector \<Rightarrow> string \<Rightarrow> int \<Rightarrow> int \<Rightarrow> xa_world
    \<Rightarrow> xa_reply \<times> xa_world" where
  "test_account_connection F E connect now u i w =
     (case require_user_account i u (xw_db w) of
        Inl e \<Rightarrow> (e, w)
      | Inr r \<Rightarrow>
          (case get_account_credentials F E i (xw_db w) of
             (Inl _, db) \<Rightarrow> (Http_Error 500 ''Internal Server Error'', w\<lparr>xw_db := db\<rparr>)
           | (Inr None, db) \<Rightarrow> (Http_Error 500 ''Stored credentials are unreadable'', w\<lparr>xw_db := db\<rparr>)
           | (Inr (Some a), db) \<Rightarrow>
               (case build_authenticated_exchange connect (xa_exchange r) (xa_market r) a of
                  Inl (ty, text) \<Rightarrow>
                    (Test_Failed (safe_error_message ty text),
                     xa_audit ''exchange_account_test'' (show_int i @ '':fail'') u (w\<lparr>xw_db := db\<rparr>))
                | Inr (balance, currency) \<Rightarrow>
                    (Tested (case balance of None \<Rightarrow> 0 | Some x \<Rightarrow> x) currency (xa_market r)
                       (case get_market_config (xa_exchange r) (xa_market r) of Inl _ \<Rightarrow> xa_market r | Inr m \<Rightarrow> mk_display_label m) now,
                     xa_audit ''exchange_account_test'' (show_int i @ '':ok'') u
                       (w\<lparr>xw_db := snd (update_account i None None (Some now) db)\<rparr>)))))"

definition list_supported_exchanges :: xa_reply where
  "list_supported_exchanges = Supported supported_exchanges_payload"

end
