(* ===== verification/Account_Properties.thy ===== *)
theory Account_Properties
  imports Exchange_Routes
begin

text \<open>
  What the account routes keep: names and blobs one to one, one default per exchange, every row with its blob on disk;
  what a caller reads back; and what a caller learns of accounts that are not his: nothing.
\<close>

section \<open>The invariant\<close>

definition has_blob :: "vault \<Rightarrow> account \<Rightarrow> bool" where
  "has_blob v r \<longleftrightarrow> safe_leaf (xa_uuid r) \<and> map_of (va_creds v (xa_user r)) (blob_name (xa_uuid r)) \<noteq> None"

definition one_default :: "account list \<Rightarrow> bool" where
  "one_default rows \<longleftrightarrow>
     (\<forall>r \<in> set rows. \<forall>s \<in> set rows. xa_default r \<and> xa_default s \<and> xa_user r = xa_user s \<and> xa_exchange r = xa_exchange s
        \<longrightarrow> xa_id r = xa_id s)"

definition accounts_wf :: "account_db \<Rightarrow> bool" where
  "accounts_wf db \<longleftrightarrow>
     distinct (map xa_id (ad_rows db)) \<and> (\<forall>r \<in> set (ad_rows db). xa_id r < ad_next db)
     \<and> distinct (map account_key (ad_rows db)) \<and> distinct (map xa_uuid (ad_rows db))
     \<and> one_default (ad_rows db) \<and> (\<forall>r \<in> set (ad_rows db). has_blob (ad_vault db) r)"

lemma accounts_wfD:
  assumes "accounts_wf db"
  shows "distinct (map xa_id (ad_rows db))" "r \<in> set (ad_rows db) \<Longrightarrow> xa_id r < ad_next db"
    "distinct (map account_key (ad_rows db))" "distinct (map xa_uuid (ad_rows db))" "one_default (ad_rows db)"
    "r \<in> set (ad_rows db) \<Longrightarrow> has_blob (ad_vault db) r"
  using assms by (auto simp: accounts_wf_def)

lemma get_account_mem: "get_account i db = Some r \<Longrightarrow> r \<in> set (ad_rows db) \<and> xa_id r = i"
  by (auto simp: get_account_def find_Some_iff)

lemma same_id: "accounts_wf db \<Longrightarrow> r \<in> set (ad_rows db) \<Longrightarrow> s \<in> set (ad_rows db) \<Longrightarrow> xa_id r = xa_id s \<Longrightarrow> r = s"
  using accounts_wfD(1) by (metis distinct_map inj_onD)

lemma unset_defaults_fields [simp]:
  "map xa_id (unset_defaults u ex i rows) = map xa_id rows" "map account_key (unset_defaults u ex i rows) = map account_key rows"
  "map xa_uuid (unset_defaults u ex i rows) = map xa_uuid rows"
  by (auto simp: unset_defaults_def account_key_def)

section \<open>Blobs\<close>

lemma fernet_creds [simp]: "va_creds (snd (user_fernet F E u v)) = va_creds v"
  by (simp add: user_fernet_def load_or_create_user_key_def write_key_def split: option.split)

lemma fernet_creds_eq: "user_fernet F E u v = (q, v1) \<Longrightarrow> va_creds v1 = va_creds v"
  using fernet_creds [of F E u v] by simp

lemma get_creds [simp]: "va_creds (snd (get_keys_by_uuid F E cu u v)) = va_creds v"
  by (auto simp: get_keys_by_uuid_def fernet_creds_eq split: sum.split option.split prod.split)

lemma save_creds:
  assumes "save_keys_by_uuid F E cu a u v = (r, w)" "n \<noteq> blob_name cu" "n \<noteq> blob_tmp cu"
  shows "map_of (va_creds w x) n = map_of (va_creds v x) n"
  using assms fernet_creds_eq
  by (auto simp: save_keys_by_uuid_def save_steps_def write_cred_def split: prod.splits sum.splits option.split)

lemma save_stored:
  assumes "save_keys_by_uuid F E cu a u v = (Inr x, w)"
  shows "safe_leaf cu" "map_of (va_creds w u) (blob_name cu) \<noteq> None"
  using assms by (auto simp: save_keys_by_uuid_def uuid_creds_path_cases save_steps_def write_cred_def split: prod.splits sum.splits if_splits)

lemma save_has_blob:
  assumes "save_keys_by_uuid F E cu a u v = (x, w)" "has_blob v r" "xa_uuid r \<noteq> cu"
  shows "has_blob w r"
  using assms(2,3) save_creds [OF assms(1), of "blob_name (xa_uuid r)" "xa_user r"] by (simp add: has_blob_def)

lemma delete_has_blob:
  assumes "has_blob v r" "xa_uuid r \<noteq> cu"
  shows "has_blob (snd (delete_keys_by_uuid E cu u v)) r"
  using assms by (auto simp: delete_keys_by_uuid_def has_blob_def split: sum.split)

section \<open>Each operation keeps the invariant\<close>

lemma unset_defaults_set:
  "r \<in> set (unset_defaults u ex i rows) \<Longrightarrow>
    \<exists>s \<in> set rows. xa_id r = xa_id s \<and> xa_user r = xa_user s \<and> xa_exchange r = xa_exchange s \<and> xa_uuid r = xa_uuid s
      \<and> (xa_default r \<longrightarrow> xa_default s \<and> \<not> (xa_user r = u \<and> xa_exchange r = ex \<and> xa_id r \<noteq> i))"
  by (auto simp: unset_defaults_def split: if_splits)

lemma insert_wf:
  assumes "accounts_wf db" "xa_uuid r \<notin> set (map xa_uuid (ad_rows db))" "has_blob (ad_vault db) r"
  shows "accounts_wf (snd (insert_account r db))"
proof (cases "account_key r \<in> set (map account_key (ad_rows db))")
  case False
  let ?i = "ad_next db" and ?rows = "ad_rows db @ [r\<lparr>xa_id := ad_next db\<rparr>]"
  define rows1 where "rows1 = (if xa_default r then unset_defaults (xa_user r) (xa_exchange r) ?i ?rows else ?rows)"
  have i: "snd (insert_account r db) = db\<lparr>ad_rows := rows1, ad_next := ?i + 1\<rparr>"
    using False by (simp add: insert_account_def rows1_def Let_def)
  have m: "map xa_id rows1 = map xa_id ?rows" "map account_key rows1 = map account_key ?rows" "map xa_uuid rows1 = map xa_uuid ?rows"
    by (simp_all add: rows1_def del: map_append)
  have k: "account_key (r\<lparr>xa_id := ?i\<rparr>) = account_key r" by (simp add: account_key_def)
  have new: "?i \<notin> set (map xa_id (ad_rows db))" using accounts_wfD(2) [OF assms(1)] by force
  have mem: "\<exists>t \<in> set ?rows. xa_id s = xa_id t \<and> xa_user s = xa_user t \<and> xa_exchange s = xa_exchange t \<and> xa_uuid s = xa_uuid t
      \<and> (xa_default s \<longrightarrow> xa_default t \<and> \<not> (xa_default r \<and> xa_user s = xa_user r \<and> xa_exchange s = xa_exchange r \<and> xa_id s \<noteq> ?i))"
    if "s \<in> set rows1" for s
    using that unset_defaults_set unfolding rows1_def by (cases "xa_default r") fastforce+
  have lt: "xa_id s < ?i + 1" if "s \<in> set rows1" for s
    using mem [OF that] accounts_wfD(2) [OF assms(1)] by fastforce
  have b: "has_blob (ad_vault db) s" if "s \<in> set rows1" for s
    using mem [OF that] accounts_wfD(6) [OF assms(1)] assms(3) by (auto simp: has_blob_def)
  have d: "one_default rows1"
    unfolding one_default_def
  proof (intro ballI impI; elim conjE)
    fix s t assume s: "s \<in> set rows1" "xa_default s" and t: "t \<in> set rows1" "xa_default t"
      and e: "xa_user s = xa_user t" "xa_exchange s = xa_exchange t"
    obtain s' where s': "s' \<in> set ?rows" "xa_id s = xa_id s'" "xa_user s = xa_user s'" "xa_exchange s = xa_exchange s'" "xa_default s'"
      "\<not> (xa_default r \<and> xa_user s = xa_user r \<and> xa_exchange s = xa_exchange r \<and> xa_id s \<noteq> ?i)"
      using mem [OF s(1)] s(2) by blast
    obtain t' where t': "t' \<in> set ?rows" "xa_id t = xa_id t'" "xa_user t = xa_user t'" "xa_exchange t = xa_exchange t'" "xa_default t'"
      "\<not> (xa_default r \<and> xa_user t = xa_user r \<and> xa_exchange t = xa_exchange r \<and> xa_id t \<noteq> ?i)"
      using mem [OF t(1)] t(2) by blast
    show "xa_id s = xa_id t"
    proof (cases "s' \<in> set (ad_rows db) \<and> t' \<in> set (ad_rows db)")
      case True
      then show ?thesis using accounts_wfD(5) [OF assms(1)] s' t' e unfolding one_default_def by metis
    next
      case False
      then have "s' = r\<lparr>xa_id := ?i\<rparr> \<or> t' = r\<lparr>xa_id := ?i\<rparr>" using s'(1) t'(1) by auto
      then have "xa_default r \<and> xa_user s = xa_user r \<and> xa_exchange s = xa_exchange r" using s' t' e by auto
      then show ?thesis using s'(6) t'(6) e by auto
    qed
  qed
  show ?thesis
    unfolding accounts_wf_def i using accounts_wfD(1,3,4) [OF assms(1)] m k new False assms(2) lt b d by auto
qed (simp add: insert_account_def assms(1))

text \<open>An update rewrites rows in place.\<close>

definition same_identity :: "account \<Rightarrow> account \<Rightarrow> bool" where
  "same_identity r s \<longleftrightarrow> xa_id r = xa_id s \<and> xa_user r = xa_user s \<and> xa_exchange r = xa_exchange s \<and> xa_market r = xa_market s
     \<and> xa_uuid r = xa_uuid s"

lemma map_wf:
  assumes "accounts_wf db" "\<And>r. same_identity (f r) r" "distinct (map (\<lambda>r. account_key (f r)) (ad_rows db))" "one_default (map f (ad_rows db))"
  shows "accounts_wf (db\<lparr>ad_rows := map f (ad_rows db)\<rparr>)"
proof -
  have "(\<lambda>r. xa_id (f r)) = xa_id" "(\<lambda>r. xa_uuid (f r)) = xa_uuid"
    using assms(2) by (simp_all add: same_identity_def)
  moreover have "has_blob v (f r) = has_blob v r" "xa_id (f r) = xa_id r" for v r
    using assms(2) by (simp_all add: same_identity_def has_blob_def)
  ultimately show ?thesis
    using accounts_wfD [OF assms(1)] assms(3,4) by (simp add: accounts_wf_def comp_def)
qed

definition renamed :: "int \<Rightarrow> string option \<Rightarrow> string option \<Rightarrow> account \<Rightarrow> account" where
  "renamed i alias tested r =
     (if xa_id r = i then r\<lparr>xa_alias := (case alias of None \<Rightarrow> xa_alias r | Some a \<Rightarrow> a),
        xa_last_tested := (case tested of None \<Rightarrow> xa_last_tested r | Some t \<Rightarrow> Some t)\<rparr> else r)"

definition flagged :: "int \<Rightarrow> bool option \<Rightarrow> int \<Rightarrow> string \<Rightarrow> account \<Rightarrow> account" where
  "flagged i dflt u ex r =
     (case dflt of None \<Rightarrow> r
      | Some True \<Rightarrow> if xa_id r = i then r\<lparr>xa_default := True\<rparr>
          else if xa_user r = u \<and> xa_exchange r = ex then r\<lparr>xa_default := False\<rparr> else r
      | Some False \<Rightarrow> if xa_id r = i then r\<lparr>xa_default := False\<rparr> else r)"

lemma rewritten_identity [simp]: "same_identity (flagged i dflt u ex (renamed i alias tested r)) r"
  by (simp add: same_identity_def flagged_def renamed_def split: option.split bool.split)

lemma rewritten_fields [simp]:
  "xa_default (flagged i dflt u ex (renamed i alias tested r)) =
     (case dflt of None \<Rightarrow> xa_default r
      | Some True \<Rightarrow> xa_id r = i \<or> xa_default r \<and> \<not> (xa_user r = u \<and> xa_exchange r = ex)
      | Some False \<Rightarrow> xa_default r \<and> xa_id r \<noteq> i)"
  "account_key (flagged i dflt u ex r) = account_key r"
  by (auto simp: flagged_def renamed_def account_key_def split: option.split bool.split)

lemma update_account_shape:
  assumes "update_account i alias dflt tested db = (q, db1)"
  shows "db1 = db \<or> (\<exists>r0. get_account i db = Some r0 \<and> (\<forall>r \<in> set (ad_rows db). xa_id r \<noteq> i \<longrightarrow> account_key r \<noteq> account_key (renamed i alias tested r0))
     \<and> db1 = db\<lparr>ad_rows := map (\<lambda>r. flagged i dflt (xa_user r0) (xa_exchange r0) (renamed i alias tested r)) (ad_rows db)\<rparr>)"
proof (cases "get_account i db")
  case (Some r0)
  have id0: "xa_id r0 = i" using get_account_mem [OF Some] by simp
  have f: "(case dflt of None \<Rightarrow> map (renamed i alias tested) rs
      | Some True \<Rightarrow> map (\<lambda>r. if xa_id r = i then r\<lparr>xa_default := True\<rparr> else r)
          (unset_defaults (xa_user r0) (xa_exchange r0) i (map (renamed i alias tested) rs))
      | Some False \<Rightarrow> map (\<lambda>r. if xa_id r = i then r\<lparr>xa_default := False\<rparr> else r) (map (renamed i alias tested) rs))
    = map (\<lambda>r. flagged i dflt (xa_user r0) (xa_exchange r0) (renamed i alias tested r)) rs" for rs
    by (auto simp: flagged_def renamed_def unset_defaults_def split: option.split bool.split)
  have n: "(\<lambda>r. if xa_id r = i then r\<lparr>xa_alias := (case alias of None \<Rightarrow> xa_alias r | Some a \<Rightarrow> a),
        xa_last_tested := (case tested of None \<Rightarrow> xa_last_tested r | Some t \<Rightarrow> Some t)\<rparr> else r) = renamed i alias tested"
    by (simp add: renamed_def fun_eq_iff)
  have k: "account_key (r0\<lparr>xa_alias := (case alias of None \<Rightarrow> xa_alias r0 | Some a \<Rightarrow> a),
        xa_last_tested := (case tested of None \<Rightarrow> xa_last_tested r0 | Some t \<Rightarrow> Some t)\<rparr>) = account_key (renamed i alias tested r0)"
    by (simp add: renamed_def id0)
  show ?thesis
    using assms unfolding update_account_def Some option.case Let_def n k f
    by (auto simp: Some split: if_splits)
qed (use assms in \<open>simp add: update_account_def\<close>)

lemma update_wf:
  assumes "accounts_wf db" "update_account i alias dflt tested db = (q, db1)"
  shows "accounts_wf db1"
proof -
  from update_account_shape [OF assms(2)] consider "db1 = db"
    | r0 where "get_account i db = Some r0" "\<And>r. r \<in> set (ad_rows db) \<Longrightarrow> xa_id r \<noteq> i \<Longrightarrow> account_key r \<noteq> account_key (renamed i alias tested r0)"
        "db1 = db\<lparr>ad_rows := map (\<lambda>r. flagged i dflt (xa_user r0) (xa_exchange r0) (renamed i alias tested r)) (ad_rows db)\<rparr>" by blast
  then show ?thesis
  proof cases
    case (2 r0)
    note wf = accounts_wfD [OF assms(1)]
    have r0: "r0 \<in> set (ad_rows db)" "xa_id r0 = i" using get_account_mem [OF 2(1)] by auto
    have only: "r = r0" if "r \<in> set (ad_rows db)" "xa_id r = i" for r using same_id [OF assms(1) that(1) r0(1)] that(2) r0(2) by simp
    have "inj_on (\<lambda>r. account_key (renamed i alias tested r)) (set (ad_rows db))"
    proof (rule inj_onI)
      fix r s assume m: "r \<in> set (ad_rows db)" "s \<in> set (ad_rows db)"
        and e: "account_key (renamed i alias tested r) = account_key (renamed i alias tested s)"
      have u: "renamed i alias tested t = t" if "xa_id t \<noteq> i" for t using that by (simp add: renamed_def)
      have inj: "account_key r = account_key s \<Longrightarrow> r = s" using wf(3) m by (metis distinct_map inj_onD)
      show "r = s"
        using e m only [OF m(1)] only [OF m(2)] 2(2) [OF m(1)] 2(2) [OF m(2)] u inj by metis
    qed
    then have k: "distinct (map (\<lambda>r. account_key (flagged i dflt (xa_user r0) (xa_exchange r0) (renamed i alias tested r))) (ad_rows db))"
      using wf(1) by (simp add: distinct_map)
    have d: "one_default (map (\<lambda>r. flagged i dflt (xa_user r0) (xa_exchange r0) (renamed i alias tested r)) (ad_rows db))"
    proof -
      have id: "xa_id (flagged i dflt u ex (renamed i alias tested r)) = xa_id r" "xa_user (flagged i dflt u ex (renamed i alias tested r)) = xa_user r"
        "xa_exchange (flagged i dflt u ex (renamed i alias tested r)) = xa_exchange r" for u ex r
        using rewritten_identity [of i dflt u ex "alias" tested r] by (simp_all add: same_identity_def)
      show ?thesis
        unfolding one_default_def set_map
      proof (intro ballI impI; elim imageE conjE; hypsubst)
        fix r s
        let ?g = "\<lambda>r. flagged i dflt (xa_user r0) (xa_exchange r0) (renamed i alias tested r)"
        assume m: "r \<in> set (ad_rows db)" "s \<in> set (ad_rows db)" and x: "xa_default (?g r)" "xa_default (?g s)"
          and e: "xa_user (?g r) = xa_user (?g s)" "xa_exchange (?g r) = xa_exchange (?g s)"
        have e': "xa_user r = xa_user s" "xa_exchange r = xa_exchange s" using e by (simp_all only: id)
        have old: "xa_default r \<Longrightarrow> xa_default s \<Longrightarrow> xa_id r = xa_id s"
          using wf(5) m e' unfolding one_default_def by blast
        have "xa_id r = xa_id s"
        proof (cases "dflt = Some True")
          case True
          then show ?thesis using x e' only [OF m(1)] only [OF m(2)] old by (auto split: if_splits)
        next
          case False
          then show ?thesis using x old by (auto split: option.splits bool.splits)
        qed
        then show "xa_id (?g r) = xa_id (?g s)" by (simp only: id)
      qed
    qed
    show ?thesis unfolding 2(3) by (rule map_wf [OF assms(1) rewritten_identity k d])
  qed (use assms(1) in simp)
qed

lemma delete_wf:
  assumes "accounts_wf db"
  shows "accounts_wf (snd (delete_account E i db))"
proof (cases "get_account i db")
  case (Some r)
  note wf = accounts_wfD [OF assms]
  have r: "r \<in> set (ad_rows db)" "xa_id r = i" using get_account_mem [OF Some] by auto
  have "has_blob (snd (delete_keys_by_uuid E (xa_uuid r) (xa_user r) (ad_vault db))) s" if s: "s \<in> set (ad_rows db)" "xa_id s \<noteq> i" for s
  proof -
    have "xa_uuid s \<noteq> xa_uuid r" using wf(4) s r by (metis distinct_map inj_onD)
    then show ?thesis by (rule delete_has_blob [OF wf(6) [OF s(1)]])
  qed
  then show ?thesis
    using wf by (simp add: delete_account_def Some accounts_wf_def one_default_def distinct_map_filter)
qed (simp add: delete_account_def assms)

text \<open>What the creation of an account may rely on: a fresh uuid, and other requests in between that keep the invariant, do
  not use the uuid and leave the blob.\<close>

definition uuids :: "account_db \<Rightarrow> string set" where
  "uuids db = set (map xa_uuid (ad_rows db))"

definition meanwhile_ok :: "create_env \<Rightarrow> int \<Rightarrow> bool" where
  "meanwhile_ok E u \<longleftrightarrow>
     (\<forall>db. accounts_wf db \<and> ce_uuid E \<notin> uuids db \<and> map_of (va_creds (ad_vault db) u) (blob_name (ce_uuid E)) \<noteq> None
        \<longrightarrow> accounts_wf (ce_meanwhile E db) \<and> ce_uuid E \<notin> uuids (ce_meanwhile E db)
          \<and> map_of (va_creds (ad_vault (ce_meanwhile E db)) u) (blob_name (ce_uuid E)) \<noteq> None)"

lemma meanwhile_nothing: "ce_meanwhile E = (\<lambda>db. db) \<Longrightarrow> meanwhile_ok E u"
  by (simp add: meanwhile_ok_def)

lemma vault_change_wf:
  assumes "accounts_wf db" "\<And>r. r \<in> set (ad_rows db) \<Longrightarrow> has_blob (ad_vault db) r \<Longrightarrow> has_blob v r"
  shows "accounts_wf (db\<lparr>ad_vault := v\<rparr>)"
  using assms by (simp add: accounts_wf_def)

lemma create_wf:
  assumes "accounts_wf db" "ce_uuid E \<notin> uuids db" "meanwhile_ok E u"
  shows "accounts_wf (snd (create_account F E u ex mt alias a dflt db))"
proof -
  define r where "r = \<lparr>xa_id = 0, xa_user = u, xa_exchange = ex, xa_market = mt, xa_alias = alias, xa_uuid = ce_uuid E,
    xa_created_at = ce_created E, xa_last_tested = None, xa_default = dflt\<rparr>"
  obtain q v where s: "save_keys_by_uuid F (ce_vault E) (ce_uuid E) a u (ad_vault db) = (q, v)"
    by (cases "save_keys_by_uuid F (ce_vault E) (ce_uuid E) a u (ad_vault db)")
  have fresh: "xa_uuid x \<noteq> ce_uuid E" if "x \<in> set (ad_rows db)" for x using assms(2) that by (force simp: uuids_def)
  have saved: "accounts_wf (db\<lparr>ad_vault := v\<rparr>)"
    by (rule vault_change_wf [OF assms(1)]) (use save_has_blob [OF s] fresh in blast)
  show ?thesis
  proof (cases q)
    case (Inr x)
    let ?db = "ce_meanwhile E (db\<lparr>ad_vault := v\<rparr>)"
    have m: "accounts_wf ?db" "ce_uuid E \<notin> uuids ?db" "map_of (va_creds (ad_vault ?db) u) (blob_name (ce_uuid E)) \<noteq> None"
      using assms(2,3) saved save_stored [OF s [unfolded Inr]] unfolding meanwhile_ok_def by (auto simp: uuids_def)
    have i: "accounts_wf (snd (insert_account r ?db))"
      by (rule insert_wf [OF m(1)])
        (use m(2,3) save_stored(1) [OF s [unfolded Inr]] in \<open>auto simp: r_def uuids_def has_blob_def\<close>)
    have "accounts_wf (db1\<lparr>ad_vault := snd (delete_keys_by_uuid (ce_vault E) (ce_uuid E) u (ad_vault db1))\<rparr>)"
      if "insert_account r ?db = (Inl (), db1)" for db1
    proof -
      have db1: "db1 = ?db" using that by (auto simp: insert_account_def Let_def split: if_splits)
      show ?thesis unfolding db1
        by (rule vault_change_wf [OF m(1)], rule delete_has_blob) (use m(2) in \<open>force simp: uuids_def\<close>)+
    qed
    then show ?thesis using i assms(1) s Inr
      by (simp add: create_account_def Let_def flip: r_def split: prod.split sum.split) (metis snd_conv unit.exhaust)
  qed (use assms(1) saved s in \<open>simp add: create_account_def Let_def\<close>)
qed

section \<open>Requests\<close>

datatype xa_call =
    Create_Account create_env create_body | Update_Account int "string option" "bool option" | Delete_Account vault_env int
  | Test_Account vault_env connector string int

definition xa_op :: "fernet_lib \<Rightarrow> int \<Rightarrow> xa_call \<Rightarrow> xa_world \<Rightarrow> xa_reply \<times> xa_world" where
  "xa_op F u c w =
     (case c of
        Create_Account E b \<Rightarrow> create_user_account F E u b w
      | Update_Account i alias dflt \<Rightarrow> update_user_account u i alias dflt w
      | Delete_Account E i \<Rightarrow> delete_user_account E u i w
      | Test_Account E connect now i \<Rightarrow> test_account_connection F E connect now u i w)"

definition call_ok :: "int \<Rightarrow> xa_call \<Rightarrow> xa_world \<Rightarrow> bool" where
  "call_ok u c w \<longleftrightarrow>
     (case c of Create_Account E b \<Rightarrow> ce_uuid E \<notin> uuids (xw_db w) \<and> meanwhile_ok E u | _ \<Rightarrow> True)"

definition xa_step :: "fernet_lib \<Rightarrow> xa_world \<Rightarrow> xa_world \<Rightarrow> bool" where
  "xa_step F w w' \<longleftrightarrow> (\<exists>u c. call_ok u c w \<and> w' = snd (xa_op F u c w))"

lemma xa_audit_db [simp]: "xw_db (xa_audit x y u w) = xw_db w" "xw_bots (xa_audit x y u w) = xw_bots w"
  by (simp_all add: xa_audit_def)

lemma create_route_db:
  "xw_db (snd (create_user_account F E u b w)) = xw_db w
    \<or> xw_db (snd (create_user_account F E u b w))
      = snd (create_account F E u (cb_exchange b) (cb_market b) (cb_alias b) (body_keys b) (cb_default b) (xw_db w))"
  by (auto simp: create_user_account_def split: prod.split sum.split account_error.split)

lemma update_route_db:
  "xw_db (snd (update_user_account u i alias dflt w)) = xw_db w
    \<or> xw_db (snd (update_user_account u i alias dflt w)) = snd (update_account i alias dflt None (xw_db w))"
  by (auto simp: update_user_account_def Let_def split: prod.split sum.split)

lemma delete_route_db:
  "xw_db (snd (delete_user_account E u i w)) = xw_db w
    \<or> xw_db (snd (delete_user_account E u i w)) = snd (delete_account E i (xw_db w))"
  by (auto simp: delete_user_account_def Let_def split: prod.split sum.split bool.split)

lemma credentials_wf: "accounts_wf db \<Longrightarrow> accounts_wf (snd (get_account_credentials F E i db))"
  by (auto simp: get_account_credentials_def has_blob_def split: option.split prod.split
      intro!: vault_change_wf) (metis get_creds option.distinct(1) snd_conv)

lemma test_route_wf:
  assumes "accounts_wf (xw_db w)"
  shows "accounts_wf (xw_db (snd (test_account_connection F E connect now u i w)))"
proof -
  obtain q db where c: "get_account_credentials F E i (xw_db w) = (q, db)" by (cases "get_account_credentials F E i (xw_db w)")
  have db: "accounts_wf db" using credentials_wf [OF assms, of F E i] c by simp
  then have "accounts_wf (snd (update_account i None None (Some now) db))" by (metis prod.collapse update_wf)
  then show ?thesis using assms db by (auto simp: test_account_connection_def c split: sum.split option.split prod.split)
qed

lemma call_keeps_wf:
  assumes "accounts_wf (xw_db w)" "call_ok u c w"
  shows "accounts_wf (xw_db (snd (xa_op F u c w)))"
proof (cases c)
  case (Create_Account E b)
  then show ?thesis using create_route_db [of F E u b w] create_wf [OF assms(1), of E u] assms
    by (auto simp: xa_op_def call_ok_def)
next
  case (Update_Account i al dflt)
  have "accounts_wf (snd (update_account i al dflt None (xw_db w)))" by (metis assms(1) prod.collapse update_wf)
  with Update_Account show ?thesis using update_route_db [of u i al dflt w] assms(1) by (auto simp: xa_op_def)
next
  case (Delete_Account E i)
  then show ?thesis using delete_route_db [of E u i w] delete_wf [OF assms(1)] assms(1) by (auto simp: xa_op_def)
next
  case (Test_Account E connect now i)
  then show ?thesis using test_route_wf [OF assms(1)] by (simp add: xa_op_def)
qed

interpretation account_requests: step_invariant "xa_step F" "\<lambda>w. accounts_wf (xw_db w)"
  by unfold_locales (auto simp: xa_step_def call_keeps_wf)

text \<open>C35: whatever the requests, the table stays in order: one row per id, name and blob, at most one default account for
  a user and an exchange, and the blob of every row is on disk.\<close>

theorem accounts_stay_in_order:
  assumes "(xa_step F)\<^sup>*\<^sup>* w w'" "accounts_wf (xw_db w)"
  shows "accounts_wf (xw_db w')"
  by (rule account_requests.run_keeps [OF assms])

section \<open>What callers see\<close>

text \<open>an account of somebody else and an account that does not exist are answered alike, by every route that names
  one, and the request leaves nothing behind.\<close>

theorem foreign_account_looks_missing:
  assumes "\<forall>r \<in> set (ad_rows (xw_db w)). xa_id r = i \<longrightarrow> xa_user r \<noteq> u" "case al of None \<Rightarrow> True | Some a \<Rightarrow> field_ok max_alias_len a"
  shows "get_user_account u i w = Http_Error 404 ''Account not found''
    \<and> update_user_account u i al dflt w = (Http_Error 404 ''Account not found'', w)
    \<and> delete_user_account E u i w = (Http_Error 404 ''Account not found'', w)
    \<and> test_account_connection F E connect now u i w = (Http_Error 404 ''Account not found'', w)"
proof -
  have "require_user_account i u (xw_db w) = Inl (Http_Error 404 ''Account not found'')"
    using assms(1) by (auto simp: require_user_account_def account_belongs_to_user_def)
  then show ?thesis using assms(2)
    by (simp add: get_user_account_def update_user_account_def delete_user_account_def test_account_connection_def split: option.splits)
qed

lemma find_new:
  assumes "\<forall>r \<in> set rows. xa_id r \<noteq> i" "xa_id n = i"
  shows "find (\<lambda>r. xa_id r = i) (rows @ [n]) = Some n"
  using assms by (induction rows) auto

lemma insert_found:
  assumes "accounts_wf db" "insert_account r db = (Inr i, db1)"
  shows "\<exists>s. get_account i db1 = Some s \<and> xa_uuid s = xa_uuid r \<and> xa_user s = xa_user r \<and> xa_default s = xa_default r
    \<and> xa_exchange s = xa_exchange r" "ad_vault db1 = ad_vault db"
proof -
  have new: "\<forall>x \<in> set (ad_rows db). xa_id x \<noteq> ad_next db" using accounts_wfD(2) [OF assms(1)] by force
  have i: "i = ad_next db" and rows: "ad_rows db1 = (if xa_default r
      then unset_defaults (xa_user r) (xa_exchange r) i (ad_rows db @ [r\<lparr>xa_id := i\<rparr>]) else ad_rows db @ [r\<lparr>xa_id := i\<rparr>])"
    using assms(2) by (auto simp: insert_account_def Let_def split: if_splits)
  have "unset_defaults (xa_user r) (xa_exchange r) i (ad_rows db @ [r\<lparr>xa_id := i\<rparr>])
      = unset_defaults (xa_user r) (xa_exchange r) i (ad_rows db) @ [r\<lparr>xa_id := i\<rparr>]" by (simp add: unset_defaults_def)
  moreover have "\<forall>x \<in> set (unset_defaults (xa_user r) (xa_exchange r) i (ad_rows db)). xa_id x \<noteq> i"
    using new by (auto simp: unset_defaults_def i)
  ultimately have "get_account i db1 = Some (r\<lparr>xa_id := i\<rparr>)"
    using new find_new [of _ i "r\<lparr>xa_id := i\<rparr>"] by (simp add: get_account_def rows i)
  then show "\<exists>s. get_account i db1 = Some s \<and> xa_uuid s = xa_uuid r \<and> xa_user s = xa_user r \<and> xa_default s = xa_default r
    \<and> xa_exchange s = xa_exchange r" by simp
  show "ad_vault db1 = ad_vault db" using assms(2) by (auto simp: insert_account_def Let_def split: if_splits)
qed

text \<open>an account that was created opens with the keys it was created with, and is its exchange's default when it was
  to be.\<close>

theorem created_account_opens:
  assumes "fernet_documented F" "accounts_wf db" "ce_uuid E \<notin> uuids db" "ce_meanwhile E = (\<lambda>db. db)"
    "create_account F E u ex mt al a dflt db = (Inr i, db1)"
  shows "fst (get_account_credentials F E' i db1) = Inr (Some a)
    \<and> (dflt \<longrightarrow> map_option xa_id (get_default_account u ex db1) = Some i)"
proof -
  define r where "r = \<lparr>xa_id = 0, xa_user = u, xa_exchange = ex, xa_market = mt, xa_alias = al, xa_uuid = ce_uuid E,
    xa_created_at = ce_created E, xa_last_tested = None, xa_default = dflt\<rparr>"
  obtain v where s: "save_keys_by_uuid F (ce_vault E) (ce_uuid E) a u (ad_vault db) = (Inr (), v)"
    and i: "insert_account r (db\<lparr>ad_vault := v\<rparr>) = (Inr i, db1)"
    using assms(4,5) by (auto simp: create_account_def Let_def r_def split: if_splits prod.splits sum.splits)
  have fresh: "xa_uuid x \<noteq> ce_uuid E" if "x \<in> set (ad_rows db)" for x using assms(3) that by (force simp: uuids_def)
  have wf: "accounts_wf (db\<lparr>ad_vault := v\<rparr>)"
    by (rule vault_change_wf [OF assms(2)]) (use save_has_blob [OF s] fresh in blast)
  obtain n where n: "get_account i db1 = Some n" "xa_uuid n = ce_uuid E" "xa_user n = u" "xa_default n = dflt" "xa_exchange n = ex"
    using insert_found(1) [OF wf i] by (auto simp: r_def)
  have "fst (get_keys_by_uuid F E' (ce_uuid E) u v) = Inr (Some a)"
    using saved_credentials [OF assms(1) s] by simp
  then have k: "fst (get_account_credentials F E' i db1) = Inr (Some a)"
    using insert_found(2) [OF wf i] n by (auto simp: get_account_credentials_def split: prod.split)
  have wf1: "accounts_wf db1"
    using create_wf [OF assms(2,3) meanwhile_nothing [OF assms(4)], of F u ex mt al a dflt] assms(5) by simp
  have "map_option xa_id (get_default_account u ex db1) = Some i" if dflt
  proof -
    have m: "n \<in> set (ad_rows db1)" "xa_id n = i" using get_account_mem [OF n(1)] by auto
    then have "find (\<lambda>r. xa_user r = u \<and> xa_exchange r = ex \<and> xa_default r) (ad_rows db1) \<noteq> None"
      using n that by (auto simp: find_None_iff)
    then obtain x where x: "find (\<lambda>r. xa_user r = u \<and> xa_exchange r = ex \<and> xa_default r) (ad_rows db1) = Some x" by auto
    then have "x \<in> set (ad_rows db1)" "xa_user x = u" "xa_exchange x = ex" "xa_default x" by (auto simp: find_Some_iff)
    then have "xa_id x = i" using accounts_wfD(5) [OF wf1] m n that unfolding one_default_def by metis
    then show ?thesis by (simp add: get_default_account_def x)
  qed
  with k show ?thesis by blast
qed

text \<open>an account a bot still names is not deleted, and one that is deleted leaves neither row nor blob.\<close>

theorem deletion_leaves_no_dangling_bot:
  assumes "accounts_wf (xw_db w)" "delete_user_account E u i w = (reply, w')"
  shows "(\<exists>slug. (slug, Bot_Block (Some i)) \<in> set (xw_bots w u)) \<longrightarrow> xw_db w' = xw_db w"
    and "reply = Removed i' \<Longrightarrow> (\<forall>slug. (slug, Bot_Block (Some i)) \<notin> set (xw_bots w' u)) \<and> get_account i (xw_db w') = None"
proof -
  have b: "bots_referencing_account u i w = [] \<longleftrightarrow> (\<forall>slug. (slug, Bot_Block (Some i)) \<notin> set (xw_bots w u))"
  proof -
    have "bots_referencing_account u i w = [] \<longleftrightarrow> set (sort_key fst (filter (\<lambda>(_, y). y = Bot_Block (Some i)) (xw_bots w u))) = {}"
      by (simp only: bots_referencing_account_def map_is_Nil_conv set_empty)
    then show ?thesis by (auto simp: filter_empty_conv)
  qed
  have "xw_db w' = xw_db w" if "bots_referencing_account u i w \<noteq> []"
    using assms(2) that by (auto simp: delete_user_account_def Let_def split: sum.splits)
  then show "(\<exists>slug. (slug, Bot_Block (Some i)) \<in> set (xw_bots w u)) \<longrightarrow> xw_db w' = xw_db w" using b by blast
  show "(\<forall>slug. (slug, Bot_Block (Some i)) \<notin> set (xw_bots w' u)) \<and> get_account i (xw_db w') = None" if "reply = Removed i'"
  proof -
    have "bots_referencing_account u i w = []" "xw_bots w' = xw_bots w" "get_account i (xw_db w') = None"
      using assms(2) that
      by (auto simp: delete_user_account_def delete_account_def get_account_def find_None_iff Let_def
          require_user_account_def split: sum.splits if_splits option.splits)
    then show ?thesis using b by simp
  qed
qed

end
