(* ===== verification/Bot_Purge.thy ===== *)
theory Bot_Purge
  imports Secret_Paths
begin

text \<open>
  What the removal of a bot takes (\<open>purge_bot\<close>): exactly the files and rows of that bot, so another bot and another
  tenant keep theirs and a bot created later under the same name starts from nothing.
\<close>

section \<open>The files of a bot\<close>

definition bot_file :: "int \<Rightarrow> string \<Rightarrow> path \<Rightarrow> bool" where
  "bot_file u slug p \<longleftrightarrow>
     (case p of (d, n) \<Rightarrow>
        d = Logs_Dir u \<and> (n \<in> {slug @ ''.state.json'', slug @ ''.state.lock'', slug @ ''.manual_trigger''}
            \<or> prefix (slug @ ''.log'') n
            \<or> (\<exists>action \<in> set [''edit'', ''close'', ''cancel'']. prefix (slug @ ''.deal_'' @ action @ ''_'') n))
        \<or> d = Pid_Dir u \<and> n = slug @ ''.pid''
        \<or> d = Ml_Dir u \<and> n = ''results_'' @ slug @ ''.json'')"

lemma dot_split:
  assumes "a @ CHR ''.'' # x = b @ CHR ''.'' # y" "CHR ''.'' \<notin> set a" "CHR ''.'' \<notin> set b"
  shows "a = b"
proof -
  have "takeWhile (\<lambda>c. c \<noteq> CHR ''.'') (z @ CHR ''.'' # zs) = z" if "CHR ''.'' \<notin> set z" for z zs
    using that by (induction z) auto
  then show ?thesis using assms by metis
qed

lemma bot_file_name:
  assumes "bot_file u slug (d, n)"
  obtains x where "n = slug @ CHR ''.'' # x" "d = Logs_Dir u \<or> d = Pid_Dir u"
    | "n = ''results_'' @ slug @ CHR ''.'' # ''json''" "d = Ml_Dir u"
proof -
  have pre: "\<exists>x. m = slug @ CHR ''.'' # x" if "prefix (slug @ CHR ''.'' # y) m" for m y
    using that by (auto simp: prefix_def)
  from assms show thesis using that pre unfolding bot_file_def by auto
qed

lemma bot_files_apart:
  assumes "safe_leaf s" "safe_leaf t" "bot_file u s p" "bot_file w t p"
  shows "u = w \<and> s = t"
proof -
  obtain d n where p: "p = (d, n)" by (cases p)
  have dots: "CHR ''.'' \<notin> set s" "CHR ''.'' \<notin> set t" using safe_leaf_no_sep(3) assms(1,2) by auto
  from assms(3) [unfolded p] show ?thesis
  proof (cases rule: bot_file_name)
    case (1 x)
    from assms(4) [unfolded p] show ?thesis
      by (cases rule: bot_file_name) (use 1 dots dot_split in auto)
  next
    case 2
    from assms(4) [unfolded p] show ?thesis
      by (cases rule: bot_file_name) (use 2 dots dot_split [of s _ t] in auto)
  qed
qed

section \<open>The candidates\<close>

lemma candidates_set:
  assumes "p \<in> set files"
  shows "p \<in> set ([(Logs_Dir u, a), (Logs_Dir u, b), (Logs_Dir u, c), (Pid_Dir u, d), (Ml_Dir u, e)] @ glob (Logs_Dir u) l files
      @ concat (map (\<lambda>x. glob (Logs_Dir u) (f x) files) acts))
    \<longleftrightarrow> fst p = Logs_Dir u \<and> (snd p \<in> {a, b, c} \<or> prefix l (snd p) \<or> (\<exists>x \<in> set acts. prefix (f x) (snd p)))
      \<or> fst p = Pid_Dir u \<and> snd p = d \<or> fst p = Ml_Dir u \<and> snd p = e"
proof -
  have g: "p \<in> set (glob (Logs_Dir u) x files) \<longleftrightarrow> fst p = Logs_Dir u \<and> prefix x (snd p)" for x
    by (cases p, use assms in \<open>simp add: glob_def\<close>)
  show ?thesis by (auto simp: g prod_eq_iff)
qed

lemma purge_candidates_set:
  assumes "safe_leaf slug"
  shows "\<exists>ps. purge_candidates u slug files = Inr ps \<and> (\<forall>p \<in> set files. p \<in> set ps \<longleftrightarrow> bot_file u slug p)"
proof -
  let ?l = "[(Logs_Dir u, slug @ ''.state.json''), (Logs_Dir u, slug @ ''.state.lock''), (Logs_Dir u, slug @ ''.manual_trigger''),
    (Pid_Dir u, slug @ ''.pid''), (Ml_Dir u, ''results_'' @ slug @ ''.json'')] @ glob (Logs_Dir u) (slug @ ''.log'') files
    @ concat (map (\<lambda>action. glob (Logs_Dir u) (slug @ ''.deal_'' @ action @ ''_'') files) [''edit'', ''close'', ''cancel''])"
  have "purge_candidates u slug files = Inr (rev (remdups (rev ?l)))"
    using assms by (simp only: purge_candidates_def path_defs validate_safe_leaf_cases if_True res_bind_simps all_ok.simps)
  moreover have "p \<in> set ?l \<longleftrightarrow> bot_file u slug p" if "p \<in> set files" for p
    unfolding bot_file_def case_prod_beta by (rule candidates_set [OF that])
  ultimately show ?thesis by (intro exI [of _ "rev (remdups (rev ?l))"] conjI ballI) (simp_all only: set_rev set_remdups)
qed

section \<open>The loop\<close>

lemma purge_file_files:
  "snd (purge_file stuck p s) = (if stuck p then snd s else removeAll p (snd s))"
  by (cases s) (simp add: purge_file_def)

lemma purge_files:
  "snd (fold (purge_file stuck) ps s) = filter (\<lambda>p. p \<notin> set ps \<or> stuck p) (snd s)"
proof (induction ps arbitrary: s)
  case (Cons p ps)
  have "snd (fold (purge_file stuck) (p # ps) s) = filter (\<lambda>q. q \<notin> set ps \<or> stuck q) (if stuck p then snd s else removeAll p (snd s))"
    by (simp add: Cons.IH purge_file_files)
  also have "\<dots> = filter (\<lambda>q. q \<notin> set (p # ps) \<or> stuck q) (snd s)"
    by (auto simp: removeAll_filter_not_eq intro!: filter_cong)
  finally show ?case .
qed simp

section \<open>What is left\<close>

text \<open>The rows of a tenant's other bots and of the other tenants.\<close>

definition rows_of_bot :: "int \<Rightarrow> string \<Rightarrow> bot_tables \<Rightarrow> string list \<times> string list \<times> nat \<times> nat" where
  "rows_of_bot u slug t =
     (let dids = map fst (filter (\<lambda>(_, w, s). w = u \<and> s = slug) (bt_deals t)) in
      (dids, map fst (filter (\<lambda>(_, d). d \<in> set dids) (bt_orders t)),
       length (filter (\<lambda>x. x = (u, slug)) (bt_annotations t)), length (filter (\<lambda>x. x = (u, slug)) (bt_backtests t))))"

lemma sibling_rows:
  assumes "(w, s) \<noteq> (u, slug)"
  shows "filter (\<lambda>x. x = (w, s)) (bt_annotations (snd (purge_rows u slug t))) = filter (\<lambda>x. x = (w, s)) (bt_annotations t)"
    "filter (\<lambda>x. x = (w, s)) (bt_backtests (snd (purge_rows u slug t))) = filter (\<lambda>x. x = (w, s)) (bt_backtests t)"
  using assms by (auto simp: purge_rows_def Let_def intro!: filter_cong)

text \<open>C37: a purge that is not resisted removes exactly the files of the bot, and its rows from all four tables when the
  database answers; the files and rows of every other bot, of the same tenant or another, stay.\<close>

theorem purge_takes_exactly_the_bot:
  assumes "safe_leaf slug" "purge_bot True (\<lambda>_. False) u slug (files, t) = (r, files1, t1)" "distinct (map fst (bt_deals t))"
  shows "files1 = filter (\<lambda>p. \<not> bot_file u slug p) files
    \<and> (\<forall>w s p. safe_leaf s \<and> (w, s) \<noteq> (u, slug) \<and> p \<in> set files \<and> bot_file w s p \<longrightarrow> p \<in> set files1)
    \<and> rows_of_bot u slug t1 = ([], [], 0, 0)
    \<and> (\<forall>w s. (w, s) \<noteq> (u, slug) \<longrightarrow> rows_of_bot w s t1 = rows_of_bot w s t)"
proof -
  obtain ps where ps: "purge_candidates u slug files = Inr ps" "\<forall>p \<in> set files. p \<in> set ps \<longleftrightarrow> bot_file u slug p"
    using purge_candidates_set [OF assms(1)] by blast
  obtain m where f0: "files1 = snd (fold (purge_file (\<lambda>_. False)) ps (m, files))" and t1: "t1 = snd (purge_rows u slug t)"
    using assms(2) by (simp add: purge_bot_def validate_safe_leaf_cases assms(1) ps(1) split_beta) (metis snd_conv)
  have f: "files1 = filter (\<lambda>p. p \<notin> set ps) files" by (simp add: f0 purge_files)
  have e: "files1 = filter (\<lambda>p. \<not> bot_file u slug p) files" unfolding f by (rule filter_cong) (use ps(2) in auto)
  have others: "p \<in> set files1" if "safe_leaf s" "(w, s) \<noteq> (u, slug)" "p \<in> set files" "bot_file w s p" for w s p
    using bot_files_apart [OF assms(1) that(1) _ that(4)] that(2,3) e by auto
  have own: "rows_of_bot u slug t1 = ([], [], 0, 0)"
    by (simp add: t1 purge_rows_def rows_of_bot_def Let_def filter_empty_conv split_beta)
  have rows: "rows_of_bot w s t1 = rows_of_bot w s t" if n: "(w, s) \<noteq> (u, slug)" for w s
  proof -
    have d: "filter (\<lambda>(_, x, y). x = w \<and> y = s) (bt_deals t1) = filter (\<lambda>(_, x, y). x = w \<and> y = s) (bt_deals t)"
      using n by (auto simp: t1 purge_rows_def Let_def intro!: filter_cong)
    let ?D = "\<lambda>w s. set (map fst (filter (\<lambda>(_, x, y). x = w \<and> y = s) (bt_deals t)))"
    have "?D w s \<inter> ?D u slug = {}" using n assms(3) by (auto simp: distinct_map inj_on_def)
    then have "filter (\<lambda>(_, did). did \<in> ?D w s) (filter (\<lambda>(_, did). did \<notin> ?D u slug) (bt_orders t))
        = filter (\<lambda>(_, did). did \<in> ?D w s) (bt_orders t)"
      unfolding filter_filter by (intro filter_cong refl) auto
    then have "filter (\<lambda>(_, did). did \<in> ?D w s) (bt_orders t1) = filter (\<lambda>(_, did). did \<in> ?D w s) (bt_orders t)"
      by (simp add: t1 purge_rows_def Let_def)
    then show ?thesis
      unfolding rows_of_bot_def Let_def d unfolding t1 by (simp only: sibling_rows [OF n] t1)
  qed
  show ?thesis by (intro conjI allI impI; (elim conjE)?) (rule e own rows others; assumption)+
qed

end
