(* ===== verification/Account_Witnesses.thy ===== *)
theory Account_Witnesses
  imports Vault_Login Account_Properties Bot_Purge
begin

text \<open>
  The theorems about exchange accounts and about the removal of a bot at concrete inputs: a portal whose first account is
  created, and a directory with the files of two bots and two tenants.
\<close>

section \<open>Accounts\<close>

definition toy_db :: account_db where
  "toy_db = \<lparr>ad_rows = [], ad_next = 1, ad_vault = toy_vault\<rparr>"

definition toy_world :: xa_world where
  "toy_world = \<lparr>xw_db = toy_db, xw_bots = (\<lambda>_. []), xw_audit = []\<rparr>"

definition toy_create :: create_env where
  "toy_create = \<lparr>ce_vault = toy_venv, ce_uuid = ''c'', ce_created = ''2026-04-20'', ce_meanwhile = (\<lambda>db. db)\<rparr>"

definition toy_body :: create_body where
  "toy_body = \<lparr>cb_exchange = ''kraken'', cb_market = ''futures'', cb_alias = ''main'', cb_api_key = ''K'', cb_api_secret = ''S'',
     cb_passphrase = None, cb_default = True\<rparr>"

lemma toy_db_wf: "accounts_wf toy_db"
  by (simp add: toy_db_def accounts_wf_def one_default_def)

lemma toy_fresh: "ce_uuid toy_create \<notin> uuids toy_db" "ce_meanwhile toy_create = (\<lambda>db. db)"
  by (simp_all add: toy_db_def uuids_def toy_create_def)

theorem accounts_stay_in_order_witness:
  "accounts_wf (xw_db (snd (xa_op toy_fernet 1 (Create_Account toy_create toy_body) toy_world)))"
proof -
  have "call_ok 1 (Create_Account toy_create toy_body) toy_world"
    by (simp add: call_ok_def toy_fresh toy_world_def meanwhile_nothing)
  then have "(xa_step toy_fernet)\<^sup>*\<^sup>* toy_world (snd (xa_op toy_fernet 1 (Create_Account toy_create toy_body) toy_world))"
    by (intro r_into_rtranclp) (auto simp: xa_step_def)
  moreover have "accounts_wf (xw_db toy_world)" by (simp add: toy_world_def toy_db_wf)
  ultimately show ?thesis by (rule accounts_stay_in_order)
qed

definition one_account :: xa_world where
  "one_account = toy_world\<lparr>xw_db := toy_db\<lparr>ad_rows := [\<lparr>xa_id = 1, xa_user = 1, xa_exchange = ''kraken'', xa_market = ''spot'',
     xa_alias = ''main'', xa_uuid = ''a'', xa_created_at = [], xa_last_tested = None, xa_default = False\<rparr>], ad_next := 2\<rparr>\<rparr>"

theorem foreign_account_looks_missing_witness:
  "delete_user_account toy_venv 2 1 one_account = (Http_Error 404 ''Account not found'', one_account)"
proof -
  have "\<forall>r \<in> set (ad_rows (xw_db one_account)). xa_id r = 1 \<longrightarrow> xa_user r \<noteq> 2" by (simp add: one_account_def)
  then show ?thesis using foreign_account_looks_missing [of one_account 1 2 None] by simp
qed

theorem created_account_opens_witness:
  "\<exists>i db1. create_account toy_fernet toy_create 1 ''kraken'' ''futures'' ''main'' test_keys True toy_db = (Inr i, db1)
    \<and> fst (get_account_credentials toy_fernet toy_venv i db1) = Inr (Some test_keys)"
proof -
  have "case fst (create_account toy_fernet toy_create 1 ''kraken'' ''futures'' ''main'' test_keys True toy_db) of Inr i \<Rightarrow> i = 1 | Inl _ \<Rightarrow> False"
    by code_simp
  then obtain i db1 where c: "create_account toy_fernet toy_create 1 ''kraken'' ''futures'' ''main'' test_keys True toy_db = (Inr i, db1)"
    by (cases "create_account toy_fernet toy_create 1 ''kraken'' ''futures'' ''main'' test_keys True toy_db") (auto split: sum.splits)
  then show ?thesis using created_account_opens [OF toy_fernet_documented toy_db_wf toy_fresh c] by blast
qed

section \<open>A purge\<close>

definition toy_files :: "path list" where
  "toy_files = [(Logs_Dir 1, ''btc.state.json''), (Logs_Dir 1, ''btc.log.1''), (Logs_Dir 1, ''btc.deal_close_PAPER-1''),
     (Logs_Dir 1, ''btc2.state.json''), (Logs_Dir 2, ''btc.state.json''), (Pid_Dir 1, ''btc.pid'')]"

definition toy_tables :: bot_tables where
  "toy_tables = \<lparr>bt_deals = [(''d1'', 1, ''btc''), (''d2'', 1, ''btc2'')], bt_orders = [(''o1'', ''d1''), (''o2'', ''d2'')],
     bt_annotations = [(1, ''btc'')], bt_backtests = []\<rparr>"

theorem purge_takes_exactly_the_bot_witness:
  "case purge_bot True (\<lambda>_. False) 1 ''btc'' (toy_files, toy_tables) of (r, files, t) \<Rightarrow>
     (Logs_Dir 1, ''btc2.state.json'') \<in> set files \<and> (Logs_Dir 1, ''btc.state.json'') \<notin> set files \<and> rows_of_bot 1 ''btc'' t = ([], [], 0, 0)"
proof -
  obtain r files t where p: "purge_bot True (\<lambda>_. False) 1 ''btc'' (toy_files, toy_tables) = (r, files, t)" by (metis prod.exhaust)
  have s: "safe_leaf ''btc''" "safe_leaf ''btc2''" by code_simp+
  have d: "distinct (map fst (bt_deals toy_tables))" by (simp add: toy_tables_def)
  have o: "bot_file 1 ''btc2'' (Logs_Dir 1, ''btc2.state.json'')" "bot_file 1 ''btc'' (Logs_Dir 1, ''btc.state.json'')"
    "(Logs_Dir 1, ''btc2.state.json'') \<in> set toy_files"
    by (simp_all add: bot_file_def toy_files_def)
  note g = purge_takes_exactly_the_bot [OF s(1) p d]
  have "(1 :: int, ''btc2'') \<noteq> (1, ''btc'')" by simp
  with g s(2) o(1,3) have "(Logs_Dir 1, ''btc2.state.json'') \<in> set files" by blast
  with g o(2) show ?thesis by (simp add: p)
qed

end
