(* ===== verification/Deal_Routes.thy ===== *)
theory Deal_Routes
  imports Exchange_Accounts Engine_Restart
begin

text \<open>
  The routes over deals and chart annotations (\<open>web/routes/deals.py\<close>) and the lock around a state file
  (\<open>core/file_lock.py\<close>). The caller has been resolved to a user; a handler maps the world of the request (ledger, state
  files and sentinel files of each user, audit trail) to a reply and the world after it. Whether the bot runs, what its
  configuration, its exchange and its lock give is an argument.
\<close>

section \<open>The wait for the lock\<close>

text \<open>One entry for each attempt: whether \<open>flock\<close> was granted and, when it was not, the clock read after it. No value while
  the wait goes on.\<close>

fun poll_lock :: "real \<Rightarrow> (bool \<times> real) list \<Rightarrow> bool option" where
  "poll_lock deadline [] = None"
| "poll_lock deadline ((granted, now) # rest) =
     (if granted then Some True else if deadline \<le> now then Some False else poll_lock deadline rest)"

definition exclusive_lock :: "real \<Rightarrow> real \<Rightarrow> (bool \<times> real) list \<Rightarrow> bool option" where
  "exclusive_lock start timeout attempts = poll_lock (start + timeout) attempts"

section \<open>The world of a request\<close>

record deal_portal =
  dp_ledger :: ledger
  dp_disk :: "int \<Rightarrow> dir"
  dp_sentinels :: "int \<Rightarrow> (string \<times> edit_settings res) list"
  dp_outbox :: "message list"
  dp_audit :: "(string \<times> string \<times> int) list"

datatype config_read = Config_Missing | Config_Broken | Config_Read bot_config

record bot_seen =
  bs_running :: bool
  bs_running_locked :: bool
  bs_open :: "deal_json list"
  bs_config :: config_read

text \<open>\<open>ce_last\<close> is what the public client of an exchange gives as the last price of a pair; \<open>ce_lock\<close> lists the attempts at the
  lock from the time \<open>ce_clock\<close> on; \<open>ce_telegram\<close> is what constructing the notifier gives.\<close>

record close_env =
  ce_now :: int
  ce_accounts :: account_db
  ce_last :: "string \<Rightarrow> string \<Rightarrow> real option res"
  ce_clock :: real
  ce_lock :: "(bool \<times> real) list"
  ce_telegram :: "unit res"
  ce_db_up :: bool

datatype deal_reply =
    Deal_Http int string
  | Deal_List "(deal_row \<times> order_row list) list"
  | Deal_Orders "order_row list"
  | Deal_Stats deal_stats
  | Live_Deal deal_json
  | Ledger_Deal deal_row "order_row list"
  | Edit_Queued string
  | Close_Queued string string
  | Closed_Directly string string real deal_json
  | Waiting_For_Lock
  | Annotation_Created int
  | Annotation_List "annotation list"
  | Annotations_Cleared nat
  | Annotation_Deleted

definition deal_audit :: "string \<Rightarrow> string \<Rightarrow> int \<Rightarrow> deal_portal \<Rightarrow> deal_portal" where
  "deal_audit action slug u w = w\<lparr>dp_audit := dp_audit w @ [(action, slug, u)]\<rparr>"

section \<open>Reading the ledger\<close>

definition api_db_deals :: "int \<Rightarrow> string option \<Rightarrow> string option \<Rightarrow> int \<Rightarrow> deal_portal \<Rightarrow> deal_reply" where
  "api_db_deals u slug status lmt w =
     (let deals = get_deals u slug status (max 1 (min 1000 lmt)) (dp_ledger w);
          orders_by_deal = get_orders_for_deal_ids (map row_id deals) u (dp_ledger w)
      in Deal_List (map (\<lambda>d. (d, get_or [] (map_of orders_by_deal (row_id d)))) deals))"

definition api_db_deal_orders :: "int \<Rightarrow> string \<Rightarrow> deal_portal \<Rightarrow> deal_reply" where
  "api_db_deal_orders u did w = Deal_Orders (get_deal_orders did u (dp_ledger w))"

definition api_db_stats :: "int \<Rightarrow> string option \<Rightarrow> deal_portal \<Rightarrow> deal_reply" where
  "api_db_stats u slug w = Deal_Stats (compute_stats u slug (dp_ledger w))"

text \<open>The live state of a known bot first, then the hundred newest rows of the bot's slug.\<close>

definition api_deal_get :: "int \<Rightarrow> string \<Rightarrow> string \<Rightarrow> bot_seen option \<Rightarrow> deal_portal \<Rightarrow> deal_reply" where
  "api_deal_get u slug did seen w =
     (if \<not> deal_id_match did then Deal_Http 422 ''Invalid deal_id format''
      else (case (case seen of None \<Rightarrow> None | Some b \<Rightarrow> find (\<lambda>j. dj_id j = Some did) (bs_open b)) of
          Some j \<Rightarrow> Live_Deal j
        | None \<Rightarrow>
            (case find (\<lambda>r. row_id r = did) (get_deals u (Some slug) None 100 (dp_ledger w)) of
               None \<Rightarrow> Deal_Http 404 ''Deal not found''
             | Some r \<Rightarrow> Ledger_Deal r (get_deal_orders did u (dp_ledger w)))))"

section \<open>Editing a deal\<close>

record deal_edit_body =
  de_tp_enabled :: "bool option"
  de_tp_target_pct :: "real option"
  de_sl_enabled :: "bool option"
  de_sl_type :: "string option"
  de_sl_pct :: "real option"
  de_dca_enabled :: "bool option"

definition edit_settings_of :: "deal_edit_body \<Rightarrow> edit_settings" where
  "edit_settings_of b =
     \<lparr>es_tp = (if de_tp_enabled b = None \<and> de_tp_target_pct b = None then None
               else Some (Some \<lparr>tpo_enabled = de_tp_enabled b, tpo_target_pct = de_tp_target_pct b\<rparr>)),
      es_sl = (if de_sl_enabled b = None \<and> de_sl_type b = None \<and> de_sl_pct b = None then None
               else Some (Some \<lparr>slo_enabled = de_sl_enabled b, slo_type = de_sl_type b, slo_pct = de_sl_pct b\<rparr>)),
      es_dca = de_dca_enabled b\<rparr>"

definition no_settings :: edit_settings where
  "no_settings = \<lparr>es_tp = None, es_sl = None, es_dca = None\<rparr>"

definition sentinel_name :: "string \<Rightarrow> string \<Rightarrow> string \<Rightarrow> string" where
  "sentinel_name slug action did = slug @ ''.deal_'' @ action @ ''_'' @ did"

definition write_sentinel :: "int \<Rightarrow> string \<Rightarrow> edit_settings \<Rightarrow> deal_portal \<Rightarrow> deal_portal" where
  "write_sentinel u name es w =
     w\<lparr>dp_sentinels := (dp_sentinels w)(u := AList.update name (Inr es) (dp_sentinels w u))\<rparr>"

definition api_deal_edit :: "int \<Rightarrow> string \<Rightarrow> string \<Rightarrow> deal_edit_body \<Rightarrow> deal_portal \<Rightarrow> deal_reply \<times> deal_portal" where
  "api_deal_edit u slug did b w =
     (if \<not> deal_id_match did then (Deal_Http 422 ''Invalid deal_id format'', w)
      else (Edit_Queued did,
            deal_audit ''deal_edit'' slug u (write_sentinel u (sentinel_name slug ''edit'' did) (edit_settings_of b) w)))"

section \<open>Closing a deal of a stopped bot\<close>

definition fetch_current_price_for_close :: "close_env \<Rightarrow> string \<Rightarrow> string \<Rightarrow> real res" where
  "fetch_current_price_for_close E pair exchange_name =
     res_bind (ce_last E (map lower_char exchange_name) pair) (\<lambda>ticker.
     let p = get_or 0 ticker in if p \<le> 0 then Inl ValueError else Inr p)"

definition build_portal_notifier :: "close_env \<Rightarrow> bool" where
  "build_portal_notifier E = (case ce_telegram E of Inl _ \<Rightarrow> False | Inr _ \<Rightarrow> True)"

definition portal_close_ctx :: "close_env \<Rightarrow> int \<Rightarrow> string \<Rightarrow> bot_config \<Rightarrow> close_ctx" where
  "portal_close_ctx E u slug cfg =
     \<lparr>cc_user = u, cc_slug = Some slug, cc_name = cfg_name cfg, cc_fee = taker_fee (dca_cfg cfg),
      cc_notifier = build_portal_notifier E, cc_file = Some (slug @ ''.state.json''), cc_now = ce_now E,
      cc_db_up = ce_db_up E\<rparr>"

text \<open>\<open>_locked_close\<close> once the lock is held and the bot was seen stopped: load, close, persist.\<close>

definition locked_close :: "close_env \<Rightarrow> int \<Rightarrow> string \<Rightarrow> string \<Rightarrow> string \<Rightarrow> bot_config \<Rightarrow> real \<Rightarrow> deal_portal
    \<Rightarrow> close_result res \<times> deal_portal" where
  "locked_close E u slug did action cfg price w =
     (case load_paper_state_from_file (ce_now E) (slug @ ''.state.json'') (dp_disk w u) of
        (s, fs) \<Rightarrow>
          (case handler_close_deal (portal_close_ctx E u slug cfg) did price action ''portal''
                 \<lparr>book = s, dledger = dp_ledger w, disk = fs, outbox = dp_outbox w\<rparr> of
             (r, v) \<Rightarrow> (r, w\<lparr>dp_ledger := dledger v, dp_disk := (dp_disk w)(u := disk v), dp_outbox := outbox v\<rparr>)))"

definition close_deal_offline :: "close_env \<Rightarrow> int \<Rightarrow> string \<Rightarrow> string \<Rightarrow> string \<Rightarrow> bot_seen \<Rightarrow> deal_portal
    \<Rightarrow> deal_reply \<times> deal_portal" where
  "close_deal_offline E u slug did action seen w =
     (case bs_config seen of
        Config_Missing \<Rightarrow> (Deal_Http 404 ''Bot config not found'', w)
      | Config_Broken \<Rightarrow> (Deal_Http 400 ''Invalid bot config'', w)
      | Config_Read cfg \<Rightarrow>
          (case get_account (exchange_account_id cfg) (ce_accounts E) of
             None \<Rightarrow> (Deal_Http 400 ''Exchange account is missing or unowned'', w)
           | Some acc \<Rightarrow>
               if xa_user acc \<noteq> u then (Deal_Http 400 ''Exchange account is missing or unowned'', w)
               else (case fetch_current_price_for_close E (cfg_pair cfg) (xa_exchange acc) of
                   Inl ValueError \<Rightarrow> (Deal_Http 503 ''Exchange returned invalid ticker response'', w)
                 | Inl _ \<Rightarrow> (Deal_Http 503 ''Could not fetch current price from exchange'', w)
                 | Inr price \<Rightarrow>
                     if exclusive_lock (ce_clock E) 3 (ce_lock E) = None then (Waiting_For_Lock, w)
                     else if exclusive_lock (ce_clock E) 3 (ce_lock E) = Some False
                     then (Deal_Http 503 ''Could not acquire state lock'', w)
                     else if bs_running_locked seen then (Deal_Http 409 ''Bot started during close attempt'', w)
                     else (case locked_close E u slug did action cfg price w of
                         (Inl _, w1) \<Rightarrow> (Deal_Http 500 ''Internal Server Error'', w1)
                       | (Inr (Refused _), w1) \<Rightarrow> (Deal_Http 404 ''Could not close deal'', w1)
                       | (Inr (Done rep), w1) \<Rightarrow>
                           (Closed_Directly did action price (cr_deal rep),
                            deal_audit (''deal_'' @ action @ ''_offline'') slug u w1)))))"

definition api_deal_action :: "close_env \<Rightarrow> int \<Rightarrow> string \<Rightarrow> string \<Rightarrow> string \<Rightarrow> bot_seen option \<Rightarrow> deal_portal
    \<Rightarrow> deal_reply \<times> deal_portal" where
  "api_deal_action E u slug did action seen w =
     (if \<not> deal_id_match did then (Deal_Http 422 ''Invalid deal_id format'', w)
      else if action \<noteq> ''cancel'' \<and> action \<noteq> ''close'' then (Deal_Http 400 ''action must be cancel or close'', w)
      else (case seen of
          None \<Rightarrow>
            (Close_Queued did action,
             deal_audit (''deal_'' @ action) slug u (write_sentinel u (sentinel_name slug action did) no_settings w))
        | Some b \<Rightarrow>
            if bs_running b then
              (Close_Queued did action,
               deal_audit (''deal_'' @ action) slug u (write_sentinel u (sentinel_name slug action did) no_settings w))
            else close_deal_offline E u slug did action b w))"

section \<open>Chart annotations\<close>

definition hex_digit :: "char \<Rightarrow> bool" where
  "hex_digit c = (let n = of_char c :: nat in is_digit c \<or> 65 \<le> n \<and> n \<le> 70 \<or> 97 \<le> n \<and> n \<le> 102)"

definition chart_ts_ok :: "int \<Rightarrow> bool" where
  "chart_ts_ok x \<longleftrightarrow> 0 \<le> x \<and> x \<le> 2000000000"

definition annotation_body_ok :: "annotation \<Rightarrow> bool" where
  "annotation_body_ok a \<longleftrightarrow>
     safe_leaf (an_slug a) \<and> length (an_slug a) \<le> 64
     \<and> 1 \<le> length (an_type a) \<and> length (an_type a) \<le> 32
     \<and> 1 \<le> length (an_timeframe a) \<and> length (an_timeframe a) \<le> 8
     \<and> chart_ts_ok (an_x1 a) \<and> (case an_x2 a of None \<Rightarrow> True | Some x \<Rightarrow> chart_ts_ok x)
     \<and> (case an_label a of None \<Rightarrow> True | Some l \<Rightarrow> length l \<le> 200)
     \<and> length (an_color a) = 7 \<and> hd (an_color a) = CHR ''#'' \<and> list_all hex_digit (tl (an_color a))"

definition api_db_annotations_create :: "int \<Rightarrow> annotation \<Rightarrow> deal_portal \<Rightarrow> deal_reply \<times> deal_portal" where
  "api_db_annotations_create u a w =
     (if \<not> annotation_body_ok a then (Deal_Http 422 [], w)
      else (case save_annotation a u (dp_ledger w) of
          (Inl _, db) \<Rightarrow> (Deal_Http 500 ''Internal Server Error'', w\<lparr>dp_ledger := db\<rparr>)
        | (Inr i, db) \<Rightarrow> (Annotation_Created i, w\<lparr>dp_ledger := db\<rparr>)))"

definition api_db_annotations_list :: "int \<Rightarrow> string \<Rightarrow> string option \<Rightarrow> deal_portal \<Rightarrow> deal_reply" where
  "api_db_annotations_list u slug tf w = Annotation_List (list_annotations slug u tf (dp_ledger w))"

definition api_db_annotations_delete_all :: "int \<Rightarrow> string \<Rightarrow> string option \<Rightarrow> deal_portal \<Rightarrow> deal_reply \<times> deal_portal" where
  "api_db_annotations_delete_all u slug tf w =
     (case delete_annotations_for slug u tf (dp_ledger w) of
        (Inl _, db) \<Rightarrow> (Deal_Http 500 ''Internal Server Error'', w\<lparr>dp_ledger := db\<rparr>)
      | (Inr n, db) \<Rightarrow> (Annotations_Cleared n, deal_audit ''annotations_clear'' slug u (w\<lparr>dp_ledger := db\<rparr>)))"

definition api_db_annotations_delete :: "int \<Rightarrow> int \<Rightarrow> deal_portal \<Rightarrow> deal_reply \<times> deal_portal" where
  "api_db_annotations_delete u i w =
     (case delete_annotation i u (dp_ledger w) of
        (Inr True, db) \<Rightarrow> (Annotation_Deleted, w\<lparr>dp_ledger := db\<rparr>)
      | (_, db) \<Rightarrow> (Deal_Http 404 ''Annotation not found'', w\<lparr>dp_ledger := db\<rparr>))"

end
