(* ===== verification/Deal_Route_Properties.thy ===== *)
theory Deal_Route_Properties
  imports Deal_Routes
begin

text \<open>
  What the routes over deals promise: a close of a stopped bot's deal is what the next start of the bot finds, a request of one
  tenant leaves the files and rows of the others, and a close that is queued reaches the engine exactly when the engine looks
  under the same name.
\<close>

section \<open>Closing in the file\<close>

lemma in_delete_set: "x \<in> set (AList.delete k al) \<Longrightarrow> x \<in> set al"
  by (induction al) (auto split: if_splits)

lemma book_wf_after_close:
  assumes "book_wf s" "deal_wf d"
  shows "book_wf (book_after_close c d price reason b q fee s)"
proof -
  have "list_all entry_wf (AList.delete i (open_deals s))" for i
    using assms(1) by (auto simp: book_wf_def list_all_iff dest!: in_delete_set)
  then show ?thesis
    using assms by (simp add: book_wf_def book_after_close_def distinct_delete deal_wf_def)
qed

lemma handler_close_persists:
  fixes w :: "'w world_scheme"
  assumes "deal_wf d" "calculate_pnl d price = Inr (b, q)"
  shows "\<exists>v :: 'w world_scheme. disk (snd (handler_close c d price origin w)) = disk (snd (persist_state c v)) \<and> disk v = disk w
    \<and> book v = book (snd (handler_close c d price origin w))"
proof -
  let ?d1 = "d\<lparr>exit_trigger := Some (Exit_Trigger ''manual'')\<rparr>"
  have "calculate_pnl ?d1 price = Inr (b, q)" using assms(2) by (simp add: pnl_cong [of ?d1 d])
  note cl = close_after_put [OF this, of "''manual''" "cc_now c" "book w", simplified]
  obtain j where "deal_to_dict (closed_copy price ''manual'' (cc_now c) b q ?d1) price = Inr j"
    using dict_of_closed [of ?d1 price "''manual''" "cc_now c" b q price] assms(1) deal_wf_cong [of ?d1 d] by auto
  then show ?thesis
    by (simp add: handler_close_def assms(2) Let_def book_close_def on_book_def cl handler_steps pbind_apply)
      (intro conjI impI; rule exI, rule conjI, rule refl, simp add: frame_simps)
qed

lemma persist_state_writes:
  assumes "book_wf (book v)"
  shows "\<exists>os hs raw fs. state_load (cc_file c) (disk v) = (raw, fs)
    \<and> parse_deals now os = map (file_copy 0) (vals (open_deals (book v)))
    \<and> parse_deals now hs = map (file_copy 0) (closed_deals (book v))
    \<and> disk (snd (persist_state c v)) = state_write (cc_file c) (merged_snapshot c (book v) os hs (get_or empty_json raw)) fs"
proof -
  have wf: "list_all deal_wf (vals (open_deals (book v)))" "list_all deal_wf (closed_deals (book v))"
    using assms by (auto simp: book_wf_def list_all_iff entry_wf_def)
  obtain os hs where os: "all_ok (map (\<lambda>d. deal_to_dict d 0) (vals (open_deals (book v)))) = Inr os"
      "parse_deals now os = map (file_copy 0) (vals (open_deals (book v)))"
    and hs: "all_ok (map (\<lambda>d. deal_to_dict d 0) (closed_deals (book v))) = Inr hs"
      "parse_deals now hs = map (file_copy 0) (closed_deals (book v))"
    using deals_written [OF wf(1)] deals_written [OF wf(2)] by metis
  obtain raw fs where l: "state_load (cc_file c) (disk v) = (raw, fs)" by fastforce
  then have "disk (snd (persist_state c v)) = state_write (cc_file c) (merged_snapshot c (book v) os hs (get_or empty_json raw)) fs"
    by (simp add: persist_state_def pseq_def pbind_apply ptry_apply os(1) hs(1) del: map_map)
  then show ?thesis using l os(2) hs(2) by blast
qed

lemma boot_from_file:
  assumes "st_file S = Some n" "fst (state_load (Some n) fs) = Some j"
  obtains db' fs1 where "boot S t b db fs = restore_fields (env_now t) j (init_engine S b db fs\<lparr>disk := fs1\<rparr>)\<lparr>dledger := db'\<rparr>"
proof -
  obtain fs1 where l: "state_load (Some n) fs = (Some j, fs1)"
    using assms(2) by (cases "state_load (Some n) fs") simp
  let ?e = "restore_fields (env_now t) j (init_engine S b db fs\<lparr>disk := fs1\<rparr>)"
  have "boot S t b db fs = snd (with_slug S (\<lambda>slug. pseq (on_ledger (env_db_up t)
      (replay_deals_in_transaction (vals (opens ?e) @ closed_deals (book ?e)) slug (cfg_name (st_cfg S)) (st_user S))) pskip) ?e)"
    using l by (simp add: assms(1) boot_def load_state_def init_engine_def Let_def)
  then show thesis using slug_call_frame that by metis
qed

lemma boot_reads_file:
  assumes "st_file S = Some n" "fst (state_load (Some n) fs) = Some j" "sj_open_deals j = Some os"
    "parse_deals (env_now t) os = ds" "distinct (map deal_id ds)"
  shows "opens (boot S t b db fs) = map (\<lambda>d. (deal_id d, d)) ds"
    "closed_deals (book (boot S t b db fs)) = parse_deals (env_now t) (get_or [] (sj_closed_deals j))"
    "balance_btc (book (boot S t b db fs)) = get_or b (sj_balance_btc j)"
proof -
  obtain db' fs1 where e: "boot S t b db fs = restore_fields (env_now t) j (init_engine S b db fs\<lparr>disk := fs1\<rparr>)\<lparr>dledger := db'\<rparr>"
    using boot_from_file [OF assms(1,2)] by blast
  have o: "opens (init_engine S b db fs\<lparr>disk := fs1\<rparr>) = []" "closed_deals (book (init_engine S b db fs\<lparr>disk := fs1\<rparr>)) = []"
    "balance_btc (book (init_engine S b db fs\<lparr>disk := fs1\<rparr>)) = b"
    by (simp_all add: init_engine_def new_paper_state_def)
  note res = restore_fields_open [OF assms(3-5) o(1)]
  show "opens (boot S t b db fs) = map (\<lambda>d. (deal_id d, d)) ds"
    "closed_deals (book (boot S t b db fs)) = parse_deals (env_now t) (get_or [] (sj_closed_deals j))"
    "balance_btc (book (boot S t b db fs)) = get_or b (sj_balance_btc j)"
    using res o by (simp_all add: e)
qed

lemma boot_keeps_guards:
  assumes "st_file S = Some n" "fst (state_load (Some n) fs) = Some j" "fst (state_load (Some n) fs') = Some j'"
    "sj_drawdown_guard j = sj_drawdown_guard j'" "sj_paused_by_drawdown j = sj_paused_by_drawdown j'"
    "sj_fees_paid_btc j = sj_fees_paid_btc j'"
  shows "eg_dd (boot S t b db fs) = eg_dd (boot S t b db' fs')" "eg_paused (boot S t b db fs) = eg_paused (boot S t b db' fs')"
    "eg_fees (boot S t b db fs) = eg_fees (boot S t b db' fs')"
proof -
  obtain d1 fs1 where e: "boot S t b db fs = restore_fields (env_now t) j (init_engine S b db fs\<lparr>disk := fs1\<rparr>)\<lparr>dledger := d1\<rparr>"
    using boot_from_file [OF assms(1,2)] by blast
  obtain d2 fs2 where e': "boot S t b db' fs' = restore_fields (env_now t) j' (init_engine S b db' fs'\<lparr>disk := fs2\<rparr>)\<lparr>dledger := d2\<rparr>"
    using boot_from_file [OF assms(1,3)] by blast
  show "eg_dd (boot S t b db fs) = eg_dd (boot S t b db' fs')" "eg_paused (boot S t b db fs) = eg_paused (boot S t b db' fs')"
    "eg_fees (boot S t b db fs) = eg_fees (boot S t b db' fs')"
    using assms(4-6) by (simp_all add: e e' restore_fields_def init_engine_def cong: option.case_cong)
qed

section \<open>The close of a stopped bot's deal\<close>

text \<open>What has to hold for the request to get as far as the file.\<close>

definition may_close_directly :: "close_env \<Rightarrow> int \<Rightarrow> bot_seen \<Rightarrow> bot_config \<Rightarrow> real \<Rightarrow> bool" where
  "may_close_directly E u seen cfg price \<longleftrightarrow>
     \<not> bs_running seen \<and> \<not> bs_running_locked seen \<and> bs_config seen = Config_Read cfg
     \<and> (\<exists>acc. get_account (exchange_account_id cfg) (ce_accounts E) = Some acc \<and> xa_user acc = u
        \<and> fetch_current_price_for_close E (cfg_pair cfg) (xa_exchange acc) = Inr price)
     \<and> exclusive_lock (ce_clock E) 3 (ce_lock E) = Some True"

lemma price_fetched_positive: "fetch_current_price_for_close E pair x = Inr p \<Longrightarrow> 0 < p"
  by (auto simp: fetch_current_price_for_close_def Let_def res_bind_eq_Inr_iff split: if_splits)

lemma loaded_file:
  assumes "load_paper_state_from_file now n fs = (s, fs1)" "open_deals s \<noteq> []"
  obtains j where "state_load (Some n) fs = (Some j, fs1)"
proof -
  obtain raw fs2 where l: "state_load (Some n) fs = (raw, fs2)" by fastforce
  with assms show thesis
    by (cases raw) (auto simp: load_paper_state_from_file_def new_paper_state_def Let_def l split: if_splits intro: that)
qed

lemma cleanup_twice [simp]: "cleanup_orphan_tmps n (cleanup_orphan_tmps n fs) = cleanup_orphan_tmps n fs"
  by (auto simp: cleanup_orphan_tmps_def intro!: filter_cong)

lemma load_twice: "state_load (Some n) fs = (r, fs1) \<Longrightarrow> state_load (Some n) fs1 = (r, fs1)"
  by (auto simp: state_load_def Let_def)

lemma state_file_name: "\<not> suffix ''.tmp'' (slug @ ''.state.json'')" "tmp_name (slug @ ''.state.json'') \<noteq> slug @ ''.state.json''"
  using tmp_json_differs [of "slug @ ''.state''"] by (auto simp: suffix_def append_eq_append_conv2 append_eq_Cons_conv)

text \<open>C19: a close of a stopped bot's deal succeeds and is what the next start of the bot finds: all other deals are open,
  the closed one ends the history, the balance has changed by its result less the exit fee, and the drawdown guard, the pause
  flag and the fees counted so far are those of the file before.\<close>

theorem offline_close_survives_restart:
  assumes "may_close_directly E u seen cfg price" "deal_id_match did"
    "load_paper_state_from_file (ce_now E) (slug @ ''.state.json'') (dp_disk w u) = (s, fs)"
    "book_wf s" "map_of (open_deals s) did = Some d" "st_file S = Some (slug @ ''.state.json'')"
    "api_deal_action E u slug did ''close'' (Some seen) w = (r, w1)"
    "e0 = boot S t b db (dp_disk w u)" "e1 = boot S t b db' (dp_disk w1 u)"
  shows "(\<exists>j. r = Closed_Directly did ''close'' price j)
    \<and> opens e1 = map (\<lambda>(i, x). (i, file_copy 0 x)) (AList.delete did (open_deals s))
    \<and> length (closed_deals (book e1)) = Suc (length (closed_deals s)) \<and> deal_id (last (closed_deals (book e1))) = did
    \<and> balance_btc (book e1) = balance_btc s + pnl_of d price - total_size d * taker_fee (dca_cfg cfg)
    \<and> eg_dd e1 = eg_dd e0 \<and> eg_paused e1 = eg_paused e0 \<and> eg_fees e1 = eg_fees e0"
proof -
  let ?n = "slug @ ''.state.json''" and ?c = "portal_close_ctx E u slug cfg"
    and ?w = "\<lparr>book = s, dledger = dp_ledger w, disk = fs, outbox = dp_outbox w\<rparr>"
  obtain acc where acc: "get_account (exchange_account_id cfg) (ce_accounts E) = Some acc" "xa_user acc = u"
      "fetch_current_price_for_close E (cfg_pair cfg) (xa_exchange acc) = Inr price"
    and run: "\<not> bs_running seen" "\<not> bs_running_locked seen" "bs_config seen = Config_Read cfg"
      "exclusive_lock (ce_clock E) 3 (ce_lock E) = Some True"
    using assms(1) by (auto simp: may_close_directly_def)
  note p = price_fetched_positive [OF acc(3)]
  note wf = book_wf_lookup [OF assms(4,5)]
  note pnl = calculate_pnl_wf [OF wf(3) p]
  let ?q = "pnl_of d price / (total_size d / of_int (leverage d)) * 100"
  let ?s1 = "book_after_close ?c d price ''manual'' (pnl_of d price) ?q (handler_fee ?c (total_size d)) s"
  obtain j v where h: "handler_close ?c d price ''portal'' ?w = (Inr (Done \<lparr>cr_action = ''close'', cr_deal_id = deal_id d,
        cr_close_price = price, cr_pnl_btc = pnl_of d price, cr_pnl_pct = ?q, cr_fee_btc = handler_fee ?c (total_size d), cr_deal = j\<rparr>), v)"
      "book v = ?s1"
    using handler_close_eq [OF wf(3) pnl, of ?c "''portal''" ?w] by auto
  have hd: "handler_close_deal ?c did price ''close'' ''portal'' ?w = handler_close ?c d price ''portal'' ?w"
    using assms(5) p by (simp add: handler_close_deal_def)
  have r: "r = Closed_Directly did ''close'' price j" and w1: "dp_disk w1 u = disk v"
    using assms(2,3,7) acc run h(1) by (auto simp: api_deal_action_def close_deal_offline_def locked_close_def hd deal_audit_def)
  obtain x :: world where x: "disk v = disk (snd (persist_state ?c x))" "disk x = fs" "book x = ?s1"
    using handler_close_persists [OF wf(3) pnl, of ?c "''portal''" ?w] h by auto
  have wf1: "book_wf (book x)" using book_wf_after_close [OF assms(4) wf(3)] x(3) by simp
  have ne: "open_deals s \<noteq> []" using assms(5) by auto
  obtain raw where raw: "state_load (Some ?n) (dp_disk w u) = (Some raw, fs)" using loaded_file [OF assms(3) ne] .
  have cf: "cc_file ?c = Some ?n" by (simp add: portal_close_ctx_def)
  obtain os hs where os: "parse_deals (env_now t) os = map (file_copy 0) (vals (open_deals ?s1))"
    and hs: "parse_deals (env_now t) hs = map (file_copy 0) (closed_deals ?s1)"
    and d1: "disk v = state_write (Some ?n) (merged_snapshot ?c ?s1 os hs raw) fs"
    using persist_state_writes [OF wf1, of ?c "env_now t"] load_twice [OF raw] x(2,3) cf x(1) by auto
  let ?j = "merged_snapshot ?c ?s1 os hs raw"
  have l1: "fst (state_load (Some ?n) (dp_disk w1 u)) = Some ?j"
    using state_load_after_write [OF state_file_name(2,1)] d1 w1 by simp
  have ids: "map deal_id (map (file_copy 0) (vals (open_deals ?s1))) = keys (open_deals ?s1)"
    and pairs: "map (\<lambda>d. (deal_id d, d)) (map (file_copy 0) (vals (open_deals ?s1))) = map (\<lambda>(i, x). (i, file_copy 0 x)) (open_deals ?s1)"
    using wf1 x(3) by (auto simp: book_wf_def list_all_iff entry_wf_def)
  have dist: "distinct (map deal_id (map (file_copy 0) (vals (open_deals ?s1))))"
    using wf1 x(3) unfolding ids by (simp add: book_wf_def)
  have jo: "sj_open_deals ?j = Some os" by (simp add: merged_snapshot_def)
  note bo = boot_reads_file [OF assms(6) l1 jo os dist, of b db', folded assms(9)]
  have "fst (state_load (Some ?n) (dp_disk w u)) = Some raw" using raw by simp
  note g = boot_keeps_guards [OF assms(6) l1 this, of t b db' db, folded assms(8,9)]
  have "eg_dd e1 = eg_dd e0" "eg_paused e1 = eg_paused e0" "eg_fees e1 = eg_fees e0" by (rule g; simp add: merged_snapshot_def)+
  moreover have "opens e1 = map (\<lambda>(i, x). (i, file_copy 0 x)) (AList.delete did (open_deals s))"
    using bo(1) pairs by (simp add: book_after_close_def wf(1))
  moreover have "closed_deals (book e1) = map (file_copy 0) (closed_deals ?s1)"
    using bo(2) hs by (simp add: merged_snapshot_def)
  moreover have "balance_btc (book e1) = balance_btc ?s1" using bo(3) by (simp add: merged_snapshot_def)
  ultimately show ?thesis
    using r by (simp add: book_after_close_def handler_fee_def portal_close_ctx_def wf(1))
qed

section \<open>Tenants\<close>

text \<open>The handler writes the ledger only as its user.\<close>

lemma handler_keeps_foreign_rows:
  fixes w :: "'w world_scheme"
  assumes "cc_user c \<noteq> v"
  shows "rows_of_user v (dledger (snd (handler_close_deal c did price action origin w))) = rows_of_user v (dledger w)"
proof -
  let ?P = "\<lambda>x :: 'w world_scheme. rows_of_user v (dledger x) = rows_of_user v (dledger w)"
  have db: "rows_of_user v (db_after_close c i p r b q tr db) = rows_of_user v db" for i p r b q tr db
    using ledger_tenants.op_isolated [OF assms, of "Close_Deal i p r b q (cc_now c) (Some tr)" db] by (simp add: db_after_close_def)
  have k: "keeps ?P (put_book_deal d)" "keeps ?P (book_close c i p r)" "keeps ?P (handler_deduct a r)"
    "keeps ?P (handler_db_close c i p r b q tr)" "keeps ?P (handler_notify c m)" "keeps ?P (persist_state c)" for d i p r a b q tr m
    by (auto simp: keeps_def book_close_def on_book_def handler_deduct_def handler_db_close_ledger db frame_simps split: prod.split)
  have "keeps ?P (handler_close c d price origin)" "keeps ?P (handler_cancel c d price origin)" for d
    unfolding handler_close_def handler_cancel_def Let_def
    by (auto intro!: keeps_bind keeps_seq k keeps_basic split: prod.split)
  then show ?thesis by (auto simp: handler_close_deal_def keeps_def split: option.split)
qed

datatype deal_request =
    Edit_Request string string deal_edit_body
  | Action_Request close_env string string string "bot_seen option"
  | Annotate_Request annotation
  | Clear_Request string "string option"
  | Unannotate_Request int

fun deal_request_step :: "int \<Rightarrow> deal_request \<Rightarrow> deal_portal \<Rightarrow> deal_portal" where
  "deal_request_step u (Edit_Request slug did b) w = snd (api_deal_edit u slug did b w)"
| "deal_request_step u (Action_Request E slug did action seen) w = snd (api_deal_action E u slug did action seen w)"
| "deal_request_step u (Annotate_Request a) w = snd (api_db_annotations_create u a w)"
| "deal_request_step u (Clear_Request slug tf) w = snd (api_db_annotations_delete_all u slug tf w)"
| "deal_request_step u (Unannotate_Request i) w = snd (api_db_annotations_delete u i w)"

definition portal_rows :: "int \<Rightarrow> deal_portal \<Rightarrow> (deal_row list \<times> order_row list \<times> annotation list) \<times> dir \<times> (string \<times> edit_settings res) list" where
  "portal_rows v w = (rows_of_user v (dp_ledger w), dp_disk w v, dp_sentinels w v)"

lemma portal_rows_simps [simp]:
  "portal_rows v (deal_audit a slug u w) = portal_rows v w"
  "u \<noteq> v \<Longrightarrow> portal_rows v (write_sentinel u n es w) = portal_rows v w"
  by (simp_all add: portal_rows_def deal_audit_def write_sentinel_def)

lemma locked_close_rows:
  assumes "u \<noteq> v"
  shows "portal_rows v (snd (locked_close E u slug did action cfg price w)) = portal_rows v w"
proof -
  obtain s fs where l: "load_paper_state_from_file (ce_now E) (slug @ ''.state.json'') (dp_disk w u) = (s, fs)" by fastforce
  have "cc_user (portal_close_ctx E u slug cfg) \<noteq> v" using assms by (simp add: portal_close_ctx_def)
  note h = handler_keeps_foreign_rows [OF this, of did price action "''portal''"
      "\<lparr>book = s, dledger = dp_ledger w, disk = fs, outbox = dp_outbox w\<rparr>"]
  show ?thesis
    using h assms by (auto simp: locked_close_def l portal_rows_def split: prod.split)
qed

lemma request_rows:
  assumes "u \<noteq> v"
  shows "portal_rows v (deal_request_step u q w) = portal_rows v w"
proof (cases q)
  case (Action_Request E slug did action seen)
  have "portal_rows v (snd (close_deal_offline E u slug did act b w)) = portal_rows v w" for act b
    using locked_close_rows [OF assms, of E slug did act _ _ w]
    unfolding close_deal_offline_def
    by (auto split: config_read.split option.split sum.split py_error.split prod.split close_result.split simp: snd_def [symmetric])
      (metis snd_conv)+
  then show ?thesis using assms by (auto simp: Action_Request api_deal_action_def split: option.split)
next
  case (Annotate_Request a)
  show ?thesis
    using ledger_tenants.op_isolated [OF assms, of "Save_Annotation a" "dp_ledger w"]
    by (auto simp: Annotate_Request api_db_annotations_create_def portal_rows_def split: prod.split sum.split)
next
  case (Clear_Request slug tf)
  show ?thesis
    using ledger_tenants.op_isolated [OF assms, of "Delete_Annotations_For slug tf" "dp_ledger w"]
    by (auto simp: Clear_Request api_db_annotations_delete_all_def portal_rows_def deal_audit_def split: prod.split sum.split)
next
  case (Unannotate_Request i)
  show ?thesis
    using ledger_tenants.op_isolated [OF assms, of "Delete_Annotation i" "dp_ledger w"]
    by (auto simp: Unannotate_Request api_db_annotations_delete_def portal_rows_def split: prod.split sum.split bool.split)
qed (use assms in \<open>simp_all add: api_deal_edit_def\<close>)

interpretation deal_tenants: tenant_store deal_request_step portal_rows
  by unfold_locales (rule request_rows)

lemma get_deals_of_rows:
  assumes "rows_of_user u db = rows_of_user u db'"
  shows "get_deals u slug status lmt db = get_deals u slug status lmt db'"
proof -
  have "filter (\<lambda>r. row_user r = u \<and> Q r) (deals_tbl x) = filter Q (fst (rows_of_user u x))" for Q x
    by (auto simp: rows_of_user_def intro: filter_cong)
  then show ?thesis by (simp add: get_deals_def assms)
qed

text \<open>whatever requests the other tenants send, a user's ledger rows, state files and queued requests stay as they were, and
  so does the list of deals the user is shown.\<close>

theorem deal_requests_stay_apart:
  assumes "\<forall>(u, q) \<in> set qs. u \<noteq> v"
  shows "portal_rows v (fold (\<lambda>(u, q). deal_request_step u q) qs w) = portal_rows v w
    \<and> get_deals v slug status lmt (dp_ledger (fold (\<lambda>(u, q). deal_request_step u q) qs w)) = get_deals v slug status lmt (dp_ledger w)"
proof -
  have r: "portal_rows v (fold (\<lambda>(u, q). deal_request_step u q) qs w) = portal_rows v w"
    by (rule deal_tenants.run_isolated [OF assms])
  then show ?thesis by (intro conjI get_deals_of_rows) (simp_all add: portal_rows_def)
qed

section \<open>Requests that wait for the engine\<close>

lemma deal_id_no_dot:
  assumes "deal_id_shape did" shows "CHR ''.'' \<notin> set did"
proof -
  have "did = take 12 did @ CHR ''-'' # drop 13 did"
    using assms id_take_nth_drop [of 12 did] by (simp add: deal_id_shape_def)
  moreover have "CHR ''.'' \<notin> set (take 12 did)" "CHR ''.'' \<notin> set (drop 13 did)"
    using assms by (auto simp: deal_id_shape_def list_all_iff is_digit_def)
  ultimately obtain a b where "did = a @ CHR ''-'' # b" "CHR ''.'' \<notin> set a" "CHR ''.'' \<notin> set b" by blast
  then show ?thesis by simp
qed

lemma sentinel_parts_of:
  assumes "CHR ''.'' \<notin> set slug"
  shows "sentinel_parts (sentinel_name slug ''close'' did) = Some (''close'', did)"
    "sentinel_parts (sentinel_name slug ''cancel'' did) = Some (''cancel'', did)"
    "sentinel_parts (sentinel_name slug ''edit'' did) = Some (''edit'', did)"
proof -
  have "dropWhile (\<lambda>c. c \<noteq> CHR ''.'') (slug @ CHR ''.'' # x) = CHR ''.'' # x" for x
    using assms by (induction slug) auto
  then show "sentinel_parts (sentinel_name slug ''close'' did) = Some (''close'', did)"
    "sentinel_parts (sentinel_name slug ''cancel'' did) = Some (''cancel'', did)"
    "sentinel_parts (sentinel_name slug ''edit'' did) = Some (''edit'', did)"
    by (simp_all add: sentinel_parts_def sentinel_name_def)
qed

lemma sentinel_prefix:
  assumes "CHR ''.'' \<notin> set slug" "CHR ''.'' \<notin> set did" "CHR ''.'' \<notin> set action"
  shows "prefix (es @ ''.deal_'') (sentinel_name slug action did) \<longleftrightarrow> es = slug"
proof
  assume "prefix (es @ ''.deal_'') (sentinel_name slug action did)"
  then obtain z where z: "slug @ ''.deal_'' @ action @ ''_'' @ did = es @ ''.deal_'' @ z"
    unfolding prefix_def sentinel_name_def append_assoc by blast
  from z [unfolded append_eq_append_conv2 [of slug]] obtain us where
    us: "slug = es @ us \<and> us @ ''.deal_'' @ action @ ''_'' @ did = ''.deal_'' @ z
      \<or> slug @ us = es \<and> ''.deal_'' @ action @ ''_'' @ did = us @ ''.deal_'' @ z" by blast
  show "es = slug"
  proof (cases us)
    case (Cons x xs)
    from us show ?thesis
    proof
      assume "slug = es @ us \<and> us @ ''.deal_'' @ action @ ''_'' @ did = ''.deal_'' @ z"
      then have "CHR ''.'' \<in> set slug" by (simp add: Cons)
      then show ?thesis using assms(1) by simp
    next
      assume "slug @ us = es \<and> ''.deal_'' @ action @ ''_'' @ did = us @ ''.deal_'' @ z"
      then have "''deal_'' @ action @ ''_'' @ did = xs @ ''.deal_'' @ z" by (simp add: Cons)
      moreover have "CHR ''.'' \<in> set (xs @ ''.deal_'' @ z)" by simp
      ultimately have "CHR ''.'' \<in> set (''deal_'' @ action @ ''_'' @ did)" by metis
      then show ?thesis using assms(2,3) by simp
    qed
  qed (use us in simp)
qed (simp add: sentinel_name_def)

lemma more_unlinked: "world.more e = world.more e' \<Longrightarrow> eg_unlinked e = eg_unlinked e'"
  by (cases e; cases e') simp

text \<open>C21: a close of a running bot's deal is accepted at once and carried out by the bot's next look at the directory, exactly once
  and at its price, when the name in the configuration gives the slug of the request; under any other name it is accepted as well
  and never looked at.\<close>

theorem queued_close_needs_the_name:
  assumes "deal_id_shape did" "bs_running seen" "CHR ''.'' \<notin> set slug" "dp_sentinels w u = []"
    "api_deal_action E u slug did ''close'' (Some seen) w = (r, w1)" "env_log_files t = dp_sentinels w1 u"
    "book_wf (book e)" "map_of (opens e) did = Some d" "0 < price" "check_deal_sentinels S t price e = (res, e1)"
  shows "r = Close_Queued did ''close'' \<and>
    (if engine_slug (st_cfg S) = slug
     then opens e1 = AList.delete did (opens e)
       \<and> balance_btc (book e1) = balance_btc (book e) + pnl_of d price - total_size d * taker_fee (dca_of S)
       \<and> eg_unlinked e1 = eg_unlinked e @ [sentinel_name slug ''close'' did]
     else e1 = e)"
proof -
  let ?n = "sentinel_name slug ''close'' did"
  have m: "deal_id_match did" using assms(1) by (simp add: deal_id_match_def)
  have r: "r = Close_Queued did ''close''" "dp_sentinels w1 u = [(?n, Inr no_settings)]"
    using assms(2,4,5) m by (auto simp: api_deal_action_def write_sentinel_def deal_audit_def)
  have pre: "prefix (engine_slug (st_cfg S) @ ''.deal_'') ?n \<longleftrightarrow> engine_slug (st_cfg S) = slug"
    by (rule sentinel_prefix [OF assms(3) deal_id_no_dot [OF assms(1)]]) simp
  show ?thesis
  proof (cases "engine_slug (st_cfg S) = slug")
    case False
    then show ?thesis using assms(6,10) r pre by (simp add: check_deal_sentinels_def)
  next
    case True
    let ?e = "e\<lparr>eg_unlinked := eg_unlinked e @ [?n]\<rparr>"
    note wf = book_wf_lookup [OF assms(7,8)]
    let ?c = "engine_close_ctx S t" and ?q = "pnl_of d price / (total_size d / of_int (leverage d)) * 100"
    have c: "check_deal_sentinels S t price e = sentinel_close S t price ''close'' did ?e"
    proof -
      have "pseq m pskip x = m x" for m :: "(engine, unit) prog" and x
        by (cases "m x"; cases "fst (m x)") (simp_all add: pseq_def pbind_apply)
      then show ?thesis
        using True assms(6,8) r(2) pre m sentinel_parts_of(1) [OF assms(3)]
        by (simp add: check_deal_sentinels_def handle_sentinel_def unlink_sentinel_def pseq_known)
    qed
    obtain rep e2 where h: "handler_close_deal ?c did price ''close'' ''engine'' ?e = (Inr (Done rep), e2)"
      "book e2 = book_after_close ?c d price ''manual'' (pnl_of d price) ?q (handler_fee ?c (total_size d)) (book e)"
      "world.more e2 = world.more ?e"
      using handler_close_eq [OF wf(3) calculate_pnl_wf [OF wf(3) assms(9)], of ?c "''engine''" ?e] assms(8,9)
      by (auto simp: handler_close_deal_def)
    have "e1 = (if cr_fee_btc rep \<noteq> 0 then e2\<lparr>eg_fees := eg_fees e2 + cr_fee_btc rep\<rparr> else e2)"
      using assms(10) by (auto simp: c sentinel_close_def pbind_apply h(1) split: if_splits)
    then have "book e1 = book e2" "eg_unlinked e1 = eg_unlinked e2" by simp_all
    moreover have "eg_unlinked e2 = eg_unlinked ?e" using h(3) by (rule more_unlinked)
    ultimately show ?thesis
      using True r(1) h(2) by (simp add: book_after_close_def wf(1) handler_fee_def engine_close_ctx_def)
  qed
qed

section \<open>Old deals\<close>

lemma take_of_sorted:
  assumes "sorted (map f ys)" "x \<in> set (take n ys)"
  shows "length (filter (\<lambda>y. f y < f x) ys) < n"
proof -
  have "f x \<le> f y" if "y \<in> set (drop n ys)" for y
  proof -
    have "sorted (map f (take n ys) @ map f (drop n ys))" using assms(1) by (simp flip: map_append)
    then show ?thesis using assms(2) that by (auto simp: sorted_append)
  qed
  then have "filter (\<lambda>y. f y < f x) (drop n ys) = []" by (fastforce simp: filter_empty_conv)
  then have "filter (\<lambda>y. f y < f x) ys = filter (\<lambda>y. f y < f x) (take n ys)"
    using append_take_drop_id [of n ys] by (metis append_Nil2 filter_append)
  then show ?thesis using length_filter_less [of x "take n ys" "\<lambda>y. f y < f x"] assms(2) by simp
qed

text \<open>a deal in the ledger is reported as not found once the bot has opened a hundred newer ones: the lookup of one deal
  searches the newest page only.\<close>

theorem hundred_newer_deals_hide_a_deal:
  assumes "deal_id_match did" "ledger_wf (dp_ledger w)" "x \<in> set (deals_tbl (dp_ledger w))" "row_id x = did"
    "100 \<le> length (filter (\<lambda>y. row_user y = u \<and> row_slug y = slug \<and> row_opened_at x < row_opened_at y) (deals_tbl (dp_ledger w)))"
  shows "api_deal_get u slug did None w = Deal_Http 404 ''Deal not found''"
proof -
  let ?f = "\<lambda>r. - row_opened_at r"
  let ?rows = "filter (\<lambda>r. row_user r = u \<and> opt_matches (Some slug) (row_slug r) \<and> opt_matches None (row_status r)) (deals_tbl (dp_ledger w))"
  have "y \<noteq> x" if "y \<in> set (take 100 (sort_key ?f ?rows))" for y
  proof
    assume "y = x"
    then have "length (filter (\<lambda>y. ?f y < ?f x) (sort_key ?f ?rows)) < 100"
      using that by (intro take_of_sorted) simp_all
    moreover have "length (filter (\<lambda>y. ?f y < ?f x) (sort_key ?f ?rows)) = length (filter (\<lambda>y. ?f y < ?f x) ?rows)"
      by (simp only: filter_sort length_sort)
    moreover have "filter (\<lambda>y. ?f y < ?f x) ?rows
        = filter (\<lambda>y. row_user y = u \<and> row_slug y = slug \<and> row_opened_at x < row_opened_at y) (deals_tbl (dp_ledger w))"
      by (auto simp: opt_matches_def intro: filter_cong)
    ultimately show False using assms(5) by simp
  qed
  moreover have "y = x" if "y \<in> set (take 100 (sort_key ?f ?rows))" "row_id y = did" for y
    using that(2) in_set_takeD [OF that(1)] row_unique [OF assms(2), of y x] assms(3,4) by auto
  ultimately have "find (\<lambda>r. row_id r = did) (take 100 (sort_key ?f ?rows)) = None"
    unfolding find_None_iff by blast
  then show ?thesis using assms(1) by (simp add: api_deal_get_def get_deals_def sql_limit_def)
qed

end
