(* ===== verification/State_Lock.thy ===== *)
theory State_Lock
  imports Deal_Routes
begin

text \<open>
  The lock between a bot that starts (\<open>main_paper.py\<close>) and the portal that closes deals of a stopped bot
  (\<open>_locked_close\<close> in \<open>web/routes/deals.py\<close>), with the reset of the drawdown guard (\<open>web/routes/drawdown.py\<close>), which
  writes the same file without it. Each step is one action of one process; what a state file says is reduced to the ids of its
  open deals and the pause flag.
\<close>

section \<open>Waiting for the lock\<close>

text \<open>the wait for the lock ends: attempts a tenth of a second apart decide within the timeout, and the lock is granted exactly
  when an attempt that comes before the deadline or right after it finds it free.\<close>

theorem lock_wait_is_bounded:
  assumes "0 \<le> timeout" "\<forall>i < length attempts. start + real i / 10 \<le> snd (attempts ! i)"
    "10 * timeout + 1 \<le> real (length attempts)"
  shows "exclusive_lock start timeout attempts = Some (\<exists>i < length attempts. fst (attempts ! i)
      \<and> (\<forall>k < i. snd (attempts ! k) < start + timeout))"
proof -
  have ex: "poll_lock deadline xs = Some (\<exists>i < length xs. fst (xs ! i) \<and> (\<forall>k < i. snd (xs ! k) < deadline))"
    if "\<exists>x \<in> set xs. deadline \<le> snd x" for deadline xs
    using that
  proof (induction deadline xs rule: poll_lock.induct)
    case (2 deadline granted now rest)
    have "(\<exists>i < length ((granted, now) # rest). fst (((granted, now) # rest) ! i) \<and> (\<forall>k < i. snd (((granted, now) # rest) ! k) < deadline))
      \<longleftrightarrow> granted \<or> now < deadline \<and> (\<exists>i < length rest. fst (rest ! i) \<and> (\<forall>k < i. snd (rest ! k) < deadline))"
      by (auto simp: Ex_less_Suc2 All_less_Suc2)
    then show ?case using 2 by auto
  qed simp
  let ?l = "length attempts - 1"
  have l: "0 < length attempts" using assms(1,3) by (cases attempts) auto
  then have "start + real ?l / 10 \<le> snd (attempts ! ?l)" using assms(2) by simp
  moreover have "timeout \<le> real ?l / 10" using assms(3) l by (simp add: of_nat_diff Suc_leI)
  ultimately have "start + timeout \<le> snd (attempts ! ?l)" by linarith
  then have "\<exists>x \<in> set attempts. start + timeout \<le> snd x" using l by (auto intro!: bexI [of _ "attempts ! ?l"])
  then show ?thesis using ex [of attempts "start + timeout"] by (simp add: exclusive_lock_def)
qed

theorem lock_wait_is_bounded_witness:
  "exclusive_lock 0 (1 / 10) [(False, 1 / 100), (True, 1 / 10)] = Some True"
proof -
  have "\<forall>i < length [(False, 1 / 100), (True, 1 / 10 :: real)]. 0 + real i / 10 \<le> snd ([(False, 1 / 100), (True, 1 / 10)] ! i)"
    by (simp add: All_less_Suc2)
  then show ?thesis using lock_wait_is_bounded [of "1 / 10" "[(False, 1 / 100), (True, 1 / 10)]" 0]
    by (simp add: Ex_less_Suc2)
qed

section \<open>The processes\<close>

record file_view =
  fv_open :: "string list"
  fv_paused :: bool

datatype bot_pc = Bot_Down | Bot_Announced | Bot_Locked | Bot_Loaded | Bot_Up

datatype request_pc =
    No_Request | Req_Waiting string | Req_Locked string | Req_Checked string | Req_Read string file_view | Req_Written string

datatype lock_owner = Lock_Free | Bot_Owns | Request_Owns nat

text \<open>\<open>sl_pid\<close> is what \<open>BotInfo.running\<close> finds; \<open>sl_done\<close> collects the deals whose close the portal has written.\<close>

record state_lock =
  sl_file :: file_view
  sl_pid :: bool
  sl_owner :: lock_owner
  sl_bot :: bot_pc
  sl_mem :: file_view
  sl_req :: "nat \<Rightarrow> request_pc"
  sl_reset :: "file_view option"
  sl_done :: "string set"

fun in_section :: "request_pc \<Rightarrow> bool" where
  "in_section No_Request = False"
| "in_section (Req_Waiting d) = False"
| "in_section _ = True"

inductive sstep :: "state_lock \<Rightarrow> state_lock \<Rightarrow> bool" where
  bot_announces: "sl_bot s = Bot_Down \<Longrightarrow> sstep s (s\<lparr>sl_bot := Bot_Announced, sl_pid := True\<rparr>)"
| bot_locks: "sl_bot s = Bot_Announced \<Longrightarrow> sl_owner s = Lock_Free \<Longrightarrow> sstep s (s\<lparr>sl_bot := Bot_Locked, sl_owner := Bot_Owns\<rparr>)"
| bot_loads: "sl_bot s = Bot_Locked \<Longrightarrow> sstep s (s\<lparr>sl_bot := Bot_Loaded, sl_mem := sl_file s\<rparr>)"
| bot_releases: "sl_bot s = Bot_Loaded \<Longrightarrow> sstep s (s\<lparr>sl_bot := Bot_Up, sl_owner := Lock_Free\<rparr>)"
| bot_ticks: "sl_bot s = Bot_Up \<Longrightarrow> \<forall>i \<in> set (fv_open m). i \<in> set (fv_open (sl_mem s)) \<or> i \<notin> sl_done s \<Longrightarrow>
    sstep s (s\<lparr>sl_mem := m, sl_file := m\<rparr>)"
| bot_ends: "sl_bot s \<noteq> Bot_Down \<Longrightarrow>
    sstep s (s\<lparr>sl_bot := Bot_Down, sl_pid := False, sl_owner := (if sl_owner s = Bot_Owns then Lock_Free else sl_owner s)\<rparr>)"
| request_waits: "sl_req s p = No_Request \<Longrightarrow> sstep s (s\<lparr>sl_req := (sl_req s)(p := Req_Waiting d)\<rparr>)"
| request_times_out: "sl_req s p = Req_Waiting d \<Longrightarrow> sstep s (s\<lparr>sl_req := (sl_req s)(p := No_Request)\<rparr>)"
| request_locks: "sl_req s p = Req_Waiting d \<Longrightarrow> sl_owner s = Lock_Free \<Longrightarrow>
    sstep s (s\<lparr>sl_req := (sl_req s)(p := Req_Locked d), sl_owner := Request_Owns p\<rparr>)"
| request_checks: "sl_req s p = Req_Locked d \<Longrightarrow> \<not> sl_pid s \<Longrightarrow> sstep s (s\<lparr>sl_req := (sl_req s)(p := Req_Checked d)\<rparr>)"
| request_reads: "sl_req s p = Req_Checked d \<Longrightarrow> sstep s (s\<lparr>sl_req := (sl_req s)(p := Req_Read d (sl_file s))\<rparr>)"
| request_writes: "sl_req s p = Req_Read d f \<Longrightarrow> d \<in> set (fv_open f) \<Longrightarrow>
    sstep s (s\<lparr>sl_req := (sl_req s)(p := Req_Written d), sl_file := f\<lparr>fv_open := removeAll d (fv_open f)\<rparr>, sl_done := insert d (sl_done s)\<rparr>)"
| request_ends: "in_section (sl_req s p) \<Longrightarrow> sstep s (s\<lparr>sl_req := (sl_req s)(p := No_Request), sl_owner := Lock_Free\<rparr>)"

inductive rstep :: "state_lock \<Rightarrow> state_lock \<Rightarrow> bool" where
  reset_reads: "sl_reset s = None \<Longrightarrow> rstep s (s\<lparr>sl_reset := Some (sl_file s)\<rparr>)"
| reset_writes: "sl_reset s = Some f \<Longrightarrow> rstep s (s\<lparr>sl_reset := None, sl_file := f\<lparr>fv_paused := False\<rparr>\<rparr>)"

definition idle_lock :: "file_view \<Rightarrow> state_lock" where
  "idle_lock f = \<lparr>sl_file = f, sl_pid = False, sl_owner = Lock_Free, sl_bot = Bot_Down, sl_mem = f, sl_req = (\<lambda>_. No_Request),
     sl_reset = None, sl_done = {}\<rparr>"

section \<open>What the lock guarantees\<close>

text \<open>Who is in the section holds the lock; a request that has checked finds the bot down or waiting, so what it has read is what
  the file says; a deal that was closed is open neither in the file nor in the memory of the bot.\<close>

definition lock_in_order :: "state_lock \<Rightarrow> bool" where
  "lock_in_order s \<longleftrightarrow>
     (\<forall>p. in_section (sl_req s p) \<longrightarrow> sl_owner s = Request_Owns p)
     \<and> (sl_bot s \<in> {Bot_Locked, Bot_Loaded} \<longrightarrow> sl_owner s = Bot_Owns)
     \<and> (sl_pid s \<longleftrightarrow> sl_bot s \<noteq> Bot_Down)"

definition reads_are_current :: "state_lock \<Rightarrow> bool" where
  "reads_are_current s \<longleftrightarrow>
     (\<forall>p d. sl_req s p = Req_Checked d \<longrightarrow> sl_bot s \<in> {Bot_Down, Bot_Announced})
     \<and> (\<forall>p d f. sl_req s p = Req_Read d f \<longrightarrow> sl_bot s \<in> {Bot_Down, Bot_Announced} \<and> f = sl_file s)"

definition closes_stand :: "state_lock \<Rightarrow> bool" where
  "closes_stand s \<longleftrightarrow> sl_done s \<inter> set (fv_open (sl_file s)) = {}
     \<and> (sl_bot s \<in> {Bot_Loaded, Bot_Up} \<longrightarrow> sl_done s \<inter> set (fv_open (sl_mem s)) = {})"

definition lock_protocol :: "state_lock \<Rightarrow> bool" where
  "lock_protocol s \<longleftrightarrow> lock_in_order s \<and> reads_are_current s \<and> closes_stand s"

lemma in_order_step:
  assumes "sstep s t" "lock_in_order s" shows "lock_in_order t"
  using assms(1)
proof cases
  case (request_ends p)
  have own: "in_section (sl_req s x) \<Longrightarrow> sl_owner s = Request_Owns x" for x
    using assms(2) by (simp add: lock_in_order_def)
  have alone: "q \<noteq> p \<Longrightarrow> \<not> in_section (sl_req s q)" for q
    using own [of q] own [OF request_ends(2)] by (metis lock_owner.inject)
  then show ?thesis using assms(2) request_ends by (auto simp: lock_in_order_def)
qed (use assms(2) in \<open>auto simp: lock_in_order_def split: if_splits\<close>)

lemma current_step:
  assumes "sstep s t" "lock_in_order s" "reads_are_current s"
  shows "reads_are_current t"
proof -
  have own: "in_section (sl_req s p) \<Longrightarrow> sl_owner s = Request_Owns p" for p
    using assms(2) by (simp add: lock_in_order_def)
  have a: "sl_req s p = Req_Checked d \<Longrightarrow> sl_owner s = Request_Owns p"
    "sl_req s p = Req_Read d f \<Longrightarrow> sl_owner s = Request_Owns p" for p d f
    using own [of p] by simp_all
  from assms(1) show ?thesis
  proof cases
    case (bot_locks)
    then show ?thesis using assms(3) a by (fastforce simp: reads_are_current_def)
  next
    case (request_writes p d f)
    have "sl_owner s = Request_Owns p" using own [of p] request_writes(2) by simp
    then have "sl_req s q \<noteq> Req_Read e g" if "q \<noteq> p" for q e g using a(2) [of q e g] that by auto
    then show ?thesis using assms(3) request_writes by (auto simp: reads_are_current_def)
  qed (use assms(2,3) in \<open>auto simp: reads_are_current_def lock_in_order_def split: if_splits\<close>)
qed

lemma closes_step:
  assumes "sstep s t" "reads_are_current s" "closes_stand s"
  shows "closes_stand t"
  using assms(1)
proof cases
  case (request_writes p d f)
  then have "f = sl_file s" "sl_bot s \<in> {Bot_Down, Bot_Announced}" using assms(2) by (auto simp: reads_are_current_def)
  then show ?thesis using assms(3) request_writes by (auto simp: closes_stand_def)
next
  case (bot_ticks m)
  then show ?thesis using assms(3) by (auto simp: closes_stand_def)
qed (use assms(3) in \<open>auto simp: closes_stand_def split: if_splits\<close>)

interpretation file_lock: step_invariant sstep lock_protocol
  by unfold_locales (auto simp: lock_protocol_def intro: in_order_step current_step closes_step)

text \<open>C20: between a bot that starts, runs, stops or dies and any number of requests that close deals of it while it is down, a close
  that was written stands: the deal is open neither in the file nor in the memory of the bot, ever again, and a request never
  writes back an older state than the one in the file.\<close>

theorem offline_close_is_never_undone:
  assumes "sstep\<^sup>*\<^sup>* (idle_lock f) s"
  shows "sl_done s \<inter> set (fv_open (sl_file s)) = {} \<and> (sl_bot s = Bot_Up \<longrightarrow> sl_done s \<inter> set (fv_open (sl_mem s)) = {})
    \<and> (\<forall>p d g. sl_req s p = Req_Read d g \<longrightarrow> g = sl_file s)"
proof -
  have "lock_protocol s"
    by (rule file_lock.run_keeps [OF assms])
      (simp add: lock_protocol_def lock_in_order_def reads_are_current_def closes_stand_def idle_lock_def)
  then show ?thesis by (auto simp: lock_protocol_def reads_are_current_def closes_stand_def)
qed

section \<open>A writer without the lock\<close>

definition one_open :: file_view where
  "one_open = \<lparr>fv_open = [''d''], fv_paused = True\<rparr>"

text \<open>The steps of a close, one after the other.\<close>

lemma close_run:
  assumes "sl_req s p = No_Request" "sl_owner s = Lock_Free" "\<not> sl_pid s" "d \<in> set (fv_open (sl_file s))"
  shows "sstep\<^sup>*\<^sup>* s (s\<lparr>sl_file := (sl_file s)\<lparr>fv_open := removeAll d (fv_open (sl_file s))\<rparr>, sl_done := insert d (sl_done s)\<rparr>)"
proof -
  define w where "w = s\<lparr>sl_req := (sl_req s)(p := Req_Waiting d)\<rparr>"
  define l where "l = w\<lparr>sl_req := (sl_req w)(p := Req_Locked d), sl_owner := Request_Owns p\<rparr>"
  define c where "c = l\<lparr>sl_req := (sl_req l)(p := Req_Checked d)\<rparr>"
  define g where "g = c\<lparr>sl_req := (sl_req c)(p := Req_Read d (sl_file c))\<rparr>"
  define h where "h = g\<lparr>sl_req := (sl_req g)(p := Req_Written d),
    sl_file := (sl_file c)\<lparr>fv_open := removeAll d (fv_open (sl_file c))\<rparr>, sl_done := insert d (sl_done g)\<rparr>"
  define z where "z = h\<lparr>sl_req := (sl_req h)(p := No_Request), sl_owner := Lock_Free\<rparr>"
  have "sstep s w" unfolding w_def using assms(1) by (rule request_waits)
  moreover have "sstep w l" unfolding l_def by (rule request_locks) (simp_all add: w_def assms(2))
  moreover have "sstep l c" unfolding c_def by (rule request_checks) (simp_all add: l_def w_def assms(3))
  moreover have "sstep c g" unfolding g_def by (rule request_reads) (simp add: c_def)
  moreover have "sstep g h" unfolding h_def by (rule request_writes) (simp_all add: g_def c_def l_def w_def assms(4))
  moreover have "sstep h z" unfolding z_def by (rule request_ends) (simp add: h_def)
  ultimately have "sstep\<^sup>*\<^sup>* s z" by (meson converse_rtranclp_into_rtranclp rtranclp.rtrancl_refl)
  moreover have "z = s\<lparr>sl_file := (sl_file s)\<lparr>fv_open := removeAll d (fv_open (sl_file s))\<rparr>, sl_done := insert d (sl_done s)\<rparr>"
    using assms(1,2) by (cases s) (simp add: z_def h_def g_def c_def l_def w_def fun_upd_idem)
  ultimately show ?thesis by simp
qed

theorem offline_close_is_never_undone_witness:
  "\<exists>s. sstep\<^sup>*\<^sup>* (idle_lock one_open) s \<and> sl_done s = {''d''} \<and> ''d'' \<notin> set (fv_open (sl_file s))"
proof -
  have r: "sstep\<^sup>*\<^sup>* (idle_lock one_open) (idle_lock one_open\<lparr>sl_file := one_open\<lparr>fv_open := []\<rparr>, sl_done := {''d''}\<rparr>)"
    using close_run [of "idle_lock one_open" 0 "''d''"] by (simp add: idle_lock_def one_open_def)
  from offline_close_is_never_undone [OF r] r show ?thesis by (intro exI conjI) auto
qed

text \<open>C22: a reset of the drawdown guard that has read the file before the close and writes it after reopens the deal: the request was
  answered, the balance paid out and the ledger row closed, and the next start of the bot trades the deal on.\<close>

theorem reset_reopens_a_closed_deal:
  "\<exists>s. (\<lambda>a b. sstep a b \<or> rstep a b)\<^sup>*\<^sup>* (idle_lock one_open) s \<and> ''d'' \<in> sl_done s \<and> sl_bot s = Bot_Up \<and> ''d'' \<in> set (fv_open (sl_mem s))"
proof -
  let ?step = "\<lambda>a b. sstep a b \<or> rstep a b" and ?i = "idle_lock one_open"
  have lift: "?step\<^sup>*\<^sup>* a b" if "sstep\<^sup>*\<^sup>* a b" for a b using that by (rule rtranclp_mono [THEN predicate2D, rotated]) auto
  let ?r = "?i\<lparr>sl_reset := Some one_open\<rparr>" and ?f = "one_open\<lparr>fv_paused := False\<rparr>"
  let ?c = "?r\<lparr>sl_file := one_open\<lparr>fv_open := []\<rparr>, sl_done := {''d''}\<rparr>"
  let ?o = "?c\<lparr>sl_reset := None, sl_file := ?f\<rparr>"
  let ?b1 = "?o\<lparr>sl_bot := Bot_Announced, sl_pid := True\<rparr>"
  let ?b2 = "?b1\<lparr>sl_bot := Bot_Locked, sl_owner := Bot_Owns\<rparr>"
  let ?b3 = "?b2\<lparr>sl_bot := Bot_Loaded, sl_mem := ?f\<rparr>"
  let ?b4 = "?b3\<lparr>sl_bot := Bot_Up, sl_owner := Lock_Free\<rparr>"
  have "?step ?i ?r" using reset_reads [of ?i] by (simp add: idle_lock_def)
  moreover have "?step\<^sup>*\<^sup>* ?r ?c"
    using lift [OF close_run [of ?r 0 "''d''"]] by (simp add: idle_lock_def one_open_def)
  moreover have "?step ?c ?o" using reset_writes [of ?c one_open] by simp
  moreover have "sstep\<^sup>*\<^sup>* ?o ?b4"
  proof -
    have "sstep ?o ?b1" using bot_announces [of ?o] by (simp add: idle_lock_def)
    moreover have "sstep ?b1 ?b2" using bot_locks [of ?b1] by (simp add: idle_lock_def)
    moreover have "sstep ?b2 ?b3" using bot_loads [of ?b2] by simp
    moreover have "sstep ?b3 ?b4" using bot_releases [of ?b3] by simp
    ultimately show ?thesis by (meson converse_rtranclp_into_rtranclp rtranclp.rtrancl_refl)
  qed
  ultimately have "?step\<^sup>*\<^sup>* ?i ?b4"
    using lift [of ?o ?b4] by (blast intro: converse_rtranclp_into_rtranclp rtranclp_trans)
  moreover have "''d'' \<in> sl_done ?b4 \<and> sl_bot ?b4 = Bot_Up \<and> ''d'' \<in> set (fv_open (sl_mem ?b4))" by (simp add: one_open_def)
  ultimately show ?thesis by blast
qed

end
