(* ===== verification/Deal_Route_Witnesses.thy ===== *)
theory Deal_Route_Witnesses
  imports Deal_Route_Properties State_Lock Engine_Witnesses
begin

text \<open>
  The theorems about the deal routes at the bot of \<open>Engine_Witnesses\<close> and the one deal it holds: stopped with its state
  file on disk, and running with a close in its directory.
\<close>

abbreviation held_id :: string where
  "held_id \<equiv> ''202604200000-0001''"

definition kraken_account :: account where
  "kraken_account = \<lparr>xa_id = 1, xa_user = 1, xa_exchange = ''kraken'', xa_market = ''futures'', xa_alias = ''main'', xa_uuid = ''a'',
     xa_created_at = [], xa_last_tested = None, xa_default = True\<rparr>"

definition close_env_at :: "real \<Rightarrow> close_env" where
  "close_env_at p = \<lparr>ce_now = 7, ce_accounts = \<lparr>ad_rows = [kraken_account], ad_next = 2,
       ad_vault = \<lparr>va_keys = [], va_creds = (\<lambda>_. [])\<rparr>\<rparr>,
     ce_last = (\<lambda>_ _. Inr (Some p)), ce_clock = 0, ce_lock = [(True, 0)], ce_telegram = Inl ValueError, ce_db_up = True\<rparr>"

definition seen_bot :: "bool \<Rightarrow> bot_seen" where
  "seen_bot b = \<lparr>bs_running = b, bs_running_locked = b, bs_open = [], bs_config = Config_Read plain_bot\<rparr>"

definition portal_with :: "dir \<Rightarrow> deal_portal" where
  "portal_with fs = \<lparr>dp_ledger = empty_ledger, dp_disk = (\<lambda>_. fs), dp_sentinels = (\<lambda>_. []), dp_outbox = [], dp_audit = []\<rparr>"

lemma held_id_shape: "deal_id_shape held_id" "deal_id_match held_id"
  by code_simp+

lemma may_close_held: "0 < p \<Longrightarrow> may_close_directly (close_env_at p) 1 (seen_bot False) plain_bot p"
  by (simp add: may_close_directly_def close_env_at_def seen_bot_def kraken_account_def get_account_def plain_defs
      fetch_current_price_for_close_def exclusive_lock_def)

lemma held_on_disk:
  obtains fs s where "load_paper_state_from_file 7 (''bot'' @ ''.state.json'') fs = (s, cleanup_orphan_tmps (''bot'' @ ''.state.json'') fs)"
    "open_deals s = [(held_id, file_copy 50000 held)]" "book_wf s"
proof -
  obtain js where js: "all_ok (map (\<lambda>d. deal_to_dict d 50000) [held]) = Inr js" "parse_deals 7 js = map (file_copy 50000) [held]"
    using deals_written [of "[held]"] held_simps(7) by auto
  let ?j = "empty_json\<lparr>sj_balance_btc := Some (1 / 10), sj_open_deals := Some js\<rparr>" and ?n = "''bot'' @ ''.state.json''"
  have "fst (state_load (Some ?n) (state_write (Some ?n) ?j [])) = Some ?j"
    by (rule state_load_after_write [OF state_file_name(2,1)])
  then have l: "state_load (Some ?n) (state_write (Some ?n) ?j []) = (Some ?j, cleanup_orphan_tmps ?n (state_write (Some ?n) ?j []))"
    by (simp add: state_load_def Let_def)
  let ?s = "\<lparr>balance_btc = 1 / 10, initial_balance_btc = 1 / 10, open_deals = [(held_id, file_copy 50000 held)], closed_deals = []\<rparr>"
  have e: "?j \<noteq> empty_json" "sj_closed_deals empty_json = None" "sj_initial_balance_btc empty_json = None"
    by (simp_all add: empty_json_def)
  have none: "parse_deals 7 [] = []" by (simp add: parse_deals_def)
  have "load_paper_state_from_file 7 ?n (state_write (Some ?n) ?j []) = (?s, cleanup_orphan_tmps ?n (state_write (Some ?n) ?j []))"
    by (simp add: load_paper_state_from_file_def l e Let_def restore_book_def js(2) none new_paper_state_def
        state_open_deal_def held_simps del: append.simps)
  moreover have "deal_wf (file_copy 50000 held)"
    using held_simps(7) deal_wf_cong [of "file_copy 50000 held" held] by simp
  then have "book_wf ?s" by (simp add: book_wf_def entry_wf_def held_simps)
  ultimately show thesis using that by fastforce
qed

theorem offline_close_survives_restart_witness:
  "\<exists>w w1 j. api_deal_action (close_env_at 60000) 1 ''bot'' held_id ''close'' (Some (seen_bot False)) w = (Closed_Directly held_id ''close'' 60000 j, w1)
    \<and> opens (boot (plain_wiring plain_bot) (tick_at 1) 1 empty_ledger (dp_disk w1 1)) = []"
proof -
  obtain fs s where s: "load_paper_state_from_file 7 (''bot'' @ ''.state.json'') fs = (s, cleanup_orphan_tmps (''bot'' @ ''.state.json'') fs)"
    "open_deals s = [(held_id, file_copy 50000 held)]" "book_wf s" by (rule held_on_disk)
  obtain r w1 where a: "api_deal_action (close_env_at 60000) 1 ''bot'' held_id ''close'' (Some (seen_bot False)) (portal_with fs) = (r, w1)"
    by fastforce
  have l: "load_paper_state_from_file (ce_now (close_env_at 60000)) (''bot'' @ ''.state.json'') (dp_disk (portal_with fs) 1)
      = (s, cleanup_orphan_tmps (''bot'' @ ''.state.json'') fs)"
    using s(1) by (simp add: close_env_at_def portal_with_def del: append.simps)
  have m: "map_of (open_deals s) held_id = Some (file_copy 50000 held)" by (simp add: s(2))
  have f: "st_file (plain_wiring plain_bot) = Some (''bot'' @ ''.state.json'')" by (simp add: plain_wiring_def)
  have "0 < (60000 :: real)" by simp
  from offline_close_survives_restart [OF may_close_held [OF this] held_id_shape(2) l s(3) m f a refl refl, of "tick_at 1" 1 empty_ledger empty_ledger]
  show ?thesis using a s(2) by auto
qed

theorem queued_close_needs_the_name_witness:
  "\<exists>w1. api_deal_action (close_env_at 60000) 1 ''bot'' held_id ''close'' (Some (seen_bot True)) (portal_with []) = (Close_Queued held_id ''close'', w1)
    \<and> opens (snd (check_deal_sentinels (plain_wiring plain_bot) (tick_at 60000\<lparr>env_log_files := dp_sentinels w1 1\<rparr>) 60000 (holding plain_bot))) = []"
proof -
  obtain r w1 where a: "api_deal_action (close_env_at 60000) 1 ''bot'' held_id ''close'' (Some (seen_bot True)) (portal_with []) = (r, w1)"
    by fastforce
  have b: "bs_running (seen_bot True)" "CHR ''.'' \<notin> set ''bot''" "dp_sentinels (portal_with []) 1 = []"
    by (simp_all add: seen_bot_def portal_with_def)
  have t: "env_log_files (tick_at 60000\<lparr>env_log_files := dp_sentinels w1 1\<rparr>) = dp_sentinels w1 1" by simp
  have m: "map_of (opens (holding plain_bot)) held_id = Some held" by (simp add: holding_simps)
  have "engine_slug (st_cfg (plain_wiring plain_bot)) = ''bot''" by code_simp
  then show ?thesis
    using queued_close_needs_the_name [OF held_id_shape(1) b a t holding_simps(2) m _ surjective_pairing, of 60000 "plain_wiring plain_bot"] a
    by (simp add: holding_simps)
qed

theorem deal_requests_stay_apart_witness:
  "portal_rows 1 (fold (\<lambda>(u, q). deal_request_step u q) [(2, Clear_Request ''bot'' None),
     (2, Action_Request (close_env_at 1) ''bot'' held_id ''close'' None)] (portal_with [(''bot.state.json'', Partial)]))
   = portal_rows 1 (portal_with [(''bot.state.json'', Partial)])"
  using deal_requests_stay_apart [of "[(2, Clear_Request ''bot'' None), (2, Action_Request (close_env_at 1) ''bot'' held_id ''close'' None)]" 1
      "portal_with [(''bot.state.json'', Partial)]"] by simp

end
