(* ===== verification/Bot_Lifecycle.thy ===== *)
theory Bot_Lifecycle
  imports Sessions State_IO
begin

text \<open>
  The portal's view of a bot process (\<open>web/app.py\<close>): liveness by pid file and heartbeat, the repair of a state file
  whose process is gone, the bounded automatic restart of bots on stale code and the walk over all bots at startup.
  The clock, the answer of \<open>kill(pid, 0)\<close> and the outcome of a restart are inputs.
\<close>

section \<open>Liveness\<close>

datatype probe = Alive | Gone | Denied

definition pid_running :: "(int \<Rightarrow> probe) \<Rightarrow> string option \<Rightarrow> bool" where
  "pid_running kill0 pid_file =
     (case pid_file of None \<Rightarrow> False
      | Some text \<Rightarrow> (case py_int_text text of None \<Rightarrow> False | Some pid \<Rightarrow> kill0 pid = Alive))"

definition pid_of :: "string option \<Rightarrow> int option" where
  "pid_of pid_file = Option.bind pid_file py_int_text"

definition pid_alive :: "(int \<Rightarrow> probe) \<Rightarrow> int \<Rightarrow> bool" where
  "pid_alive kill0 pid = (kill0 pid \<noteq> Gone)"

text \<open>The fields of a state file the portal decides by, what else it holds being carried along.\<close>

record bot_doc =
  bd_running :: "bool option"
  bd_heartbeat :: stamp
  bd_schema :: "int option"
  bd_mode :: string
  bd_price :: real
  bd_stopped_at :: "real option"
  bd_stopped_reason :: "string option"
  bd_valid :: bool

text \<open>\<open>Unreadable\<close> is a text that is no JSON, \<open>No_Object\<close> one that is JSON but no object.\<close>

datatype doc_file = Missing | Unreadable | No_Object | Doc bot_doc

definition heartbeat_stale_threshold_sec :: real where
  "heartbeat_stale_threshold_sec = 60"

definition heartbeat_is_stale :: "real \<Rightarrow> bot_doc \<Rightarrow> bool" where
  "heartbeat_is_stale now d = (case bd_heartbeat d of Stamp ts \<Rightarrow> now - ts > heartbeat_stale_threshold_sec | _ \<Rightarrow> False)"

section \<open>Reading a state file\<close>

record bot_view =
  bv_running :: bool
  bv_mode :: string
  bv_schema :: "int option"
  bv_stopped_at :: "real option"
  bv_stopped_reason :: "string option"

definition default_state :: "string \<Rightarrow> bool \<Rightarrow> bot_view" where
  "default_state yaml_mode running =
     \<lparr>bv_running = running, bv_mode = (if yaml_mode \<noteq> [] then yaml_mode else ''paper''), bv_schema = None,
      bv_stopped_at = None, bv_stopped_reason = None\<rparr>"

definition silent_exit_doc :: "real \<Rightarrow> string \<Rightarrow> bot_doc \<Rightarrow> bot_doc" where
  "silent_exit_doc now reason d =
     d\<lparr>bd_running := Some False, bd_price := 0, bd_stopped_at := Some now, bd_stopped_reason := Some reason\<rparr>"

definition read_state :: "real \<Rightarrow> bool \<Rightarrow> string \<Rightarrow> bool \<Rightarrow> doc_file \<Rightarrow> bot_view \<times> doc_file" where
  "read_state now running yaml_mode writable f =
     (case f of
        Doc d \<Rightarrow>
          if \<not> bd_valid d then (default_state yaml_mode running, f)
          else
            let v = \<lparr>bv_running = running, bv_mode = (if yaml_mode \<noteq> [] then yaml_mode else bd_mode d), bv_schema = bd_schema d,
                     bv_stopped_at = bd_stopped_at d, bv_stopped_reason = bd_stopped_reason d\<rparr> in
            if bd_running d = Some True \<and> (\<not> running \<or> heartbeat_is_stale now d)
            then (let reason = (if \<not> running then ''silent_exit'' else ''heartbeat_stale'');
                      d' = (if writable then silent_exit_doc now reason d else d) in
                  (v\<lparr>bv_running := False, bv_stopped_reason := Some reason, bv_stopped_at := bd_stopped_at d'\<rparr>, Doc d'))
            else (v, f)
      | _ \<Rightarrow> (default_state yaml_mode running, f))"

section \<open>Automatic restart\<close>

definition restart_max_attempts :: nat where "restart_max_attempts = 3"
definition restart_window_seconds :: real where "restart_window_seconds = 300"
definition restart_history_cap :: nat where "restart_history_cap = 100"

type_synonym restart_history = "((int \<times> string) \<times> real list) list"

definition record_bot_restart :: "int \<times> string \<Rightarrow> real \<Rightarrow> restart_history \<Rightarrow> restart_history" where
  "record_bot_restart key t h =
     (let xs = (case map_of h key of None \<Rightarrow> [] | Some xs \<Rightarrow> xs) @ [t];
          kept = (if length xs > restart_history_cap then drop (length xs - restart_history_cap) xs else xs) in
      AList.update key kept h)"

definition bot_needs_restart :: "bot_view \<Rightarrow> int \<Rightarrow> bool" where
  "bot_needs_restart v current = (bv_running v \<and> (case bv_schema v of None \<Rightarrow> True | Some n \<Rightarrow> n \<noteq> current))"

text \<open>A document with no field but those being written, the rest as the model's defaults read it.\<close>

definition empty_doc :: bot_doc where
  "empty_doc = \<lparr>bd_running = None, bd_heartbeat = No_Stamp, bd_schema = None, bd_mode = '''', bd_price = 0, bd_stopped_at = None,
     bd_stopped_reason = None, bd_valid = True\<rparr>"

text \<open>A missing file and one that holds no object are replaced by a new document; a text that is no JSON raises, as only
  errors of the file system (\<open>writable\<close> false) are caught.\<close>

definition persist_stopped_reason :: "real \<Rightarrow> string \<Rightarrow> bool \<Rightarrow> doc_file \<Rightarrow> doc_file res" where
  "persist_stopped_reason now reason writable f =
     (let write = (\<lambda>d. Inr (if writable then Doc (d\<lparr>bd_stopped_reason := Some reason, bd_stopped_at := Some now\<rparr>) else f)) in
      case f of
        Unreadable \<Rightarrow> Inl ValueError
      | Doc d \<Rightarrow> write d
      | _ \<Rightarrow> write empty_doc)"

datatype restart_outcome = Restarted | Refused string | Raised string

text \<open>\<open>Some o\<close>: a restart was issued and came out as \<open>o\<close>; \<open>None\<close>: the budget was exhausted, which is noted in the state file and
  raises when that cannot be parsed.\<close>

definition attempt_bot_auto_restart ::
  "real \<Rightarrow> int \<times> string \<Rightarrow> restart_outcome \<Rightarrow> bool \<Rightarrow> doc_file \<Rightarrow> restart_history
     \<Rightarrow> (restart_outcome option \<times> bool) res \<times> doc_file \<times> restart_history" where
  "attempt_bot_auto_restart now key outcome writable f h =
     (let recent = filter (\<lambda>t. now - t < restart_window_seconds) (case map_of h key of None \<Rightarrow> [] | Some xs \<Rightarrow> xs) in
      if length recent \<ge> restart_max_attempts
      then (case persist_stopped_reason now ''restart_budget_exceeded'' writable f of
          Inl err \<Rightarrow> (Inl err, f, h)
        | Inr f' \<Rightarrow> (Inr (None, False), f', h))
      else (Inr (Some outcome, outcome = Restarted), f, record_bot_restart key now (AList.update key recent h)))"

section \<open>Startup\<close>

text \<open>An exception met at one bot is logged and the walk goes on.\<close>

record known_bot =
  kb_key :: "int \<times> string"
  kb_running :: bool
  kb_yaml_mode :: string
  kb_file :: doc_file
  kb_outcome :: restart_outcome

fun reconcile_on_startup :: "real \<Rightarrow> int \<Rightarrow> known_bot list \<Rightarrow> restart_history \<Rightarrow> (nat \<times> nat) \<times> known_bot list \<times> restart_history" where
  "reconcile_on_startup now current [] h = ((0, 0), [], h)"
| "reconcile_on_startup now current (b # bs) h =
     (case read_state now (kb_running b) (kb_yaml_mode b) True (kb_file b) of (v, f) \<Rightarrow>
       if bv_stopped_reason v \<in> {Some ''silent_exit'', Some ''heartbeat_stale''}
       then (case reconcile_on_startup now current bs h of ((r, n), bs', h') \<Rightarrow> ((Suc r, n), b\<lparr>kb_file := f\<rparr> # bs', h'))
       else if bot_needs_restart v current
       then (case attempt_bot_auto_restart now (kb_key b) (kb_outcome b) True f h of (res, f', h1) \<Rightarrow>
              (case reconcile_on_startup now current bs h1 of ((r, n), bs', h') \<Rightarrow>
                ((r, if res = Inr (Some Restarted, True) then Suc n else n), b\<lparr>kb_file := f'\<rparr> # bs', h')))
       else (case reconcile_on_startup now current bs h of ((r, n), bs', h') \<Rightarrow> ((r, n), b\<lparr>kb_file := f\<rparr> # bs', h')))"

section \<open>What a read shows\<close>

text \<open>A read that repairs is followed by reads that repair nothing; a dead bot stays reported as stopped.\<close>

lemma read_twice_same_file:
  "read_state now running m True f = (v, f') \<Longrightarrow> snd (read_state now' running' m' w f') = f' \<or> bd_running (case f' of Doc d \<Rightarrow> d) = Some True"
  by (cases f) (auto simp: read_state_def Let_def silent_exit_doc_def split: if_splits)

text \<open>a bot whose process is gone reads as stopped, with the reason, from the first read on; the repair is written
  once, and later reads change nothing and keep saying so.\<close>

theorem dead_bot_reads_stopped:
  assumes "f = Doc d" "bd_valid d" "bd_running d = Some True" "read_state now False m True f = (v, f')"
  shows "\<not> bv_running v \<and> bv_stopped_reason v = Some ''silent_exit'' \<and> bv_stopped_at v = Some now
    \<and> snd (read_state now' False m' w f') = f'
    \<and> \<not> bv_running (fst (read_state now' False m' w f')) \<and> bv_stopped_reason (fst (read_state now' False m' w f')) = Some ''silent_exit''"
  using assms by (auto simp: read_state_def Let_def silent_exit_doc_def)

text \<open>a bot that hangs, its process there but its heartbeat stale, reads as stopped exactly once: the repair turns
  the running flag off in the file, and from then on every read reports it running again, still giving a stale
  heartbeat as the reason why it has stopped.\<close>

theorem hung_bot_reads_running_again:
  assumes "f = Doc d" "bd_valid d" "bd_running d = Some True" "heartbeat_is_stale now d" "read_state now True m True f = (v, f')"
  shows "\<not> bv_running v \<and> bv_stopped_reason v = Some ''heartbeat_stale''
    \<and> bv_running (fst (read_state now' True m' w f')) \<and> bv_stopped_reason (fst (read_state now' True m' w f')) = Some ''heartbeat_stale''
    \<and> snd (read_state now' True m' w f') = f'"
  using assms by (auto simp: read_state_def Let_def silent_exit_doc_def)

section \<open>The restart budget\<close>

text \<open>A sequence of restart requests for one bot within one lifetime of the portal, each with its time, outcome, the state file it
  meets and whether that can be written: the times at which a restart was issued.\<close>

type_synonym restart_request = "real \<times> restart_outcome \<times> bool \<times> doc_file"

definition was_issued :: "(restart_outcome option \<times> bool) res \<Rightarrow> bool" where
  "was_issued r = (case r of Inr (Some _, _) \<Rightarrow> True | _ \<Rightarrow> False)"

fun issued :: "int \<times> string \<Rightarrow> restart_request list \<Rightarrow> restart_history \<Rightarrow> real list" where
  "issued key [] h = []"
| "issued key ((t, out, w, f) # ts) h =
     (case attempt_bot_auto_restart t key out w f h of (r, _, h') \<Rightarrow>
        (if was_issued r then t # issued key ts h' else issued key ts h'))"

definition attempts_of :: "int \<times> string \<Rightarrow> restart_history \<Rightarrow> real list" where
  "attempts_of key h = (case map_of h key of None \<Rightarrow> [] | Some xs \<Rightarrow> xs)"

lemma attempts_after:
  assumes "attempt_bot_auto_restart t key out w f h = (r, f', h')"
  shows "attempts_of key h' = (if was_issued r then filter (\<lambda>x. t - x < 300) (attempts_of key h) @ [t] else attempts_of key h)"
    "was_issued r \<longleftrightarrow> length (filter (\<lambda>x. t - x < 300) (attempts_of key h)) < 3"
proof -
  have "length (filter (\<lambda>x. t - x < 300) (attempts_of key h)) < 3 \<Longrightarrow>
      \<not> 100 < Suc (length (filter (\<lambda>x. t - x < 300) (attempts_of key h)))" by simp
  then show "attempts_of key h' = (if was_issued r then filter (\<lambda>x. t - x < 300) (attempts_of key h) @ [t] else attempts_of key h)"
    "was_issued r \<longleftrightarrow> length (filter (\<lambda>x. t - x < 300) (attempts_of key h)) < 3"
    using assms
    by (auto simp: attempt_bot_auto_restart_def attempts_of_def [symmetric] record_bot_restart_def Let_def restart_window_seconds_def
        restart_max_attempts_def restart_history_cap_def was_issued_def split: if_splits sum.splits) (auto simp: attempts_of_def update_conv')
qed

lemma issued_subset: "set (issued key ts h) \<subseteq> set (map fst ts)"
  by (induction ts arbitrary: h) (auto split: prod.splits if_splits, blast+)

lemma filter_le: "length (filter P (filter Q xs)) \<le> length (filter Q xs)"
  by (rule length_filter_le)

lemma issued_in_window:
  assumes "sorted (map fst ts)" "\<forall>t \<in> set (map fst ts). \<forall>x \<in> set (attempts_of key h). x \<le> t"
    "length (filter (\<lambda>x. a \<le> x \<and> x < a + 300) (attempts_of key h)) \<le> 3"
  shows "length (filter (\<lambda>x. a \<le> x \<and> x < a + 300) (attempts_of key h))
    + length (filter (\<lambda>x. a \<le> x \<and> x < a + 300) (issued key ts h)) \<le> 3"
  using assms
proof (induction ts arbitrary: h)
  case (Cons p ts)
  obtain t out w f where p: "p = (t, out, w, f)" by (cases p) auto
  obtain r f' h' where s: "attempt_bot_auto_restart t key out w f h = (r, f', h')"
    by (metis prod.collapse)
  note after = attempts_after [OF s]
  have late: "\<forall>u \<in> set (map fst ts). t \<le> u" and srt: "sorted (map fst ts)" using Cons.prems(1) p by auto
  let ?in = "\<lambda>x. a \<le> x \<and> x < a + 300"
  show ?case
  proof (cases "\<not> was_issued r")
    case True
    then have "attempts_of key h' = attempts_of key h" using after by simp
    then show ?thesis using Cons.IH [of h'] Cons.prems p s True by simp
  next
    case False
    let ?recent = "filter (\<lambda>x. t - x < 300) (attempts_of key h)"
    have h': "attempts_of key h' = ?recent @ [t]" "length ?recent < 3" using after False by auto
    have below: "\<forall>x \<in> set (attempts_of key h). x \<le> t" using Cons.prems(2) p by simp
    have le: "\<forall>u \<in> set (map fst ts). \<forall>x \<in> set (attempts_of key h'). x \<le> u" using h'(1) below late by fastforce
    have rest: "issued key (p # ts) h = t # issued key ts h'" using p s False by simp
    consider (inside) "?in t" | (before) "t < a" | (after) "a + 300 \<le> t" by linarith
    then show ?thesis
    proof cases
      case inside
      have "filter ?in ?recent = filter ?in (attempts_of key h)"
        unfolding filter_filter using inside by (intro filter_cong) auto
      then have eq: "length (filter ?in (attempts_of key h')) = Suc (length (filter ?in (attempts_of key h)))"
        and "length (filter ?in (attempts_of key h)) < 3"
        using h' inside filter_le [of ?in "\<lambda>x. t - x < 300" "attempts_of key h"] by auto
      then show ?thesis using Cons.IH [OF srt le] rest inside by simp
    next
      case before
      then have "filter ?in (attempts_of key h) = []" "filter ?in (attempts_of key h') = []"
        using below h'(1) by (fastforce simp: filter_empty_conv)+
      then show ?thesis using Cons.IH [OF srt le] rest before by simp
    next
      case after
      have "filter ?in (issued key ts h') = []"
        using issued_subset [of key ts h'] late after by (fastforce simp: filter_empty_conv)
      then show ?thesis using Cons.prems(3) rest after by simp
    qed
  qed
qed simp

text \<open>C30: within one lifetime of the portal, which starts with an empty history, and as long as its clock is not set back, a bot is
  restarted at most three times in any span of 300 seconds, whatever becomes of the attempts, whatever other bots have been
  restarted before and whatever its state file holds. The budget does not outlive the portal: of portals started one after
  the other each issues its first attempt, however close together.\<close>

theorem restart_budget_bounds_attempts:
  assumes "sorted (map fst ts)" "map_of h key = None"
  shows "length (filter (\<lambda>x. a \<le> x \<and> x < a + 300) (issued key ts h)) \<le> 3
    \<and> concat (map (\<lambda>request. issued key [request] []) ts) = map fst ts"
proof -
  have "issued key [request] [] = [fst request]" for request
    by (cases request)
      (simp add: attempt_bot_auto_restart_def Let_def restart_max_attempts_def was_issued_def)
  then show ?thesis using issued_in_window [OF assms(1), of key h a] assms(2) by (simp add: attempts_of_def)
qed

text \<open>The only caller is the walk at startup, which meets every bot once: there the budget is never exhausted, and every bot
  on the wrong schema whose restart works is restarted, at each start of the portal.\<close>

definition restarted_at_startup :: "real \<Rightarrow> int \<Rightarrow> known_bot \<Rightarrow> bool" where
  "restarted_at_startup now current b =
     (let v = fst (read_state now (kb_running b) (kb_yaml_mode b) True (kb_file b)) in
      bv_stopped_reason v \<notin> {Some ''silent_exit'', Some ''heartbeat_stale''} \<and> bot_needs_restart v current \<and> kb_outcome b = Restarted)"

theorem startup_never_exhausts_the_budget:
  assumes "distinct (map kb_key bs)" "\<forall>b \<in> set bs. map_of h (kb_key b) = None"
  shows "snd (fst (reconcile_on_startup now current bs h)) = length (filter (restarted_at_startup now current) bs)"
  using assms
proof (induction bs arbitrary: h)
  case (Cons b bs)
  obtain v f where r: "read_state now (kb_running b) (kb_yaml_mode b) True (kb_file b) = (v, f)" by fastforce
  let ?h1 = "record_bot_restart (kb_key b) now (AList.update (kb_key b) [] h)"
  have a: "attempt_bot_auto_restart now (kb_key b) out True f h = (Inr (Some out, out = Restarted), f, ?h1)" for out
    using Cons.prems(2) by (simp add: attempt_bot_auto_restart_def Let_def restart_max_attempts_def)
  have "kb_key x \<noteq> kb_key b" if "x \<in> set bs" for x
    using imageI [OF that, of kb_key] Cons.prems(1) by auto
  then have "\<forall>x \<in> set bs. map_of ?h1 (kb_key x) = None"
    using Cons.prems(2) by (auto simp: record_bot_restart_def Let_def update_conv')
  then have ih: "snd (fst (reconcile_on_startup now current bs ?h1)) = length (filter (restarted_at_startup now current) bs)"
    "snd (fst (reconcile_on_startup now current bs h)) = length (filter (restarted_at_startup now current) bs)"
    using Cons.IH Cons.prems by simp_all
  have "restarted_at_startup now current b \<longleftrightarrow> bv_stopped_reason v \<notin> {Some ''silent_exit'', Some ''heartbeat_stale''}
      \<and> bot_needs_restart v current \<and> kb_outcome b = Restarted"
    by (simp add: restarted_at_startup_def r)
  then show ?case using ih by (simp add: r a split_beta)
qed simp

section \<open>Two writers of one state file\<close>

text \<open>The portal repairs a state file with the engine's own sequence of system calls, through the same temporary
  name and without a lock.\<close>

definition repair_steps :: "string \<Rightarrow> state_json \<Rightarrow> (dir \<Rightarrow> dir) list" where
  "repair_steps n j = write_steps n (j\<lparr>sj_running := Some False, sj_current_price := Some 0\<rparr>)"

text \<open>when a bot hangs rather than being gone, its engine and the portal may write at once: although each write
  alone is atomic, in some interleaving of the two the state file is found cut in half.\<close>

theorem two_writers_tear_the_state_file:
  assumes "tmp_name n \<noteq> n"
  shows "\<exists>calls \<in> shuffles (write_steps n j) (repair_steps n k). \<exists>m. map_of (fold (\<lambda>f. f) (take m calls) fs) n = Some Partial"
proof -
  let ?p = "AList.update (tmp_name n) Partial" and ?e = "AList.update (tmp_name n) (Json j)" and ?r = "rename_file (tmp_name n) n"
  let ?q = "AList.update (tmp_name n) (Json (k\<lparr>sj_running := Some False, sj_current_price := Some 0\<rparr>))"
  let ?calls = "[?p, ?e, ?p, ?r, ?q, ?r]"
  have "?calls \<in> shuffles (write_steps n j) (repair_steps n k)"
    by (simp add: repair_steps_def write_steps_def Cons_in_shuffles_iff)
  moreover have "map_of (fold (\<lambda>f. f) (take 4 ?calls) fs) n = Some Partial"
    using assms by (simp add: rename_file_def delete_conv' update_conv')
  ultimately show ?thesis by blast
qed

section \<open>Witnesses\<close>

definition hung_doc :: bot_doc where
  "hung_doc = \<lparr>bd_running = Some True, bd_heartbeat = Stamp 0, bd_schema = Some 2, bd_mode = ''paper'', bd_price = 50000,
     bd_stopped_at = None, bd_stopped_reason = None, bd_valid = True\<rparr>"

theorem dead_bot_reads_stopped_witness:
  "bv_stopped_reason (fst (read_state 100 False ''paper'' True (Doc hung_doc))) = Some ''silent_exit''"
proof -
  have "bd_valid hung_doc" "bd_running hung_doc = Some True" by (simp_all add: hung_doc_def)
  moreover obtain v f' where r: "read_state 100 False ''paper'' True (Doc hung_doc) = (v, f')" by fastforce
  ultimately show ?thesis using dead_bot_reads_stopped [OF refl _ _ r] by simp
qed

theorem hung_bot_reads_running_again_witness:
  "\<not> bv_running (fst (read_state 100 True ''paper'' True (Doc hung_doc)))
    \<and> bv_running (fst (read_state 101 True ''paper'' True (snd (read_state 100 True ''paper'' True (Doc hung_doc)))))"
proof -
  have "heartbeat_is_stale 100 hung_doc" "bd_valid hung_doc" "bd_running hung_doc = Some True"
    by (simp_all add: hung_doc_def heartbeat_is_stale_def heartbeat_stale_threshold_sec_def)
  moreover obtain v f' where r: "read_state 100 True ''paper'' True (Doc hung_doc) = (v, f')" by fastforce
  ultimately show ?thesis using hung_bot_reads_running_again [OF refl _ _ _ r] by simp
qed

theorem restart_budget_bounds_attempts_witness:
  "length (filter (\<lambda>x. 0 \<le> x \<and> x < 0 + 300) (issued (1, ''b'') [(0, Restarted, True, Missing), (10, Restarted, True, Missing),
     (20, Restarted, True, Missing), (30, Restarted, True, Missing)] [])) \<le> 3"
  using restart_budget_bounds_attempts [of "[(0, Restarted, True, Missing), (10, Restarted, True, Missing),
     (20, Restarted, True, Missing), (30, Restarted, True, Missing)]" "[]" "(1, ''b'')" 0] by simp

theorem two_writers_tear_the_state_file_witness:
  "\<exists>calls \<in> shuffles (write_steps ''a.state.json'' empty_json) (repair_steps ''a.state.json'' empty_json).
     \<exists>m. map_of (fold (\<lambda>f. f) (take m calls) []) ''a.state.json'' = Some Partial"
proof -
  have "tmp_name ''a.state.json'' \<noteq> ''a.state.json''" using tmp_json_differs [of "''a.state''"] by simp
  then show ?thesis by (rule two_writers_tear_the_state_file)
qed

end
