(* ===== verification/Bot_Registry.thy ===== *)
theory Bot_Registry
  imports Sessions
begin

text \<open>
  The portal's index of bots (\<open>BotRegistry\<close> in \<open>web/app.py\<close>): which directories count as tenants while the user
  table may be unreachable, the refresh of the index, the start slots, the names of bots and the environment of
  their processes. The directory listing and the database are inputs of each scan.
\<close>

section \<open>Names and environments\<close>

definition is_lower :: "char \<Rightarrow> bool" where "is_lower c = (c \<in> set ''abcdefghijklmnopqrstuvwxyz'')"

definition to_lower :: "char \<Rightarrow> char" where
  "to_lower c = (let n = of_char c :: nat in if 65 \<le> n \<and> n \<le> 90 then char_of (n + 32) else c)"

definition slug_char :: "char \<Rightarrow> bool" where
  "slug_char c = (is_lower c \<or> is_digit c \<or> c = CHR ''_'')"

text \<open>\<open>re.sub(r"_+", "_", s)\<close> and \<open>strip("_")\<close>.\<close>

fun collapse :: "string \<Rightarrow> string" where
  "collapse (c # d # s) = (if c = CHR ''_'' \<and> d = CHR ''_'' then collapse (d # s) else c # collapse (d # s))"
| "collapse s = s"

definition strip_underscores :: "string \<Rightarrow> string" where
  "strip_underscores s = rev (dropWhile (\<lambda>c. c = CHR ''_'') (rev (dropWhile (\<lambda>c. c = CHR ''_'') s)))"

definition slugify :: "string \<Rightarrow> string res" where
  "slugify name =
     (let lowered = map (\<lambda>c. if c = CHR '' '' then CHR ''_'' else c) (map to_lower (py_strip name));
          cleaned = strip_underscores (collapse (filter slug_char lowered)) in
      if cleaned = [] then Inl ValueError else Inr cleaned)"

definition bot_env_allowlist :: "string list" where
  "bot_env_allowlist = [''PATH'', ''HOME'', ''USER'', ''LANG'', ''LC_ALL'', ''TZ'', ''PYTHONPATH'', ''PYTHONUNBUFFERED'', ''REVERTO_LOG_LEVEL'']"

definition bot_subprocess_env :: "int \<Rightarrow> (string \<times> string) list \<Rightarrow> (string \<times> string) list" where
  "bot_subprocess_env uid environ =
     filter (\<lambda>(k, v). v \<noteq> [])
       (AList.update ''REVERTO_BOT_USER_ID'' (show_int uid)
         (AList.update ''PYTHONUNBUFFERED'' ''1'' (filter (\<lambda>(k, v). k \<in> set bot_env_allowlist) environ)))"

section \<open>Tenant directories\<close>

text \<open>A listing of the configuration directory, sorted: names, whether each is a directory, and its YAML stems.\<close>

record entry_dir =
  ed_name :: string
  ed_is_dir :: bool
  ed_stems :: "string list"

definition dir_uid :: "entry_dir \<Rightarrow> int option" where
  "dir_uid e = (if ed_is_dir e then py_int_text (ed_name e) else None)"

fun scan_active_dirs :: "int list \<Rightarrow> entry_dir list \<Rightarrow> (int \<times> entry_dir) list" where
  "scan_active_dirs active [] = []"
| "scan_active_dirs active (e # es) =
     (case dir_uid e of
        None \<Rightarrow> scan_active_dirs active es
      | Some uid \<Rightarrow> if uid \<in> set active then (uid, e) # scan_active_dirs active es else scan_active_dirs active es)"

text \<open>The orphans of a scan, and those it logs: the ones the scan before has not seen.\<close>

definition orphans_of :: "int list \<Rightarrow> entry_dir list \<Rightarrow> string list" where
  "orphans_of active es = map ed_name (filter (\<lambda>e. case dir_uid e of None \<Rightarrow> False | Some uid \<Rightarrow> uid \<notin> set active) es)"

definition orphans_logged :: "string list \<Rightarrow> int list \<Rightarrow> entry_dir list \<Rightarrow> string list" where
  "orphans_logged previously active es = filter (\<lambda>n. n \<notin> set previously) (orphans_of active es)"

record user_cache =
  uc_users :: "int list option"
  uc_failures :: nat
  uc_last :: real
  uc_orphans :: "string list"

definition empty_cache :: user_cache where
  "empty_cache = \<lparr>uc_users = None, uc_failures = 0, uc_last = 0, uc_orphans = []\<rparr>"

definition cache_ttl_s :: real where "cache_ttl_s = 30"
definition max_stale_refreshes :: nat where "max_stale_refreshes = 5"

definition scan_with :: "int list \<Rightarrow> entry_dir list \<Rightarrow> user_cache \<Rightarrow> (int \<times> entry_dir) list \<times> user_cache" where
  "scan_with active es c = (scan_active_dirs active es, c\<lparr>uc_orphans := orphans_of active es\<rparr>)"

definition scan_user_dirs :: "real \<Rightarrow> int list option \<Rightarrow> entry_dir list \<Rightarrow> user_cache \<Rightarrow> (int \<times> entry_dir) list \<times> user_cache" where
  "scan_user_dirs now db es c =
     (case uc_users c of
        Some us \<Rightarrow> if now - uc_last c < cache_ttl_s then scan_with us es c
          else (case db of
              Some active \<Rightarrow> scan_with active es (c\<lparr>uc_users := Some active, uc_failures := 0, uc_last := now\<rparr>)
            | None \<Rightarrow>
                (let c' = c\<lparr>uc_failures := uc_failures c + 1\<rparr> in
                 if uc_failures c' > max_stale_refreshes then ([], c'\<lparr>uc_orphans := []\<rparr>) else scan_with us es c'))
      | None \<Rightarrow> (case db of
          Some active \<Rightarrow> scan_with active es (c\<lparr>uc_users := Some active, uc_failures := 0, uc_last := now\<rparr>)
        | None \<Rightarrow> ([], c\<lparr>uc_failures := uc_failures c + 1, uc_orphans := []\<rparr>)))"

section \<open>The index\<close>

record registry =
  rg_bots :: "((int \<times> string) \<times> string) list"
  rg_last :: real
  rg_starting :: "(int \<times> string) list"
  rg_cache :: user_cache

definition config_file :: "entry_dir \<Rightarrow> string \<Rightarrow> string" where
  "config_file e stem = ''config/bots/'' @ ed_name e @ ''/'' @ stem @ ''.yaml''"

definition scanned_bots :: "(int \<times> entry_dir) list \<Rightarrow> ((int \<times> string) \<times> string) list" where
  "scanned_bots dirs = concat (map (\<lambda>(uid, e). map (\<lambda>stem. ((uid, stem), config_file e stem)) (ed_stems e)) dirs)"

definition add_bot :: "(int \<times> string) \<times> string \<Rightarrow> ((int \<times> string) \<times> string) list \<Rightarrow> ((int \<times> string) \<times> string) list" where
  "add_bot p bots = (if fst p \<in> set (keys bots) then bots else bots @ [p])"

definition refresh_locked :: "real \<Rightarrow> int list option \<Rightarrow> entry_dir list \<Rightarrow> registry \<Rightarrow> registry" where
  "refresh_locked now db es r =
     (case scan_user_dirs now db es (rg_cache r) of (dirs, c) \<Rightarrow>
        let found = scanned_bots dirs;
            added = fold add_bot found (rg_bots r) in
        r\<lparr>rg_bots := filter (\<lambda>(k, f). k \<in> set (keys found)) added, rg_cache := c\<rparr>)"

definition refresh_ttl :: real where "refresh_ttl = 5"

definition refresh :: "real \<Rightarrow> int list option \<Rightarrow> entry_dir list \<Rightarrow> registry \<Rightarrow> registry" where
  "refresh now db es r = (if now - rg_last r \<le> refresh_ttl then r else (refresh_locked now db es r)\<lparr>rg_last := now\<rparr>)"

definition new_registry :: "real \<Rightarrow> int list option \<Rightarrow> entry_dir list \<Rightarrow> registry" where
  "new_registry now db es =
     (refresh_locked now db es \<lparr>rg_bots = [], rg_last = 0, rg_starting = [], rg_cache = empty_cache\<rparr>)\<lparr>rg_last := now\<rparr>"

definition all_bots :: "int option \<Rightarrow> registry \<Rightarrow> ((int \<times> string) \<times> string) list" where
  "all_bots user r = (case user of None \<Rightarrow> rg_bots r | Some u \<Rightarrow> filter (\<lambda>((uid, _), _). uid = u) (rg_bots r))"

definition get_bot :: "int \<Rightarrow> string \<Rightarrow> registry \<Rightarrow> string option" where
  "get_bot u slug r = map_of (rg_bots r) (u, slug)"

definition invalidate :: "registry \<Rightarrow> registry" where
  "invalidate r = r\<lparr>rg_last := 0\<rparr>"

definition begin_start :: "int \<Rightarrow> string \<Rightarrow> registry \<Rightarrow> bool \<times> registry" where
  "begin_start u slug r =
     (if (u, slug) \<in> set (rg_starting r) then (False, r) else (True, r\<lparr>rg_starting := (u, slug) # rg_starting r\<rparr>))"

definition end_start :: "int \<Rightarrow> string \<Rightarrow> registry \<Rightarrow> registry" where
  "end_start u slug r = r\<lparr>rg_starting := removeAll (u, slug) (rg_starting r)\<rparr>"

section \<open>Names are safe\<close>

lemma collapse_set: "set (collapse s) = set s"
  by (induction s rule: collapse.induct) auto

lemma collapse_hd: "s \<noteq> [] \<Longrightarrow> collapse s \<noteq> [] \<and> hd (collapse s) = hd s"
  by (induction s rule: collapse.induct) auto

fun no_double :: "string \<Rightarrow> bool" where
  "no_double (c # d # s) = (\<not> (c = CHR ''_'' \<and> d = CHR ''_'') \<and> no_double (d # s))"
| "no_double s = True"

lemma no_double_Cons: "no_double (c # s) \<longleftrightarrow> no_double s \<and> \<not> (c = CHR ''_'' \<and> s \<noteq> [] \<and> hd s = CHR ''_'')"
  by (cases s) auto

lemma collapse_no_double: "no_double (collapse s)"
proof (induction s rule: collapse.induct)
  case (1 c d s)
  then show ?case using collapse_hd [of "d # s"] by (auto simp: no_double_Cons)
qed simp_all

lemma no_double_drop: "no_double s \<Longrightarrow> no_double (dropWhile P s)"
  by (induction s) (auto simp: no_double_Cons)

lemma no_double_append: "no_double (xs @ ys) \<longleftrightarrow> no_double xs \<and> no_double ys \<and> \<not> (xs \<noteq> [] \<and> ys \<noteq> [] \<and> last xs = CHR ''_'' \<and> hd ys = CHR ''_'')"
  by (induction xs) (auto simp: no_double_Cons hd_append)

lemma no_double_rev: "no_double (rev s) = no_double s"
  by (induction s) (auto simp: no_double_append no_double_Cons last_rev)

lemma last_after_drop: "dropWhile P s \<noteq> [] \<Longrightarrow> last (dropWhile P s) = last s"
  by (induction s) (auto split: if_splits)

lemma hd_after_drop: "dropWhile P s \<noteq> [] \<Longrightarrow> \<not> P (hd (dropWhile P s))"
  by (rule hd_dropWhile)

lemma strip_underscores_ends:
  assumes "strip_underscores s \<noteq> []"
  shows "hd (strip_underscores s) \<noteq> CHR ''_'' \<and> last (strip_underscores s) \<noteq> CHR ''_''"
proof -
  define d where "d = dropWhile (\<lambda>c. c = CHR ''_'') s"
  define e where "e = dropWhile (\<lambda>c. c = CHR ''_'') (rev d)"
  have s: "strip_underscores s = rev e" by (simp add: strip_underscores_def d_def e_def)
  then have e: "e \<noteq> []" using assms by simp
  then have he: "hd e \<noteq> CHR ''_''" using hd_after_drop [of _ "rev d"] unfolding e_def by blast
  have "d \<noteq> []" using e by (auto simp: e_def)
  then have hd: "hd d \<noteq> CHR ''_''" using hd_after_drop [of _ s] unfolding d_def by blast
  have "last e = last (rev d)" using e unfolding e_def by (rule last_after_drop)
  then show ?thesis using s he hd by (simp add: hd_rev last_rev)
qed

text \<open>C40: a slug is not empty, holds lower-case letters, digits and single underscores only, and neither starts nor ends
  with one: no path separator, dot or blank of a bot name reaches the file system.\<close>

theorem slugify_safe:
  assumes "slugify name = Inr s"
  shows "s \<noteq> [] \<and> list_all slug_char s \<and> no_double s \<and> hd s \<noteq> CHR ''_'' \<and> last s \<noteq> CHR ''_''"
proof -
  let ?f = "filter slug_char (map (\<lambda>c. if c = CHR '' '' then CHR ''_'' else c) (map to_lower (py_strip name)))"
  have s: "s = strip_underscores (collapse ?f)" "s \<noteq> []" using assms by (auto simp: slugify_def Let_def split: if_splits)
  have "set (strip_underscores x) \<subseteq> set x" for x by (auto simp: strip_underscores_def dest!: set_dropWhileD)
  then have "list_all slug_char s" using s(1) collapse_set [of ?f] by (fastforce simp: list_all_iff)
  moreover have "no_double s" unfolding s(1) strip_underscores_def no_double_rev
    by (intro no_double_drop) (simp add: no_double_rev no_double_drop collapse_no_double)
  ultimately show ?thesis using s strip_underscores_ends [of "collapse ?f"] by simp
qed

text \<open>a bot process is handed no variable of the portal outside the list, so none of its secrets, and never an
  empty one.\<close>

theorem bot_env_withholds_secrets:
  "set (keys (bot_subprocess_env uid environ)) \<subseteq> set bot_env_allowlist \<union> {''REVERTO_BOT_USER_ID''}
    \<and> (\<forall>(k, v) \<in> set (bot_subprocess_env uid environ). v \<noteq> [])"
proof -
  have "k \<in> set bot_env_allowlist \<union> {''REVERTO_BOT_USER_ID''} \<and> v \<noteq> []" if "(k, v) \<in> set (bot_subprocess_env uid environ)" for k v
  proof -
    let ?e = "filter (\<lambda>(k, v). k \<in> set bot_env_allowlist) environ"
    have kv: "(k, v) \<in> set (AList.update ''REVERTO_BOT_USER_ID'' (show_int uid) (AList.update ''PYTHONUNBUFFERED'' ''1'' ?e))" "v \<noteq> []"
      using that unfolding bot_subprocess_env_def by auto
    then have "(k, v) = (''REVERTO_BOT_USER_ID'', show_int uid) \<or> (k, v) = (''PYTHONUNBUFFERED'', ''1'') \<or> (k, v) \<in> set ?e"
      using set_update_subset [of "''REVERTO_BOT_USER_ID''" "show_int uid" "AList.update ''PYTHONUNBUFFERED'' ''1'' ?e"]
        set_update_subset [of "''PYTHONUNBUFFERED''" "''1''" ?e] by blast
    moreover have "''PYTHONUNBUFFERED'' \<in> set bot_env_allowlist" by (simp add: bot_env_allowlist_def)
    ultimately show ?thesis using kv(2) by auto
  qed
  then show ?thesis by fastforce
qed

section \<open>Tenants are active users\<close>

lemma scan_active_subset: "set (map fst (scan_active_dirs active es)) \<subseteq> set active"
  by (induction es) (auto split: option.splits)

lemma keys_added: "set (keys (fold add_bot found bots)) = set (keys found) \<union> set (keys bots)"
proof (induction found arbitrary: bots)
  case (Cons p found)
  have "set (keys (add_bot p bots)) = insert (fst p) (set (keys bots))" by (simp add: add_bot_def insert_absorb)
  then show ?case using Cons by (simp del: set_map)
qed simp

lemma refresh_keys:
  assumes "scan_user_dirs now db es (rg_cache r) = (dirs, c)"
  shows "set (keys (rg_bots (refresh_locked now db es r))) = set (keys (scanned_bots dirs))" "rg_cache (refresh_locked now db es r) = c"
proof -
  have "set (keys (filter (\<lambda>(k, f). k \<in> A) xs)) = set (keys xs) \<inter> A" for A :: "(int \<times> string) set" and xs :: "((int \<times> string) \<times> string) list"
    by force
  then show "set (keys (rg_bots (refresh_locked now db es r))) = set (keys (scanned_bots dirs))"
    using assms keys_added [of "scanned_bots dirs" "rg_bots r"] by (simp add: refresh_locked_def Let_def del: set_map)
  show "rg_cache (refresh_locked now db es r) = c" using assms by (simp add: refresh_locked_def Let_def)
qed

text \<open>The refreshes of a registry: the time, the answer of the user table if there is one, and the listing.\<close>

fun refreshes :: "(real \<times> int list option \<times> entry_dir list) list \<Rightarrow> registry \<Rightarrow> registry" where
  "refreshes [] r = r"
| "refreshes ((now, db, es) # xs) r = refreshes xs (refresh_locked now db es r)"

lemma refreshes_snoc: "refreshes (xs @ [(now, db, es)]) r = refresh_locked now db es (refreshes xs r)"
  by (induction xs arbitrary: r) auto

text \<open>The last answer of the user table, and the failures since, in a sequence of scans.\<close>

definition answers :: "(real \<times> int list option \<times> entry_dir list) list \<Rightarrow> int list list" where
  "answers xs = List.map_filter (\<lambda>(_, db, _). db) xs"

lemma cached_answer:
  "uc_users (rg_cache (refreshes xs r)) = Some us \<Longrightarrow> uc_users (rg_cache r) = None \<Longrightarrow> us \<in> set (answers xs)"
proof (induction xs arbitrary: us rule: rev_induct)
  case (snoc x xs)
  obtain now db es where x: "x = (now, db, es)" by (cases x)
  obtain dirs c where s: "scan_user_dirs now db es (rg_cache (refreshes xs r)) = (dirs, c)" by fastforce
  have c: "uc_users c = Some us" using snoc.prems(1) refresh_keys(2) [OF s] by (simp add: x refreshes_snoc)
  have "uc_users (rg_cache (refreshes xs r)) = Some us \<or> db = Some us"
    using s c by (auto simp: scan_user_dirs_def scan_with_def Let_def split: option.splits if_splits)
  then show ?case using snoc.IH snoc.prems(2) by (auto simp: answers_def x map_filter_def)
qed simp

text \<open>every bot the index lists belongs to a user that some answer of the user table, the one in use, has named as
  active: a directory nobody owns never becomes a tenant, whether the table can be read or not.\<close>

theorem registry_lists_active_users:
  assumes "rg_bots r0 = []" "rg_cache r0 = empty_cache" "((uid, slug), file) \<in> set (rg_bots (refreshes xs r0))"
  shows "\<exists>us \<in> set (answers xs). uid \<in> set us \<and> uc_users (rg_cache (refreshes xs r0)) = Some us"
proof (cases xs rule: rev_cases)
  case (snoc ys x)
  obtain now db es where x: "x = (now, db, es)" by (cases x)
  obtain dirs c where s: "scan_user_dirs now db es (rg_cache (refreshes ys r0)) = (dirs, c)" by fastforce
  have r: "refreshes xs r0 = refresh_locked now db es (refreshes ys r0)" by (simp add: snoc x refreshes_snoc)
  have "(uid, slug) \<in> set (keys (rg_bots (refreshes xs r0)))" using assms(3) by force
  then have "(uid, slug) \<in> set (keys (scanned_bots dirs))" using refresh_keys(1) [OF s] r by simp
  then have "uid \<in> set (map fst dirs)" by (force simp: scanned_bots_def)
  moreover have "dirs = [] \<or> (\<exists>us. uc_users c = Some us \<and> dirs = scan_active_dirs us es)"
    using s by (auto simp: scan_user_dirs_def scan_with_def Let_def split: option.splits if_splits)
  ultimately obtain us where us: "uc_users c = Some us" "uid \<in> set us" using scan_active_subset by fastforce
  then have "uc_users (rg_cache (refreshes xs r0)) = Some us" using refresh_keys(2) [OF s] r by simp
  then show ?thesis using cached_answer [of xs r0 us] us(2) assms(2) by (auto simp: empty_cache_def)
qed (use assms in simp)

text \<open>When the user table stays out of reach, the index goes on from its last answer for five scans and is empty
  from the sixth on.\<close>

lemma failing_scans:
  "uc_failures (rg_cache r) = n \<Longrightarrow> uc_last (rg_cache r) = t0 \<Longrightarrow> \<forall>(now, db, es) \<in> set xs. db = None \<and> 30 \<le> now - t0 \<Longrightarrow>
    uc_failures (rg_cache (refreshes xs r)) = n + length xs \<and> uc_last (rg_cache (refreshes xs r)) = t0
    \<and> (xs \<noteq> [] \<and> 5 < n + length xs \<longrightarrow> rg_bots (refreshes xs r) = [])"
proof (induction xs rule: rev_induct)
  case (snoc x xs)
  obtain now db es where x: "x = (now, db, es)" by (cases x)
  have ih: "uc_failures (rg_cache (refreshes xs r)) = n + length xs" "uc_last (rg_cache (refreshes xs r)) = t0"
    and now: "db = None" "30 \<le> now - t0" using snoc x by auto
  obtain dirs c where s: "scan_user_dirs now db es (rg_cache (refreshes xs r)) = (dirs, c)" by fastforce
  have c: "uc_failures c = Suc (n + length xs)" "uc_last c = t0" "5 < Suc (n + length xs) \<Longrightarrow> dirs = []"
    using s ih now by (auto simp: scan_user_dirs_def scan_with_def Let_def cache_ttl_s_def max_stale_refreshes_def split: option.splits if_splits)
  have "rg_bots (refresh_locked now db es (refreshes xs r)) = []" if "dirs = []"
    using refresh_keys(1) [OF s] that by (simp add: scanned_bots_def)
  then show ?case using c refresh_keys(2) [OF s] by (simp add: x refreshes_snoc)
qed simp

text \<open>six scans in a row that find the cached answer old and the user table out of reach leave the index empty,
  whatever it held.\<close>

theorem registry_fails_closed:
  assumes "\<forall>(now, db, es) \<in> set xs. db = None \<and> 30 \<le> now - uc_last (rg_cache r)" "5 < length xs"
  shows "rg_bots (refreshes xs r) = []"
  using failing_scans [OF refl refl assms(1)] assms(2) by fastforce

text \<open>A directory whose name only reads as the number of a user is taken for that user's.\<close>

lemma padded_directory_is_a_tenant:
  "dir_uid \<lparr>ed_name = ''01'', ed_is_dir = True, ed_stems = [''x'']\<rparr> = Some 1"
  by code_simp

section \<open>Witnesses\<close>

definition one_dir :: entry_dir where
  "one_dir = \<lparr>ed_name = ''1'', ed_is_dir = True, ed_stems = [''btc'']\<rparr>"

definition no_registry :: registry where
  "no_registry = \<lparr>rg_bots = [], rg_last = 0, rg_starting = [], rg_cache = empty_cache\<rparr>"

theorem slugify_safe_witness:
  "no_double ''my_bot_2''"
proof -
  have "slugify '' My  Bot/__2_'' = Inr ''my_bot_2''" by code_simp
  from slugify_safe [OF this] show ?thesis by blast
qed

theorem registry_lists_active_users_witness:
  "\<exists>us \<in> set (answers [(100, Some [1], [one_dir])]). (1 :: int) \<in> set us"
proof -
  have "((1, ''btc''), ''config/bots/1/btc.yaml'') \<in> set (rg_bots (refreshes [(100, Some [1], [one_dir])] no_registry))" by code_simp
  from registry_lists_active_users [OF _ _ this] show ?thesis by (auto simp: no_registry_def)
qed

theorem registry_fails_closed_witness:
  "rg_bots (refreshes (replicate 6 (100, None, [one_dir])) no_registry) = []"
  using registry_fails_closed [of "replicate 6 (100, None, [one_dir])" no_registry] by (simp add: no_registry_def empty_cache_def)

end
