(* ===== verification/Bot_Process.thy ===== *)
theory Bot_Process
  imports Bot_Lifecycle Bot_Registry
begin

text \<open>
  Starting, stopping and restarting the process of a bot (\<open>start_bot\<close>, \<open>stop_bot\<close>, \<open>restart_bot\<close> in
  \<open>web/app.py\<close>) with the pid file the process writes and removes itself (\<open>main_paper.py\<close>).  The operations are
  functions over one bot's pid file and processes; what their waiting lets happen in between is a step relation.
\<close>

section \<open>One bot on its host\<close>

text \<open>The pid file, the processes of this bot that are alive, and whether a start holds the slot.\<close>

record host =
  ho_pid_file :: "int option"
  ho_alive :: "int list"
  ho_starting :: bool

definition ho_running :: "host \<Rightarrow> bool" where
  "ho_running h = (case ho_pid_file h of None \<Rightarrow> False | Some p \<Rightarrow> p \<in> set (ho_alive h))"

datatype answer = Okay string | Refusal string

text \<open>What happens outside during a call: the pid of the new process or the exception of the spawn, and whether
  the process has written its pid file before the three seconds are over.\<close>

record start_env =
  se_known :: bool
  se_spawn :: "int res"
  se_registers :: bool

definition start_bot :: "start_env \<Rightarrow> host \<Rightarrow> answer \<times> host" where
  "start_bot x h =
     (if \<not> se_known x then (Refusal ''Unknown bot'', h)
      else if ho_running h then (Refusal ''already running'', h)
      else if ho_starting h then (Refusal ''Bot is already starting'', h)
      else (case se_spawn x of
          Inl _ \<Rightarrow> (Refusal ''spawn failed'', h)
        | Inr pid \<Rightarrow>
            (Okay ''started'',
             h\<lparr>ho_alive := pid # ho_alive h, ho_pid_file := (if se_registers x then Some pid else ho_pid_file h)\<rparr>)))"

text \<open>How the process takes the signals: it is gone before the first arrives, it ends in time and removes its pid
  file, or it has to be killed, which leaves the file to the portal.\<close>

datatype stop_course = Already_Gone | Graceful | Killed | Signal_Failed

definition stop_bot :: "bool \<Rightarrow> stop_course \<Rightarrow> host \<Rightarrow> answer \<times> host" where
  "stop_bot known course h =
     (if \<not> known then (Refusal ''Unknown bot'', h)
      else if \<not> ho_running h then (Refusal ''not running'', h\<lparr>ho_pid_file := None\<rparr>)
      else (case ho_pid_file h of
          None \<Rightarrow> (Refusal ''not running'', h)
        | Some pid \<Rightarrow> (case course of
              Already_Gone \<Rightarrow> (Refusal ''Process not found'', h\<lparr>ho_alive := removeAll pid (ho_alive h), ho_pid_file := None\<rparr>)
            | Signal_Failed \<Rightarrow> (Refusal ''signal failed'', h)
            | _ \<Rightarrow> (Okay ''stopped'', h\<lparr>ho_alive := removeAll pid (ho_alive h), ho_pid_file := None\<rparr>))))"

text \<open>The dispatch of a restart: back into a dry run when the provider says so, else into the paper engine.\<close>

definition restart_bot :: "bool \<Rightarrow> stop_course \<Rightarrow> bool \<Rightarrow> (host \<Rightarrow> answer \<times> host) \<Rightarrow> start_env \<Rightarrow> host \<Rightarrow> answer \<times> host" where
  "restart_bot known course is_live start_dry_run x h =
     (if \<not> known then (Refusal ''Unknown bot'', h)
      else
        (case (if ho_running h then stop_bot known course h else (Okay '''', h)) of
           (Refusal e, h1) \<Rightarrow> (Refusal e, h1)
         | (Okay _, h1) \<Rightarrow> if is_live then start_dry_run h1 else start_bot x h1))"

section \<open>What can happen in between\<close>

text \<open>The parts of a start as the event loop interleaves them with other calls and with the processes: a start claims
  the slot, spawns, and releases the slot when it sees a pid file, of whatever process, or when its time is up; a
  process writes the pid file, ends and removes it, or is killed and leaves it; a stop of a bot that is not running
  removes a stale file.\<close>

datatype phase = Resting | Claimed | Spawned

record lot =
  lo_host :: host
  lo_phase :: phase
  lo_unregistered :: "int list"

definition lot_running :: "lot \<Rightarrow> bool" where
  "lot_running l = ho_running (lo_host l)"

inductive pstep :: "bool \<Rightarrow> lot \<Rightarrow> lot \<Rightarrow> bool" for patient where
  Claim: "lo_phase l = Resting \<Longrightarrow> \<not> lot_running l \<Longrightarrow> pstep patient l (l\<lparr>lo_phase := Claimed\<rparr>)"
| Spawn: "lo_phase l = Claimed \<Longrightarrow> pid \<notin> set (ho_alive (lo_host l)) \<Longrightarrow> ho_pid_file (lo_host l) \<noteq> Some pid \<Longrightarrow>
    pstep patient l (l\<lparr>lo_phase := Spawned, lo_unregistered := pid # lo_unregistered l,
      lo_host := (lo_host l)\<lparr>ho_alive := pid # ho_alive (lo_host l)\<rparr>\<rparr>)"
| Seen: "lo_phase l = Spawned \<Longrightarrow> ho_pid_file (lo_host l) \<noteq> None \<Longrightarrow> pstep patient l (l\<lparr>lo_phase := Resting\<rparr>)"
| Timed_Out: "lo_phase l = Spawned \<Longrightarrow> \<not> patient \<Longrightarrow> pstep patient l (l\<lparr>lo_phase := Resting\<rparr>)"
| Register: "pid \<in> set (lo_unregistered l) \<Longrightarrow>
    pstep patient l (l\<lparr>lo_unregistered := removeAll pid (lo_unregistered l), lo_host := (lo_host l)\<lparr>ho_pid_file := Some pid\<rparr>\<rparr>)"
| End: "pid \<in> set (ho_alive (lo_host l)) \<Longrightarrow> pid \<notin> set (lo_unregistered l) \<Longrightarrow>
    pstep patient l (l\<lparr>lo_host := (lo_host l)\<lparr>ho_alive := removeAll pid (ho_alive (lo_host l)), ho_pid_file := None\<rparr>\<rparr>)"
| Crash: "pid \<in> set (ho_alive (lo_host l)) \<Longrightarrow> \<not> patient \<Longrightarrow>
    pstep patient l (l\<lparr>lo_unregistered := removeAll pid (lo_unregistered l),
      lo_host := (lo_host l)\<lparr>ho_alive := removeAll pid (ho_alive (lo_host l))\<rparr>\<rparr>)"

inductive_simps pstep_simps: "pstep patient l l'"
inductive_cases pstep_cases: "pstep patient l l'"

definition quiet_lot :: lot where
  "quiet_lot = \<lparr>lo_host = \<lparr>ho_pid_file = None, ho_alive = [], ho_starting = False\<rparr>, lo_phase = Resting, lo_unregistered = []\<rparr>"

text \<open>Where no process is killed and no wait runs out, the pid file, the phase and the processes tell one story.\<close>

fun story :: "phase \<Rightarrow> int option \<Rightarrow> int list \<Rightarrow> int list \<Rightarrow> bool" where
  "story Spawned None alive unregistered = (unregistered = alive \<and> length alive \<le> 1)"
| "story Claimed f alive unregistered = (f = None \<and> alive = [] \<and> unregistered = [])"
| "story Resting None alive unregistered = (alive = [] \<and> unregistered = [])"
| "story ph (Some p) alive unregistered = (alive = [p] \<and> unregistered = [])"

definition lot_ok :: "lot \<Rightarrow> bool" where
  "lot_ok l = story (lo_phase l) (ho_pid_file (lo_host l)) (ho_alive (lo_host l)) (lo_unregistered l)"

lemma short_list: "length xs \<le> Suc 0 \<Longrightarrow> x \<in> set xs \<Longrightarrow> xs = [x]"
  by (cases xs) auto

lemma patient_step: "pstep True l l' \<Longrightarrow> lot_ok l \<Longrightarrow> lot_ok l'"
proof (induction rule: pstep.induct)
  case (Claim l)
  then show ?case by (cases "ho_pid_file (lo_host l)") (auto simp: lot_ok_def lot_running_def ho_running_def)
next
  case (Register pid l)
  then show ?case
    by (cases "lo_phase l"; cases "ho_pid_file (lo_host l)") (auto simp: lot_ok_def dest: short_list)
next
  case (End pid l)
  then show ?case
    by (cases "lo_phase l"; cases "ho_pid_file (lo_host l)") (auto simp: lot_ok_def)
next
  case (Seen l)
  then show ?case by (auto simp: lot_ok_def)
qed (simp_all add: lot_ok_def)

interpretation patient: step_invariant "pstep True" lot_ok
  by unfold_locales (rule patient_step)

text \<open>C28: as long as processes end by themselves and write their pid file while the start still waits, two starts at
  once never put two processes of a bot on the host.\<close>

theorem patient_starts_spawn_once:
  assumes "(pstep True)\<^sup>*\<^sup>* quiet_lot l"
  shows "length (ho_alive (lo_host l)) \<le> 1"
proof -
  have "lot_ok l" using patient.run_keeps [OF assms] by (simp add: lot_ok_def quiet_lot_def)
  then show ?thesis by (cases "lo_phase l"; cases "ho_pid_file (lo_host l)") (auto simp: lot_ok_def)
qed

text \<open>C29: after a crash that left its pid file, the start slot protects nothing: the wait ends at once at the stale file,
  and a second start spawns a second process before the first has written its own.\<close>

theorem stale_pid_file_defeats_the_slot:
  assumes "a \<noteq> b" "a \<noteq> dead" "b \<noteq> dead"
    "l = quiet_lot\<lparr>lo_host := (lo_host quiet_lot)\<lparr>ho_pid_file := Some dead\<rparr>\<rparr>"
  shows "\<exists>l'. (pstep True)\<^sup>*\<^sup>* l l' \<and> ho_alive (lo_host l') = [b, a]"
proof -
  let ?h = "\<lambda>ps. \<lparr>ho_pid_file = Some dead, ho_alive = ps, ho_starting = False\<rparr>"
  let ?l = "\<lambda>ph ps. \<lparr>lo_host = ?h ps, lo_phase = ph, lo_unregistered = ps\<rparr>"
  have l: "l = ?l Resting []" using assms(4) by (simp add: quiet_lot_def)
  have "pstep True (?l Resting []) (?l Claimed [])" using pstep.Claim [of "?l Resting []"] by (simp add: lot_running_def ho_running_def)
  moreover have "pstep True (?l Claimed []) (?l Spawned [a])" using pstep.Spawn [of "?l Claimed []" a] assms by simp
  moreover have "pstep True (?l Spawned [a]) (?l Resting [a])" using pstep.Seen [of "?l Spawned [a]"] by simp
  moreover have "pstep True (?l Resting [a]) (?l Claimed [a])"
    using pstep.Claim [of "?l Resting [a]"] assms by (simp add: lot_running_def ho_running_def)
  moreover have "pstep True (?l Claimed [a]) (?l Spawned [b, a])" using pstep.Spawn [of "?l Claimed [a]" b] assms by simp
  ultimately have "(pstep True)\<^sup>*\<^sup>* l (?l Spawned [b, a])"
    unfolding l by (meson converse_rtranclp_into_rtranclp rtranclp.rtrancl_refl)
  then show ?thesis by (intro exI [of _ "?l Spawned [b, a]"]) simp
qed

section \<open>Calls one after the other\<close>

definition host_ok :: "host \<Rightarrow> bool" where
  "host_ok h \<longleftrightarrow> distinct (ho_alive h) \<and> (ho_alive h \<noteq> [] \<longrightarrow> ho_running h \<and> length (ho_alive h) = 1)"

lemma host_ok_cases: "host_ok h \<Longrightarrow> ho_alive h = [] \<or> (\<exists>p. ho_pid_file h = Some p \<and> ho_alive h = [p])"
  by (cases "ho_alive h") (auto simp: host_ok_def ho_running_def split: option.splits)

lemma start_okay:
  "start_bot x h = (Okay m, h') \<Longrightarrow> host_ok h \<Longrightarrow> se_registers x \<Longrightarrow> host_ok h' \<and> ho_running h' \<and> \<not> ho_running h"
  using host_ok_cases [of h] by (auto simp: start_bot_def host_ok_def ho_running_def split: if_splits sum.splits)

lemma start_refused: "start_bot x h = (Refusal m, h') \<Longrightarrow> h' = h"
  by (auto simp: start_bot_def split: if_splits sum.splits)

lemma stop_okay: "stop_bot known course h = (Okay m, h') \<Longrightarrow> host_ok h \<Longrightarrow> ho_alive h' = [] \<and> ho_pid_file h' = None"
  using host_ok_cases [of h]
  by (cases course) (auto simp: stop_bot_def ho_running_def split: if_splits option.splits)

text \<open>started one after the other, with every process writing its pid file, a bot has at most one process; a start
  of a running bot is refused without effect, and a stop that succeeds leaves no process and no pid file.\<close>

theorem sequential_start_stop:
  assumes "host_ok h"
  shows "(start_bot x h = (Okay m, h') \<longrightarrow> se_registers x \<longrightarrow> host_ok h' \<and> ho_running h' \<and> \<not> ho_running h)
    \<and> (start_bot x h = (Refusal m, h') \<longrightarrow> h' = h)
    \<and> (stop_bot known course h = (Okay m, h') \<longrightarrow> ho_alive h' = [] \<and> ho_pid_file h' = None)"
  using start_okay [OF _ assms] start_refused stop_okay [OF _ assms] by blast

section \<open>Witnesses\<close>

theorem patient_starts_spawn_once_witness:
  "length (ho_alive (lo_host (quiet_lot\<lparr>lo_phase := Claimed\<rparr>))) \<le> 1"
proof -
  have "pstep True quiet_lot (quiet_lot\<lparr>lo_phase := Claimed\<rparr>)"
    using pstep.Claim [of quiet_lot] by (simp add: quiet_lot_def lot_running_def ho_running_def)
  then show ?thesis by (intro patient_starts_spawn_once) blast
qed

theorem stale_pid_file_defeats_the_slot_witness:
  "\<exists>l'. (pstep True)\<^sup>*\<^sup>* (quiet_lot\<lparr>lo_host := (lo_host quiet_lot)\<lparr>ho_pid_file := Some 7\<rparr>\<rparr>) l' \<and> ho_alive (lo_host l') = [9, 8]"
  by (rule stale_pid_file_defeats_the_slot [of _ _ 7]) simp_all

theorem sequential_start_stop_witness:
  "ho_running (snd (start_bot \<lparr>se_known = True, se_spawn = Inr 5, se_registers = True\<rparr> (lo_host quiet_lot)))"
proof -
  have "host_ok (lo_host quiet_lot)" by (simp add: host_ok_def quiet_lot_def)
  moreover obtain m h' where "start_bot \<lparr>se_known = True, se_spawn = Inr 5, se_registers = True\<rparr> (lo_host quiet_lot) = (Okay m, h')"
    by (simp add: start_bot_def quiet_lot_def ho_running_def)
  ultimately show ?thesis using sequential_start_stop by simp
qed

end
