(* ===== verification/Bot_Routes.thy ===== *)
theory Bot_Routes
  imports Bot_Process Secret_Paths Pause_Persistence Bot_Config
begin

text \<open>
  The routes that create, read, change, copy and remove bots and drive their processes (\<open>web/routes/bots.py\<close>).
  A configuration file is its \<open>bot\<close> block: the text under its name key and the other keys as a configuration, or a block
  the schema refuses for another reason. The caller has been resolved to a user; what a request carries, the clock, the user
  table and the file system are arguments.
\<close>

section \<open>Documents and uploads\<close>

datatype bot_block = Block "string option" bot_config | Bad_Block

datatype yaml_doc = Yaml_Broken | Yaml_No_Object | Yaml_Bot bot_block

text \<open>\<open>up_length\<close> is the header, \<open>up_chunks\<close> the sizes of what arrives, \<open>up_doc\<close> what the whole reads as.\<close>

record upload =
  up_length :: "string option"
  up_chunks :: "nat list"
  up_utf8 :: bool
  up_doc :: yaml_doc

datatype bot_reply =
    Bot_Http int string
  | Bot_Ok string
  | Bot_Config_Of yaml_doc
  | Bot_Export string yaml_doc
  | Bot_Purged string purge_summary
  | Bot_Answer answer
  | Bot_Triggered
  | Bot_Seen bot_view

text \<open>\<open>_validate_bot_payload\<close>: the name is stripped and checked, the rest checked as it is.\<close>

definition validate_bot_payload :: "bot_block \<Rightarrow> bot_config res" where
  "validate_bot_payload b =
     (case b of
        Bad_Block \<Rightarrow> Inl ValueError
      | Block None c \<Rightarrow> Inl ValueError
      | Block (Some n) c \<Rightarrow>
          res_bind (validate_name n) (\<lambda>m.
          if valid_bot (c\<lparr>cfg_name := m\<rparr>) then Inr (c\<lparr>cfg_name := m\<rparr>) else Inl ValueError))"

section \<open>The size of a body\<close>

definition max_config_body_bytes :: nat where "max_config_body_bytes = 64 * 1024"

fun stream_body :: "nat \<Rightarrow> nat \<Rightarrow> nat list \<Rightarrow> nat option" where
  "stream_body cap acc [] = Some acc"
| "stream_body cap acc (c # cs) = (if cap < acc + c then None else stream_body cap (acc + c) cs)"

definition read_body_with_cap :: "nat \<Rightarrow> upload \<Rightarrow> bot_reply + nat" where
  "read_body_with_cap cap up =
     (case up_length up of
        None \<Rightarrow>
          (case stream_body cap 0 (up_chunks up) of
             None \<Rightarrow> Inl (Bot_Http 413 ''Config body too large'')
           | Some n \<Rightarrow> Inr n)
      | Some h \<Rightarrow>
          (case py_int_text h of
             None \<Rightarrow> Inl (Bot_Http 400 ''Invalid Content-Length'')
           | Some cl \<Rightarrow> if int cap < cl then Inl (Bot_Http 413 ''Config body too large'') else Inr (sum_list (up_chunks up))))"

definition parse_json_object_body :: "upload \<Rightarrow> bot_reply + bot_block" where
  "parse_json_object_body up =
     (if \<not> up_utf8 up then Inl (Bot_Http 400 ''Invalid JSON body'')
      else (case up_doc up of
          Yaml_Broken \<Rightarrow> Inl (Bot_Http 400 ''Invalid JSON body'')
        | Yaml_No_Object \<Rightarrow> Inl (Bot_Http 400 ''Config must be a JSON object'')
        | Yaml_Bot b \<Rightarrow> Inr b))"

definition config_body :: "upload \<Rightarrow> bot_reply + bot_block" where
  "config_body up = (case read_body_with_cap max_config_body_bytes up of Inl e \<Rightarrow> Inl e | Inr _ \<Rightarrow> parse_json_object_body up)"

section \<open>The portal\<close>

record bot_portal =
  bp_files :: "(int \<times> (string \<times> yaml_doc) list) list"
  bp_index :: registry
  bp_tree :: "path list"
  bp_tables :: bot_tables
  bp_host :: "int \<times> string \<Rightarrow> host"
  bp_log :: "(string \<times> string \<times> int) list"

record bot_env =
  be_now :: real
  be_users :: "int list option"
  be_quota :: "string option"
  be_db_ok :: bool
  be_stuck :: "path \<Rightarrow> bool"

definition files_of :: "int \<Rightarrow> bot_portal \<Rightarrow> (string \<times> yaml_doc) list" where
  "files_of u w = get_or [] (map_of (bp_files w) u)"

definition put_files :: "int \<Rightarrow> (string \<times> yaml_doc) list \<Rightarrow> bot_portal \<Rightarrow> bot_portal" where
  "put_files u fs w = w\<lparr>bp_files := AList.update u fs (bp_files w)\<rparr>"

definition write_config :: "int \<Rightarrow> string \<Rightarrow> bot_block \<Rightarrow> bot_portal \<Rightarrow> bot_portal" where
  "write_config u slug b w = put_files u (AList.update slug (Yaml_Bot b) (files_of u w)) w"

definition bot_log :: "string \<Rightarrow> string \<Rightarrow> int \<Rightarrow> bot_portal \<Rightarrow> bot_portal" where
  "bot_log action slug u w = w\<lparr>bp_log := bp_log w @ [(action, slug, u)]\<rparr>"

definition forget_index :: "bot_portal \<Rightarrow> bot_portal" where
  "forget_index w = w\<lparr>bp_index := invalidate (bp_index w)\<rparr>"

text \<open>The directories as a scan of the registry lists them, and the index a lookup sees.\<close>

definition listing :: "bot_portal \<Rightarrow> entry_dir list" where
  "listing w = map (\<lambda>(u, fs). \<lparr>ed_name = show_int u, ed_is_dir = True, ed_stems = map fst (sort_key fst fs)\<rparr>) (bp_files w)"

definition index_now :: "bot_env \<Rightarrow> bot_portal \<Rightarrow> bot_portal" where
  "index_now E w = w\<lparr>bp_index := refresh (be_now E) (be_users E) (listing w) (bp_index w)\<rparr>"

section \<open>The quota\<close>

definition default_max_bots_per_user :: int where "default_max_bots_per_user = 10"

definition max_bots_per_user :: "string option \<Rightarrow> int" where
  "max_bots_per_user raw =
     (case Option.bind raw py_int_text of
        None \<Rightarrow> default_max_bots_per_user
      | Some v \<Rightarrow> if v \<le> 0 then default_max_bots_per_user else v)"

definition enforce_bot_quota :: "bot_env \<Rightarrow> int \<Rightarrow> bot_portal \<Rightarrow> bot_reply option \<times> bot_portal" where
  "enforce_bot_quota E u w =
     (let w1 = index_now E w in
      ((if max_bots_per_user (be_quota E) \<le> int (length (all_bots (Some u) (bp_index w1)))
        then Some (Bot_Http 429 ''Bot limit reached'') else None), w1))"

section \<open>Reading\<close>

definition get_bot_route :: "bot_env \<Rightarrow> int \<Rightarrow> string \<Rightarrow> bot_view \<Rightarrow> bot_portal \<Rightarrow> bot_reply \<times> bot_portal" where
  "get_bot_route E u slug view w =
     (let w1 = index_now E w in
      (if get_bot u slug (bp_index w1) = None then Bot_Http 404 ''Unknown bot'' else Bot_Seen view, w1))"

text \<open>A slug that passes the pattern and is refused by \<open>bot_yaml_path\<close> raises out of the handler.\<close>

definition get_bot_config :: "int \<Rightarrow> string \<Rightarrow> bot_portal \<Rightarrow> bot_reply" where
  "get_bot_config u slug w =
     (if \<not> bot_slug_match slug then Bot_Http 400 ''slug''
      else (case bot_yaml_path u slug of
          Inl _ \<Rightarrow> Bot_Http 500 ''Internal Server Error''
        | Inr _ \<Rightarrow>
            (case map_of (files_of u w) slug of
               None \<Rightarrow> Bot_Http 404 ''Bot not found''
             | Some Yaml_Broken \<Rightarrow> Bot_Http 500 ''Failed to parse bot config''
             | Some d \<Rightarrow> Bot_Config_Of d)))"

definition export_bot :: "int \<Rightarrow> string \<Rightarrow> bot_portal \<Rightarrow> bot_reply \<times> bot_portal" where
  "export_bot u slug w =
     (if \<not> bot_slug_match slug then (Bot_Http 400 ''slug'', w)
      else (case bot_yaml_path u slug of
          Inl _ \<Rightarrow> (Bot_Http 500 ''Internal Server Error'', w)
        | Inr _ \<Rightarrow>
            (case map_of (files_of u w) slug of
               None \<Rightarrow> (Bot_Http 404 ''Bot not found'', w)
             | Some d \<Rightarrow> (Bot_Export slug d, bot_log ''bot_export'' slug u w))))"

section \<open>Creating\<close>

text \<open>A handler that creates awaits the index and then the body; what lies between two waits is one step, and other requests run
  while it waits. The whole handler is the composition of its steps for the case that none does.\<close>

definition create_finish :: "int \<Rightarrow> upload \<Rightarrow> bot_portal \<Rightarrow> bot_reply \<times> bot_portal" where
  "create_finish u up w =
     (case config_body up of
        Inl e \<Rightarrow> (e, w)
      | Inr b \<Rightarrow>
          (case validate_bot_payload b of
             Inl _ \<Rightarrow> (Bot_Http 400 ''Invalid config'', w)
           | Inr cfg \<Rightarrow>
               (case slugify (cfg_name cfg) of
                  Inl _ \<Rightarrow> (Bot_Http 400 ''Invalid name'', w)
                | Inr slug \<Rightarrow>
                    (case bot_yaml_path u slug of
                       Inl _ \<Rightarrow> (Bot_Http 500 ''Internal Server Error'', w)
                     | Inr _ \<Rightarrow>
                         if map_of (files_of u w) slug \<noteq> None then (Bot_Http 409 ''already exists'', w)
                         else (Bot_Ok slug, bot_log ''bot_create'' slug u (forget_index (write_config u slug b w)))))))"

definition create_bot :: "bot_env \<Rightarrow> int \<Rightarrow> upload \<Rightarrow> bot_portal \<Rightarrow> bot_reply \<times> bot_portal" where
  "create_bot E u up w =
     (case enforce_bot_quota E u w of (Some e, w1) \<Rightarrow> (e, w1) | (None, w1) \<Rightarrow> create_finish u up w1)"

text \<open>\<open>str.title\<close> on the characters of a slug: a letter after a letter is lowered, any other letter raised.\<close>

definition is_letter :: "char \<Rightarrow> bool" where
  "is_letter c = (let n = of_char c :: nat in 65 \<le> n \<and> n \<le> 90 \<or> 97 \<le> n \<and> n \<le> 122)"

definition to_upper :: "char \<Rightarrow> char" where
  "to_upper c = (let n = of_char c :: nat in if 97 \<le> n \<and> n \<le> 122 then char_of (n - 32) else c)"

fun title_from :: "bool \<Rightarrow> string \<Rightarrow> string" where
  "title_from after [] = []"
| "title_from after (c # s) = (if after then to_lower c else to_upper c) # title_from (is_letter c) s"

definition title_of_slug :: "string \<Rightarrow> string" where
  "title_of_slug slug = title_from False (map (\<lambda>c. if c = CHR ''_'' \<or> c = CHR ''-'' then CHR '' '' else c) slug)"

definition renamed :: "string \<Rightarrow> bot_block \<Rightarrow> bot_block" where
  "renamed slug b = (case b of Block (Some n) c \<Rightarrow> Block (Some (title_of_slug slug)) c | _ \<Rightarrow> b)"

definition duplicate_finish :: "int \<Rightarrow> string \<Rightarrow> string \<Rightarrow> upload \<Rightarrow> bot_portal \<Rightarrow> bot_reply \<times> bot_portal" where
  "duplicate_finish u slug asked up w =
     (case config_body up of
        Inl e \<Rightarrow> (e, w)
      | Inr _ \<Rightarrow>
          let new_slug = py_strip asked in
          if \<not> bot_slug_match new_slug then (Bot_Http 400 ''Invalid slug'', w)
          else (case (bot_yaml_path u slug, bot_yaml_path u new_slug) of
              (Inr _, Inr _) \<Rightarrow>
                (case map_of (files_of u w) slug of
                   None \<Rightarrow> (Bot_Http 404 ''Source bot not found'', w)
                 | Some d \<Rightarrow>
                     if map_of (files_of u w) new_slug \<noteq> None then (Bot_Http 409 ''already exists'', w)
                     else (case d of
                         Yaml_Broken \<Rightarrow> (Bot_Http 500 ''Failed to parse source bot config for duplication'', w)
                       | Yaml_No_Object \<Rightarrow> (Bot_Http 500 ''Source YAML is malformed'', w)
                       | Yaml_Bot b \<Rightarrow>
                           (Bot_Ok new_slug,
                            bot_log (''bot_duplicate from='' @ slug) new_slug u (forget_index (write_config u new_slug (renamed new_slug b) w)))))
            | _ \<Rightarrow> (Bot_Http 500 ''Internal Server Error'', w)))"

definition duplicate_bot :: "bot_env \<Rightarrow> int \<Rightarrow> string \<Rightarrow> string \<Rightarrow> upload \<Rightarrow> bot_portal \<Rightarrow> bot_reply \<times> bot_portal" where
  "duplicate_bot E u slug asked up w =
     (case enforce_bot_quota E u w of (Some e, w1) \<Rightarrow> (e, w1) | (None, w1) \<Rightarrow> duplicate_finish u slug asked up w1)"

text \<open>An import looks whether the slug is free before it waits for the body.\<close>

definition import_check :: "bot_env \<Rightarrow> int \<Rightarrow> string \<Rightarrow> bot_portal \<Rightarrow> bot_reply option \<times> bot_portal" where
  "import_check E u asked w =
     (case enforce_bot_quota E u w of
        (Some e, w1) \<Rightarrow> (Some e, w1)
      | (None, w1) \<Rightarrow>
          let slug = py_strip asked in
          ((if \<not> bot_slug_match slug then Some (Bot_Http 400 ''slug'')
            else (case bot_yaml_path u slug of
                Inl _ \<Rightarrow> Some (Bot_Http 500 ''Internal Server Error'')
              | Inr _ \<Rightarrow> if map_of (files_of u w1) slug \<noteq> None then Some (Bot_Http 409 ''already exists'') else None)), w1))"

definition import_finish :: "int \<Rightarrow> string \<Rightarrow> upload \<Rightarrow> bot_portal \<Rightarrow> bot_reply \<times> bot_portal" where
  "import_finish u asked up w =
     (case read_body_with_cap max_config_body_bytes up of
        Inl e \<Rightarrow> (e, w)
      | Inr _ \<Rightarrow>
          if \<not> up_utf8 up then (Bot_Http 400 ''Body must be UTF-8 YAML'', w)
          else (case up_doc up of
              Yaml_Broken \<Rightarrow> (Bot_Http 400 ''Invalid YAML'', w)
            | Yaml_No_Object \<Rightarrow> (Bot_Http 400 ''YAML must be a top-level object'', w)
            | Yaml_Bot b \<Rightarrow>
                (case validate_bot_payload b of
                   Inl _ \<Rightarrow> (Bot_Http 400 ''Schema validation failed'', w)
                 | Inr _ \<Rightarrow>
                     let slug = py_strip asked in
                     (Bot_Ok slug, bot_log ''bot_import'' slug u (forget_index (write_config u slug (renamed slug b) w))))))"

definition import_bot :: "bot_env \<Rightarrow> int \<Rightarrow> string \<Rightarrow> upload \<Rightarrow> bot_portal \<Rightarrow> bot_reply \<times> bot_portal" where
  "import_bot E u asked up w =
     (case import_check E u asked w of (Some e, w1) \<Rightarrow> (e, w1) | (None, w1) \<Rightarrow> import_finish u asked up w1)"

section \<open>Changing and removing\<close>

text \<open>A change looks whether the bot exists before it waits for the body, and writes after it without looking again.\<close>

definition update_check :: "int \<Rightarrow> string \<Rightarrow> bot_portal \<Rightarrow> bot_reply option" where
  "update_check u slug w =
     (if \<not> bot_slug_match slug then Some (Bot_Http 400 ''slug'')
      else (case bot_yaml_path u slug of
          Inl _ \<Rightarrow> Some (Bot_Http 500 ''Internal Server Error'')
        | Inr _ \<Rightarrow> if map_of (files_of u w) slug = None then Some (Bot_Http 404 ''Bot not found'') else None))"

definition update_finish :: "int \<Rightarrow> string \<Rightarrow> upload \<Rightarrow> bot_portal \<Rightarrow> bot_reply \<times> bot_portal" where
  "update_finish u slug up w =
     (case config_body up of
        Inl e \<Rightarrow> (e, w)
      | Inr b \<Rightarrow>
          (case validate_bot_payload b of
             Inl _ \<Rightarrow> (Bot_Http 400 ''Invalid config'', w)
           | Inr _ \<Rightarrow> (Bot_Ok slug, bot_log ''bot_update'' slug u (write_config u slug b w))))"

text \<open>The request when no other one runs while it waits, as for the compositions above.\<close>

definition update_bot_config :: "int \<Rightarrow> string \<Rightarrow> upload \<Rightarrow> bot_portal \<Rightarrow> bot_reply \<times> bot_portal" where
  "update_bot_config u slug up w =
     (case update_check u slug w of Some e \<Rightarrow> (e, w) | None \<Rightarrow> update_finish u slug up w)"

definition delete_bot :: "bot_env \<Rightarrow> int \<Rightarrow> string \<Rightarrow> bot_portal \<Rightarrow> bot_reply \<times> bot_portal" where
  "delete_bot E u slug w0 =
     (let w = index_now E w0 in
      if get_bot u slug (bp_index w) = None then (Bot_Http 404 ''Bot not found'', w)
      else if ho_running (bp_host w (u, slug)) then (Bot_Http 409 ''Bot is running'', w)
      else (case bot_yaml_path u slug of
          Inl _ \<Rightarrow> (Bot_Http 500 ''Internal Server Error'', w)
        | Inr _ \<Rightarrow>
            if map_of (files_of u w) slug = None then (Bot_Http 404 ''YAML not found'', w)
            else (case purge_bot (be_db_ok E) (be_stuck E) u slug (bp_tree w, bp_tables w) of
                (Inl _, files, tables) \<Rightarrow> (Bot_Http 500 ''Internal Server Error'', w\<lparr>bp_tree := files, bp_tables := tables\<rparr>)
              | (Inr summary, files, tables) \<Rightarrow>
                  (Bot_Purged slug summary,
                   bot_log ''bot_delete'' slug u (forget_index
                     (put_files u (AList.delete slug (files_of u w)) (w\<lparr>bp_tree := files, bp_tables := tables\<rparr>)))))))"

section \<open>Driving the process\<close>

definition on_host :: "int \<Rightarrow> string \<Rightarrow> (host \<Rightarrow> answer \<times> host) \<Rightarrow> bot_portal \<Rightarrow> bot_reply \<times> bot_portal" where
  "on_host u slug f w =
     (case f (bp_host w (u, slug)) of (a, h) \<Rightarrow> (Bot_Answer a, w\<lparr>bp_host := (bp_host w)((u, slug) := h)\<rparr>))"

definition api_start :: "int \<Rightarrow> string \<Rightarrow> start_env \<Rightarrow> bot_portal \<Rightarrow> bot_reply \<times> bot_portal" where
  "api_start u slug x w = on_host u slug (start_bot x) (bot_log ''bot_start'' slug u w)"

definition api_start_dry_run :: "int \<Rightarrow> string \<Rightarrow> (host \<Rightarrow> answer \<times> host) \<Rightarrow> bot_portal \<Rightarrow> bot_reply \<times> bot_portal" where
  "api_start_dry_run u slug start_dry_run w =
     (if \<not> bot_slug_match slug then (Bot_Http 400 ''Invalid slug'', w)
      else on_host u slug start_dry_run (bot_log ''bot_start_dry_run'' slug u w))"

definition api_stop :: "int \<Rightarrow> string \<Rightarrow> bool \<Rightarrow> stop_course \<Rightarrow> bot_portal \<Rightarrow> bot_reply \<times> bot_portal" where
  "api_stop u slug known course w = on_host u slug (stop_bot known course) (bot_log ''bot_stop'' slug u w)"

definition api_restart :: "int \<Rightarrow> string \<Rightarrow> bool \<Rightarrow> stop_course \<Rightarrow> bool \<Rightarrow> (host \<Rightarrow> answer \<times> host) \<Rightarrow> start_env \<Rightarrow> bot_portal
    \<Rightarrow> bot_reply \<times> bot_portal" where
  "api_restart u slug known course is_live start_dry_run x w =
     on_host u slug (restart_bot known course is_live start_dry_run x) (bot_log ''bot_restart'' slug u w)"

definition api_deal_start :: "bot_env \<Rightarrow> int \<Rightarrow> string \<Rightarrow> bool \<Rightarrow> bot_portal \<Rightarrow> bot_reply \<times> bot_portal" where
  "api_deal_start E u slug writable w0 =
     (let w = index_now E w0 in
      if get_bot u slug (bp_index w) = None then (Bot_Http 404 ''Unknown bot'', w)
      else (case bot_manual_trigger_path u slug of
          Inl _ \<Rightarrow> (Bot_Http 500 ''Internal Server Error'', w)
        | Inr p \<Rightarrow>
            if \<not> writable then (Bot_Http 500 ''Failed to write manual-deal trigger'', w)
            else (Bot_Triggered, bot_log ''bot_manual_deal'' slug u (w\<lparr>bp_tree := List.insert p (bp_tree w)\<rparr>))))"

section \<open>Warnings\<close>

datatype warn_level = Warn_High | Warn_Medium

record ladder_summary =
  ls_worst :: real
  ls_worst_multiple :: real
  ls_cumulative :: real
  ls_cumulative_multiple :: real
  ls_max_orders :: nat

definition ladder_of :: "bot_config \<Rightarrow> ladder_summary" where
  "ladder_of cfg =
     (let d = dca_cfg cfg; bos = base_order_size d; n = nat (max (max_orders d) 1); m = dca_multiplier d;
          worst = bos * m ^ (n - 1); cumulative = sum_list (map (\<lambda>i. bos * m ^ i) [0..<n]) in
      \<lparr>ls_worst = worst, ls_worst_multiple = (if 0 < bos then worst / bos else 0),
       ls_cumulative = cumulative, ls_cumulative_multiple = (if 0 < bos then cumulative / bos else 0), ls_max_orders = n\<rparr>)"

definition config_warnings :: "bot_config \<Rightarrow> (warn_level \<times> string) list \<times> ladder_summary" where
  "config_warnings cfg =
     (let s = ladder_of cfg; live = (cfg_mode cfg = LIVE) in
      ((if 50 < ls_worst_multiple s then [(Warn_High, ''dca'')]
        else if 20 < ls_worst_multiple s then [(Warn_Medium, ''dca'')] else [])
       @ (if 150 < ls_cumulative_multiple s then [(Warn_High, ''dca'')]
          else if 100 < ls_cumulative_multiple s then [(Warn_Medium, ''dca'')] else [])
       @ (if live \<and> 1 / 1000 < base_order_size (dca_cfg cfg) then [(Warn_High, ''dca.base_order_size'')] else [])
       @ (if 2 \<le> dca_multiplier (dca_cfg cfg) \<and> 8 \<le> ls_max_orders s then [(Warn_High, ''dca'')] else [])
       @ (if live \<and> \<not> dd_enabled (drawdown_cfg cfg) then [(Warn_Medium, ''drawdown_guard'')] else []), s))"

definition validate_config :: "upload \<Rightarrow> bot_reply + (warn_level \<times> string) list \<times> ladder_summary" where
  "validate_config up =
     (case config_body up of
        Inl e \<Rightarrow> Inl e
      | Inr b \<Rightarrow>
          (case validate_bot_payload b of
             Inl _ \<Rightarrow> Inl (Bot_Http 400 ''Invalid config'')
           | Inr cfg \<Rightarrow> Inr (config_warnings cfg)))"

end
