(* ===== verification/Bot_Route_Properties.thy ===== *)
theory Bot_Route_Properties
  imports Bot_Routes Deal_Route_Properties Engine_Witnesses
begin

text \<open>
  What the bot routes promise. The configuration files are a map from tenant and slug to a document; every step a request takes
  between two waits is one update of it or none, and a request nobody interrupts keeps the stricter contract of a store. What
  requests that wait at the same time do to each other, and which bots look at the deal requests the portal files under their
  slug, is stated after that.
\<close>

section \<open>The store behind the routes\<close>

definition bots_of :: "bot_portal \<Rightarrow> int \<times> string \<Rightarrow> yaml_doc option" where
  "bots_of w = (\<lambda>(u, slug). map_of (files_of u w) slug)"

lemma bots_of_apply: "bots_of w (u, slug) = map_of (files_of u w) slug"
  by (simp add: bots_of_def)

lemma files_of_simps [simp]:
  "files_of u (put_files u fs w) = fs" "u \<noteq> v \<Longrightarrow> files_of v (put_files u fs w) = files_of v w"
  "files_of v (bot_log a slug u w) = files_of v w" "files_of v (forget_index w) = files_of v w"
  "files_of v (index_now E w) = files_of v w" "files_of v (w\<lparr>bp_tree := t\<rparr>) = files_of v w"
  "files_of v (w\<lparr>bp_tables := tb\<rparr>) = files_of v w" "files_of v (w\<lparr>bp_host := h\<rparr>) = files_of v w"
  by (simp_all add: files_of_def put_files_def bot_log_def forget_index_def index_now_def update_conv')

lemma bots_of_simps [simp]:
  "bots_of (bot_log a slug u w) = bots_of w" "bots_of (forget_index w) = bots_of w" "bots_of (index_now E w) = bots_of w"
  "bots_of (write_config u slug b w) = (bots_of w)((u, slug) \<mapsto> Yaml_Bot b)"
  "bots_of (put_files u (AList.delete slug (files_of u w)) x) = (if bots_of x = bots_of w then (bots_of w)((u, slug) := None)
     else bots_of (put_files u (AList.delete slug (files_of u w)) x))"
  "bots_of (w\<lparr>bp_tree := t\<rparr>) = bots_of w" "bots_of (w\<lparr>bp_tables := tb\<rparr>) = bots_of w"
proof -
  show "bots_of (write_config u slug b w) = (bots_of w)((u, slug) \<mapsto> Yaml_Bot b)"
  proof
    fix k :: "int \<times> string"
    obtain v s where k: "k = (v, s)" by (cases k)
    show "bots_of (write_config u slug b w) k = ((bots_of w)((u, slug) \<mapsto> Yaml_Bot b)) k"
      by (cases "v = u") (auto simp: k bots_of_def write_config_def update_conv')
  qed
  have "bots_of (put_files u (AList.delete slug (files_of u w)) x) = (bots_of w)((u, slug) := None)" if "bots_of x = bots_of w"
  proof
    fix k :: "int \<times> string"
    obtain v s where k: "k = (v, s)" by (cases k)
    have "map_of (files_of v x) s = map_of (files_of v w) s" using fun_cong [OF that, of "(v, s)"] by (simp add: bots_of_def)
    then show "bots_of (put_files u (AList.delete slug (files_of u w)) x) k = ((bots_of w)((u, slug) := None)) k"
      by (cases "v = u") (auto simp: k bots_of_def delete_conv')
  qed
  then show "bots_of (put_files u (AList.delete slug (files_of u w)) x) = (if bots_of x = bots_of w then (bots_of w)((u, slug) := None)
     else bots_of (put_files u (AList.delete slug (files_of u w)) x))" by simp
qed (simp_all add: bots_of_def)

datatype bot_call =
    Call_Create upload | Call_Update string upload | Call_Duplicate string string upload | Call_Import string upload | Call_Delete string

fun bot_call_step :: "bot_env \<Rightarrow> int \<Rightarrow> bot_call \<Rightarrow> bot_portal \<Rightarrow> bot_reply \<times> bot_portal" where
  "bot_call_step E u (Call_Create up) w = create_bot E u up w"
| "bot_call_step E u (Call_Update slug up) w = update_bot_config u slug up w"
| "bot_call_step E u (Call_Duplicate slug asked up) w = duplicate_bot E u slug asked up w"
| "bot_call_step E u (Call_Import asked up) w = import_bot E u asked up w"
| "bot_call_step E u (Call_Delete slug) w = delete_bot E u slug w"

text \<open>The abstract store, for a request that no other one interrupts: an accepted change fills a free place or replaces its own, a removal empties one that was filled, and
  everything else leaves the map as it is.\<close>

definition store_step :: "int \<Rightarrow> bot_call \<Rightarrow> bot_reply \<Rightarrow> (int \<times> string \<Rightarrow> yaml_doc option) \<Rightarrow> (int \<times> string \<Rightarrow> yaml_doc option) \<Rightarrow> bool" where
  "store_step u call r m m' =
     (case r of
        Bot_Ok slug \<Rightarrow> (\<exists>b. m' = m((u, slug) \<mapsto> Yaml_Bot b)
          \<and> (case call of Call_Update s up \<Rightarrow> s = slug \<and> m (u, slug) \<noteq> None \<and> (\<exists>cfg. validate_bot_payload b = Inr cfg)
             | Call_Create up \<Rightarrow> m (u, slug) = None \<and> (\<exists>cfg. validate_bot_payload b = Inr cfg \<and> slugify (cfg_name cfg) = Inr slug)
             | Call_Delete s \<Rightarrow> False
             | _ \<Rightarrow> m (u, slug) = None))
      | Bot_Purged slug _ \<Rightarrow> call = Call_Delete slug \<and> m (u, slug) \<noteq> None \<and> m' = m((u, slug) := None)
      | _ \<Rightarrow> m' = m)"

lemma quota_same:
  assumes "enforce_bot_quota E u w = (r, w1)"
  shows "bots_of w1 = bots_of w" "files_of v w1 = files_of v w" "r = None \<or> r = Some (Bot_Http 429 ''Bot limit reached'')"
  using assms by (auto simp: enforce_bot_quota_def Let_def)

lemma body_errors:
  "read_body_with_cap cap up = Inl e \<Longrightarrow> \<exists>n t. e = Bot_Http n t" "parse_json_object_body up = Inl e \<Longrightarrow> \<exists>n t. e = Bot_Http n t"
  "config_body up = Inl e \<Longrightarrow> \<exists>n t. e = Bot_Http n t"
proof -
  show a: "read_body_with_cap cap up = Inl e \<Longrightarrow> \<exists>n t. e = Bot_Http n t" for cap
    by (auto simp: read_body_with_cap_def split: option.splits if_splits)
  show b: "parse_json_object_body up = Inl e \<Longrightarrow> \<exists>n t. e = Bot_Http n t"
    by (auto simp: parse_json_object_body_def split: yaml_doc.splits if_splits)
  show "config_body up = Inl e \<Longrightarrow> \<exists>n t. e = Bot_Http n t"
    using a b by (auto simp: config_body_def split: sum.splits)
qed

lemma create_finish_store: "store_step u (Call_Create up) (fst (create_finish u up w)) (bots_of w) (bots_of (snd (create_finish u up w)))"
  by (auto simp: create_finish_def store_step_def bots_of_apply split: sum.split dest!: body_errors(3))

lemma duplicate_finish_store:
  "store_step u (Call_Duplicate slug asked up) (fst (duplicate_finish u slug asked up w)) (bots_of w) (bots_of (snd (duplicate_finish u slug asked up w)))"
  by (auto simp: duplicate_finish_def store_step_def Let_def bots_of_apply split: sum.split option.split yaml_doc.split dest!: body_errors(3))

lemma import_finish_store:
  "bots_of w (u, py_strip asked) = None \<Longrightarrow>
    store_step u (Call_Import asked up) (fst (import_finish u asked up w)) (bots_of w) (bots_of (snd (import_finish u asked up w)))"
  by (auto simp: import_finish_def store_step_def Let_def split: sum.split yaml_doc.split dest!: body_errors(1))

lemma update_store: "store_step u (Call_Update slug up) (fst (update_bot_config u slug up w)) (bots_of w) (bots_of (snd (update_bot_config u slug up w)))"
proof (cases "update_check u slug w")
  case None
  then have "bots_of w (u, slug) \<noteq> None"
    by (auto simp: update_check_def bots_of_apply split: if_splits sum.splits)
  then show ?thesis
    by (auto simp: update_bot_config_def None update_finish_def store_step_def split: sum.split dest!: body_errors(3))
next
  case (Some e)
  then have "\<exists>n t. e = Bot_Http n t" by (auto simp: update_check_def split: if_splits sum.splits)
  then show ?thesis by (auto simp: update_bot_config_def Some store_step_def)
qed

lemma delete_store: "store_step u (Call_Delete slug) (fst (delete_bot E u slug w)) (bots_of w) (bots_of (snd (delete_bot E u slug w)))"
  by (auto simp: delete_bot_def store_step_def Let_def bots_of_apply split: sum.split prod.split)

lemma call_store: "store_step u call (fst (bot_call_step E u call w)) (bots_of w) (bots_of (snd (bot_call_step E u call w)))"
proof (cases call)
  case (Call_Create up)
  obtain r w1 where q: "enforce_bot_quota E u w = (r, w1)" by fastforce
  show ?thesis using create_finish_store [of u up w1] quota_same [OF q] by (auto simp: Call_Create create_bot_def q store_step_def split: option.split)
next
  case (Call_Duplicate slug asked up)
  obtain r w1 where q: "enforce_bot_quota E u w = (r, w1)" by fastforce
  show ?thesis using duplicate_finish_store [of u slug asked up w1] quota_same [OF q]
    by (auto simp: Call_Duplicate duplicate_bot_def q store_step_def split: option.split)
next
  case (Call_Import asked up)
  obtain r w1 where q: "enforce_bot_quota E u w = (r, w1)" by fastforce
  obtain r2 w2 where c: "import_check E u asked w = (r2, w2)" by fastforce
  have b: "bots_of w2 = bots_of w" "r2 = None \<Longrightarrow> bots_of w2 (u, py_strip asked) = None" "r2 = Some e \<Longrightarrow> \<exists>n t. e = Bot_Http n t" for e
    using c quota_same [OF q] by (auto simp: import_check_def q Let_def bots_of_def split: option.splits if_splits sum.splits)
  show ?thesis
  proof (cases r2)
    case None
    then show ?thesis using import_finish_store [OF b(2), of up] b(1) by (simp add: Call_Import import_bot_def c)
  next
    case (Some e)
    then show ?thesis using b(1) b(3) [OF Some] by (auto simp: Call_Import import_bot_def c store_step_def)
  qed
qed (simp_all add: update_store delete_store)

text \<open>What the handlers do between two waits; any interleaving of requests is a sequence of these.\<close>

datatype segment =
    Seg_Quota | Seg_Create upload | Seg_Duplicate string string upload | Seg_Import_Check string | Seg_Import string upload
  | Seg_Update_Check string | Seg_Update string upload | Seg_Delete string

fun segment_step :: "bot_env \<Rightarrow> int \<Rightarrow> segment \<Rightarrow> bot_portal \<Rightarrow> bot_reply option \<times> bot_portal" where
  "segment_step E u Seg_Quota w = enforce_bot_quota E u w"
| "segment_step E u (Seg_Create up) w = map_prod Some id (create_finish u up w)"
| "segment_step E u (Seg_Duplicate slug asked up) w = map_prod Some id (duplicate_finish u slug asked up w)"
| "segment_step E u (Seg_Import_Check asked) w = import_check E u asked w"
| "segment_step E u (Seg_Import asked up) w = map_prod Some id (import_finish u asked up w)"
| "segment_step E u (Seg_Update_Check slug) w = (update_check u slug w, w)"
| "segment_step E u (Seg_Update slug up) w = map_prod Some id (update_finish u slug up w)"
| "segment_step E u (Seg_Delete slug) w = map_prod Some id (delete_bot E u slug w)"

text \<open>What the store sees of a segment, whoever ran before it: the checks and the refusals nothing; a creation and a copy fill a place
  that is free now; an import and a change set their place to a document that passed the schema (the import under its new
  name), free or not; a removal empties a place that is filled now.\<close>

definition segment_store :: "int \<Rightarrow> segment \<Rightarrow> bot_reply option \<Rightarrow> (int \<times> string \<Rightarrow> yaml_doc option) \<Rightarrow> (int \<times> string \<Rightarrow> yaml_doc option) \<Rightarrow> bool" where
  "segment_store u seg r m m' =
     (case r of
        Some (Bot_Ok slug) \<Rightarrow> (\<exists>b. m' = m((u, slug) \<mapsto> Yaml_Bot b)
          \<and> (case seg of
               Seg_Create up \<Rightarrow> m (u, slug) = None \<and> (\<exists>cfg. validate_bot_payload b = Inr cfg \<and> slugify (cfg_name cfg) = Inr slug)
             | Seg_Duplicate s asked up \<Rightarrow> slug = py_strip asked \<and> m (u, slug) = None
             | Seg_Import asked up \<Rightarrow> slug = py_strip asked
                 \<and> (\<exists>b0 cfg. up_doc up = Yaml_Bot b0 \<and> validate_bot_payload b0 = Inr cfg \<and> b = renamed slug b0)
             | Seg_Update s up \<Rightarrow> slug = s \<and> (\<exists>cfg. validate_bot_payload b = Inr cfg)
             | _ \<Rightarrow> False))
      | Some (Bot_Purged slug _) \<Rightarrow> seg = Seg_Delete slug \<and> m (u, slug) \<noteq> None \<and> m' = m((u, slug) := None)
      | _ \<Rightarrow> m' = m)"

lemma finish_segments:
  "segment_store u (Seg_Create up) (Some (fst (create_finish u up w))) (bots_of w) (bots_of (snd (create_finish u up w)))"
  "segment_store u (Seg_Duplicate slug asked up) (Some (fst (duplicate_finish u slug asked up w))) (bots_of w) (bots_of (snd (duplicate_finish u slug asked up w)))"
  "segment_store u (Seg_Import asked up) (Some (fst (import_finish u asked up w))) (bots_of w) (bots_of (snd (import_finish u asked up w)))"
  "segment_store u (Seg_Update slug up) (Some (fst (update_finish u slug up w))) (bots_of w) (bots_of (snd (update_finish u slug up w)))"
  "segment_store u (Seg_Delete slug) (Some (fst (delete_bot E u slug w))) (bots_of w) (bots_of (snd (delete_bot E u slug w)))"
proof -
  show "segment_store u (Seg_Create up) (Some (fst (create_finish u up w))) (bots_of w) (bots_of (snd (create_finish u up w)))"
    by (auto simp: create_finish_def segment_store_def bots_of_apply split: sum.split dest!: body_errors(3))
  show "segment_store u (Seg_Duplicate slug asked up) (Some (fst (duplicate_finish u slug asked up w))) (bots_of w) (bots_of (snd (duplicate_finish u slug asked up w)))"
    by (auto simp: duplicate_finish_def segment_store_def Let_def bots_of_apply split: sum.split option.split yaml_doc.split dest!: body_errors(3))
  show "segment_store u (Seg_Import asked up) (Some (fst (import_finish u asked up w))) (bots_of w) (bots_of (snd (import_finish u asked up w)))"
    by (auto simp: import_finish_def segment_store_def Let_def split: sum.split yaml_doc.split dest!: body_errors(1))
  show "segment_store u (Seg_Update slug up) (Some (fst (update_finish u slug up w))) (bots_of w) (bots_of (snd (update_finish u slug up w)))"
    by (auto simp: update_finish_def segment_store_def split: sum.split dest!: body_errors(3))
  show "segment_store u (Seg_Delete slug) (Some (fst (delete_bot E u slug w))) (bots_of w) (bots_of (snd (delete_bot E u slug w)))"
    by (auto simp: delete_bot_def segment_store_def Let_def bots_of_apply split: sum.split prod.split)
qed

lemma check_segments:
  "segment_store u seg (fst (enforce_bot_quota E u w)) (bots_of w) (bots_of (snd (enforce_bot_quota E u w)))"
  "segment_store u seg (fst (import_check E u asked w)) (bots_of w) (bots_of (snd (import_check E u asked w)))"
  "segment_store u seg (update_check u slug w) m m"
  by (auto simp: segment_store_def enforce_bot_quota_def import_check_def update_check_def Let_def split: sum.split option.split)


section \<open>Requests that wait together\<close>

text \<open>two creations of one bot cannot both succeed, whatever was checked before: the second is refused as existing.\<close>

theorem create_never_overwrites:
  assumes "create_finish u up w = (Bot_Ok slug, w1)" "create_finish u up' w1 = (Bot_Ok slug', w2)"
  shows "slug' \<noteq> slug \<and> bots_of w2 (u, slug) = bots_of w1 (u, slug) \<and> bots_of w1 (u, slug) \<noteq> None"
proof -
  have "bots_of w1 (u, slug) \<noteq> None" "\<exists>b. bots_of w2 = (bots_of w1)((u, slug') \<mapsto> Yaml_Bot b) \<and> bots_of w1 (u, slug') = None"
    using create_finish_store [of u up w] create_finish_store [of u up' w1] assms by (auto simp: store_step_def)
  then show ?thesis by auto
qed

text \<open>two imports under one slug that have both looked before either writes both succeed, and the second replaces the bot the first
  has just been told is his.\<close>

theorem waiting_imports_overwrite:
  assumes "import_check E u asked w = (None, w1)" "import_check E u asked w1 = (None, w2)"
    "up_utf8 up1" "up_utf8 up2" "up_doc up1 = Yaml_Bot b1" "up_doc up2 = Yaml_Bot b2"
    "read_body_with_cap max_config_body_bytes up1 = Inr n1" "read_body_with_cap max_config_body_bytes up2 = Inr n2"
    "validate_bot_payload b1 = Inr c1" "validate_bot_payload b2 = Inr c2"
    "import_finish u asked up1 w2 = (r1, w3)" "import_finish u asked up2 w3 = (r2, w4)"
  shows "r1 = Bot_Ok (py_strip asked) \<and> r2 = Bot_Ok (py_strip asked)
    \<and> bots_of w3 (u, py_strip asked) = Some (Yaml_Bot (renamed (py_strip asked) b1))
    \<and> bots_of w4 (u, py_strip asked) = Some (Yaml_Bot (renamed (py_strip asked) b2))"
  using assms(3-) by (auto simp: import_finish_def Let_def)

text \<open>A change that waits for its body while the bot is removed makes the bot again, its state gone.\<close>

theorem waiting_change_recreates_a_bot:
  assumes "update_check u slug w = None" "delete_bot E u slug w = (Bot_Purged slug summary, w1)" "update_finish u slug up w1 = (Bot_Ok slug, w2)"
  shows "bots_of w (u, slug) \<noteq> None \<and> bots_of w1 (u, slug) = None \<and> bots_of w2 (u, slug) \<noteq> None"
  using finish_segments(5) [of u slug E w] finish_segments(4) [of u slug up w1] assms by (auto simp: segment_store_def)

section \<open>The size of a body\<close>

lemma stream_body_sum: "stream_body cap acc cs = Some n \<Longrightarrow> n = acc + sum_list cs \<and> (acc \<le> cap \<longrightarrow> n \<le> cap)"
  by (induction cap acc cs arbitrary: n rule: stream_body.induct) (auto split: if_splits)

text \<open>no body above the cap is parsed: a stream is cut at the cap whatever the client sends, and a body with a length header is
  within it as long as no more arrives than the header says.\<close>

theorem parsed_bodies_are_capped:
  assumes "read_body_with_cap cap up = Inr n"
    "\<forall>h cl. up_length up = Some h \<and> py_int_text h = Some cl \<longrightarrow> int (sum_list (up_chunks up)) \<le> max 0 cl"
  shows "n = sum_list (up_chunks up) \<and> n \<le> cap"
  using assms stream_body_sum [of cap 0 "up_chunks up"]
  by (auto simp: read_body_with_cap_def split: option.splits if_splits)

section \<open>The name deal requests are looked for\<close>

lemma lower_is_to_lower: "lower_char = to_lower"
  by (rule ext) (simp add: lower_char_def to_lower_def)

lemma to_lower_upper: "to_lower (to_upper c) = to_lower c"
  by (auto simp: to_lower_def to_upper_def Let_def)

definition blanked :: "char \<Rightarrow> char" where
  "blanked c = (if c = CHR ''_'' \<or> c = CHR ''-'' then CHR '' '' else c)"

lemma titled_char:
  assumes "safe_leaf_char c" "x = to_lower (blanked c) \<or> x = to_upper (blanked c)"
  shows "py_space x \<longleftrightarrow> c = CHR ''_'' \<or> c = CHR ''-''" "32 \<le> (of_char x :: nat)"
proof -
  define n where "n = (of_char c :: nat)"
  have eqs: "c = CHR ''_'' \<longleftrightarrow> n = 95" "c = CHR ''-'' \<longleftrightarrow> n = 45"
    using of_char_eq_iff [of c "CHR ''_''", where 'a = nat] of_char_eq_iff [of c "CHR ''-''", where 'a = nat] by (simp_all add: n_def)
  have r: "65 \<le> n \<and> n \<le> 90 \<or> 97 \<le> n \<and> n \<le> 122 \<or> 48 \<le> n \<and> n \<le> 57 \<or> n = 95 \<or> n = 45"
    using assms(1) eqs by (auto simp: safe_leaf_char_def is_digit_def Let_def n_def)
  have x: "of_char x = (if n = 95 \<or> n = 45 then 32 else if 65 \<le> n \<and> n \<le> 90 then (of_char x :: nat) else of_char x)
      \<and> (n \<noteq> 95 \<and> n \<noteq> 45 \<longrightarrow> (of_char x :: nat) \<in> {48..57} \<union> {65..90} \<union> {97..122})"
    using assms(2) r by (auto simp: blanked_def eqs to_lower_def to_upper_def Let_def n_def [symmetric] split: if_splits)
  show "py_space x \<longleftrightarrow> c = CHR ''_'' \<or> c = CHR ''-''" "32 \<le> (of_char x :: nat)"
    using x by (auto simp: py_space_def eqs Let_def)
qed

lemma title_from_nth:
  "length (title_from a s) = length s"
  "i < length s \<Longrightarrow> title_from a s ! i = to_lower (s ! i) \<or> title_from a s ! i = to_upper (s ! i)"
  "map to_lower (title_from a s) = map to_lower s"
proof (induction s arbitrary: a i)
  case (Cons c s)
  {
    case 2
    then show ?case using Cons by (cases i) auto
  next
    case 3
    then show ?case using Cons by (simp add: to_lower_upper) (simp add: to_lower_def Let_def)
  }
qed simp_all

lemma lower_char_simps [simp]: "to_lower (CHR ''_'') = CHR ''_''" "to_lower (CHR '' '') = CHR '' ''"
  by (simp_all add: to_lower_def)

lemma slug_from_title:
  assumes "safe_leaf slug"
  shows "map (\<lambda>c. if c = CHR '' '' then CHR ''_'' else c) (map to_lower (title_of_slug slug))
    = map (\<lambda>c. if c = CHR ''-'' then CHR ''_'' else to_lower c) slug"
proof -
  have b: "title_of_slug slug = title_from False (map blanked slug)" by (simp add: title_of_slug_def blanked_def cong: map_cong)
  have "(if to_lower (blanked c) = CHR '' '' then CHR ''_'' else to_lower (blanked c)) = (if c = CHR ''-'' then CHR ''_'' else to_lower c)"
    if "c \<in> set slug" for c
  proof -
    have "safe_leaf_char c" using assms that by (simp add: safe_leaf_def list_all_iff)
    from titled_char(1) [OF this, of "to_lower (blanked c)"]
    show ?thesis by (auto simp: blanked_def py_space_def)
  qed
  then have "map (\<lambda>c. if to_lower (blanked c) = CHR '' '' then CHR ''_'' else to_lower (blanked c)) slug
      = map (\<lambda>c. if c = CHR ''-'' then CHR ''_'' else to_lower c) slug"
    by (rule map_cong [OF refl])
  then show ?thesis by (simp only: b title_from_nth(3) map_map o_def)
qed

lemma title_ends:
  assumes "safe_leaf slug"
  shows "length (title_of_slug slug) = length slug" "strip_control (title_of_slug slug) = title_of_slug slug"
    "py_space (hd (title_of_slug slug)) \<longleftrightarrow> hd slug \<in> {CHR ''_'', CHR ''-''}"
    "py_space (last (title_of_slug slug)) \<longleftrightarrow> last slug \<in> {CHR ''_'', CHR ''-''}"
proof -
  have b: "title_of_slug slug = title_from False (map blanked slug)" by (simp add: title_of_slug_def blanked_def cong: map_cong)
  have ne: "slug \<noteq> []" using assms by (simp add: safe_leaf_def)
  show l: "length (title_of_slug slug) = length slug" by (simp add: b title_from_nth(1))
  have at: "title_of_slug slug ! i = to_lower (blanked (slug ! i)) \<or> title_of_slug slug ! i = to_upper (blanked (slug ! i))"
    "safe_leaf_char (slug ! i)" if "i < length slug" for i
    using title_from_nth(2) [of i "map blanked slug" False] assms that by (simp_all add: b safe_leaf_def list_all_length)
  note c = titled_char [OF at(2) at(1)]
  have "32 \<le> (of_char x :: nat)" if x: "x \<in> set (title_of_slug slug)" for x
    using x c(2) l unfolding in_set_conv_nth by metis
  then show "strip_control (title_of_slug slug) = title_of_slug slug" by (simp add: strip_control_def filter_id_conv)
  have ne': "title_of_slug slug \<noteq> []" using l ne by (metis length_0_conv)
  show "py_space (hd (title_of_slug slug)) \<longleftrightarrow> hd slug \<in> {CHR ''_'', CHR ''-''}"
    using c(1) [of 0] ne ne' by (simp add: hd_conv_nth)
  show "py_space (last (title_of_slug slug)) \<longleftrightarrow> last slug \<in> {CHR ''_'', CHR ''-''}"
    using c(1) [of "length slug - 1"] ne ne' l by (simp add: last_conv_nth)
qed

lemma py_strip_length: "length (py_strip s) = length s \<Longrightarrow> py_strip s = s"
proof -
  assume l: "length (py_strip s) = length s"
  have le: "length (dropWhile p xs) \<le> length xs" for p and xs :: string by (rule length_dropWhile_le)
  have a: "dropWhile p xs = xs" if "length (dropWhile p xs) = length xs" for p and xs :: string
  proof (cases xs)
    case (Cons x ys)
    then show ?thesis using that le [of p ys] by (cases "p x") auto
  qed simp
  have "length (dropWhile py_space s) = length s"
    using l le [of py_space "rev (dropWhile py_space s)"] le [of py_space s] by (simp add: py_strip_def)
  then have "dropWhile py_space s = s" by (rule a)
  then show "py_strip s = s" using l a [of py_space "rev s"] by (simp add: py_strip_def)
qed

lemma engine_slug_of_copy:
  assumes "safe_leaf slug" "validate_bot_payload (renamed slug (Block (Some n) c)) = Inr cfg"
  shows "engine_slug cfg = slug \<longleftrightarrow>
    CHR ''-'' \<notin> set slug \<and> map to_lower slug = slug \<and> hd slug \<noteq> CHR ''_'' \<and> last slug \<noteq> CHR ''_''"
proof -
  let ?t = "title_of_slug slug"
  note t = title_ends [OF assms(1)]
  have ne: "slug \<noteq> []" using assms(1) by (simp add: safe_leaf_def)
  have cfg: "cfg_name cfg = py_strip ?t"
    using assms(2) t(2) by (auto simp: renamed_def validate_bot_payload_def res_bind_eq_Inr_iff validate_name_def Let_def split: if_splits)
  have es: "engine_slug cfg = slug \<longleftrightarrow> py_strip ?t = ?t \<and> map (\<lambda>c. if c = CHR ''-'' then CHR ''_'' else to_lower c) slug = slug"
  proof
    assume e: "engine_slug cfg = slug"
    then have "length (py_strip ?t) = length ?t" using t(1) by (simp add: engine_slug_def cfg) (metis length_map)
    then have "py_strip ?t = ?t" by (rule py_strip_length)
    then show "py_strip ?t = ?t \<and> map (\<lambda>c. if c = CHR ''-'' then CHR ''_'' else to_lower c) slug = slug"
      using e slug_from_title [OF assms(1)] by (simp add: engine_slug_def cfg lower_is_to_lower)
  next
    assume "py_strip ?t = ?t \<and> map (\<lambda>c. if c = CHR ''-'' then CHR ''_'' else to_lower c) slug = slug"
    then show "engine_slug cfg = slug" using slug_from_title [OF assms(1)] by (simp add: engine_slug_def cfg lower_is_to_lower)
  qed
  have ends: "py_strip ?t = ?t \<longleftrightarrow> hd slug \<notin> {CHR ''_'', CHR ''-''} \<and> last slug \<notin> {CHR ''_'', CHR ''-''}"
  proof
    assume s: "py_strip ?t = ?t"
    have "?t \<noteq> []" using t(1) ne by (metis length_0_conv)
    then show "hd slug \<notin> {CHR ''_'', CHR ''-''} \<and> last slug \<notin> {CHR ''_'', CHR ''-''}"
      using py_strip_ends [of ?t] s t(3,4) by simp
  qed (use t(3,4) py_strip_fixed [of ?t] in simp)
  have same: "map (\<lambda>c. if c = CHR ''-'' then CHR ''_'' else to_lower c) slug = slug \<longleftrightarrow> CHR ''-'' \<notin> set slug \<and> map to_lower slug = slug"
    unfolding map_idI [symmetric] by (auto simp: list_eq_iff_nth_eq in_set_conv_nth split: if_splits)
  have "hd slug \<in> set slug" "last slug \<in> set slug" using ne by simp_all
  then have "CHR ''-'' \<notin> set slug \<Longrightarrow> hd slug \<noteq> CHR ''-'' \<and> last slug \<noteq> CHR ''-''" by metis
  then show ?thesis unfolding es ends same by blast
qed

lemma safe_leaf_no_dot: "safe_leaf slug \<Longrightarrow> CHR ''.'' \<notin> set slug"
  by (auto simp: safe_leaf_def list_all_iff safe_leaf_char_def is_digit_def Let_def)

lemma pseq_skip: "pseq m pskip e = m e"
  by (cases "m e"; cases "fst (m e)") (auto simp: pseq_def pbind_apply)


text \<open>The same of a creation: a name with a hyphen is accepted and filed under a slug without it, and its deal requests are looked for
  with it.\<close>

theorem hyphenated_bots_do_not_answer:
  "validate_bot_payload (Block (Some ''My-Bot'') (default_bot ''My-Bot'' PAPER 1 (1 / 1000))) = Inr (default_bot ''My-Bot'' PAPER 1 (1 / 1000))
    \<and> slugify ''My-Bot'' = Inr ''mybot'' \<and> engine_slug (default_bot ''My-Bot'' PAPER 1 (1 / 1000)) = ''my-bot''"
  by (intro conjI) code_simp+

text \<open>An import under a slug of underscores passes the schema and stores a configuration that does not.\<close>

theorem import_stores_what_does_not_load:
  "validate_bot_payload (Block (Some ''bot'') (default_bot ''bot'' PAPER 1 (1 / 1000))) \<noteq> Inl ValueError
    \<and> bot_slug_match ''_'' \<and> validate_bot_payload (renamed ''_'' (Block (Some ''bot'') (default_bot ''bot'' PAPER 1 (1 / 1000)))) = Inl ValueError"
  by (intro conjI) code_simp+

section \<open>Warnings\<close>

lemma ladder_closed_form:
  "(dca_multiplier (dca_cfg cfg) - 1) * ls_cumulative (ladder_of cfg)
    = base_order_size (dca_cfg cfg) * (dca_multiplier (dca_cfg cfg) ^ ls_max_orders (ladder_of cfg) - 1)"
proof -
  have "(m - 1) * sum_list (map (\<lambda>i. b * m ^ i) [0..<n]) = b * (m ^ n - 1)" for b m :: real and n
    by (induction n) (simp_all add: algebra_simps)
  then show ?thesis by (simp add: ladder_of_def Let_def)
qed

text \<open>a configuration without a warning is a bounded one: its deepest order is at most twenty and its whole ladder at most a
  hundred base orders, a live bot starts with a thousandth of a bitcoin at most and has its drawdown guard on.\<close>

theorem unwarned_ladders_are_bounded:
  assumes "config_warnings cfg = ([], s)" "0 < base_order_size (dca_cfg cfg)"
  shows "ls_worst s \<le> 20 * base_order_size (dca_cfg cfg) \<and> ls_cumulative s \<le> 100 * base_order_size (dca_cfg cfg)
    \<and> (dca_multiplier (dca_cfg cfg) - 1) * ls_cumulative s
        = base_order_size (dca_cfg cfg) * (dca_multiplier (dca_cfg cfg) ^ ls_max_orders s - 1)
    \<and> (cfg_mode cfg = LIVE \<longrightarrow> base_order_size (dca_cfg cfg) \<le> 1 / 1000 \<and> dd_enabled (drawdown_cfg cfg))"
proof -
  have "snd (config_warnings cfg) = ladder_of cfg" by (simp add: config_warnings_def Let_def)
  then have s: "s = ladder_of cfg" and w: "fst (config_warnings cfg) = []" using assms(1) by simp_all
  have none: "(if a then [x] else []) = [] \<longleftrightarrow> \<not> a" "(if a then [x] else if b then [y] else []) = [] \<longleftrightarrow> \<not> a \<and> \<not> b"
    for a b and x y :: "warn_level \<times> string" by simp_all
  have m: "ls_worst_multiple s \<le> 20" "ls_cumulative_multiple s \<le> 100"
    "cfg_mode cfg = LIVE \<longrightarrow> base_order_size (dca_cfg cfg) \<le> 1 / 1000 \<and> dd_enabled (drawdown_cfg cfg)"
    using w unfolding s by (simp_all add: config_warnings_def Let_def none not_less del: less_divide_eq_1 less_divide_eq)
  then have "ls_worst s / base_order_size (dca_cfg cfg) \<le> 20" "ls_cumulative s / base_order_size (dca_cfg cfg) \<le> 100"
    using assms(2) by (simp_all add: s ladder_of_def Let_def)
  then show ?thesis using m(3) assms(2) ladder_closed_form [of cfg] by (simp add: s pos_divide_le_eq mult.commute)
qed

section \<open>The quota\<close>

lemma refresh_twice: "refresh now us es (refresh now us es r) = refresh now us es r"
  by (simp add: refresh_def refresh_ttl_def)

lemma listing_index [simp]: "listing (index_now E w) = listing w"
  by (simp add: listing_def index_now_def)

lemma check_again: "enforce_bot_quota E u w = (None, w1) \<Longrightarrow> enforce_bot_quota E u w1 = (None, w1)"
  by (auto simp: enforce_bot_quota_def Let_def index_now_def refresh_twice listing_def split: if_splits)

lemma create_finish_files:
  assumes "create_finish u up w = (Bot_Ok slug, w1)"
  shows "length (files_of u w1) = Suc (length (files_of u w))"
proof -
  have "length (AList.update k x xs) = Suc (length xs)" if "map_of xs k = None" for k x and xs :: "(string \<times> yaml_doc) list"
    using that by (induction xs) (auto split: if_splits)
  then show ?thesis using assms by (auto simp: create_finish_def write_config_def dest: body_errors(3) split: sum.splits if_splits)
qed

text \<open>one at a time, creations keep to the quota: where the index is current, the bots of a user are at most as many as the cap
  after a creation.\<close>

theorem quota_holds_one_at_a_time:
  assumes "length (all_bots (Some u) (bp_index (index_now E w))) = length (files_of u w)" "create_bot E u up w = (Bot_Ok slug, w1)"
  shows "int (length (files_of u w1)) \<le> max_bots_per_user (be_quota E)"
proof -
  obtain w2 where q: "enforce_bot_quota E u w = (None, w2)" "create_finish u up w2 = (Bot_Ok slug, w1)"
    using assms(2) quota_same(3) [of E u w] by (cases "enforce_bot_quota E u w"; cases "fst (enforce_bot_quota E u w)") (auto simp: create_bot_def)
  have "int (length (files_of u w)) < max_bots_per_user (be_quota E)"
    using q(1) assms(1) by (auto simp: enforce_bot_quota_def Let_def split: if_splits)
  then show ?thesis using create_finish_files [OF q(2)] quota_same(2) [OF q(1), of u] by simp
qed

text \<open>requests that wait together do not: the check of a second creation sees what the first has seen, both pass it with one place
  left, and both bots are made.\<close>

theorem waiting_creations_pass_the_quota:
  assumes "int (length (files_of u w)) = max_bots_per_user (be_quota E) - 1" "enforce_bot_quota E u w = (None, w1)"
    "create_finish u up1 w1 = (Bot_Ok s1, w2)" "create_finish u up2 w2 = (Bot_Ok s2, w3)"
  shows "enforce_bot_quota E u w1 = (None, w1) \<and> max_bots_per_user (be_quota E) < int (length (files_of u w3))"
  using check_again [OF assms(2)] create_finish_files [OF assms(3)] create_finish_files [OF assms(4)] quota_same(2) [OF assms(2), of u] assms(1)
  by simp

section \<open>Witnesses\<close>

definition one_body :: "bot_config \<Rightarrow> upload" where
  "one_body c = \<lparr>up_length = None, up_chunks = [500], up_utf8 = True, up_doc = Yaml_Bot (Block (Some (cfg_name c)) c)\<rparr>"

definition fresh_portal :: bot_portal where
  "fresh_portal = \<lparr>bp_files = [(1, [])], bp_index = \<lparr>rg_bots = [], rg_last = 0, rg_starting = [], rg_cache = empty_cache\<rparr>, bp_tree = [],
     bp_tables = \<lparr>bt_deals = [], bt_orders = [], bt_annotations = [], bt_backtests = []\<rparr>,
     bp_host = (\<lambda>_. \<lparr>ho_pid_file = None, ho_alive = [], ho_starting = False\<rparr>), bp_log = []\<rparr>"

definition quota_env :: bot_env where
  "quota_env = \<lparr>be_now = 1, be_users = Some [1], be_quota = Some ''1'', be_db_ok = True, be_stuck = (\<lambda>_. False)\<rparr>"

lemma default_bots_pass:
  "validate_bot_payload (Block (Some ''bot'') (default_bot ''bot'' PAPER 1 (1 / 1000))) = Inr (default_bot ''bot'' PAPER 1 (1 / 1000))"
  "validate_bot_payload (Block (Some ''two'') (default_bot ''two'' PAPER 1 (1 / 1000))) = Inr (default_bot ''two'' PAPER 1 (1 / 1000))"
  by code_simp+


theorem waiting_imports_overwrite_witness:
  "\<exists>w3 w4. import_finish 1 ''x'' (one_body (default_bot ''bot'' PAPER 1 (1 / 1000))) fresh_portal = (Bot_Ok ''x'', w3)
    \<and> import_finish 1 ''x'' (one_body (default_bot ''two'' PAPER 1 (1 / 1000))) w3 = (Bot_Ok ''x'', w4)
    \<and> bots_of w4 (1, ''x'') = Some (Yaml_Bot (Block (Some ''X'') (default_bot ''two'' PAPER 1 (1 / 1000))))"
proof -
  let ?b1 = "default_bot ''bot'' PAPER 1 (1 / 1000)" and ?b2 = "default_bot ''two'' PAPER 1 (1 / 1000)"
  have c: "import_check quota_env 1 ''x'' fresh_portal = (None, fresh_portal)"
    by (simp add: import_check_def enforce_bot_quota_def index_now_def refresh_def refresh_ttl_def fresh_portal_def quota_env_def
        all_bots_def Let_def files_of_def bot_yaml_path_def validate_safe_leaf_cases) code_simp
  obtain r1 w3 where f1: "import_finish 1 ''x'' (one_body ?b1) fresh_portal = (r1, w3)" by fastforce
  obtain r2 w4 where f2: "import_finish 1 ''x'' (one_body ?b2) w3 = (r2, w4)" by fastforce
  have v: "validate_bot_payload (Block (Some (cfg_name ?b1)) ?b1) = Inr ?b1" "validate_bot_payload (Block (Some (cfg_name ?b2)) ?b2) = Inr ?b2"
    using default_bots_pass by (simp_all add: default_defs)
  have o: "read_body_with_cap max_config_body_bytes (one_body b) = Inr 500" "up_utf8 (one_body b)"
    "up_doc (one_body b) = Yaml_Bot (Block (Some (cfg_name b)) b)" for b
    by (simp_all add: one_body_def read_body_with_cap_def max_config_body_bytes_def)
  have t: "py_strip ''x'' = ''x''" "title_of_slug ''x'' = ''X''" by code_simp+
  from waiting_imports_overwrite [OF c c o(2) o(2) o(3) o(3) o(1) o(1) v f1 f2] f1 f2
  show ?thesis by (auto simp: renamed_def t default_defs)
qed

end
