(* ===== verification/Spec2Isabelle.thy ===== *)
theory Spec2Isabelle
  imports Inverse_Perp Drawdown_Guard Circuit_Breaker Rate_Budget Liquidation_Guard Schedule_Guard Notify_Queue Live_Witnesses Backtest_Report
    Indicators_Trend Indicators_Levels Indicators_Osc Account_Witnesses Deal_Route_Witnesses Bot_Route_Properties
begin

text \<open>
  A verification development of the Reverto trading bot.

  \<^bold>\<open>The program.\<close> Reverto runs bots that buy and sell bitcoin perpetuals on paper. Each bot is a process
  (\<open>main_paper.py\<close>) around a trading engine (\<open>core/trading_engine.py\<close>): every tick it reads a price, watches its
  open deals (take profit, stop loss, averaging orders), looks for entries with the indicators of
  \<open>strategies/\<close>, and writes its state file; deals go to a ledger in SQLite (\<open>core/deal_store.py\<close>). A live engine
  (\<open>live/\<close>) adds a clock check and order reconciliation around the same tick; a backtest (\<open>backtest/\<close>) walks the
  same rules over recorded candles. A portal (\<open>web/\<close>) starts, stops and watches the bots, and talks to them through
  state files and sentinel files; its users log in with a password and a second factor, and keep their exchange keys in a
  vault of encrypted files (\<open>core/credentials.py\<close>).

  \<^bold>\<open>Conventions.\<close> State is passed explicitly: an operation of a class is a function on a record. An operation
  that can raise is a \<open>prog\<close>, a function from the state to a result \<open>py_error + 'a\<close> and the state, composed
  with \<open>pbind\<close> and \<open>pseq\<close> (\<open>Reverto_Prelude\<close>); what an exception has already done stays done. Python floats are reals
  and \<open>round\<close> is rounding half to even; dicts are association lists in insertion order; the clock, random
  suffixes, prices, candles, files that appear and the reachability of the database are inputs. pandas, ccxt, bcrypt,
  pyotp, itsdangerous, Fernet and the limiter are parameters whose documented behaviour is a named hypothesis
  (\<open>pandas_ok\<close>, \<open>bcrypt_documented\<close>, \<open>genuine\<close>, \<open>fernet_documented\<close>). A thread lock makes a method one atomic step; where
  threads, processes or requests interleave, the interleaving is a step relation (\<open>nstep\<close>, \<open>pstep\<close>, \<open>serves\<close>, \<open>lstep\<close>, \<open>sstep\<close>,
  \<open>xa_step\<close>), and where a crash may cut a sequence of system calls, the calls are a list of which a prefix is run.

  \<^bold>\<open>Trading.\<close>
  \<^item> \<open>Bot_Config\<close>: \<open>config/models.py\<close>, records and their validation. \<open>Paper_State\<close>: \<open>paper/paper_state.py\<close>, orders, deals and
    the book with its invariant \<open>book_wf\<close>. \<open>Inverse_Perp\<close>, \<open>Drawdown_Guard\<close>, \<open>Schedule_Guard\<close>, \<open>Liquidation_Guard\<close>,
    \<open>Circuit_Breaker\<close>, \<open>Rate_Budget\<close>: the modules of the same names in \<open>core/\<close>.
  \<^item> \<open>Deal_Ids\<close>, \<open>Deal_Ledger\<close>: \<open>core/ids.py\<close> and \<open>core/deal_store.py\<close>; tenant isolation, integrity, replay.
    \<open>State_IO\<close>: \<open>paper/state_io.py\<close>; a write is its list of system calls. \<open>Tick_Errors\<close>: \<open>paper/errors.py\<close>.
  \<^item> \<open>Indicators_Trend\<close>, \<open>Indicators_Levels\<close>, \<open>Indicators_Osc\<close>, \<open>Indicator_Engine\<close>: \<open>strategies/\<close>.
  \<^item> \<open>Bot_World\<close> and \<open>Close_Handler\<close>: what a bot and a handler share (book, ledger, directory, outbox), and
    \<open>paper/close_handler.py\<close>. \<open>Engine_State\<close>, \<open>Engine_Upkeep\<close>, \<open>Deal_Entry\<close>, \<open>Deal_Monitor\<close>, \<open>Engine_Tick\<close>: the parts of
    \<open>core/trading_engine.py\<close> in the order the tick calls them, up to \<open>tick\<close>, \<open>boot\<close>, \<open>engine_start\<close> and \<open>engine_stop\<close>.
  \<^item> \<open>Trade_Steps\<close> abstracts a tick to the trades it makes, an inductive relation on book, ledger keys and fees;
    \<open>Monitor_Safety\<close> and \<open>Engine_Safety\<close> show that every part of a tick is a run of such trades. \<open>Engine_Properties\<close>,
    \<open>Exit_Rules\<close>, \<open>Engine_Limits\<close> and \<open>Engine_Restart\<close> draw the consequences; \<open>Engine_Witnesses\<close> applies them.
  \<^item> \<open>Notify_Queue\<close>: the bounded queue between tick and notifier. \<open>Order_Reconciler\<close>, \<open>Live_Engine\<close>,
    \<open>Pause_Persistence\<close>, \<open>Live_Witnesses\<close>: \<open>live/\<close> and the drawdown reset of the portal. \<open>Backtest_Engine\<close>,
    \<open>Backtest_Properties\<close>, \<open>Backtest_Report\<close>: \<open>backtest/\<close>.

  \<^bold>\<open>Portal.\<close>
  \<^item> \<open>User_Store\<close>: \<open>core/user.py\<close>, \<open>core/user_store.py\<close>, \<open>core/totp.py\<close>. \<open>Sessions\<close>: the signed cookies and the
    resolution of a caller in \<open>web/app.py\<close>. \<open>Auth_Routes\<close>: every handler of \<open>web/routes/auth.py\<close>. \<open>Auth_Steps\<close> says what
    one request changes and signs, \<open>Auth_Properties\<close>, \<open>Auth_Throttle\<close>, \<open>Auth_Refusals\<close> what that means over whole runs;
    \<open>Portal_Gate\<close>: the middleware stack; \<open>Auth_Witnesses\<close>: a run with login, enrolment and logout.
  \<^item> \<open>Bot_Lifecycle\<close>: reading and repairing a state file, the restart budget, the startup walk. \<open>Bot_Registry\<close>: the index of
    bots and its tenants, slugs, the environment of a bot. \<open>Bot_Process\<close>: start, stop and restart.
  \<^item> \<open>Deal_Routes\<close>: every handler of \<open>web/routes/deals.py\<close>; a deal of a stopped bot is closed in its file, that of a running bot
    by a sentinel. \<open>Deal_Route_Properties\<close> carries both through to the engine that boots or ticks; \<open>State_Lock\<close>: the lock of
    \<open>core/file_lock.py\<close> between a starting bot, closing requests and the drawdown reset. \<open>Deal_Route_Witnesses\<close> applies them.
  \<^item> \<open>Bot_Routes\<close>: \<open>web/routes/bots.py\<close>, the configuration files of every tenant, the quota, the caps on a body, copies,
    imports, removal, and the requests that drive a process, each handler as its steps between waits. \<open>Bot_Route_Properties\<close>: every
    step refines a map from tenant and slug to a document; what requests that wait together do to each other; which bots look at
    the deal requests filed under their slug.
  \<^item> \<open>Secret_Paths\<close>: \<open>core/paths.py\<close>; \<open>Bot_Purge\<close>: what the removal of a bot takes. \<open>Credential_Store\<close>: \<open>core/credentials.py\<close> as
    calls on the key and blob directories. \<open>Credential_Rotation\<close>, \<open>Rotation_Lock\<close>, \<open>Vault_Login\<close>: what a rotation keeps, the lock
    around it, and what it does to the second factor. \<open>Exchange_Accounts\<close>, \<open>Exchange_Routes\<close>: \<open>core/markets.py\<close>,
    \<open>core/exchange_account_store.py\<close>, \<open>core/exchange_clients.py\<close>, \<open>web/routes/exchanges.py\<close>, with \<open>Account_Properties\<close> and
    \<open>Account_Witnesses\<close>.

  \<^bold>\<open>Interfaces.\<close> \<open>latch\<close> (a state no step clears: drawdown guard, permanent breaker, drawdown pause),
  \<open>tenant_store\<close> (operations of one user leave the rows of another: ledger, vault, deal requests), \<open>step_invariant\<close> (queue,
  starts, rotation lock, state-file lock, account requests), \<open>fee_sink\<close> (the two balance debits),
  \<open>throttle\<close> (a failure counter that bounds guessing: the rows of the users table, the dictionary of addresses),
  \<open>layer\<close> and \<open>two_layers\<close> (a middleware that stops a request or passes it on, and their composition: the whole stack).

  \<^bold>\<open>What the lemmas show.\<close> That every run of the engine keeps book, ledger and balance in step; that exits
  realise what is configured; that a restart restores what was written; that one tenant never touches another; that
  a login needs its credentials, a revocation is final and guessing is bounded; that a key rotation survives a crash at
  any of its calls and the keys of an account outlive it; that a deal closed by hand stays closed; and where the code does not do
  what it says, a theorem that exhibits it (a full target that stops every tick, a stale wick, a pause or a reset that is lost, a
  backtest that looks ahead, a hung bot that reads as running, a stale pid file that voids the start slot, a rotation that loses
  the second factor, a lock that a refused caller breaks, a reset that reopens a closed deal, two imports that overwrite each other).

  \<^bold>\<open>Bounds.\<close> No fuel is used: recursion follows the structure of its data, or (\<open>advance_pointer\<close>, the search for
  the next opening) a measure. The windows and caps are those of the code: 10 failures in 900 seconds, 10000 addresses, 3
  restarts in 300 seconds, the default queue of 1000 messages, one averaging order per tick, backups kept 7 days by default, 3
  seconds of waiting for the state-file lock.

  \<^bold>\<open>Not modelled.\<close> Log lines and metrics; the text of notifications and the HTTP calls behind them; the other
  routes of the portal (the listing of bots, charts, portfolio, roadmap, admin pages) and their stores; the exchange clients and the websocket price feed beyond the guarded calls; the machine-learning pipeline;
  migrations of the database; command-line entry points. They are input and output around the modelled core, SQL
  statements without logic of their own, or libraries.
\<close>

end
